(* ===== verification/Prelude.thy ===== *)
theory Prelude
  imports Main "HOL-Library.Word"
begin

text \<open>
  Shared vocabulary of the development: the machine integer types of the C code, byte
  strings, the result type of functions that may not return, buffer updates (memcpy into
  a larger array), little-endian encodings, and the generic lemmas on them that the
  component theories use. The target is 32 bits wide on both sides (the GDB server is an
  i386 executable, the bootloader runs on a Cortex-M3), so \<open>size_t\<close> and \<open>int\<close> are 32 bits.
\<close>

unbundle bit_operations_syntax

section \<open>Machine integers and byte strings\<close>

type_synonym u8 = "8 word"
type_synonym u16 = "16 word"
type_synonym u32 = "32 word"
type_synonym u64 = "64 word"

named_theorems blit_simps \<open>reading and measuring a buffer after a block copy\<close>
named_theorems le_simps \<open>little-endian encodings\<close>
named_theorems result_simps \<open>the result monad\<close>

text \<open>The bytes of a C string literal, without its terminating zero.\<close>

definition str :: "string \<Rightarrow> u8 list" where
  "str s = map of_char s"

lemma str_Nil [simp]: "str [] = []"
  by (simp add: str_def)

lemma str_Cons [simp]: "str (c # s) = of_char c # str s"
  by (simp add: str_def)

lemma length_str [simp]: "length (str s) = length s"
  by (simp add: str_def)

text \<open>The two nibbles of a byte.\<close>

lemma nibble_mask: "(0xF :: u8) = mask 4"
  by (simp add: mask_eq_exp_minus_1)

lemma nibbles: "push_bit 4 (drop_bit 4 b) OR (b AND 0xF) = (b :: u8)"
  unfolding nibble_mask by (rule bit_word_eqI) (auto simp: bit_simps)

lemma unat_byte_less: "unat (b :: u8) < 256"
  using unsigned_less [of b] by simp

lemma unat_high_nibble: "unat (drop_bit 4 (b :: u8)) < 16"
  using unat_byte_less [of b] by (simp only: unat_drop_bit_eq) (simp add: drop_bit_eq_div)

lemma unat_low_nibble: "unat ((b :: u8) AND 0xF) < 16"
proof -
  have "unat (b AND 0xF) \<le> unat (0xF :: u8)"
    by (rule word_and_le1 [THEN word_le_nat_alt [THEN iffD1]])
  then show ?thesis by simp
qed

lemma unat_u32_less: "unat (w :: u32) < 2 ^ 32"
  using unsigned_less [of w, where ?'a = nat] by simp

lemma unat_ucast_u16 [simp]: "unat (ucast (w :: u16) :: u32) = unat w"
proof -
  have "unat w < 2 ^ LENGTH(16)" by (rule unsigned_less)
  then show ?thesis by (simp add: unsigned_ucast_eq take_bit_nat_eq_self)
qed

lemma unat_ucast_u8 [simp]: "unat (ucast (w :: u8) :: u32) = unat w"
proof -
  have "unat w < 2 ^ LENGTH(8)" by (rule unsigned_less)
  then show ?thesis by (simp add: unsigned_ucast_eq take_bit_nat_eq_self)
qed

lemma unat_of_nat_u32: "n < 2 ^ 32 \<Longrightarrow> unat (of_nat n :: u32) = n"
  by (simp add: unat_of_nat)

lemma of_nat_u32_eq_0: "n < 2 ^ 32 \<Longrightarrow> (of_nat n :: u32) = 0 \<longleftrightarrow> n = 0"
  by (metis unat_of_nat_u32 unat_eq_0)

lemma ucast_of_nat_u8: "n < 2 ^ 8 \<Longrightarrow> ucast (of_nat n :: u8) = (of_nat n :: u32)"
  by (simp add: word_unat_eq_iff unat_of_nat)

lemma ucast_of_nat_u16: "n < 2 ^ 16 \<Longrightarrow> ucast (of_nat n :: u16) = (of_nat n :: u32)"
  by (simp add: word_unat_eq_iff unat_of_nat)

lemma ucast_of_nat_u32_u8: "ucast (of_nat n :: u32) = (of_nat n :: u8)"
  by (rule bit_word_eqI) (simp add: bit_simps bit_of_nat_iff_bit bit_of_nat_iff)

lemma ucast_of_nat_u32_u16: "ucast (of_nat n :: u32) = (of_nat n :: u16)"
  by (rule bit_word_eqI) (simp add: bit_simps bit_of_nat_iff_bit bit_of_nat_iff)

lemma and_eq_ones: "a AND b = (-1 :: u8) \<Longrightarrow> a = -1"
  by (metis and.right_neutral and.left_idem)

text \<open>Clearing the low bits of an address rounds it down.\<close>

lemma and_not_mask: "x AND NOT (mask n) = (push_bit n (drop_bit n x) :: u32)"
  by (rule bit_word_eqI) (auto simp: bit_simps)

lemma unat_and_not_mask: "unat (x AND NOT (mask n) :: u32) = unat x div 2 ^ n * 2 ^ n"
proof -
  have "unat x div 2 ^ n * 2 ^ n < 2 ^ 32"
    using unat_u32_less [of x] by (metis div_times_less_eq_dividend order_le_less_trans)
  then have "unat (push_bit n (drop_bit n x)) = unat x div 2 ^ n * 2 ^ n"
    unfolding unsigned_push_bit_eq unat_drop_bit_eq
    by (simp add: push_bit_eq_mult drop_bit_eq_div take_bit_nat_eq_self)
  then show ?thesis unfolding and_not_mask .
qed

section \<open>Functions that may not return\<close>

text \<open>
  What the code does besides returning: it blocks for ever on the network (\<open>Blocked\<close>),
  leaves the process (\<open>Exited\<close>, a call of \<open>exit\<close> or \<open>abort\<close>), or runs into undefined
  behaviour such as a null pointer (\<open>Crash\<close>). \<open>Spinning\<close> is a polling loop whose fuel
  ran out.
\<close>

datatype fault = Blocked | Exited | Crash | Spinning

type_synonym 'a result = "fault + 'a"

definition bindR :: "'a result \<Rightarrow> ('a \<Rightarrow> 'b result) \<Rightarrow> 'b result" where
  "bindR m f = (case m of Inl e \<Rightarrow> Inl e | Inr x \<Rightarrow> f x)"

lemma bindR_simps [simp, result_simps]:
  "bindR (Inl e) f = Inl e"
  "bindR (Inr x) f = f x"
  by (simp_all add: bindR_def)

lemma bindR_Inr_iff: "bindR m f = Inr y \<longleftrightarrow> (\<exists>x. m = Inr x \<and> f x = Inr y)"
  by (cases m) auto

lemma bindR_cong [fundef_cong]:
  "m = m' \<Longrightarrow> (\<And>x. m' = Inr x \<Longrightarrow> f x = f' x) \<Longrightarrow> bindR m f = bindR m' f'"
  by (cases m') auto

section \<open>Block copies into a buffer\<close>

text \<open>\<open>blit off src buf\<close> is the buffer after \<open>memcpy(buf + off, src, length src)\<close>.\<close>

definition blit :: "nat \<Rightarrow> 'a list \<Rightarrow> 'a list \<Rightarrow> 'a list" where
  "blit off src buf = take off buf @ src @ drop (off + length src) buf"

lemma length_blit [blit_simps]:
  "off + length src \<le> length buf \<Longrightarrow> length (blit off src buf) = length buf"
  by (simp add: blit_def)

lemma nth_blit [blit_simps]:
  "off + length src \<le> length buf \<Longrightarrow> i < length buf \<Longrightarrow>
   blit off src buf ! i =
     (if off \<le> i \<and> i < off + length src then src ! (i - off) else buf ! i)"
  by (auto simp: blit_def nth_append)

lemma blit_Nil [simp]: "blit off [] buf = buf"
  by (simp add: blit_def)

lemma blit_append:
  "off + length xs + length ys \<le> length buf \<Longrightarrow>
   blit (off + length xs) ys (blit off xs buf) = blit off (xs @ ys) buf"
  by (simp add: blit_def ac_simps)

lemma blit_front: "length bs \<le> length buf \<Longrightarrow> blit 0 bs buf = bs @ drop (length bs) buf"
  by (simp add: blit_def)

lemma take_list_update_Suc:
  "i < length xs \<Longrightarrow> take (Suc i) (xs[i := x]) = take i xs @ [x]"
  by (simp add: take_Suc_conv_app_nth)

lemma unat_add_u32: "unat (a :: u32) + n < 2 ^ 32 \<Longrightarrow> unat (a + of_nat n) = unat a + n"
  by (simp add: unat_word_ariths unat_of_nat)

text \<open>Rounding a size down to a multiple of the access size.\<close>

lemma and_not_align:
  assumes "w \<in> {1, 2, 4}" "w dvd unat x"
  shows "x AND NOT (of_nat w - 1) = (x :: u32)"
proof -
  have "\<exists>s. w = 2 ^ s \<and> (of_nat w - 1 :: u32) = mask s"
    using assms(1) by (auto simp: mask_eq_exp_minus_1 intro: exI [of _ 0] exI [of _ 1] exI [of _ 2])
  then obtain s where s: "w = 2 ^ s" "(of_nat w - 1 :: u32) = mask s" by blast
  have "unat (x AND NOT (mask s)) = unat x" using unat_and_not_mask [of x s] assms(2) s(1) by simp
  then show ?thesis by (simp add: s(2) word_unat_eq_iff)
qed

section \<open>Byte-addressed memory\<close>

type_synonym memory = "u32 \<Rightarrow> u8"

text \<open>\<open>overlay a bs m\<close> is memory \<open>m\<close> after storing the bytes \<open>bs\<close> at \<open>a\<close>; addresses wrap around.\<close>

definition overlay :: "u32 \<Rightarrow> u8 list \<Rightarrow> memory \<Rightarrow> memory" where
  "overlay a bs m = (\<lambda>x. if unat (x - a) < length bs then bs ! unat (x - a) else m x)"

lemma overlay_Nil [simp]: "overlay a [] m = m"
  by (simp add: overlay_def)

lemma unat_minus_nat:
  fixes u :: u32
  assumes "k \<le> unat u"
  shows "unat (u - of_nat k) = unat u - k"
proof -
  have "k < 2 ^ LENGTH(32)"
    using assms by (rule le_less_trans) (rule unsigned_less)
  then have k: "unat (of_nat k :: u32) = k" by (simp add: unat_of_nat)
  then show ?thesis using assms by (simp add: unat_sub word_le_nat_alt)
qed

lemma unat_minus_nat_wrap:
  fixes u :: u32
  assumes "unat u < k" "k < 2 ^ 32"
  shows "unat (u - of_nat k) = 2 ^ 32 + unat u - k"
proof -
  have k: "unat (of_nat k :: u32) = k" using assms(2) by (simp add: unat_of_nat)
  have "\<not> of_nat k \<le> u" using assms(1) k by (simp add: word_le_nat_alt)
  then have "unat (u - of_nat k) = unat u + 2 ^ LENGTH(32) - unat (of_nat k :: u32)"
    by (subst unat_sub_if') (simp add: word_le_nat_alt)
  with k show ?thesis by simp
qed

lemma unat_sub_offset:
  fixes x a :: u32
  assumes "k \<le> unat (x - a)"
  shows "unat (x - (a + of_nat k)) = unat (x - a) - k"
  using unat_minus_nat [OF assms] by (simp add: algebra_simps)

lemma unat_sub_before:
  fixes x a :: u32
  assumes "unat (x - a) < k" "k + n \<le> 2 ^ 32"
  shows "\<not> unat (x - (a + of_nat k)) < n"
proof (cases "n = 0")
  case False
  then have "unat ((x - a) - of_nat k) = 2 ^ 32 + unat (x - a) - k"
    using assms by (intro unat_minus_nat_wrap) auto
  moreover have "x - (a + of_nat k) = (x - a) - of_nat k" by simp
  ultimately have "unat (x - (a + of_nat k)) = 2 ^ 32 + unat (x - a) - k" by (simp only:)
  with assms(2) show ?thesis by linarith
qed simp

lemma overlay_append:
  assumes "length xs + length ys \<le> 2 ^ 32"
  shows "overlay (a + of_nat (length xs)) ys (overlay a xs m) = overlay a (xs @ ys) m"
proof
  fix x :: u32
  consider (first) "unat (x - a) < length xs"
    | (second) "length xs \<le> unat (x - a)" "unat (x - a) < length xs + length ys"
    | (out) "length xs + length ys \<le> unat (x - a)"
    by linarith
  then show "overlay (a + of_nat (length xs)) ys (overlay a xs m) x = overlay a (xs @ ys) m x"
  proof cases
    case first
    then show ?thesis
      using unat_sub_before [OF first assms] by (simp add: overlay_def nth_append)
  next
    case second
    then show ?thesis
      using unat_sub_offset [OF second(1)] by (auto simp: overlay_def nth_append)
  next
    case out
    then have "unat (x - (a + of_nat (length xs))) = unat (x - a) - length xs"
      using unat_sub_offset [of "length xs" x a] by simp
    then have "\<not> unat (x - (a + of_nat (length xs))) < length ys" using out by linarith
    with out show ?thesis by (auto simp: overlay_def)
  qed
qed

definition mem_load :: "memory \<Rightarrow> u32 \<Rightarrow> nat \<Rightarrow> u8 list" where
  "mem_load m a n = map (\<lambda>i. m (a + of_nat i)) [0..<n]"

lemma length_mem_load [simp]: "length (mem_load m a n) = n"
  by (simp add: mem_load_def)

lemma nth_mem_load [simp]: "i < n \<Longrightarrow> mem_load m a n ! i = m (a + of_nat i)"
  by (simp add: mem_load_def)

lemma mem_load_add: "mem_load m a (j + k) = mem_load m a j @ mem_load m (a + of_nat j) k"
  by (rule nth_equalityI) (auto simp: nth_append algebra_simps)

lemma mem_load_0 [simp]: "mem_load m a 0 = []"
  by (simp add: mem_load_def)

lemma mem_load_overlay: "length bs \<le> 2 ^ 32 \<Longrightarrow> mem_load (overlay a bs m) a (length bs) = bs"
  by (rule nth_equalityI) (simp_all add: overlay_def unat_of_nat)

lemma mem_load_overlay_other:
  "(\<And>i. i < n \<Longrightarrow> length bs \<le> unat (a + of_nat i - c)) \<Longrightarrow>
   mem_load (overlay c bs m) a n = mem_load m a n"
  by (rule nth_equalityI) (auto simp: overlay_def leD)

section \<open>Little-endian encodings\<close>

definition le16 :: "u16 \<Rightarrow> u8 list" where
  "le16 w = [ucast w, ucast (drop_bit 8 w)]"

definition le32 :: "u32 \<Rightarrow> u8 list" where
  "le32 w = [ucast w, ucast (drop_bit 8 w), ucast (drop_bit 16 w), ucast (drop_bit 24 w)]"

definition rd16 :: "u8 list \<Rightarrow> u16" where
  "rd16 bs = ucast (bs ! 0) OR push_bit 8 (ucast (bs ! 1))"

definition rd32 :: "u8 list \<Rightarrow> u32" where
  "rd32 bs = ucast (bs ! 0) OR push_bit 8 (ucast (bs ! 1)) OR
     push_bit 16 (ucast (bs ! 2)) OR push_bit 24 (ucast (bs ! 3))"

lemma length_le16 [simp]: "length (le16 w) = 2"
  by (simp add: le16_def)

lemma length_le32 [simp]: "length (le32 w) = 4"
  by (simp add: le32_def)

lemma length_concat_le32: "length (concat (map le32 ws)) = 4 * length ws"
  by (induction ws) simp_all

lemma rd16_le16 [le_simps]: "rd16 (le16 w @ bs) = w"
  by (rule bit_word_eqI)
    (auto simp: rd16_def le16_def bit_simps)

lemma rd32_le32 [le_simps]: "rd32 (le32 w @ bs) = w"
proof (rule bit_word_eqI)
  fix n assume "n < LENGTH(32)"
  then have "n < 8 \<or> (8 \<le> n \<and> n < 16) \<or> (16 \<le> n \<and> n < 24) \<or> (24 \<le> n \<and> n < 32)"
    by auto
  then show "bit (rd32 (le32 w @ bs)) n = bit w n"
    by (elim disjE) (auto simp: rd32_def le32_def bit_simps)
qed

end
