(* ===== verification/Hex_Utils.thy ===== *)
theory Hex_Utils
  imports Prelude
begin

text \<open>
  \<^verbatim>\<open>GdbServer/Gdb/hex_utils.c\<close>: conversion between bytes and ASCII hex digits. The C
  functions write through a pointer and return it; the models return the bytes written.
  A \<open>char\<close> is a byte here, and \<open>unhex_digit\<close> computes in \<open>uint8_t\<close>, so its subtractions
  wrap around as in the source.
\<close>

named_theorems hex_simps \<open>hex digits and their decoding\<close>

definition hexdigits :: "u8 list" where
  "hexdigits = str ''0123456789abcdef''"

fun hexify :: "u8 list \<Rightarrow> u8 list" where
  "hexify [] = []"
| "hexify (b # bs) =
     hexdigits ! unat (drop_bit 4 b) # hexdigits ! unat (b AND 0xF) # hexify bs"

definition unhex_digit :: "u8 \<Rightarrow> u8" where
  "unhex_digit hex =
     (let tmp = hex - 0x30;
          tmp = (if tmp > 9 then tmp - (0x41 - 0x30 - 10) else tmp);
          tmp = (if tmp > 16 then tmp - (0x61 - 0x41) else tmp)
      in tmp)"

text \<open>
  \<open>unhexify\<close> reads \<open>2 * size\<close> characters; the model is given the characters that follow the
  pointer and the size. Reading past the end of the given characters (past the C string)
  is not defined by the code, and the model's \<open>hd []\<close> says nothing about it.
\<close>

fun unhexify :: "u8 list \<Rightarrow> nat \<Rightarrow> u8 list" where
  "unhexify hex 0 = []"
| "unhexify hex (Suc n) =
     (push_bit 4 (unhex_digit (hd hex)) OR unhex_digit (hd (tl hex)))
       # unhexify (tl (tl hex)) n"

section \<open>Digits\<close>

lemma length_hexify [simp, hex_simps]: "length (hexify bs) = 2 * length bs"
  by (induction bs) auto

lemma length_unhexify [simp, hex_simps]: "length (unhexify hex n) = n"
  by (induction n arbitrary: hex) auto

lemma hexify_append [hex_simps]: "hexify (xs @ ys) = hexify xs @ hexify ys"
  by (induction xs) auto

lemma unhex_hexdigits: "n < 16 \<Longrightarrow> unhex_digit (hexdigits ! n) = of_nat n"
proof -
  have "\<forall>n \<in> {0..<16}. unhex_digit (hexdigits ! n) = of_nat n"
    by code_simp
  then show "n < 16 \<Longrightarrow> ?thesis" by simp
qed

lemma unhexify_hexify_append: "unhexify (hexify bs @ rest) (length bs) = bs"
proof (induction bs)
  case Nil
  then show ?case by simp
next
  case (Cons b bs)
  have "unhex_digit (hexdigits ! unat (drop_bit 4 b)) = drop_bit 4 b"
    using unhex_hexdigits [OF unat_high_nibble] by simp
  moreover have "unhex_digit (hexdigits ! unat (b AND 0xF)) = b AND 0xF"
    using unhex_hexdigits [OF unat_low_nibble] by simp
  ultimately show ?case using Cons.IH by (simp add: nibbles)
qed

text \<open>No hex digit is one of the characters the packet layer treats specially.\<close>

lemma hexdigits_plain:
  "n < 16 \<Longrightarrow> hexdigits ! n \<noteq> 0x23 \<and> hexdigits ! n \<noteq> 0x24 \<and> hexdigits ! n \<noteq> 0x7D"
proof -
  have "\<forall>n \<in> {0..<16}. hexdigits ! n \<noteq> 0x23 \<and> hexdigits ! n \<noteq> 0x24 \<and> hexdigits ! n \<noteq> 0x7D"
    by code_simp
  then show "n < 16 \<Longrightarrow> ?thesis" by simp
qed

lemma hexify_plain:
  "c \<in> set (hexify bs) \<Longrightarrow> c \<noteq> 0x23 \<and> c \<noteq> 0x24 \<and> c \<noteq> 0x7D"
  by (induction bs) (use hexdigits_plain unat_high_nibble unat_low_nibble in auto)

section \<open>Decoding digits of either case\<close>

text \<open>\<open>isxdigit\<close> of the C library (in the C locale) and the value of such a digit.\<close>

definition xdigits :: "u8 list" where
  "xdigits = str ''0123456789abcdefABCDEF''"

definition isxdigit :: "u8 \<Rightarrow> bool" where
  "isxdigit c = (c \<in> set xdigits)"

definition hex_value :: "u8 \<Rightarrow> nat" where
  "hex_value c = (if c \<le> 0x39 then unat c - 0x30 else if c \<le> 0x46 then unat c - 0x37 else unat c - 0x57)"

definition lower_digit :: "u8 \<Rightarrow> u8" where
  "lower_digit c = (if 0x41 \<le> c \<and> c \<le> 0x46 then c + 0x20 else c)"

lemma xdigit_facts:
  assumes "isxdigit c"
  shows "unhex_digit c = of_nat (hex_value c) \<and> hex_value c < 16 \<and>
    hexdigits ! hex_value c = lower_digit c"
proof -
  have "\<forall>c \<in> set xdigits. unhex_digit c = of_nat (hex_value c) \<and> hex_value c < 16 \<and>
      hexdigits ! hex_value c = lower_digit c"
    by (simp add: xdigits_def unhex_digit_def hex_value_def lower_digit_def hexdigits_def Let_def)
  with assms show ?thesis by (simp add: isxdigit_def)
qed

lemma join_nibbles:
  fixes h l :: u8
  assumes "unat h < 16" "unat l < 16"
  shows "drop_bit 4 (push_bit 4 h OR l) = h" and "(push_bit 4 h OR l) AND 0xF = l"
proof -
  have *: "take_bit 4 h = h" "take_bit 4 l = l"
    using assms by (simp_all add: word_unat_eq_iff unsigned_take_bit_eq take_bit_nat_eq_self)
  have "\<not> bit x n" if "take_bit 4 x = x" "4 \<le> n" for x :: u8 and n
    using that by (metis bit_take_bit_iff leD)
  with * have b: "bit h n \<Longrightarrow> n < 4" "bit l n \<Longrightarrow> n < 4" for n
    by (meson not_le)+
  show "drop_bit 4 (push_bit 4 h OR l) = h"
    by (rule bit_word_eqI) (auto simp: bit_simps dest: b)
  show "(push_bit 4 h OR l) AND 0xF = l"
    unfolding nibble_mask by (rule bit_word_eqI) (auto simp: bit_simps dest: b)
qed

lemma hexify_unhexify_pair:
  assumes "isxdigit h" "isxdigit l"
  shows "hexify [push_bit 4 (unhex_digit h) OR unhex_digit l] = [lower_digit h, lower_digit l]"
proof -
  have less: "unat (unhex_digit h) < 16" "unat (unhex_digit l) < 16"
    using xdigit_facts [OF assms(1)] xdigit_facts [OF assms(2)]
    by (auto simp: unat_of_nat)
  have val: "unat (unhex_digit h) = hex_value h" "unat (unhex_digit l) = hex_value l"
    using xdigit_facts [OF assms(1)] xdigit_facts [OF assms(2)]
    by (auto simp: unat_of_nat)
  then have "hexify [push_bit 4 (unhex_digit h) OR unhex_digit l] =
      [hexdigits ! hex_value h, hexdigits ! hex_value l]"
    by (simp only: hexify.simps join_nibbles [OF less])
  then show ?thesis
    using xdigit_facts [OF assms(1)] xdigit_facts [OF assms(2)] by simp
qed

lemma hexify_unhexify:
  "2 * n \<le> length hex \<Longrightarrow> \<forall>c \<in> set (take (2 * n) hex). isxdigit c \<Longrightarrow>
   hexify (unhexify hex n) = map lower_digit (take (2 * n) hex)"
proof (induction n arbitrary: hex)
  case 0
  then show ?case by simp
next
  case (Suc n)
  then obtain h l rest where hex: "hex = h # l # rest"
    by (cases hex; cases "tl hex") auto
  with Suc.prems have "isxdigit h" "isxdigit l" "2 * n \<le> length rest"
    "\<forall>c \<in> set (take (2 * n) rest). isxdigit c"
    by auto
  then show ?case
    using Suc.IH hexify_unhexify_pair [of h l] hex by simp
qed

end
