(* ===== verification/Stdio.thy ===== *)
theory Stdio
  imports Hex_Utils
begin

text \<open>
  The parts of the C library that the packet code uses to read and write numbers:
  \<open>strtol\<close> in base 16, \<open>sscanf\<close> with the conversions \<open>%x\<close> (with or without a width), \<open>%d\<close>, \<open>%c\<close>
  and \<open>%n\<close>, and \<open>snprintf\<close> with \<open>%x\<close>, \<open>%X\<close> and zero padding. Numbers out of range of a 32-bit
  object are undefined in C; the model keeps their low 32 bits.
\<close>

section \<open>Numbers of the C library\<close>

definition isspace :: "u8 \<Rightarrow> bool" where
  "isspace c \<longleftrightarrow> c = 0x20 \<or> (9 \<le> c \<and> c \<le> 13)"

definition digits_value :: "u8 list \<Rightarrow> nat" where
  "digits_value ds = foldl (\<lambda>v d. 16 * v + hex_value d) 0 ds"

text \<open>\<open>strtol(s, NULL, 16)\<close> on a string short enough not to overflow a \<open>long\<close>.\<close>

definition strip_sign :: "u8 list \<Rightarrow> bool \<times> u8 list" where
  "strip_sign s = (case s of
     [] \<Rightarrow> (False, [])
   | c # cs \<Rightarrow> if c = 0x2D then (True, cs) else if c = 0x2B then (False, cs) else (False, c # cs))"

definition strip_0x :: "u8 list \<Rightarrow> u8 list" where
  "strip_0x s = (case s of
     a # b # c # cs \<Rightarrow>
       if a = 0x30 \<and> (b = 0x78 \<or> b = 0x58) \<and> isxdigit c then c # cs else s
   | _ \<Rightarrow> s)"

definition strtol16 :: "u8 list \<Rightarrow> int" where
  "strtol16 s =
     (let s = dropWhile isspace (takeWhile (\<lambda>c. c \<noteq> 0) s);
          (neg, s) = strip_sign s;
          v = int (digits_value (takeWhile isxdigit (strip_0x s)))
      in if neg then - v else v)"

definition hexdigits_upper :: "u8 list" where
  "hexdigits_upper = str ''0123456789ABCDEF''"

text \<open>\<open>snprintf(s, 3, "%02X", csum)\<close> for an \<open>unsigned char\<close>.\<close>

definition fmt_02X :: "u8 \<Rightarrow> u8 list" where
  "fmt_02X b = [hexdigits_upper ! unat (drop_bit 4 b), hexdigits_upper ! unat (b AND 0xF)]"

section \<open>Scanning\<close>

datatype conv = Lit u8 | Hex "nat option" | Dec | Chr | Pos

datatype scanned = Num u32 | Char u8 | At nat

definition isdigit :: "u8 \<Rightarrow> bool" where
  "isdigit c \<longleftrightarrow> 0x30 \<le> c \<and> c \<le> 0x39"

definition decimal_value :: "u8 list \<Rightarrow> nat" where
  "decimal_value ds = foldl (\<lambda>v d. 10 * v + unat (d - 0x30)) 0 ds"

text \<open>The value of a number at the head of a string and the number of characters it takes.\<close>

definition scan_hex :: "nat option \<Rightarrow> u8 list \<Rightarrow> (u32 \<times> nat) option" where
  "scan_hex w s =
     (let t = dropWhile isspace s;
          t = (case w of None \<Rightarrow> t | Some k \<Rightarrow> take k t);
          (neg, u) = strip_sign t;
          v = strip_0x u;
          ds = takeWhile isxdigit v;
          n = int (digits_value ds)
      in if ds = [] then None
         else Some (word_of_int (if neg then - n else n),
                    length (takeWhile isspace s) + (length t - length v) + length ds))"

definition scan_dec :: "u8 list \<Rightarrow> (u32 \<times> nat) option" where
  "scan_dec s =
     (let t = dropWhile isspace s;
          (neg, u) = strip_sign t;
          ds = takeWhile isdigit u;
          n = int (decimal_value ds)
      in if ds = [] then None
         else Some (word_of_int (if neg then - n else n),
                    length (takeWhile isspace s) + (length t - length u) + length ds))"

text \<open>
  \<open>sscanf\<close>: the values assigned, in order, up to the first conversion or literal that does
  not match; \<open>pos\<close> is the number of characters read so far.
\<close>

fun scan :: "conv list \<Rightarrow> nat \<Rightarrow> u8 list \<Rightarrow> scanned list" where
  "scan [] pos s = []"
| "scan (Lit c # cs) pos s =
     (case s of d # t \<Rightarrow> if c = d then scan cs (Suc pos) t else [] | [] \<Rightarrow> [])"
| "scan (Hex w # cs) pos s =
     (case scan_hex w s of
        None \<Rightarrow> []
      | Some (v, k) \<Rightarrow> Num v # scan cs (pos + k) (drop k s))"
| "scan (Dec # cs) pos s =
     (case scan_dec s of
        None \<Rightarrow> []
      | Some (v, k) \<Rightarrow> Num v # scan cs (pos + k) (drop k s))"
| "scan (Chr # cs) pos s =
     (case s of d # t \<Rightarrow> Char d # scan cs (Suc pos) t | [] \<Rightarrow> [])"
| "scan (Pos # cs) pos s = At pos # scan cs pos s"

definition c_string :: "u8 list \<Rightarrow> u8 list" where
  "c_string buf = takeWhile (\<lambda>c. c \<noteq> 0) buf"

definition lits :: "string \<Rightarrow> conv list" where
  "lits s = map Lit (str s)"

definition sscanf :: "u8 list \<Rightarrow> conv list \<Rightarrow> scanned list" where
  "sscanf buf fmt = scan fmt 0 (c_string buf)"

text \<open>\<open>strncmp(buf, s, strlen(s)) == 0\<close> for a literal \<open>s\<close>, and \<open>strcmp(buf, s) == 0\<close>.\<close>

definition starts_with :: "u8 list \<Rightarrow> string \<Rightarrow> bool" where
  "starts_with buf s \<longleftrightarrow> take (length s) (c_string buf) = str s"

definition equals :: "u8 list \<Rightarrow> string \<Rightarrow> bool" where
  "equals buf s \<longleftrightarrow> c_string buf = str s"

section \<open>Printing\<close>

fun hex_digits :: "u8 list \<Rightarrow> nat \<Rightarrow> u8 list" where
  "hex_digits alphabet n =
     (if n < 16 then [alphabet ! n]
      else hex_digits alphabet (n div 16) @ [alphabet ! (n mod 16)])"

declare hex_digits.simps [simp del]

definition pad0 :: "nat \<Rightarrow> u8 list \<Rightarrow> u8 list" where
  "pad0 w s = replicate (w - length s) 0x30 @ s"

definition fmt_x :: "u32 \<Rightarrow> u8 list" where
  "fmt_x n = hex_digits hexdigits (unat n)"

definition fmt_X :: "u32 \<Rightarrow> u8 list" where
  "fmt_X n = hex_digits hexdigits_upper (unat n)"

definition fmt_08x :: "u32 \<Rightarrow> u8 list" where
  "fmt_08x n = pad0 8 (fmt_x n)"

definition fmt_08X :: "u32 \<Rightarrow> u8 list" where
  "fmt_08X n = pad0 8 (fmt_X n)"

section \<open>Digits\<close>

lemma xdigit_plain:
  assumes "isxdigit c"
  shows "c \<noteq> 0 \<and> \<not> isspace c \<and> c \<noteq> 0x2D \<and> c \<noteq> 0x2B"
proof -
  have "\<forall>c \<in> set xdigits. c \<noteq> 0 \<and> \<not> isspace c \<and> c \<noteq> 0x2D \<and> c \<noteq> 0x2B"
    by (simp add: xdigits_def isspace_def)
  with assms show ?thesis by (simp add: isxdigit_def)
qed

lemma strtol16_xdigits:
  assumes "isxdigit c0" "isxdigit c1"
  shows "strtol16 [c0, c1] = int (16 * hex_value c0 + hex_value c1)"
  using assms xdigit_plain [OF assms(1)] xdigit_plain [OF assms(2)]
  by (simp add: strtol16_def strip_sign_def strip_0x_def digits_value_def)

lemma hexdigits_upper_value:
  "n < 16 \<Longrightarrow> isxdigit (hexdigits_upper ! n) \<and> hex_value (hexdigits_upper ! n) = n"
proof -
  have "\<forall>n \<in> {0..<16}. isxdigit (hexdigits_upper ! n) \<and> hex_value (hexdigits_upper ! n) = n"
    by code_simp
  then show "n < 16 \<Longrightarrow> ?thesis" by simp
qed

lemma unat_nibbles: "16 * unat (drop_bit 4 b) + unat (b AND 0xF) = unat (b :: u8)"
proof -
  have "unat (drop_bit 4 b) = unat b div 16"
    by (simp only: unat_drop_bit_eq) (simp add: drop_bit_eq_div)
  moreover have "unat (b AND 0xF) = unat b mod 16"
    unfolding nibble_mask
    by (simp only: take_bit_eq_mask [symmetric] unsigned_take_bit_eq) (simp add: take_bit_eq_mod)
  ultimately show ?thesis by simp
qed

lemma strtol16_fmt_02X: "strtol16 (fmt_02X b) = int (unat b)"
  unfolding fmt_02X_def
  using hexdigits_upper_value [OF unat_high_nibble] hexdigits_upper_value [OF unat_low_nibble]
  by (simp add: strtol16_xdigits unat_nibbles)

section \<open>What is printed is scanned back\<close>

definition hex_alphabet :: "u8 list \<Rightarrow> bool" where
  "hex_alphabet a \<longleftrightarrow> (\<forall>n < 16. isxdigit (a ! n) \<and> hex_value (a ! n) = n)"

lemma hex_alphabets: "hex_alphabet hexdigits" "hex_alphabet hexdigits_upper"
proof -
  have "\<forall>n \<in> {0..<16}. isxdigit (hexdigits ! n) \<and> hex_value (hexdigits ! n) = n"
    by code_simp
  then show "hex_alphabet hexdigits" by (simp add: hex_alphabet_def)
  show "hex_alphabet hexdigits_upper"
    using hexdigits_upper_value by (simp add: hex_alphabet_def)
qed

lemma digits_value_append:
  "digits_value (xs @ [d]) = 16 * digits_value xs + hex_value d"
  by (simp add: digits_value_def)

lemma hex_digits_value:
  "hex_alphabet a \<Longrightarrow>
   (\<forall>c \<in> set (hex_digits a n). isxdigit c) \<and> digits_value (hex_digits a n) = n \<and> hex_digits a n \<noteq> []"
proof (induction a n rule: hex_digits.induct)
  case (1 a n)
  show ?case
  proof (cases "n < 16")
    case True
    with "1.prems" show ?thesis
      by (subst (1 2 3) hex_digits.simps) (simp add: hex_alphabet_def digits_value_def)
  next
    case False
    have "n mod 16 < 16" by simp
    with "1.prems" have "isxdigit (a ! (n mod 16))" "hex_value (a ! (n mod 16)) = n mod 16"
      unfolding hex_alphabet_def by blast+
    with "1.IH" [OF False "1.prems"] False show ?thesis
      by (subst (1 2 3) hex_digits.simps) (simp add: digits_value_append)
  qed
qed

lemma digits_value_zeros: "digits_value (replicate k 0x30 @ s) = digits_value s"
  by (induction k) (simp_all add: digits_value_def hex_value_def)

lemma isxdigit_zero: "isxdigit 0x30"
  by (simp add: isxdigit_def xdigits_def)

lemma pad0_value:
  assumes "hex_alphabet a"
  shows "(\<forall>c \<in> set (pad0 w (hex_digits a n)). isxdigit c) \<and>
    digits_value (pad0 w (hex_digits a n)) = n \<and> pad0 w (hex_digits a n) \<noteq> []"
  using hex_digits_value [OF assms, of n] isxdigit_zero
  by (auto simp: pad0_def digits_value_zeros)

lemma length_hex_digits: "n < 16 ^ Suc k \<Longrightarrow> length (hex_digits a n) \<le> Suc k"
proof (induction k arbitrary: n)
  case 0
  then show ?case by (subst hex_digits.simps) simp
next
  case (Suc k)
  then have "n div 16 < 16 ^ Suc k" by (simp add: less_mult_imp_div_less mult.commute)
  from Suc.IH [OF this] show ?case by (subst hex_digits.simps) simp
qed

lemma length_fmt_08: "length (fmt_08x n) = 8" "length (fmt_08X n) = 8"
proof -
  have "unat n < 16 ^ Suc 7" using unat_u32_less [of n] by simp
  then show "length (fmt_08x n) = 8" "length (fmt_08X n) = 8"
    using length_hex_digits [of "unat n" 7]
    by (simp_all add: fmt_08x_def fmt_08X_def pad0_def fmt_x_def fmt_X_def)
qed

lemma length_fmt_x: "length (fmt_x n) \<le> 8" "length (fmt_X n) \<le> 8"
proof -
  have "unat n < 16 ^ Suc 7" using unat_u32_less [of n] by simp
  then show "length (fmt_x n) \<le> 8" "length (fmt_X n) \<le> 8"
    using length_hex_digits [of "unat n" 7] by (simp_all add: fmt_x_def fmt_X_def)
qed

lemma not_x_not_xdigit: "isxdigit c \<Longrightarrow> c \<noteq> 0x78 \<and> c \<noteq> 0x58"
  by (auto simp: isxdigit_def xdigits_def)

text \<open>A run of hex digits that ends before another digit or an \<open>x\<close> is read as its value.\<close>

lemma scan_hex_digits:
  assumes "\<forall>c \<in> set ds. isxdigit c" "ds \<noteq> []"
    and "rest = [] \<or> (\<not> isxdigit (hd rest) \<and> hd rest \<noteq> 0x78 \<and> hd rest \<noteq> 0x58)"
    and "w = None \<or> w = Some (length ds)"
  shows "scan_hex w (ds @ rest) = Some (of_nat (digits_value ds), length ds)"
proof -
  obtain d ds' where ds: "ds = d # ds'" using assms(2) by (cases ds) auto
  have d: "isxdigit d" using assms(1) ds by simp
  note plain = xdigit_plain [OF d]
  define t where "t = (case w of None \<Rightarrow> ds @ rest | Some k \<Rightarrow> take k (ds @ rest))"
  have t: "t = ds @ (if w = None then rest else [])"
    using assms(4) by (auto simp: t_def)
  have x: "strip_0x t = t"
  proof (cases ds')
    case Nil
    then show ?thesis using assms(3) t ds by (auto simp: strip_0x_def split: list.split)
  next
    case (Cons e es)
    then have "isxdigit e" using assms(1) ds by simp
    then show ?thesis using not_x_not_xdigit [of e] Cons t ds
      by (auto simp: strip_0x_def split: list.split)
  qed
  have take: "takeWhile isxdigit t = ds"
    using assms(1,3) t by (cases rest) (auto simp: takeWhile_tail)
  have "strip_sign t = (False, t)" using plain t ds by (simp add: strip_sign_def)
  moreover have "dropWhile isspace (ds @ rest) = ds @ rest" "takeWhile isspace (ds @ rest) = []"
    using plain ds by simp_all
  ultimately show ?thesis
    using x take assms(2) by (simp add: scan_hex_def Let_def t_def [symmetric])
qed

lemma scan_fmt:
  assumes "rest = [] \<or> (\<not> isxdigit (hd rest) \<and> hd rest \<noteq> 0x78 \<and> hd rest \<noteq> 0x58)"
  shows "scan_hex None (fmt_x n @ rest) = Some (n, length (fmt_x n))"
    "scan_hex None (fmt_X n @ rest) = Some (n, length (fmt_X n))"
    "scan_hex None (fmt_08x n @ rest) = Some (n, length (fmt_08x n))"
    "scan_hex None (fmt_08X n @ rest) = Some (n, length (fmt_08X n))"
    "scan_hex (Some 8) (fmt_08x n @ rest) = Some (n, length (fmt_08x n))"
    "scan_hex (Some 8) (fmt_08X n @ rest) = Some (n, length (fmt_08X n))"
proof -
  note v = hex_digits_value [OF hex_alphabets(1), of "unat n"]
    hex_digits_value [OF hex_alphabets(2), of "unat n"]
    pad0_value [OF hex_alphabets(1), of 8 "unat n"] pad0_value [OF hex_alphabets(2), of 8 "unat n"]
  show "scan_hex None (fmt_x n @ rest) = Some (n, length (fmt_x n))"
    "scan_hex None (fmt_X n @ rest) = Some (n, length (fmt_X n))"
    "scan_hex None (fmt_08x n @ rest) = Some (n, length (fmt_08x n))"
    "scan_hex None (fmt_08X n @ rest) = Some (n, length (fmt_08X n))"
    using v scan_hex_digits [OF _ _ assms, of _ None]
    by (simp_all add: fmt_x_def fmt_X_def fmt_08x_def fmt_08X_def)
  show "scan_hex (Some 8) (fmt_08x n @ rest) = Some (n, length (fmt_08x n))"
    "scan_hex (Some 8) (fmt_08X n @ rest) = Some (n, length (fmt_08X n))"
    using v scan_hex_digits [OF _ _ assms, of _ "Some 8"] length_fmt_08 [of n]
    by (simp_all add: fmt_x_def fmt_X_def fmt_08x_def fmt_08X_def)
qed

end
