(* ===== verification/Utils.thy ===== *)
theory Utils
  imports Stdio
begin

text \<open>
  Small parts of the GDB server: \<^verbatim>\<open>GdbServer/Gdb/utils.c\<close> (\<open>vasprintf\<close>, the millisecond clock),
  \<^verbatim>\<open>GdbServer/Gdb/timing.c\<close> and \<^verbatim>\<open>GdbServer/Gdb/exception.c\<close>.
\<close>

section \<open>Formatting into a fresh buffer\<close>

text \<open>
  The text that the format and its arguments produce is the argument. \<open>vsnprintf\<close> writes at
  most \<open>size - 1\<close> characters of it and a zero and returns its full length. The buffer is
  doubled only while that length is exactly its size. \<open>junk\<close> is what \<open>malloc\<close> left in it.
\<close>

definition vsnprintf :: "u8 list \<Rightarrow> nat \<Rightarrow> u8 list \<Rightarrow> u8 list \<times> nat" where
  "vsnprintf buf size_n text =
     (if size_n = 0 then (buf, length text)
      else (blit 0 (take (size_n - 1) text @ [0]) buf, length text))"

function vasprintf_loop :: "(nat \<Rightarrow> u8 list) \<Rightarrow> nat \<Rightarrow> u8 list \<Rightarrow> u8 list \<times> nat" where
  "vasprintf_loop junk size_n text =
     (let (buf, ret) = vsnprintf (junk size_n) size_n text in
      if ret = size_n \<and> 0 < size_n then vasprintf_loop junk (2 * size_n) text else (buf, ret))"
  by pat_completeness auto
termination
  by (relation "measure (\<lambda>(junk, n, text). Suc (length text) - n)")
    (auto simp: vsnprintf_def Suc_le_eq split: if_splits)

declare vasprintf_loop.simps [simp del]

definition vasprintf :: "(nat \<Rightarrow> u8 list) \<Rightarrow> u8 list \<Rightarrow> u8 list \<times> nat" where
  "vasprintf junk text = vasprintf_loop junk 128 text"

text \<open>Texts of up to 128 characters come out whole; of longer ones 127 characters.\<close>

lemma vasprintf_fits:
  assumes "\<And>n. length (junk n) = n" "length text \<le> 128"
  shows "\<exists>buf. vasprintf junk text = (buf, length text) \<and> length text \<le> length buf \<and>
    take (Suc (length text)) buf = text @ [0]"
proof (cases "length text = 128")
  case True
  then have "vasprintf junk text = (blit 0 (text @ [0]) (junk 256), 128)"
    unfolding vasprintf_def
    by (subst vasprintf_loop.simps, subst vasprintf_loop.simps) (simp add: vsnprintf_def)
  then show ?thesis using True assms(1) [of 256] by (simp add: blit_def)
next
  case False
  then have "vasprintf junk text = (blit 0 (text @ [0]) (junk 128), length text)"
    using assms(2) unfolding vasprintf_def
    by (subst vasprintf_loop.simps) (simp add: vsnprintf_def)
  then show ?thesis using False assms by (simp add: blit_def)
qed

lemma vasprintf_truncates:
  assumes "\<And>n. length (junk n) = n" "128 < length text"
  shows "vasprintf junk text = (take 127 text @ [0], length text)"
  using assms(2) assms(1) [of 128] unfolding vasprintf_def
  by (subst vasprintf_loop.simps) (simp add: vsnprintf_def blit_def)

section \<open>The clock and timeouts\<close>

text \<open>
  \<open>platform_time_ms\<close> is built from the seconds and milliseconds of the wall clock, so it
  restarts every minute.
\<close>

definition platform_time_ms :: "u16 \<Rightarrow> u16 \<Rightarrow> u32" where
  "platform_time_ms wSecond wMilliseconds = ucast wSecond * 1000 + ucast wMilliseconds"

definition platform_timeout_set :: "u32 \<Rightarrow> u32 \<Rightarrow> u32" where
  "platform_timeout_set now ms = now + ms"

definition platform_timeout_is_expired :: "u32 \<Rightarrow> u32 \<Rightarrow> bool" where
  "platform_timeout_is_expired now time \<longleftrightarrow> now \<ge> time"

definition clock_reading :: "u16 \<Rightarrow> u16 \<Rightarrow> bool" where
  "clock_reading s ms \<longleftrightarrow> s < 60 \<and> ms < 1000"

lemma platform_time_bound:
  assumes "clock_reading s ms"
  shows "platform_time_ms s ms < 60000"
proof -
  have s: "unat s < 60" and m: "unat ms < 1000"
    using assms by (simp_all add: clock_reading_def word_less_nat_alt)
  have "unat (ucast s * 1000 + ucast ms :: u32) = unat s * 1000 + unat ms"
    using s m by (subst unat_add_lem [THEN iffD1]; subst unat_mult_lem [THEN iffD1]; simp)
  then show ?thesis
    using s m by (simp add: platform_time_ms_def word_less_nat_alt)
qed

section \<open>Exceptions\<close>

text \<open>
  The stack of active \<open>TRY_CATCH\<close> blocks, innermost first: the mask of each. \<open>raise_exception\<close>
  jumps to the innermost block whose mask has a bit of the type, which leaves only the
  blocks around that one active; without such a block it aborts the process. The result is
  the position of the handler and the stack that is left.
\<close>

definition EXCEPTION_ERROR :: u32 where "EXCEPTION_ERROR = 1"
definition EXCEPTION_TIMEOUT :: u32 where "EXCEPTION_TIMEOUT = 2"
definition EXCEPTION_ALL :: u32 where "EXCEPTION_ALL = -1"

fun raise_exception :: "u32 \<Rightarrow> u32 list \<Rightarrow> (nat \<times> u32 list) result" where
  "raise_exception ty [] = Inl Exited"
| "raise_exception ty (m # outer) =
     (if m AND ty \<noteq> 0 then Inr (0, outer)
      else bindR (raise_exception ty outer) (\<lambda>(n, rest). Inr (Suc n, rest)))"

lemma raise_exception_handler:
  "raise_exception ty ms = Inr (n, rest) \<longleftrightarrow>
   n < length ms \<and> ms ! n AND ty \<noteq> 0 \<and> (\<forall>i < n. ms ! i AND ty = 0) \<and> rest = drop (Suc n) ms"
proof (induction ms arbitrary: n)
  case Nil
  then show ?case by simp
next
  case (Cons m ms)
  show ?case
  proof (cases "m AND ty \<noteq> 0")
    case True
    then show ?thesis by (cases n) auto
  next
    case False
    then show ?thesis
      using Cons.IH by (cases n) (auto simp: bindR_Inr_iff less_Suc_eq_0_disj)
  qed
qed

section \<open>Properties\<close>

text \<open>
  A timeout that is set in the last seconds of a minute never expires. The millisecond
  clock stays below 60000, so when the current time plus the delay reaches 60000 no later
  reading of the clock reports the timeout as expired.
\<close>

theorem timeout_lost_at_minute:
  assumes "clock_reading s ms" "unat delay \<le> 3600000"
    and "60000 \<le> unat (platform_time_ms s ms) + unat delay"
    and "clock_reading s' ms'"
  shows "\<not> platform_timeout_is_expired (platform_time_ms s' ms')
      (platform_timeout_set (platform_time_ms s ms) delay)"
proof -
  have b: "unat (platform_time_ms s ms) < 60000" "unat (platform_time_ms s' ms') < 60000"
    using platform_time_bound [OF assms(1)] platform_time_bound [OF assms(4)]
    by (simp_all add: word_less_nat_alt)
  have "unat (platform_time_ms s ms + delay) = unat (platform_time_ms s ms) + unat delay"
    using b(1) assms(2) by (subst unat_add_lem [THEN iffD1]) simp_all
  with assms(3) b(2) show ?thesis
    by (simp add: platform_timeout_is_expired_def platform_timeout_set_def word_le_nat_alt)
qed

theorem timeout_lost_at_minute_witness:
  "\<not> platform_timeout_is_expired (platform_time_ms 10 0)
      (platform_timeout_set (platform_time_ms 59 500) 2000)"
  by (rule timeout_lost_at_minute) (simp_all add: clock_reading_def platform_time_ms_def)

text \<open>
  C35: an exception reaches the innermost handler that accepts it. \<open>raise_exception\<close> ends in
  the handler at position \<open>n\<close> exactly when that is the first block on the stack whose mask has
  a bit of the type, and then precisely the blocks around it remain active; it aborts
  exactly when no block accepts the type.
\<close>

theorem exception_innermost:
  "(raise_exception ty ms = Inr (n, rest) \<longleftrightarrow>
     n < length ms \<and> ms ! n AND ty \<noteq> 0 \<and> (\<forall>i < n. ms ! i AND ty = 0) \<and> rest = drop (Suc n) ms) \<and>
   (raise_exception ty ms = Inl Exited \<longleftrightarrow> (\<forall>m \<in> set ms. m AND ty = 0))"
proof
  show "raise_exception ty ms = Inr (n, rest) \<longleftrightarrow>
     n < length ms \<and> ms ! n AND ty \<noteq> 0 \<and> (\<forall>i < n. ms ! i AND ty = 0) \<and> rest = drop (Suc n) ms"
    by (rule raise_exception_handler)
  show "raise_exception ty ms = Inl Exited \<longleftrightarrow> (\<forall>m \<in> set ms. m AND ty = 0)"
  proof (induction ms)
    case Nil
    then show ?case by simp
  next
    case (Cons m ms)
    then show ?case by (cases "raise_exception ty ms") (auto split: prod.splits)
  qed
qed

theorem exception_innermost_witness:
  "raise_exception EXCEPTION_TIMEOUT [EXCEPTION_ERROR, EXCEPTION_ALL, 7] = Inr (1, [7])"
  using exception_innermost [of EXCEPTION_TIMEOUT "[EXCEPTION_ERROR, EXCEPTION_ALL, 7]" 1 "[7]"]
  by (simp add: EXCEPTION_ERROR_def EXCEPTION_TIMEOUT_def EXCEPTION_ALL_def)

end
