(* ===== verification/Gdb_If.thy ===== *)
theory Gdb_If
  imports Prelude
begin

text \<open>
  \<^verbatim>\<open>GdbServer/Gdb/gdb_if.c\<close>: the TCP channel to GDB. The operating system is an argument of
  the model: the results of the successive calls of \<open>accept\<close>, \<open>recv\<close> and \<open>select\<close> are three
  tapes in the state, consumed in order, and \<open>sent\<close> collects what is handed to \<open>send\<close>. A
  blocking call whose tape is empty never returns (\<open>Blocked\<close>); \<open>select\<close> has a timeout, so
  an empty tape of it means that nothing arrives any more.
\<close>

section \<open>State\<close>

datatype accept_result = Connected int | Would_block | Accept_error

record gdbif =
  conn :: int                         \<comment> \<open>\<open>gdb_if_conn\<close>\<close>
  accept_q :: "accept_result list"
  recv_q :: "u8 option list"          \<comment> \<open>\<open>None\<close>: \<open>recv\<close> returned 0 or an error\<close>
  select_q :: "bool list"
  obuf :: "u8 list"                   \<comment> \<open>the first \<open>bufsize\<close> bytes of the static buffer\<close>
  sent :: "u8 list"

definition BUF_MAX :: nat where "BUF_MAX = 2048"

section \<open>Operations\<close>

fun accept_loop :: "accept_result list \<Rightarrow> (int \<times> accept_result list) result" where
  "accept_loop [] = Inl Blocked"
| "accept_loop (Would_block # q) = accept_loop q"
| "accept_loop (Accept_error # q) = Inl Exited"
| "accept_loop (Connected h # q) = Inr (h, q)"

definition gdb_if_connect :: "gdbif \<Rightarrow> gdbif result" where
  "gdb_if_connect g =
     (if conn g \<le> 0
      then bindR (accept_loop (accept_q g)) (\<lambda>(h, q). Inr (g\<lparr>conn := h, accept_q := q\<rparr>))
      else Inr g)"

definition gdb_if_getchar :: "gdbif \<Rightarrow> (u8 \<times> gdbif) result" where
  "gdb_if_getchar g =
     bindR (gdb_if_connect g) (\<lambda>g.
       case recv_q g of
         [] \<Rightarrow> Inl Blocked
       | Some b # q \<Rightarrow> Inr (b, g\<lparr>recv_q := q\<rparr>)
       | None # q \<Rightarrow> Inr (0x2B, g\<lparr>conn := -1, recv_q := q\<rparr>))"

definition gdb_if_getchar_to :: "gdbif \<Rightarrow> (u8 \<times> gdbif) result" where
  "gdb_if_getchar_to g =
     (if conn g = -1 then Inr (-1, g)
      else case select_q g of
             [] \<Rightarrow> Inr (-1, g)
           | True # q \<Rightarrow> gdb_if_getchar (g\<lparr>select_q := q\<rparr>)
           | False # q \<Rightarrow> Inr (-1, g\<lparr>select_q := q\<rparr>))"

definition gdb_if_putchar :: "u8 \<Rightarrow> bool \<Rightarrow> gdbif \<Rightarrow> gdbif" where
  "gdb_if_putchar c flush g =
     (if conn g > 0
      then let buf = obuf g @ [c] in
           if flush \<or> length buf = BUF_MAX
           then g\<lparr>sent := sent g @ buf, obuf := []\<rparr>
           else g\<lparr>obuf := buf\<rparr>
      else g)"

text \<open>
  \<open>gdb_if_init\<close> tries the ports 2000 to 2004. What the socket calls answer for a port is
  the argument: the call that failed, or the listening socket.
\<close>

datatype socket_result =
  Socket_fails | Reuseaddr_fails | Nodelay_fails | Bind_fails | Listen_fails | Listening int

definition DEFAULT_PORT :: nat where "DEFAULT_PORT = 2000"
definition NUM_GDB_SERVER :: nat where "NUM_GDB_SERVER = 4"

function gdb_if_init :: "(nat \<Rightarrow> socket_result) \<Rightarrow> nat \<Rightarrow> int \<times> int option" where
  "gdb_if_init os port =
     (let port = Suc port in
      if port > DEFAULT_PORT + NUM_GDB_SERVER then (-1, None)
      else case os port of
             Listening s \<Rightarrow> (0, Some s)
           | _ \<Rightarrow> gdb_if_init os port)"
  by pat_completeness auto
termination
  by (relation "measure (\<lambda>(os, port). Suc (DEFAULT_PORT + NUM_GDB_SERVER) - port)") auto

declare gdb_if_init.simps [simp del]

section \<open>What the operations keep\<close>

text \<open>The output buffer never overflows its 2048 bytes.\<close>

definition obuf_ok :: "gdbif \<Rightarrow> bool" where
  "obuf_ok g \<longleftrightarrow> length (obuf g) < BUF_MAX"

lemma putchar_obuf_ok: "obuf_ok g \<Longrightarrow> obuf_ok (gdb_if_putchar c fl g)"
  by (auto simp: obuf_ok_def gdb_if_putchar_def Let_def BUF_MAX_def)

lemma putchar_frame [simp]:
  "conn (gdb_if_putchar c fl g) = conn g"
  "recv_q (gdb_if_putchar c fl g) = recv_q g"
  "select_q (gdb_if_putchar c fl g) = select_q g"
  "accept_q (gdb_if_putchar c fl g) = accept_q g"
  by (simp_all add: gdb_if_putchar_def Let_def)

text \<open>Bytes leave in the order they were put, and a flush leaves nothing behind.\<close>

definition written :: "gdbif \<Rightarrow> u8 list" where
  "written g = sent g @ obuf g"

lemma written_update [simp]:
  "written (g\<lparr>recv_q := q\<rparr>) = written g" "written (g\<lparr>select_q := sq\<rparr>) = written g"
  "written (g\<lparr>conn := c\<rparr>) = written g" "written (g\<lparr>accept_q := aq\<rparr>) = written g"
  by (simp_all add: written_def)

lemma putchar_written [simp]:
  "conn g > 0 \<Longrightarrow> written (gdb_if_putchar c fl g) = written g @ [c]"
  by (simp add: written_def gdb_if_putchar_def Let_def)

lemma putchar_flush [simp]:
  "conn g > 0 \<Longrightarrow> obuf (gdb_if_putchar c True g) = []"
  by (simp add: gdb_if_putchar_def Let_def)

lemma putchar_disconnected: "conn g \<le> 0 \<Longrightarrow> gdb_if_putchar c fl g = g"
  by (simp add: gdb_if_putchar_def)

text \<open>
  What the packet layer relies on when it sends: a sink that, while it is up, appends what
  it is given. The packet code puts its bytes one call at a time; the lemmas say what a
  whole sequence of calls leaves in the sink.
\<close>

locale byte_sink =
  fixes put :: "u8 \<Rightarrow> bool \<Rightarrow> 's \<Rightarrow> 's"
    and out :: "'s \<Rightarrow> u8 list"
    and up :: "'s \<Rightarrow> bool"
  assumes put_out: "up s \<Longrightarrow> out (put c fl s) = out s @ [c]"
    and put_up: "up (put c fl s) = up s"
begin

lemma puts_up: "up (fold (\<lambda>c. put c False) cs s) = up s"
  by (induction cs arbitrary: s) (simp_all add: put_up)

lemma puts_out: "up s \<Longrightarrow> out (fold (\<lambda>c. put c False) cs s) = out s @ cs"
  by (induction cs arbitrary: s) (simp_all add: put_up put_out)

lemma puts_then_put: "up s \<Longrightarrow> out (put d fl (fold (\<lambda>c. put c False) cs s)) = out s @ cs @ [d]"
  by (simp add: put_out puts_out puts_up)

end

interpretation gdb_sink: byte_sink gdb_if_putchar written "\<lambda>g. conn g > 0"
  by unfold_locales simp_all

lemma puts_frame [simp]:
  "conn (fold (\<lambda>c. gdb_if_putchar c False) cs g) = conn g"
  "recv_q (fold (\<lambda>c. gdb_if_putchar c False) cs g) = recv_q g"
  "select_q (fold (\<lambda>c. gdb_if_putchar c False) cs g) = select_q g"
  by (induction cs arbitrary: g) simp_all

text \<open>Receiving: each call that returns consumed one result of \<open>recv\<close>.\<close>

lemma connect_frame:
  "gdb_if_connect g = Inr g' \<Longrightarrow>
   recv_q g' = recv_q g \<and> select_q g' = select_q g \<and> sent g' = sent g \<and> obuf g' = obuf g"
  by (auto simp: gdb_if_connect_def bindR_Inr_iff split: if_splits)

lemma getchar_cases:
  assumes "gdb_if_getchar g = Inr (c, g')"
  obtains (byte) h q where "gdb_if_connect g = Inr h" "recv_q h = Some c # q" "g' = h\<lparr>recv_q := q\<rparr>"
  | (drop) h q where "gdb_if_connect g = Inr h" "recv_q h = None # q" "c = 0x2B"
      "g' = h\<lparr>conn := -1, recv_q := q\<rparr>"
proof -
  from assms obtain h where h: "gdb_if_connect g = Inr h" and
    r: "(case recv_q h of
         [] \<Rightarrow> Inl Blocked
       | Some b # q \<Rightarrow> Inr (b, h\<lparr>recv_q := q\<rparr>)
       | None # q \<Rightarrow> Inr (0x2B, h\<lparr>conn := -1, recv_q := q\<rparr>)) = Inr (c, g')"
    by (auto simp: gdb_if_getchar_def bindR_Inr_iff)
  show thesis
  proof (cases "recv_q h")
    case Nil
    with r show thesis by simp
  next
    case (Cons x q)
    with r h that show thesis by (cases x) auto
  qed
qed

lemma getchar_consumes:
  "gdb_if_getchar g = Inr (c, g') \<Longrightarrow> length (recv_q g) = Suc (length (recv_q g'))"
  by (erule getchar_cases) (auto dest!: connect_frame)

lemma getchar_written:
  "gdb_if_getchar g = Inr (c, g') \<Longrightarrow> written g' = written g"
  by (erule getchar_cases) (auto simp: written_def dest!: connect_frame)

lemma getchar_connected:
  "conn g > 0 \<Longrightarrow> recv_q g = Some c # q \<Longrightarrow> gdb_if_getchar g = Inr (c, g\<lparr>recv_q := q\<rparr>)"
  by (simp add: gdb_if_getchar_def gdb_if_connect_def)

lemma getchar_dropped:
  "conn g > 0 \<Longrightarrow> recv_q g = None # q \<Longrightarrow>
   gdb_if_getchar g = Inr (0x2B, g\<lparr>conn := -1, recv_q := q\<rparr>)"
  by (simp add: gdb_if_getchar_def gdb_if_connect_def)

lemma getchar_to_consumes:
  "gdb_if_getchar_to g = Inr (c, g') \<Longrightarrow> length (recv_q g') \<le> length (recv_q g)"
  by (auto simp: gdb_if_getchar_to_def dest!: getchar_consumes split: if_splits list.splits bool.splits)

lemma getchar_to_written:
  "gdb_if_getchar_to g = Inr (c, g') \<Longrightarrow> written g' = written g"
  by (auto simp: gdb_if_getchar_to_def written_def dest!: getchar_written [unfolded written_def]
      split: if_splits list.splits bool.splits)

text \<open>The server socket: the first port that listens, if one of the five does.\<close>

lemma gdb_if_init_step:
  "port < DEFAULT_PORT + NUM_GDB_SERVER \<Longrightarrow>
   gdb_if_init os port =
     (case os (Suc port) of Listening s \<Rightarrow> (0, Some s) | _ \<Rightarrow> gdb_if_init os (Suc port))"
  by (subst gdb_if_init.simps) (simp add: Let_def)

lemma gdb_if_init_none:
  "(\<And>p. port < p \<Longrightarrow> p \<le> DEFAULT_PORT + NUM_GDB_SERVER \<Longrightarrow> \<nexists>s. os p = Listening s) \<Longrightarrow>
   gdb_if_init os port = (-1, None)"
proof (induction os port rule: gdb_if_init.induct)
  case (1 os port)
  show ?case
  proof (cases "port < DEFAULT_PORT + NUM_GDB_SERVER")
    case True
    then have no: "\<nexists>s. os (Suc port) = Listening s" by (intro "1.prems") auto
    have "gdb_if_init os (Suc port) = (-1, None)" if "\<And>s. os (Suc port) \<noteq> Listening s"
      using "1.IH" [OF refl] "1.prems" True that by (cases "os (Suc port)") auto
    with no True show ?thesis
      by (auto simp: gdb_if_init_step split: socket_result.split)
  next
    case False
    then show ?thesis by (subst gdb_if_init.simps) (simp add: Let_def)
  qed
qed

section \<open>Properties\<close>

text \<open>
  C33: the 2048-byte output buffer never overflows and loses nothing: from a state in which
  the buffer has room, any sequence of \<open>gdb_if_putchar\<close> calls leaves room in it, and what
  has been sent followed by what is still buffered grows by exactly the bytes put, in order.
\<close>

theorem putchar_sequence:
  assumes "conn g > 0" "obuf_ok g"
  shows "obuf_ok (fold (\<lambda>(c, fl). gdb_if_putchar c fl) cs g) \<and>
    sent (fold (\<lambda>(c, fl). gdb_if_putchar c fl) cs g) @ obuf (fold (\<lambda>(c, fl). gdb_if_putchar c fl) cs g)
      = sent g @ obuf g @ map fst cs"
  using assms
proof (induction cs arbitrary: g)
  case Nil
  then show ?case by simp
next
  case (Cons x cs)
  obtain c fl where x: "x = (c, fl)" by fastforce
  have "written (gdb_if_putchar c fl g) = written g @ [c]"
    using Cons.prems by simp
  with Cons.IH [of "gdb_if_putchar c fl g"] Cons.prems show ?case
    by (simp add: x putchar_obuf_ok written_def)
qed

theorem putchar_sequence_witness:
  "let g = \<lparr>conn = 1, accept_q = [], recv_q = [], select_q = [], obuf = [], sent = []\<rparr>;
       g' = fold (\<lambda>(c, fl). gdb_if_putchar c fl) [(1, False), (2, True), (3, False)] g
   in obuf_ok g' \<and> sent g' @ obuf g' = [1, 2, 3]"
  using putchar_sequence [of "\<lparr>conn = 1, accept_q = [], recv_q = [], select_q = [], obuf = [], sent = []\<rparr>"
      "[(1, False), (2, True), (3, False)]"]
  by (simp add: obuf_ok_def BUF_MAX_def)

end
