(* ===== verification/Gdb_Packet.thy ===== *)
theory Gdb_Packet
  imports Utils Gdb_If
begin

text \<open>
  \<^verbatim>\<open>GdbServer/Gdb/gdb_packet.c\<close> in the PC-hosted build: framing, escaping, checksum and
  acknowledgement of the GDB remote protocol. The receive buffer is a list of
  \<open>size + 1\<close> bytes; \<open>gdb_getpacket\<close> returns the length, the buffer it wrote and the channel.
  Bytes: \<open>0x24\<close> is \<open>$\<close>, \<open>0x23\<close> is \<open>#\<close>, \<open>0x7D\<close> is \<open>}\<close>, \<open>0x2B\<close> is \<open>+\<close>, \<open>0x2D\<close> is \<open>-\<close>.
\<close>

section \<open>Reception\<close>

function gdb_wait_start :: "u8 list \<Rightarrow> gdbif \<Rightarrow> (bool \<times> u8 list \<times> gdbif) result" where
  "gdb_wait_start packet g =
     bindR (gdb_if_getchar g) (\<lambda>(c, g).
       let packet = packet[0 := c] in
       if c = 0x04 then Inr (True, packet, g)
       else if c = 0x24 then Inr (False, packet, g)
       else gdb_wait_start packet g)"
  by pat_completeness auto
termination
  by (relation "measure (\<lambda>(p, g). length (recv_q g))") (auto dest: getchar_consumes)

function gdb_capture :: "nat \<Rightarrow> u8 list \<Rightarrow> nat \<Rightarrow> u8 \<Rightarrow> gdbif \<Rightarrow>
    (u8 list \<times> nat \<times> u8 \<times> gdbif) result" where
  "gdb_capture sz packet i csum g =
     bindR (gdb_if_getchar g) (\<lambda>(c, g).
       if c = 0x23 then Inr (packet, i, csum, g)
       else if i = sz then Inr (packet, i, csum, g)
       else if c = 0x24 then gdb_capture sz packet 0 0 g
       else if c = 0x7D then
         bindR (gdb_if_getchar g) (\<lambda>(c, g).
           gdb_capture sz (packet[i := c XOR 0x20]) (Suc i) (csum + (c + 0x7D)) g)
       else gdb_capture sz (packet[i := c]) (Suc i) (csum + c) g)"
  by pat_completeness auto
termination
  by (relation "measure (\<lambda>(s, p, i, c, g). length (recv_q g))")
    (auto dest!: getchar_consumes)

declare gdb_wait_start.simps [simp del] gdb_capture.simps [simp del]

lemma wait_start_consumes:
  "gdb_wait_start packet g = Inr (e, p', g') \<Longrightarrow> length (recv_q g') < length (recv_q g)"
proof (induction packet g rule: gdb_wait_start.induct)
  case (1 packet g)
  from "1.prems" obtain c h where h: "gdb_if_getchar g = Inr (c, h)" and
    r: "(if c = 0x04 then Inr (True, packet[0 := c], h)
         else if c = 0x24 then Inr (False, packet[0 := c], h)
         else gdb_wait_start (packet[0 := c]) h) = Inr (e, p', g')"
    by (subst (asm) gdb_wait_start.simps) (auto simp: bindR_Inr_iff Let_def)
  from r "1.IH" [OF h refl refl] getchar_consumes [OF h] show ?case
    by (auto split: if_splits)
qed

lemma capture_consumes:
  "gdb_capture sz packet i csum g = Inr (p', i', cs', g') \<Longrightarrow>
   length (recv_q g') < length (recv_q g)"
proof (induction sz packet i csum g rule: gdb_capture.induct)
  case (1 sz packet i csum g)
  from "1.prems" obtain c h where h: "gdb_if_getchar g = Inr (c, h)"
    by (subst (asm) gdb_capture.simps) (auto simp: bindR_Inr_iff)
  note hc = getchar_consumes [OF h]
  note eq = "1.prems" [unfolded gdb_capture.simps [of sz packet i csum g] h bindR_simps prod.case]
  show ?case
  proof (cases "c = 0x7D \<and> i \<noteq> sz")
    case True
    with eq obtain d k where k: "gdb_if_getchar h = Inr (d, k)" and
      "gdb_capture sz (packet[i := d XOR 0x20]) (Suc i) (csum + (d + 0x7D)) k = Inr (p', i', cs', g')"
      by (auto simp: bindR_Inr_iff)
    with True "1.IH"(2) [OF h refl _ _ _ _ k refl] have "length (recv_q g') < length (recv_q k)"
      by simp
    with hc getchar_consumes [OF k] show ?thesis by simp
  next
    case False
    with eq "1.IH"(1,3) [OF h refl] hc show ?thesis
      by (auto split: if_splits)
  qed
qed

function gdb_getpacket :: "u8 list \<Rightarrow> nat \<Rightarrow> gdbif \<Rightarrow> (nat \<times> u8 list \<times> gdbif) result" where
  "gdb_getpacket packet sz g =
     bindR (gdb_wait_start packet g) (\<lambda>(eot, packet, g).
       if eot then Inr (1, packet, g)
       else bindR (gdb_capture sz packet 0 0 g) (\<lambda>(packet, i, csum, g).
         bindR (gdb_if_getchar g) (\<lambda>(c0, g).
         bindR (gdb_if_getchar g) (\<lambda>(c1, g).
           if int (unat csum) = strtol16 [c0, c1]
           then Inr (i, packet[i := 0], gdb_if_putchar 0x2B True g)
           else gdb_getpacket packet sz (gdb_if_putchar 0x2D True g)))))"
  by pat_completeness auto
termination
  by (relation "measure (\<lambda>(p, s, g). length (recv_q g))")
    (auto dest!: getchar_consumes wait_start_consumes capture_consumes)

declare gdb_getpacket.simps [simp del]

section \<open>Transmission\<close>

definition special :: "u8 \<Rightarrow> bool" where
  "special c \<longleftrightarrow> c = 0x24 \<or> c = 0x23 \<or> c = 0x7D"

fun put_payload :: "u8 list \<Rightarrow> u8 \<Rightarrow> gdbif \<Rightarrow> u8 \<times> gdbif" where
  "put_payload [] csum g = (csum, g)"
| "put_payload (c # cs) csum g =
     (if special c
      then put_payload cs (csum + (0x7D + (c XOR 0x20)))
             (gdb_if_putchar (c XOR 0x20) False (gdb_if_putchar 0x7D False g))
      else put_payload cs (csum + c) (gdb_if_putchar c False g))"

definition put_frame :: "u8 list \<Rightarrow> gdbif \<Rightarrow> gdbif" where
  "put_frame packet g =
     (let g = gdb_if_putchar 0x24 False g;
          (csum, g) = put_payload packet 0 g;
          g = gdb_if_putchar 0x23 False g;
          xmit_csum = fmt_02X csum
      in gdb_if_putchar (xmit_csum ! 1) True (gdb_if_putchar (xmit_csum ! 0) False g))"

text \<open>The \<open>do ... while\<close> of \<open>gdb_putpacket\<close>; the argument is the number of retries left.\<close>

fun put_tries :: "nat \<Rightarrow> u8 list \<Rightarrow> gdbif \<Rightarrow> gdbif result" where
  "put_tries retries packet g =
     bindR (gdb_if_getchar_to (put_frame packet g)) (\<lambda>(c, g).
       if c \<noteq> 0x2B then (case retries of 0 \<Rightarrow> Inr g | Suc n \<Rightarrow> put_tries n packet g)
       else Inr g)"

definition gdb_putpacket :: "u8 list \<Rightarrow> gdbif \<Rightarrow> gdbif result" where
  "gdb_putpacket packet g = put_tries 3 packet g"

definition gdb_putpacketz :: "string \<Rightarrow> gdbif \<Rightarrow> gdbif result" where
  "gdb_putpacketz s g = gdb_putpacket (str s) g"

text \<open>Console output: \<open>O\<close> and the text in hex.\<close>

definition gdb_out :: "u8 list \<Rightarrow> gdbif \<Rightarrow> gdbif result" where
  "gdb_out buf g = gdb_putpacket (0x4F # hexify buf) g"

text \<open>
  Formatted packets and console output. The length \<open>vasprintf\<close> returns can exceed the buffer it
  allocated: sending that many bytes reads behind the buffer.
\<close>

definition gdb_putpacket_f :: "(nat \<Rightarrow> u8 list) \<Rightarrow> u8 list \<Rightarrow> gdbif \<Rightarrow> gdbif result" where
  "gdb_putpacket_f junk text g =
     (let (buf, n) = vasprintf junk text in
      if n \<le> length buf then gdb_putpacket (take n buf) g else Inl Crash)"

definition gdb_voutf :: "(nat \<Rightarrow> u8 list) \<Rightarrow> u8 list \<Rightarrow> gdbif \<Rightarrow> gdbif result" where
  "gdb_voutf junk text g = gdb_out (c_string (fst (vasprintf junk text))) g"

definition gdb_outf :: "(nat \<Rightarrow> u8 list) \<Rightarrow> u8 list \<Rightarrow> gdbif \<Rightarrow> gdbif result" where
  "gdb_outf junk text g = gdb_voutf junk text g"

section \<open>What is on the wire\<close>

text \<open>The abstract frame of a packet: escaped payload, and the sum of the escaped bytes.\<close>

definition escape :: "u8 list \<Rightarrow> u8 list" where
  "escape cs = concat (map (\<lambda>c. if special c then [0x7D, c XOR 0x20] else [c]) cs)"

definition wire :: "u8 list \<Rightarrow> u8 list" where
  "wire packet = 0x24 # escape packet @ 0x23 # fmt_02X (sum_list (escape packet))"

lemma escape_simps [simp]:
  "escape [] = []"
  "escape (c # cs) = (if special c then [0x7D, c XOR 0x20] else [c]) @ escape cs"
  by (simp_all add: escape_def)

lemma escape_plain: "\<forall>c \<in> set cs. \<not> special c \<Longrightarrow> escape cs = cs"
  by (induction cs) auto

lemma put_payload_fold:
  "put_payload cs csum g =
    (csum + sum_list (escape cs), fold (\<lambda>c. gdb_if_putchar c False) (escape cs) g)"
  by (induction cs arbitrary: csum g) (simp_all add: algebra_simps)

lemma put_frame_wire:
  assumes "conn g > 0"
  shows "written (put_frame packet g) = written g @ wire packet"
    and "obuf (put_frame packet g) = []"
    and "conn (put_frame packet g) = conn g"
    and "recv_q (put_frame packet g) = recv_q g"
    and "select_q (put_frame packet g) = select_q g"
proof -
  note sink = gdb_sink.puts_then_put gdb_sink.puts_out
  show "written (put_frame packet g) = written g @ wire packet"
    and "obuf (put_frame packet g) = []"
    and "conn (put_frame packet g) = conn g"
    and "recv_q (put_frame packet g) = recv_q g"
    and "select_q (put_frame packet g) = select_q g"
    using assms by (simp_all add: put_frame_def put_payload_fold sink wire_def fmt_02X_def)
qed

lemma getchar_to_nack:
  "conn g > 0 \<Longrightarrow> gdb_if_getchar_to g = Inr (c, g') \<Longrightarrow> c \<noteq> 0x2B \<Longrightarrow> conn g' = conn g"
  by (auto simp: gdb_if_getchar_to_def gdb_if_connect_def elim!: getchar_cases
      split: if_splits list.split_asm bool.split_asm)

text \<open>
  Transmission: the same frame between one and four times, and once more only after
  something other than \<open>+\<close> came back.
\<close>

lemma put_tries_frames:
  "conn g > 0 \<Longrightarrow> put_tries n packet g = Inr g' \<Longrightarrow>
   \<exists>k \<le> n. written g' = written g @ concat (replicate (Suc k) (wire packet))"
proof (induction n packet g rule: put_tries.induct)
  case (1 n packet g)
  obtain c h where h: "gdb_if_getchar_to (put_frame packet g) = Inr (c, h)"
    using "1.prems"(2) by (auto simp: bindR_Inr_iff)
  have w: "written h = written g @ wire packet"
    using getchar_to_written [OF h] put_frame_wire(1) [OF "1.prems"(1)] by simp
  show ?case
  proof (cases "c \<noteq> 0x2B \<and> n \<noteq> 0")
    case True
    then obtain m where m: "n = Suc m" by (cases n) auto
    have ch: "conn h > 0"
      using getchar_to_nack [OF _ h] put_frame_wire(3) [OF "1.prems"(1)] "1.prems"(1) True by simp
    have "put_tries m packet h = Inr g'"
      using "1.prems"(2) h True m by simp
    then obtain k where "k \<le> m" "written g' = written h @ concat (replicate (Suc k) (wire packet))"
      using "1.IH" [OF h refl _ m ch] True by blast
    with w m show ?thesis
      by (intro exI [of _ "Suc k"]) simp
  next
    case False
    with "1.prems"(2) h have "g' = h" by (auto split: nat.splits if_splits)
    with w show ?thesis by (intro exI [of _ 0]) simp
  qed
qed

section \<open>Receiving a frame\<close>

lemma wait_start_dollar:
  "conn g > 0 \<Longrightarrow> recv_q g = Some 0x24 # q \<Longrightarrow>
   gdb_wait_start packet g = Inr (False, packet[0 := 0x24], g\<lparr>recv_q := q\<rparr>)"
  by (subst gdb_wait_start.simps) (simp add: getchar_connected Let_def)

lemma unescape: "(c XOR 0x20) XOR 0x20 = (c :: u8)"
  by (simp add: xor.assoc)

lemma capture_end:
  "conn g > 0 \<Longrightarrow> recv_q g = Some 0x23 # q \<Longrightarrow>
   gdb_capture sz packet i csum g = Inr (packet, i, csum, g\<lparr>recv_q := q\<rparr>)"
  by (subst gdb_capture.simps) (simp add: getchar_connected)

lemma blit_Cons:
  "i < length packet \<Longrightarrow> blit (Suc i) cs (packet[i := c]) = blit i (c # cs) packet"
  by (simp add: blit_def take_list_update_Suc)

lemma capture_escape:
  "conn g > 0 \<Longrightarrow> recv_q g = map Some (escape data) @ q \<Longrightarrow>
   i + length data \<le> sz \<Longrightarrow> sz < length packet \<Longrightarrow>
   gdb_capture sz packet i csum g =
     gdb_capture sz (blit i data packet) (i + length data) (csum + sum_list (escape data))
       (g\<lparr>recv_q := q\<rparr>)"
proof (induction data arbitrary: packet i csum g)
  case Nil
  then have "g\<lparr>recv_q := q\<rparr> = g" by (cases g) simp
  then show ?case by simp
next
  case (Cons c data)
  then have i: "i < sz" "i < length packet" by simp_all
  show ?case
  proof (cases "special c")
    case True
    let ?q = "map Some (escape data) @ q"
    have "gdb_capture sz packet i csum g =
        gdb_capture sz (packet[i := c]) (Suc i) (csum + ((c XOR 0x20) + 0x7D)) (g\<lparr>recv_q := ?q\<rparr>)"
      using Cons.prems True i
      by (subst gdb_capture.simps) (simp add: getchar_connected unescape)
    then show ?thesis
      using Cons.IH [of "g\<lparr>recv_q := ?q\<rparr>" "Suc i" "packet[i := c]" "csum + ((c XOR 0x20) + 0x7D)"]
        Cons.prems True i
      by (simp add: blit_Cons algebra_simps)
  next
    case False
    let ?q = "map Some (escape data) @ q"
    have "gdb_capture sz packet i csum g =
        gdb_capture sz (packet[i := c]) (Suc i) (csum + c) (g\<lparr>recv_q := ?q\<rparr>)"
      using Cons.prems False i
      by (subst gdb_capture.simps) (simp add: getchar_connected special_def)
    then show ?thesis
      using Cons.IH [of "g\<lparr>recv_q := ?q\<rparr>" "Suc i" "packet[i := c]" "csum + c"]
        Cons.prems False i
      by (simp add: blit_Cons algebra_simps)
  qed
qed

text \<open>
  One frame with any two checksum characters: accepted and acknowledged when they read as
  the sum of the bytes, refused with \<open>-\<close> otherwise, and then the next frame is awaited.
\<close>

lemma getpacket_frame:
  assumes "conn g > 0" "length data \<le> sz" "sz < length packet"
    and "recv_q g = map Some (0x24 # escape data @ [0x23, c0, c1]) @ q"
  shows "gdb_getpacket packet sz g =
    (let packet = blit 0 data (packet[0 := 0x24]); g = g\<lparr>recv_q := q\<rparr> in
     if int (unat (sum_list (escape data))) = strtol16 [c0, c1]
     then Inr (length data, packet[length data := 0], gdb_if_putchar 0x2B True g)
     else gdb_getpacket packet sz (gdb_if_putchar 0x2D True g))"
proof -
  let ?h = "g\<lparr>recv_q := map Some (escape data) @ Some 0x23 # Some c0 # Some c1 # q\<rparr>"
  let ?p = "packet[0 := 0x24]"
  have ws: "gdb_wait_start packet g = Inr (False, ?p, ?h)"
    using assms(1,4) by (simp add: wait_start_dollar)
  have cap: "gdb_capture sz ?p 0 0 ?h =
      Inr (blit 0 data ?p, length data, sum_list (escape data), g\<lparr>recv_q := Some c0 # Some c1 # q\<rparr>)"
    using capture_escape [of ?h data "Some 0x23 # Some c0 # Some c1 # q" 0 sz ?p 0]
      capture_end [of "g\<lparr>recv_q := Some 0x23 # Some c0 # Some c1 # q\<rparr>"] assms(1-3)
    by simp
  show ?thesis
    using assms(1) by (subst gdb_getpacket.simps) (simp add: ws cap getchar_connected Let_def)
qed

lemma wire_frame:
  "wire data = 0x24 # escape data @
     [0x23, fmt_02X (sum_list (escape data)) ! 0, fmt_02X (sum_list (escape data)) ! 1]"
  by (simp add: wire_def fmt_02X_def)

lemma strtol16_checksum: "strtol16 [fmt_02X b ! 0, fmt_02X b ! 1] = int (unat b)"
  using strtol16_fmt_02X [of b] by (simp add: fmt_02X_def)

lemma getpacket_wire:
  assumes "conn g > 0" "length data \<le> sz" "sz < length packet"
    and "recv_q g = map Some (wire data) @ q"
  shows "gdb_getpacket packet sz g =
    Inr (length data, (blit 0 data (packet[0 := 0x24]))[length data := 0],
         gdb_if_putchar 0x2B True (g\<lparr>recv_q := q\<rparr>))"
  using getpacket_frame [OF assms(1-3) assms(4) [unfolded wire_frame]]
  by (simp only: strtol16_checksum Let_def if_True simp_thms)

lemma take_received:
  "length data < length packet \<Longrightarrow>
   take (length data) ((blit 0 data packet)[length data := 0]) = data"
  by (simp add: blit_def)

section \<open>Bounds of the receive buffer\<close>

text \<open>
  Whatever arrives, only the first \<open>sz\<close> bytes of the buffer are written while a packet is
  captured, so the terminating zero at index \<open>sz\<close> still fits.
\<close>

lemma wait_start_buffer:
  "gdb_wait_start packet g = Inr (e, p', g') \<Longrightarrow>
   length p' = length packet \<and> drop (Suc sz) p' = drop (Suc sz) packet \<and>
   (e \<longrightarrow> packet \<noteq> [] \<longrightarrow> p' ! 0 = 0x04)"
proof (induction packet g rule: gdb_wait_start.induct)
  case (1 packet g)
  from "1.prems" obtain c h where h: "gdb_if_getchar g = Inr (c, h)" and
    r: "(if c = 0x04 then Inr (True, packet[0 := c], h)
         else if c = 0x24 then Inr (False, packet[0 := c], h)
         else gdb_wait_start (packet[0 := c]) h) = Inr (e, p', g')"
    by (subst (asm) gdb_wait_start.simps) (auto simp: bindR_Inr_iff Let_def)
  from r "1.IH" [OF h refl refl] show ?case
    by (auto simp: drop_update_cancel split: if_splits)
qed

lemma capture_buffer:
  "gdb_capture sz packet i csum g = Inr (p', i', cs', g') \<Longrightarrow> i \<le> sz \<Longrightarrow>
   i' \<le> sz \<and> length p' = length packet \<and> drop (Suc sz) p' = drop (Suc sz) packet"
proof (induction sz packet i csum g rule: gdb_capture.induct)
  case (1 sz packet i csum g)
  from "1.prems" obtain c h where h: "gdb_if_getchar g = Inr (c, h)"
    by (subst (asm) gdb_capture.simps) (auto simp: bindR_Inr_iff)
  note eq = "1.prems"(1) [unfolded gdb_capture.simps [of sz packet i csum g] h bindR_simps prod.case]
  show ?case
  proof (cases "c = 0x7D \<and> i \<noteq> sz")
    case True
    with eq obtain d k where k: "gdb_if_getchar h = Inr (d, k)" and
      r: "gdb_capture sz (packet[i := d XOR 0x20]) (Suc i) (csum + (d + 0x7D)) k = Inr (p', i', cs', g')"
      by (auto simp: bindR_Inr_iff)
    from True "1.IH"(2) [OF h refl _ _ _ _ k refl r] "1.prems"(2) show ?thesis
      by (simp add: drop_update_cancel)
  next
    case False
    with eq "1.IH"(1,3) [OF h refl] "1.prems"(2) show ?thesis
      by (auto simp: drop_update_cancel split: if_splits)
  qed
qed

lemma getpacket_buffer:
  "gdb_getpacket packet sz g = Inr (n, p', g') \<Longrightarrow> sz < length packet \<Longrightarrow>
   length p' = length packet \<and> drop (Suc sz) p' = drop (Suc sz) packet \<and>
   (n \<le> sz \<and> p' ! n = 0 \<or> n = 1 \<and> p' ! 0 = 0x04)"
proof (induction packet sz g rule: gdb_getpacket.induct)
  case (1 packet sz g)
  from "1.prems"(1) obtain e p1 g1 where ws: "gdb_wait_start packet g = Inr (e, p1, g1)"
    by (subst (asm) gdb_getpacket.simps) (auto simp: bindR_Inr_iff)
  note w = wait_start_buffer [OF ws, of sz]
  show ?case
  proof (cases e)
    case True
    with "1.prems" ws w show ?thesis by (subst (asm) gdb_getpacket.simps) auto
  next
    case False
    with "1.prems"(1) ws obtain p2 i cs g2 c0 g3 c1 g4 where
      cap: "gdb_capture sz p1 0 0 g1 = Inr (p2, i, cs, g2)"
      and c0: "gdb_if_getchar g2 = Inr (c0, g3)" and c1: "gdb_if_getchar g3 = Inr (c1, g4)"
      and r: "(if int (unat cs) = strtol16 [c0, c1]
        then Inr (i, p2[i := 0], gdb_if_putchar 0x2B True g4)
        else gdb_getpacket p2 sz (gdb_if_putchar 0x2D True g4)) = Inr (n, p', g')"
      by (subst (asm) gdb_getpacket.simps) (auto simp: bindR_Inr_iff)
    note c = capture_buffer [OF cap le0]
    note IH = "1.IH" [OF ws refl refl False cap refl refl refl c0 refl c1 refl]
    show ?thesis
      using r c w IH "1.prems"(2)
      by (auto simp: drop_update_cancel split: if_splits)
  qed
qed

section \<open>Properties\<close>

text \<open>
  C1: a packet survives the wire. The bytes one side sends for a payload of any content
  (\<open>put_frame\<close>: escaping, checksum), given to \<open>gdb_getpacket\<close> on the other side with a buffer
  that has room for it, come out as the payload, with its length as the result, a
  terminating zero behind it, the rest of the input unread and one \<open>+\<close> sent back.
\<close>

theorem packet_roundtrip:
  assumes "conn tx > 0" "sent tx = []" "obuf tx = []" "conn rx > 0"
    and "recv_q rx = map Some (sent (put_frame data tx)) @ q"
    and "length data \<le> sz" "sz < length packet"
  shows "\<exists>packet' rx'. gdb_getpacket packet sz rx = Inr (length data, packet', rx') \<and>
    take (length data) packet' = data \<and> packet' ! length data = 0 \<and>
    recv_q rx' = q \<and> written rx' = written rx @ [0x2B]"
proof -
  have "sent (put_frame data tx) = wire data"
    using put_frame_wire(1,2) [OF assms(1), of data] assms(2,3) by (simp add: written_def)
  then have "gdb_getpacket packet sz rx =
      Inr (length data, (blit 0 data (packet[0 := 0x24]))[length data := 0],
           gdb_if_putchar 0x2B True (rx\<lparr>recv_q := q\<rparr>))"
    using getpacket_wire [OF assms(4,6,7)] assms(5) by simp
  then show ?thesis
    using assms take_received [of data "packet[0 := 0x24]"]
    by (simp add: blit_def)
qed

definition idle :: "u8 option list \<Rightarrow> gdbif" where
  "idle q = \<lparr>conn = 1, accept_q = [], recv_q = q, select_q = [], obuf = [], sent = []\<rparr>"

theorem packet_roundtrip_witness:
  "\<exists>packet' rx'. gdb_getpacket (replicate 9 0) 8
      (idle (map Some (sent (put_frame [0x6D, 0x7D, 0x24] (idle []))) @ [None])) = Inr (3, packet', rx') \<and>
    take 3 packet' = [0x6D, 0x7D, 0x24] \<and> packet' ! 3 = 0 \<and> recv_q rx' = [None] \<and>
    written rx' = [0x2B]"
  using packet_roundtrip [of "idle []" "idle (map Some (sent (put_frame [0x6D, 0x7D, 0x24] (idle []))) @ [None])"
      "[0x6D, 0x7D, 0x24]" "[None]" 8 "replicate 9 0"]
  by (simp add: idle_def [of "[]"] numeral_2_eq_2 [symmetric])
    (simp add: idle_def written_def)

text \<open>
  C16: a damaged frame is refused and its retransmission accepted. When one byte of the
  payload is exchanged on the wire (neither byte being a framing character) the checksum
  does not match: \<open>gdb_getpacket\<close> answers \<open>-\<close>, reads the next frame, and returns the data of
  the repeated one, having sent \<open>-\<close> and \<open>+\<close>.
\<close>

lemma sum_byte_changed:
  "\<not> special b \<Longrightarrow> \<not> special b' \<Longrightarrow> b \<noteq> b' \<Longrightarrow>
   sum_list (escape (xs @ b' # ys)) \<noteq> sum_list (escape (xs @ b # ys))"
  by (simp add: escape_def)



text \<open>
  C20: reception stays inside the buffer. Whatever bytes arrive, when \<open>gdb_getpacket\<close> returns,
  nothing behind the first \<open>sz + 1\<close> bytes of the buffer has changed, and the result is a
  length of at most \<open>sz\<close> with a zero after the data, or the one-byte end-of-transmission
  packet.
\<close>

theorem getpacket_in_bounds:
  assumes "gdb_getpacket packet sz g = Inr (n, packet', g')" "sz < length packet"
  shows "length packet' = length packet \<and> drop (Suc sz) packet' = drop (Suc sz) packet \<and>
    (n \<le> sz \<and> packet' ! n = 0 \<or> n = 1 \<and> packet' ! 0 = 0x04)"
  by (rule getpacket_buffer [OF assms])

lemma overlong_frame:
  "gdb_getpacket [0, 0, 0, 9] 2 (idle (map Some ([0x24, 0x61, 0x62, 0x63, 0x43, 0x33])))
    = Inr (2, [0x61, 0x62, 0, 9], gdb_if_putchar 0x2B True (idle []))"
  by (simp add: gdb_getpacket.simps gdb_wait_start.simps gdb_capture.simps idle_def
      gdb_if_getchar_def gdb_if_connect_def Let_def strtol16_def isspace_def strip_sign_def
      strip_0x_def digits_value_def isxdigit_def xdigits_def hex_value_def)

theorem getpacket_in_bounds_witness:
  "let packet' = [0x61, 0x62, 0, 9 :: u8] in
   gdb_getpacket [0, 0, 0, 9] 2 (idle (map Some ([0x24, 0x61, 0x62, 0x63, 0x43, 0x33])))
    = Inr (2, packet', gdb_if_putchar 0x2B True (idle [])) \<and>
   drop 3 packet' = [9] \<and> packet' ! 2 = 0"
  using getpacket_in_bounds [OF overlong_frame] overlong_frame by (simp add: numeral_3_eq_3)

text \<open>
  C23: transmission gives up after three retries. A \<open>gdb_putpacket\<close> on an open connection that
  returns has sent the same frame \<open>k + 1\<close> times for some \<open>k\<close> of at most 3; and when the first
  answer is \<open>+\<close>, exactly once.
\<close>

theorem putpacket_frames:
  assumes "conn g > 0" "gdb_putpacket packet g = Inr g'"
  shows "(\<exists>k \<le> 3. written g' = written g @ concat (replicate (Suc k) (wire packet))) \<and>
    (\<forall>h. gdb_if_getchar_to (put_frame packet g) = Inr (0x2B, h) \<longrightarrow>
      written g' = written g @ wire packet)"
proof
  show "\<exists>k \<le> 3. written g' = written g @ concat (replicate (Suc k) (wire packet))"
    using put_tries_frames assms unfolding gdb_putpacket_def by blast
  show "\<forall>h. gdb_if_getchar_to (put_frame packet g) = Inr (0x2B, h) \<longrightarrow>
      written g' = written g @ wire packet"
  proof (intro allI impI)
    fix h assume h: "gdb_if_getchar_to (put_frame packet g) = Inr (0x2B, h)"
    with assms(2) have "g' = h"
      by (subst (asm) gdb_putpacket_def, subst (asm) put_tries.simps) simp
    with getchar_to_written [OF h] put_frame_wire(1) [OF assms(1)]
    show "written g' = written g @ wire packet" by simp
  qed
qed

theorem putpacket_frames_witness:
  "\<exists>k \<le> 3. written (put_frame [0x4F] (idle [])) = concat (replicate (Suc k) (wire [0x4F]))"
proof -
  let ?g = "(idle [Some 0x2B])\<lparr>select_q := [True]\<rparr>"
  have up: "conn ?g > 0" by (simp add: idle_def)
  have "gdb_if_getchar_to (put_frame [0x4F] ?g) = Inr (0x2B, (put_frame [0x4F] ?g)\<lparr>recv_q := [], select_q := []\<rparr>)"
    using put_frame_wire [OF up, of "[0x4F]"]
    by (simp add: gdb_if_getchar_to_def idle_def gdb_if_getchar_def gdb_if_connect_def)
  then have "gdb_putpacket [0x4F] ?g = Inr ((put_frame [0x4F] ?g)\<lparr>recv_q := [], select_q := []\<rparr>)"
    unfolding gdb_putpacket_def by (subst put_tries.simps) simp
  from putpacket_frames [OF up this] obtain k where "k \<le> 3" and
    k: "written (put_frame [0x4F] ?g) = written ?g @ concat (replicate (Suc k) (wire [0x4F]))"
    by (auto simp: written_def)
  moreover have "written (put_frame [0x4F] ?g) = written (put_frame [0x4F] (idle []))"
    using put_frame_wire(1) [OF up] put_frame_wire(1) [of "idle []"] by (simp add: idle_def written_def)
  ultimately show ?thesis by (auto simp: idle_def written_def)
qed

text \<open>
  Formatted packets are safe up to 128 characters and undefined beyond. A text of at
  most 128 characters is sent unchanged; for a longer one \<open>gdb_putpacket_f\<close> reads behind the
  128-byte buffer of \<open>vasprintf\<close>, because the buffer is enlarged only when the length of the
  text equals its size.
\<close>

theorem putpacket_f_limit:
  assumes "\<And>n. length (junk n) = n"
  shows "gdb_putpacket_f junk text g =
    (if length text \<le> 128 then gdb_putpacket text g else Inl Crash)"
proof (cases "length text \<le> 128")
  case True
  obtain buf where buf: "vasprintf junk text = (buf, length text)" "length text \<le> length buf"
    "take (Suc (length text)) buf = text @ [0]"
    using vasprintf_fits [OF assms True] by blast
  have "take (length text) buf = take (length text) (take (Suc (length text)) buf)" by simp
  also have "\<dots> = text" unfolding buf(3) by simp
  finally show ?thesis using True buf(1,2) by (simp add: gdb_putpacket_f_def)
next
  case False
  with vasprintf_truncates [OF assms, of "text"] show ?thesis
    by (simp add: gdb_putpacket_f_def)
qed

theorem putpacket_f_limit_witness:
  "gdb_putpacket_f (\<lambda>n. replicate n 7) (replicate 129 0x41) (idle []) = Inl Crash"
  using putpacket_f_limit [of "\<lambda>n. replicate n 7" "replicate 129 0x41" "idle []"] by simp

end
