(* ===== verification/Nor_Flash.thy ===== *)
theory Nor_Flash
  imports Prelude
begin

text \<open>
  Flash memory as both sides of the debugger see it: bits can only be cleared, in units of
  half words that have to be erased first, and addresses are grouped in sectors. The contract
  of the sector buffer of the server and the model of the microcontroller are stated with
  these notions.
\<close>

section \<open>Programming\<close>

text \<open>\<open>program a bs m\<close> is the memory after the bytes \<open>bs\<close> have been programmed at \<open>a\<close>.\<close>

definition program :: "u32 \<Rightarrow> u8 list \<Rightarrow> memory \<Rightarrow> memory" where
  "program a bs m = (\<lambda>x. if unat (x - a) < length bs then m x AND bs ! unat (x - a) else m x)"

lemma program_erased: "program a (replicate n (-1)) m = m"
  by (auto simp: program_def)

lemma program_outside: "length bs \<le> unat (x - a) \<Longrightarrow> program a bs m x = m x"
  by (simp add: program_def)

lemma program_append:
  assumes "length xs + length ys \<le> 2 ^ 32"
  shows "program (a + of_nat (length xs)) ys (program a xs m) = program a (xs @ ys) m"
proof
  fix x :: u32
  consider (first) "unat (x - a) < length xs" | (later) "length xs \<le> unat (x - a)" by linarith
  then show "program (a + of_nat (length xs)) ys (program a xs m) x = program a (xs @ ys) m x"
  proof cases
    case first
    then show ?thesis
      using unat_sub_before [OF first assms] by (simp add: program_def nth_append)
  next
    case later
    then show ?thesis
      using unat_sub_offset [OF later] by (auto simp: program_def nth_append)
  qed
qed

section \<open>Half words\<close>

definition half_erased :: "u32 \<Rightarrow> memory \<Rightarrow> bool" where
  "half_erased a m \<longleftrightarrow> m a = -1 \<and> m (a + 1) = -1"

definition half_of :: "u32 \<Rightarrow> u32" where
  "half_of x = x AND NOT 1"

text \<open>Data that can be programmed: what is not \<open>0xFF\<close> lies in half words that are erased.\<close>

definition programmable :: "u32 \<Rightarrow> u8 list \<Rightarrow> memory \<Rightarrow> bool" where
  "programmable a bs m \<longleftrightarrow>
     (\<forall>i<length bs. bs ! i \<noteq> -1 \<longrightarrow> half_erased (half_of (a + of_nat i)) m)"

lemma programmable_erased: "programmable a (replicate n (-1)) m"
  by (simp add: programmable_def)

lemma programmable_blit:
  assumes "programmable a bs m" "k + length src \<le> length bs"
    and "\<And>i. i < length src \<Longrightarrow> half_erased (half_of (a + of_nat (k + i))) m"
  shows "programmable a (blit k src bs) m"
  unfolding programmable_def
proof (intro allI impI)
  fix i assume i: "i < length (blit k src bs)" "blit k src bs ! i \<noteq> -1"
  then have lt: "i < length bs" using assms(2) by (simp add: length_blit)
  show "half_erased (half_of (a + of_nat i)) m"
  proof (cases "k \<le> i \<and> i < k + length src")
    case True
    then have "i - k < length src" "k + (i - k) = i" by auto
    with assms(3) [of "i - k"] show ?thesis by (simp only:)
  next
    case False
    then have "blit k src bs ! i = bs ! i" using assms(2) lt by (auto simp: nth_blit)
    then show ?thesis using assms(1) i lt by (simp add: programmable_def)
  qed
qed

lemma unat_half_of: "unat (half_of x) = unat x div 2 * 2"
  using unat_and_not_mask [of x 1] by (simp add: half_of_def)

lemma unat_half_of_1: "unat (half_of x + 1) = unat x div 2 * 2 + 1"
proof -
  have "unat x div 2 * 2 + 1 < 2 ^ LENGTH(32)"
    using unat_u32_less [of x] by simp presburger
  then show ?thesis by (simp add: unat_word_ariths unat_half_of)
qed

lemma half_of_cases: "x = half_of x \<or> x = half_of x + 1"
  using unat_half_of [of x] unat_half_of_1 [of x]
  by (cases "even (unat x)") (auto simp: word_unat_eq_iff)

lemma half_erased_byte: "half_erased (half_of x) m \<Longrightarrow> m x = -1"
  using half_of_cases [of x] by (auto simp: half_erased_def)

section \<open>Sectors\<close>

lemma unat_mod_sector: "unat ((a :: u32) mod s) = unat a mod unat s"
  by (rule unat_mod_distrib)

lemma sector_base_mod: "s \<noteq> 0 \<Longrightarrow> ((a :: u32) - a mod s) mod s = 0"
proof -
  have "unat (a - a mod s) = unat a - unat a mod unat s"
    by (subst unat_sub) (simp_all add: word_le_nat_alt unat_mod_sector)
  then have "unat ((a - a mod s) mod s) = 0"
    by (simp add: unat_mod_sector minus_mod_eq_mult_div)
  then show ?thesis by (simp add: unat_eq_0)
qed

text \<open>The base of the sector of an address, and membership in a sector.\<close>

definition sector_base :: "u32 \<Rightarrow> u32 \<Rightarrow> u32" where
  "sector_base s x = x - x mod s"

lemma unat_sector_base: "unat (sector_base s x) = unat x div unat s * unat s"
proof -
  have "unat (x - x mod s) = unat x - unat x mod unat s"
    by (subst unat_sub) (simp_all add: word_le_nat_alt unat_mod_sector)
  then show ?thesis by (simp add: sector_base_def minus_mod_eq_div_mult)
qed

lemma sector_base_eq:
  assumes "s \<noteq> 0"
  shows "sector_base s x = sector_base s y \<longleftrightarrow> unat x div unat s = unat y div unat s"
proof -
  have "unat s \<noteq> 0" using assms by (metis unat_eq_0)
  then show ?thesis
    unfolding word_unat_eq_iff [of "sector_base s x"] unat_sector_base by (simp only: mult_cancel2) blast
qed

lemma sector_base_half:
  assumes "even (unat s)" "s \<noteq> 0"
  shows "sector_base s (half_of x) = sector_base s x" "sector_base s (half_of x + 1) = sector_base s x"
proof -
  obtain k where k: "unat s = 2 * k" using assms(1) by blast
  have "unat x div 2 * 2 div (2 * k) = unat x div (2 * k)"
    "(unat x div 2 * 2 + 1) div (2 * k) = unat x div (2 * k)"
    by (simp_all add: div_mult2_eq)
  then show "sector_base s (half_of x) = sector_base s x" "sector_base s (half_of x + 1) = sector_base s x"
    by (simp_all add: sector_base_eq [OF assms(2)] unat_half_of unat_half_of_1 k)
qed

lemma in_sector:
  fixes a x s :: u32
  assumes "unat s dvd 2 ^ 32" "a mod s = 0" "s \<noteq> 0"
  shows "unat (x - a) < unat s \<longleftrightarrow> sector_base s x = a"
proof -
  have a: "unat s dvd unat a" using assms(2) unat_mod_sector [of a s] by (simp add: mod_eq_0_iff_dvd)
  have "unat (x - a) mod unat s = unat x mod unat s"
  proof (cases "a \<le> x")
    case True
    then have "unat x = unat (x - a) + unat a" by (simp add: unat_sub word_le_nat_alt)
    with a show ?thesis by (metis mod_add_right_eq dvd_imp_mod_0 add.right_neutral)
  next
    case False
    then have "unat (x - a) = unat x + (2 ^ 32 - unat a)"
      using unat_u32_less [of a] by (subst unat_sub_if') (simp add: word_le_nat_alt)
    moreover have "unat s dvd 2 ^ 32 - unat a" using assms(1) a by simp
    ultimately show ?thesis by (metis mod_add_right_eq dvd_imp_mod_0 add.right_neutral)
  qed
  then have m: "unat (x - a) mod unat s = unat (x mod s)" by (simp add: unat_mod_sector)
  have lt: "unat (x mod s) < unat s" using assms(3) by (simp add: unat_mod_sector unat_gt_0)
  show ?thesis
  proof
    assume "unat (x - a) < unat s"
    then have "x - a = x mod s" using m by (simp add: word_unat_eq_iff)
    then show "sector_base s x = a" by (simp add: sector_base_def algebra_simps)
  next
    assume "sector_base s x = a"
    then have "x - a = x mod s" by (auto simp: sector_base_def)
    then show "unat (x - a) < unat s" using lt by simp
  qed
qed

text \<open>Programming one sector leaves the half words of the others alone.\<close>

lemma half_erased_program:
  assumes "unat s dvd 2 ^ 32" "even (unat s)" "s \<noteq> 0" "a mod s = 0" "length bs = unat s"
    and "sector_base s x \<noteq> a"
  shows "half_erased (half_of x) (program a bs m) = half_erased (half_of x) m"
proof -
  have "\<not> unat (half_of x - a) < unat s" "\<not> unat (half_of x + 1 - a) < unat s"
    using in_sector [OF assms(1,4,3)] sector_base_half [OF assms(2,3)] assms(6) by metis+
  then show ?thesis using assms(5) by (simp add: half_erased_def program_outside)
qed

text \<open>Programming half word by half word.\<close>

lemma even_offset: "even (unat (a :: u32)) \<Longrightarrow> even i \<Longrightarrow> even (unat (a + of_nat i))"
proof -
  assume "even (unat a)" "even i"
  then have "even (unat a + i)" by simp
  moreover have "unat (a + of_nat i) = (unat a + i) mod 2 ^ 32"
    by (simp add: unat_word_ariths unat_of_nat mod_add_right_eq)
  moreover have "even ((2 :: nat) ^ 32)" by simp
  ultimately show ?thesis by (metis dvd_mod)
qed

lemma half_of_even: "even (unat a) \<Longrightarrow> half_of a = a"
  using unat_half_of [of a] by (simp add: word_unat_eq_iff)

lemma programmable_prefix: "programmable a (xs @ ys) m \<Longrightarrow> programmable a xs m"
  unfolding programmable_def
proof (intro allI impI)
  fix i
  assume p: "\<forall>i<length (xs @ ys). (xs @ ys) ! i \<noteq> -1 \<longrightarrow> half_erased (half_of (a + of_nat i)) m"
    and i: "i < length xs" "xs ! i \<noteq> -1"
  have "i < length (xs @ ys)" "(xs @ ys) ! i \<noteq> -1" using i by (simp_all add: nth_append)
  with p show "half_erased (half_of (a + of_nat i)) m" by blast
qed

lemma programmable_rest:
  assumes "programmable a (xs @ ys) m" "length xs = 2" "even (unat a)" "length ys + 2 < 2 ^ 32"
  shows "programmable (a + 2) ys (program a xs m)"
  unfolding programmable_def
proof (intro allI impI)
  fix j assume j: "j < length ys" "ys ! j \<noteq> -1"
  let ?x = "a + of_nat (2 + j)"
  have "2 + j < length (xs @ ys)" "(xs @ ys) ! (2 + j) = ys ! j" using j assms(2) by (simp_all add: nth_append)
  then have e: "half_erased (half_of ?x) m" using assms(1) j(2) unfolding programmable_def by metis
  have two: "unat (2 :: u32) = 2" by simp
  have mod2: "a mod 2 = 0" using assms(3) unat_mod_sector [of a 2] by (simp add: unat_eq_0 [symmetric] even_iff_mod_2_eq_zero)
  have dvd2: "unat (2 :: u32) dvd 2 ^ 32" by (simp add: two)
  have "unat (?x - a) = 2 + j"
    unfolding add_diff_cancel_left' using j(1) assms(4) by (intro unat_of_nat_u32) simp
  then have "sector_base 2 ?x \<noteq> a" using in_sector [OF dvd2 mod2, of ?x] two by simp
  then have "half_erased (half_of ?x) (program a xs m) = half_erased (half_of ?x) m"
    using half_erased_program [OF dvd2 _ _ mod2] assms(2) two by simp
  moreover have "a + 2 + of_nat j = ?x" by simp
  ultimately show "half_erased (half_of (a + 2 + of_nat j)) (program a xs m)" using e by (simp only:)
qed

end
