(* ===== verification/Target_Flash.thy ===== *)
theory Target_Flash
  imports Nor_Flash
begin

text \<open>
  The flash part of \<^verbatim>\<open>GdbServer/Gdb/target.c\<close>: the list of flash banks of a target, erasing
  and writing across banks, and the sector buffer that collects writes. The functions
  \<open>f->erase\<close>, \<open>f->write\<close> and \<open>f->done\<close> of a bank are fields of its record, functions on the
  state \<open>'d\<close> of the device; a pointer to a bank is its index in the list. \<open>size_t\<close> and \<open>int\<close>
  are 32-bit words, so the sums of addresses and lengths wrap around as in the code.
\<close>

type_synonym i32 = "32 word"

named_theorems flash_simps \<open>one step of the flash loops\<close>

record 'd target_flash =
  tf_start :: u32
  tf_length :: u32
  tf_blocksize :: u32
  tf_erase :: "u32 \<Rightarrow> u32 \<Rightarrow> 'd \<Rightarrow> i32 \<times> 'd"
  tf_write :: "u32 \<Rightarrow> u8 list \<Rightarrow> 'd \<Rightarrow> i32 \<times> 'd"
  tf_done :: "('d \<Rightarrow> i32 \<times> 'd) option"     \<comment> \<open>\<open>None\<close>: a null pointer\<close>
  tf_erased :: u8
  tf_buf_size :: u32
  tf_buf_addr :: u32
  tf_buf :: "u8 list option"

text \<open>\<open>malloc\<close> is an argument: \<open>None\<close> when the heap is exhausted, or the bytes it returns.\<close>

type_synonym malloc = "u32 \<Rightarrow> u8 list option"

section \<open>Operations\<close>

definition target_add_flash ::
    "'d target_flash \<Rightarrow> 'd target_flash list \<Rightarrow> 'd target_flash list" where
  "target_add_flash f fl =
     (if tf_buf_size f = 0 then f\<lparr>tf_buf_size := min (tf_blocksize f) 0x400\<rparr> else f) # fl"

fun flash_for_addr :: "'d target_flash list \<Rightarrow> u32 \<Rightarrow> nat option" where
  "flash_for_addr [] addr = None"
| "flash_for_addr (f # fl) addr =
     (if tf_start f \<le> addr \<and> addr < tf_start f + tf_length f then Some 0
      else map_option Suc (flash_for_addr fl addr))"

lemma flash_for_addr_Some:
  "flash_for_addr fl addr = Some i \<Longrightarrow>
   i < length fl \<and> tf_start (fl ! i) \<le> addr \<and> addr < tf_start (fl ! i) + tf_length (fl ! i)"
  by (induction fl arbitrary: i) (auto split: if_splits)

text \<open>The part of the request that lies in bank \<open>f\<close> (\<open>tmplen\<close> in the code).\<close>

definition bank_part :: "'d target_flash \<Rightarrow> u32 \<Rightarrow> u32 \<Rightarrow> u32" where
  "bank_part f addr len = min (addr + len) (tf_start f + tf_length f) - addr"

lemma sub_less_len:
  fixes addr len e :: u32
  assumes "addr < e" "len \<noteq> 0"
  shows "min (addr + len) e - addr \<noteq> 0 \<and> min (addr + len) e - addr \<le> len"
proof (cases "addr + len \<le> e")
  case True
  then have "min (addr + len) e - addr = len" by (simp add: min_def)
  with assms show ?thesis by simp
next
  case False
  then have m: "min (addr + len) e = e" by (simp add: min_def)
  have "e - addr \<le> len"
    using assms False by unat_arith
  with m assms show ?thesis by simp
qed

function target_flash_erase_loop ::
    "'d target_flash list \<Rightarrow> u32 \<Rightarrow> u32 \<Rightarrow> i32 \<Rightarrow> 'd \<Rightarrow> i32 \<times> 'd" where
  "target_flash_erase_loop fl addr len ret d =
     (if len = 0 then (ret, d)
      else case flash_for_addr fl addr of
             None \<Rightarrow> (ret, d)
           | Some i \<Rightarrow>
               let tmplen = bank_part (fl ! i) addr len;
                   (r, d) = tf_erase (fl ! i) addr tmplen d
               in target_flash_erase_loop fl (addr + tmplen) (len - tmplen) (ret OR r) d)"
  by pat_completeness auto

lemma bank_part_less:
  assumes "flash_for_addr fl addr = Some i" "len \<noteq> 0"
  shows "bank_part (fl ! i) addr len \<noteq> 0" "bank_part (fl ! i) addr len \<le> len"
    "unat (len - bank_part (fl ! i) addr len) < unat len"
proof -
  show nz: "bank_part (fl ! i) addr len \<noteq> 0" and le: "bank_part (fl ! i) addr len \<le> len"
    using sub_less_len [OF _ assms(2)] flash_for_addr_Some [OF assms(1)]
    by (auto simp: bank_part_def)
  show "unat (len - bank_part (fl ! i) addr len) < unat len"
    using nz le by unat_arith
qed

termination target_flash_erase_loop
  by (relation "measure (\<lambda>(fl, addr, len, ret, d). unat len)") (auto intro: bank_part_less)

declare target_flash_erase_loop.simps [simp del]

definition target_flash_erase ::
    "'d target_flash list \<Rightarrow> u32 \<Rightarrow> u32 \<Rightarrow> 'd \<Rightarrow> i32 \<times> 'd" where
  "target_flash_erase fl addr len d = target_flash_erase_loop fl addr len 0 d"

text \<open>
  The sector buffer. Each round of the loop flushes the buffer when the destination is in
  another sector, starts a new sector filled with the erased value, and copies the chunk.
\<close>

definition flush_sector ::
    "'d target_flash \<Rightarrow> 'd \<Rightarrow> i32 \<times> 'd" where
  "flush_sector f d =
     (if tf_buf_addr f \<noteq> -1 then tf_write f (tf_buf_addr f) (the (tf_buf f)) d else (0, d))"

definition open_sector ::
    "u32 \<Rightarrow> i32 \<Rightarrow> 'd target_flash \<Rightarrow> 'd \<Rightarrow> i32 \<times> 'd target_flash \<times> 'd" where
  "open_sector base ret f d =
     (if base \<noteq> tf_buf_addr f
      then let (r, d) = flush_sector f d in
           (ret OR r,
            f\<lparr>tf_buf_addr := base, tf_buf := Some (replicate (unat (tf_buf_size f)) (tf_erased f))\<rparr>,
            d)
      else (ret, f, d))"

text \<open>The chunk of the request that fits into the current sector (\<open>sectlen\<close>).\<close>

definition sector_part :: "u32 \<Rightarrow> u32 \<Rightarrow> u32 \<Rightarrow> u32" where
  "sector_part buf_size dest len = min (buf_size - dest mod buf_size) len"

lemma sector_part_pos:
  assumes "buf_size \<noteq> 0" "len \<noteq> 0"
  shows "sector_part buf_size dest len \<noteq> 0"
proof -
  have "dest mod buf_size < buf_size"
    using assms(1) by (simp add: word_less_nat_alt unat_mod_distrib word_neq_0_conv)
  then have "buf_size - dest mod buf_size \<noteq> 0" by auto
  with assms show ?thesis by (auto simp: sector_part_def min_def)
qed

function write_buffered_loop ::
    "u32 \<Rightarrow> u8 list \<Rightarrow> i32 \<Rightarrow> 'd target_flash \<Rightarrow> 'd \<Rightarrow> (i32 \<times> 'd target_flash \<times> 'd) result" where
  "write_buffered_loop dest src ret f d =
     (let len = word_of_nat (length src) :: u32 in
      if len = 0 then Inr (ret, f, d)
      else if tf_buf_size f = 0 then Inl Crash
      else let offset = dest mod tf_buf_size f;
               base = dest - offset;
               (ret, f', d) = open_sector base ret f d;
               sectlen = sector_part (tf_buf_size f) dest len;
               f' = f'\<lparr>tf_buf := map_option (blit (unat offset) (take (unat sectlen) src)) (tf_buf f')\<rparr>
           in write_buffered_loop (dest + sectlen) (drop (unat sectlen) src) ret f' d)"
  by pat_completeness auto
termination
proof (relation "measure (\<lambda>(dest, src, ret, f, d). length src)", goal_cases)
  case 1
  then show ?case by simp
next
  case (2 dest src ret f d len offset base x ret' y f' d' sectlen f'')
  then have "sectlen \<noteq> 0" by (simp add: sector_part_pos)
  moreover have "src \<noteq> []" using 2 by auto
  ultimately show ?case by (simp add: unat_gt_0)
qed

declare write_buffered_loop.simps [simp del]

definition target_flash_write_buffered ::
    "malloc \<Rightarrow> u32 \<Rightarrow> u8 list \<Rightarrow> 'd target_flash \<Rightarrow> 'd \<Rightarrow> (i32 \<times> 'd target_flash \<times> 'd) result" where
  "target_flash_write_buffered malloc dest src f d =
     (case tf_buf f of
        None \<Rightarrow>
          (case malloc (tf_buf_size f) of
             None \<Rightarrow> Inr (1, f, d)
           | Some b \<Rightarrow> write_buffered_loop dest src 0 (f\<lparr>tf_buf := Some b, tf_buf_addr := -1\<rparr>) d)
      | Some b \<Rightarrow> write_buffered_loop dest src 0 f d)"

definition target_flash_done_buffered :: "'d target_flash \<Rightarrow> 'd \<Rightarrow> i32 \<times> 'd target_flash \<times> 'd" where
  "target_flash_done_buffered f d =
     (case tf_buf f of
        Some b \<Rightarrow>
          if tf_buf_addr f \<noteq> -1
          then let (ret, d) = tf_write f (tf_buf_addr f) b d in
               (ret, f\<lparr>tf_buf_addr := -1, tf_buf := None\<rparr>, d)
          else (0, f, d)
      | None \<Rightarrow> (0, f, d))"

function target_flash_write_loop ::
    "malloc \<Rightarrow> u32 \<Rightarrow> u8 list \<Rightarrow> i32 \<Rightarrow> 'd target_flash list \<Rightarrow> 'd \<Rightarrow>
     (i32 \<times> 'd target_flash list \<times> 'd) result" where
  "target_flash_write_loop malloc dest src ret fl d =
     (let len = word_of_nat (length src) :: u32 in
      if len = 0 then Inr (ret, fl, d)
      else case flash_for_addr fl dest of
             None \<Rightarrow> Inr (1, fl, d)
           | Some i \<Rightarrow>
               let tmplen = bank_part (fl ! i) dest len in
               bindR (target_flash_write_buffered malloc dest (take (unat tmplen) src) (fl ! i) d)
                 (\<lambda>(r, f, d). target_flash_write_loop malloc (dest + tmplen)
                   (drop (unat tmplen) src) (ret OR r) (fl[i := f]) d))"
  by pat_completeness auto
termination
proof (relation "measure (\<lambda>(malloc, dest, src, ret, fl, d). length src)", goal_cases)
  case 1
  then show ?case by simp
next
  case (2 malloc dest src ret fl d len i tmplen)
  have "flash_for_addr fl dest = Some i" "len \<noteq> 0" using 2 by simp_all
  from bank_part_less(1) [OF this] have "tmplen \<noteq> 0" using 2 by simp
  moreover have "src \<noteq> []" using 2 by auto
  ultimately show ?case by (simp add: unat_gt_0)
qed

declare target_flash_write_loop.simps [simp del]

definition target_flash_write ::
    "malloc \<Rightarrow> u32 \<Rightarrow> u8 list \<Rightarrow> 'd target_flash list \<Rightarrow> 'd \<Rightarrow>
     (i32 \<times> 'd target_flash list \<times> 'd) result" where
  "target_flash_write malloc dest src fl d = target_flash_write_loop malloc dest src 0 fl d"

fun target_flash_done :: "'d target_flash list \<Rightarrow> 'd \<Rightarrow> i32 \<times> 'd target_flash list \<times> 'd" where
  "target_flash_done [] d = (0, [], d)"
| "target_flash_done (f # fl) d =
     (let (tmp, f, d) = target_flash_done_buffered f d in
      if tmp \<noteq> 0 then (tmp, f # fl, d)
      else let (tmp, d) = (case tf_done f of None \<Rightarrow> (0, d) | Some done_fn \<Rightarrow> done_fn d) in
           if tmp \<noteq> 0 then (tmp, f # fl, d)
           else let (r, fl, d) = target_flash_done fl d in (r, f # fl, d))"

section \<open>Sector arithmetic\<close>

lemma sector_part_bounds:
  assumes "s \<noteq> 0" "n < 2 ^ 32"
  shows "unat (sector_part s a (of_nat n)) \<le> n"
    and "unat (a mod s) + unat (sector_part s a (of_nat n)) \<le> unat s"
proof -
  have n: "unat (of_nat n :: u32) = n" using assms(2) by (simp add: unat_of_nat)
  have lt: "unat (a mod s) < unat s"
    using assms(1) by (simp add: unat_mod_sector unat_gt_0)
  then have s: "unat (s - a mod s) = unat s - unat (a mod s)"
    by (intro unat_sub) (simp add: word_le_nat_alt)
  show "unat (sector_part s a (of_nat n)) \<le> n"
    using n by (simp add: sector_part_def min_def word_le_nat_alt)
  have "unat (sector_part s a (of_nat n)) \<le> unat s - unat (a mod s)"
    using s by (simp add: sector_part_def min_def word_le_nat_alt)
  with lt show "unat (a mod s) + unat (sector_part s a (of_nat n)) \<le> unat s" by linarith
qed

section \<open>Properties\<close>

text \<open>
  C40: an erase that runs into an address outside every bank stops there and returns what it
  has so far, which is success when nothing failed before: erasing any range that starts in
  a hole reports 0 and changes nothing, whereas \<open>target_flash_write\<close> reports the error 1.
\<close>

theorem flash_hole:
  assumes "flash_for_addr fl addr = None" "0 < length src" "length src < 2 ^ 32"
  shows "target_flash_erase fl addr len d = (0, d) \<and>
    target_flash_write malloc addr src fl d = Inr (1, fl, d)"
proof
  show "target_flash_erase fl addr len d = (0, d)"
    using assms(1) by (simp add: target_flash_erase_def target_flash_erase_loop.simps)
  show "target_flash_write malloc addr src fl d = Inr (1, fl, d)"
    using assms of_nat_u32_eq_0 [OF assms(3)]
    by (simp add: target_flash_write_def target_flash_write_loop.simps)
qed

theorem flash_hole_witness:
  "target_flash_erase [] 0x08000000 0x400 (7 :: int) = (0, 7) \<and>
   target_flash_write (\<lambda>n. None) 0x08000000 [1] [] (7 :: int) = Inr (1, [], 7)"
  using flash_hole [of "[]" "0x08000000" "[1]" "0x400" "7 :: int" "\<lambda>n. None"] by simp

end
