(* ===== verification/Target_Core.thy ===== *)
theory Target_Core
  imports Target_Flash Stdio
begin

text \<open>
  \<^verbatim>\<open>GdbServer/Gdb/target.c\<close> without its flash part: the target object and its operations. A
  target is a record whose function pointers are fields, functions on the state \<open>'d\<close> of the
  driver behind \<open>t->priv\<close>; \<open>None\<close> is a null pointer. Targets and the debugger that owns them
  point at each other in C: here a target is named by its \<open>t_id\<close> (its address), and the list
  of targets is passed along. What a C function reads from uninitialised memory is an
  argument of its model.
\<close>

section \<open>Data\<close>

datatype halt_reason =
  HALT_RUNNING | HALT_ERROR | HALT_REQUEST | HALT_STEPPING | HALT_BREAKPOINT | HALT_WATCHPOINT | HALT_FAULT
| HALT_OTHER u8  \<comment> \<open>a number that the enumeration does not name\<close>

text \<open>The type of a break- or watchpoint is a C enum, so any \<open>int\<close> can be passed as one.\<close>

definition BREAK_SOFT :: u32 where "BREAK_SOFT = 0"
definition BREAK_HARD :: u32 where "BREAK_HARD = 1"
definition WATCH_WRITE :: u32 where "WATCH_WRITE = 2"
definition WATCH_READ :: u32 where "WATCH_READ = 3"
definition WATCH_ACCESS :: u32 where "WATCH_ACCESS = 4"

record breakwatch =
  bw_type :: u32
  bw_addr :: u32
  bw_size :: u32
  bw_reserved :: "u32 list"

record target_ram =
  ram_start :: u32
  ram_length :: u32

record 'd command_s =
  cmd :: "u8 list"
  handler :: "u8 list list \<Rightarrow> 'd \<Rightarrow> bool \<times> 'd"
  cmd_help :: "u8 list"

record 'd target =
  t_id :: nat
  attached :: bool
  has_tc :: bool                       \<comment> \<open>\<open>tc\<close> points to the one controller there is\<close>
  attach_fn :: "'d \<Rightarrow> bool \<times> 'd"
  detach_fn :: "'d \<Rightarrow> 'd"
  check_error_fn :: "'d \<Rightarrow> bool \<times> 'd"
  mem_read_fn :: "u32 \<Rightarrow> u32 \<Rightarrow> u8 list \<Rightarrow> 'd \<Rightarrow> u8 list \<times> 'd"
  mem_write_fn :: "u32 \<Rightarrow> u8 list \<Rightarrow> 'd \<Rightarrow> 'd"
  regs_size :: u32
  tdesc :: "u8 list option"
  regs_read_fn :: "(u8 list \<Rightarrow> 'd \<Rightarrow> u8 list \<times> 'd) option"
  regs_write_fn :: "(u8 list \<Rightarrow> 'd \<Rightarrow> 'd) option"
  reg_read_fn :: "u32 \<Rightarrow> u8 list \<Rightarrow> 'd \<Rightarrow> u32 \<times> u8 list \<times> 'd"
  reg_write_fn :: "u32 \<Rightarrow> u8 list \<Rightarrow> 'd \<Rightarrow> u32 \<times> 'd"
  reset_fn :: "'d \<Rightarrow> 'd"
  halt_request_fn :: "'d \<Rightarrow> 'd"
  halt_poll_fn :: "'d \<Rightarrow> halt_reason \<times> u32 \<times> 'd"
  halt_resume_fn :: "bool \<Rightarrow> 'd \<Rightarrow> 'd"
  breakwatch_set_fn :: "(breakwatch \<Rightarrow> 'd \<Rightarrow> i32 \<times> breakwatch \<times> 'd) option"
  breakwatch_clear_fn :: "(breakwatch list \<Rightarrow> 'd \<Rightarrow> i32 \<times> 'd) option"
  bw_list :: "breakwatch list"
  ram :: "target_ram list"
  flash :: "'d target_flash list"
  driver :: "u8 list"
  core :: "u8 list"
  t_designer :: u16
  idcode :: u16
  cmdline :: "u8 list"
  heapinfo :: "u32 list"
  commands :: "(u8 list \<times> 'd command_s list) list"
  t_dev :: 'd

text \<open>
  A read fills a prefix of the buffer it is given and leaves the rest; the driver functions
  for memory and registers take the old buffer and return the new one. \<open>breakwatch_clear\<close>
  gets a pointer into the list of breakpoints, so it sees the entry and all that follow.
\<close>

section \<open>Creation and the list of targets\<close>

text \<open>\<open>nop_function\<close> ignores its arguments and returns true, which is 1.\<close>

definition nop_target :: "nat \<Rightarrow> 'd \<Rightarrow> 'd target" where
  "nop_target i d =
     \<lparr>t_id = i, attached = False, has_tc = False,
      attach_fn = (\<lambda>d. (True, d)), detach_fn = (\<lambda>d. d), check_error_fn = (\<lambda>d. (True, d)),
      mem_read_fn = (\<lambda>a n buf d. (buf, d)), mem_write_fn = (\<lambda>a bs d. d),
      regs_size = 0, tdesc = None,
      regs_read_fn = Some (\<lambda>buf d. (buf, d)), regs_write_fn = Some (\<lambda>bs d. d),
      reg_read_fn = (\<lambda>r buf d. (1, buf, d)), reg_write_fn = (\<lambda>r bs d. (1, d)),
      reset_fn = (\<lambda>d. d), halt_request_fn = (\<lambda>d. d),
      halt_poll_fn = (\<lambda>d. (HALT_ERROR, 0, d)), halt_resume_fn = (\<lambda>b d. d),
      breakwatch_set_fn = None, breakwatch_clear_fn = None, bw_list = [], ram = [], flash = [],
      driver = [], core = [], t_designer = 0, idcode = 0, cmdline = [], heapinfo = [0, 0, 0, 0],
      commands = [], t_dev = d\<rparr>"

text \<open>\<open>new\<close> is the address \<open>calloc\<close> returned, or nothing when the heap is exhausted.\<close>

definition target_new :: "nat option \<Rightarrow> 'd \<Rightarrow> 'd target list \<Rightarrow> nat option \<times> 'd target list" where
  "target_new new d ts =
     (case new of None \<Rightarrow> (None, ts) | Some i \<Rightarrow> (Some i, ts @ [nop_target i d]))"

fun target_foreach_from :: "nat \<Rightarrow> (nat \<Rightarrow> nat \<Rightarrow> 's \<Rightarrow> 's) \<Rightarrow> 'd target list \<Rightarrow> 's \<Rightarrow> nat \<times> 's" where
  "target_foreach_from i cb [] s = (i, s)"
| "target_foreach_from i cb (t # ts) s = target_foreach_from (Suc i) cb ts (cb i (t_id t) s)"

definition target_foreach :: "(nat \<Rightarrow> nat \<Rightarrow> 's \<Rightarrow> 's) \<Rightarrow> 'd target list \<Rightarrow> 's \<Rightarrow> nat \<times> 's" where
  "target_foreach cb ts s = target_foreach_from 1 cb ts s"

definition target_mem_map_free :: "'d target \<Rightarrow> 'd target" where
  "target_mem_map_free t = t\<lparr>ram := [], flash := []\<rparr>"

text \<open>The debugger is told about every target that it holds; then the list is empty.\<close>

fun target_list_free :: "(nat \<Rightarrow> 's \<Rightarrow> 's) \<Rightarrow> 'd target list \<Rightarrow> 's \<Rightarrow> 'd target list \<times> 's" where
  "target_list_free destroy [] s = ([], s)"
| "target_list_free destroy (t # ts) s =
     target_list_free destroy ts (if has_tc t then destroy (t_id t) s else s)"

definition target_add_commands ::
    "bool \<Rightarrow> 'd command_s list \<Rightarrow> u8 list \<Rightarrow> 'd target \<Rightarrow> 'd target" where
  "target_add_commands malloc_ok cmds name t =
     (if malloc_ok then t\<lparr>commands := commands t @ [(name, cmds)]\<rparr> else t)"

definition target_add_ram :: "bool \<Rightarrow> u32 \<Rightarrow> u32 \<Rightarrow> 'd target \<Rightarrow> 'd target" where
  "target_add_ram malloc_ok start len t =
     (if malloc_ok then t\<lparr>ram := \<lparr>ram_start = start, ram_length = len\<rparr> # ram t\<rparr> else t)"

definition add_flash :: "'d target_flash \<Rightarrow> 'd target \<Rightarrow> 'd target" where
  "add_flash f t = t\<lparr>flash := target_add_flash f (flash t)\<rparr>"

section \<open>Attaching\<close>

definition get_target :: "nat \<Rightarrow> 'd target list \<Rightarrow> 'd target option" where
  "get_target i ts = find (\<lambda>t. t_id t = i) ts"

definition set_target :: "'d target \<Rightarrow> 'd target list \<Rightarrow> 'd target list" where
  "set_target t ts = map (\<lambda>u. if t_id u = t_id t then t else u) ts"

text \<open>A pointer to a target that is not in the list is dangling or null: using it is undefined.\<close>

definition with_target :: "nat option \<Rightarrow> 'd target list \<Rightarrow> ('d target \<Rightarrow> 'a result) \<Rightarrow> 'a result" where
  "with_target p ts k =
     (case p of
        None \<Rightarrow> Inl Crash
      | Some i \<Rightarrow> (case get_target i ts of None \<Rightarrow> Inl Crash | Some t \<Rightarrow> k t))"

definition target_attach ::
    "(nat \<Rightarrow> 's \<Rightarrow> 's) \<Rightarrow> nat \<Rightarrow> 'd target list \<Rightarrow> 's \<Rightarrow> (nat option \<times> 'd target list \<times> 's) result" where
  "target_attach destroy i ts s =
     with_target (Some i) ts (\<lambda>t.
       let s = (if has_tc t then destroy i s else s);
           (ok, d) = attach_fn t (t_dev t);
           t = t\<lparr>has_tc := True, t_dev := d\<rparr>
       in if ok then Inr (Some i, set_target (t\<lparr>attached := True\<rparr>) ts, s)
          else Inr (None, set_target t ts, s))"

fun nth_target :: "int \<Rightarrow> int \<Rightarrow> 'd target list \<Rightarrow> nat option" where
  "nth_target i n [] = None"
| "nth_target i n (t # ts) = (if i = n then Some (t_id t) else nth_target (i + 1) n ts)"

definition target_attach_n ::
    "(nat \<Rightarrow> 's \<Rightarrow> 's) \<Rightarrow> int \<Rightarrow> 'd target list \<Rightarrow> 's \<Rightarrow> (nat option \<times> 'd target list \<times> 's) result" where
  "target_attach_n destroy n ts s =
     (case nth_target 1 n ts of
        None \<Rightarrow> Inr (None, ts, s)
      | Some i \<Rightarrow> target_attach destroy i ts s)"

definition target_detach :: "'d target \<Rightarrow> 'd target" where
  "target_detach t = t\<lparr>t_dev := detach_fn t (t_dev t), attached := False\<rparr>"

definition target_attached :: "'d target \<Rightarrow> bool" where
  "target_attached t = attached t"

section \<open>Memory map\<close>

text \<open>
  \<open>snprintf(&buf[i], n, ...)\<close> of the text \<open>s\<close>: at most \<open>n - 1\<close> characters and a zero, and
  nothing at all for \<open>n = 0\<close>; writing behind the end of the array is undefined. The index
  advances by the full length of the text, as in the code, so \<open>len - i\<close> can wrap around.
\<close>

definition emit :: "u32 \<Rightarrow> u8 list \<Rightarrow> u8 list \<times> u32 \<Rightarrow> (u8 list \<times> u32) result" where
  "emit len s = (\<lambda>(buf, i).
     let n = len - i;
         out = (if n = 0 then [] else take (unat n - 1) s @ [0])
     in if unat i + length out \<le> length buf
        then Inr (blit (unat i) out buf, i + of_nat (length s))
        else Inl Crash)"

definition ram_text :: "target_ram \<Rightarrow> u8 list" where
  "ram_text r = str ''<memory type=\"ram\" start=\"0x'' @ fmt_08x (ram_start r) @
     str ''\" length=\"0x'' @ fmt_x (ram_length r) @ str ''\"/>''"

definition flash_text :: "'d target_flash \<Rightarrow> u8 list" where
  "flash_text f = str ''<memory type=\"flash\" start=\"0x'' @ fmt_08x (tf_start f) @
     str ''\" length=\"0x'' @ fmt_x (tf_length f) @ str ''\">''"

definition blocksize_text :: "'d target_flash \<Rightarrow> u8 list" where
  "blocksize_text f = str ''<property name=\"blocksize\">0x'' @ fmt_x (tf_blocksize f) @
     str ''</property></memory>''"

definition map_ram :: "u32 \<Rightarrow> target_ram \<Rightarrow> u8 list \<times> u32 \<Rightarrow> (u8 list \<times> u32) result" where
  "map_ram len r st = emit len (ram_text r) st"

definition map_flash :: "u32 \<Rightarrow> 'd target_flash \<Rightarrow> u8 list \<times> u32 \<Rightarrow> (u8 list \<times> u32) result" where
  "map_flash len f st = bindR (emit len (flash_text f) st) (emit len (blocksize_text f))"

fun foldR :: "('a \<Rightarrow> 's \<Rightarrow> 's result) \<Rightarrow> 'a list \<Rightarrow> 's \<Rightarrow> 's result" where
  "foldR f [] s = Inr s"
| "foldR f (x # xs) s = bindR (f x s) (foldR f xs)"

definition target_mem_map :: "'d target \<Rightarrow> u8 list \<Rightarrow> u32 \<Rightarrow> (bool \<times> u8 list) result" where
  "target_mem_map t tmp len =
     bindR (emit len (str ''<memory-map>'') (tmp, 0)) (\<lambda>st.
     bindR (foldR (map_ram len) (ram t) st) (\<lambda>st.
     bindR (foldR (map_flash len) (flash t) st) (\<lambda>st.
     bindR (emit len (str ''</memory-map>'') st) (\<lambda>(tmp, i).
       Inr (\<not> (i > len - 2), tmp)))))"

section \<open>Memory and registers\<close>

definition target_check_error :: "'d target \<Rightarrow> bool \<times> 'd target" where
  "target_check_error t = (let (e, d) = check_error_fn t (t_dev t) in (e, t\<lparr>t_dev := d\<rparr>))"

definition target_mem_read :: "u8 list \<Rightarrow> u32 \<Rightarrow> u32 \<Rightarrow> 'd target \<Rightarrow> bool \<times> u8 list \<times> 'd target" where
  "target_mem_read dest src len t =
     (let (dest, d) = mem_read_fn t src len dest (t_dev t);
          (e, t) = target_check_error (t\<lparr>t_dev := d\<rparr>)
      in (e, dest, t))"

definition target_mem_write :: "u32 \<Rightarrow> u8 list \<Rightarrow> 'd target \<Rightarrow> bool \<times> 'd target" where
  "target_mem_write dest src t =
     target_check_error (t\<lparr>t_dev := mem_write_fn t dest src (t_dev t)\<rparr>)"

definition target_reg_read :: "u32 \<Rightarrow> u8 list \<Rightarrow> 'd target \<Rightarrow> u32 \<times> u8 list \<times> 'd target" where
  "target_reg_read reg buf t =
     (let (s, buf, d) = reg_read_fn t reg buf (t_dev t) in (s, buf, t\<lparr>t_dev := d\<rparr>))"

definition target_reg_write :: "u32 \<Rightarrow> u8 list \<Rightarrow> 'd target \<Rightarrow> u32 \<times> 'd target" where
  "target_reg_write reg bs t =
     (let (s, d) = reg_write_fn t reg bs (t_dev t) in (s, t\<lparr>t_dev := d\<rparr>))"

text \<open>
  The loops over single registers, for drivers without \<open>regs_read\<close> and \<open>regs_write\<close>: they go
  on until the sizes returned add up, so they take fuel. Each call sees the rest of the
  buffer.
\<close>

fun regs_read_loop :: "nat \<Rightarrow> nat \<Rightarrow> u32 \<Rightarrow> u8 list \<Rightarrow> 'd target \<Rightarrow> (u8 list \<times> 'd target) result" where
  "regs_read_loop fuel x i data t =
     (if x < unat (regs_size t)
      then case fuel of
             0 \<Rightarrow> Inl Spinning
           | Suc fuel \<Rightarrow>
               if length data < x then Inl Crash
               else let (n, rest, t) = target_reg_read i (drop x data) t
                    in regs_read_loop fuel (x + unat n) (i + 1) (take x data @ rest) t
      else Inr (data, t))"

definition target_regs_read :: "nat \<Rightarrow> u8 list \<Rightarrow> 'd target \<Rightarrow> (u8 list \<times> 'd target) result" where
  "target_regs_read fuel data t =
     (case regs_read_fn t of
        Some f \<Rightarrow> (let (data, d) = f data (t_dev t) in Inr (data, t\<lparr>t_dev := d\<rparr>))
      | None \<Rightarrow> regs_read_loop fuel 0 0 data t)"

fun regs_write_loop :: "nat \<Rightarrow> nat \<Rightarrow> u32 \<Rightarrow> u8 list \<Rightarrow> 'd target \<Rightarrow> 'd target result" where
  "regs_write_loop fuel x i data t =
     (if x < unat (regs_size t)
      then case fuel of
             0 \<Rightarrow> Inl Spinning
           | Suc fuel \<Rightarrow>
               if length data < x then Inl Crash
               else let (n, t) = target_reg_write i (drop x data) t
                    in regs_write_loop fuel (x + unat n) (i + 1) data t
      else Inr t)"

definition target_regs_write :: "nat \<Rightarrow> u8 list \<Rightarrow> 'd target \<Rightarrow> 'd target result" where
  "target_regs_write fuel data t =
     (case regs_write_fn t of
        Some f \<Rightarrow> Inr (t\<lparr>t_dev := f data (t_dev t)\<rparr>)
      | None \<Rightarrow> regs_write_loop fuel 0 0 data t)"

definition target_mem_read32 :: "u32 \<Rightarrow> u32 \<Rightarrow> 'd target \<Rightarrow> u32 \<times> 'd target" where
  "target_mem_read32 ret addr t =
     (let (bs, d) = mem_read_fn t addr 4 (le32 ret) (t_dev t) in (rd32 bs, t\<lparr>t_dev := d\<rparr>))"

definition target_mem_write32 :: "u32 \<Rightarrow> u32 \<Rightarrow> 'd target \<Rightarrow> 'd target" where
  "target_mem_write32 addr value t = t\<lparr>t_dev := mem_write_fn t addr (le32 value) (t_dev t)\<rparr>"

definition target_mem_read16 :: "u16 \<Rightarrow> u32 \<Rightarrow> 'd target \<Rightarrow> u16 \<times> 'd target" where
  "target_mem_read16 ret addr t =
     (let (bs, d) = mem_read_fn t addr 2 (le16 ret) (t_dev t) in (rd16 bs, t\<lparr>t_dev := d\<rparr>))"

definition target_mem_write16 :: "u32 \<Rightarrow> u16 \<Rightarrow> 'd target \<Rightarrow> 'd target" where
  "target_mem_write16 addr value t = t\<lparr>t_dev := mem_write_fn t addr (le16 value) (t_dev t)\<rparr>"

definition target_mem_read8 :: "u8 \<Rightarrow> u32 \<Rightarrow> 'd target \<Rightarrow> u8 \<times> 'd target" where
  "target_mem_read8 ret addr t =
     (let (bs, d) = mem_read_fn t addr 1 [ret] (t_dev t) in (hd bs, t\<lparr>t_dev := d\<rparr>))"

definition target_mem_write8 :: "u32 \<Rightarrow> u8 \<Rightarrow> 'd target \<Rightarrow> 'd target" where
  "target_mem_write8 addr value t = t\<lparr>t_dev := mem_write_fn t addr [value] (t_dev t)\<rparr>"

section \<open>Running and stopping\<close>

definition target_reset :: "'d target \<Rightarrow> 'd target" where
  "target_reset t = t\<lparr>t_dev := reset_fn t (t_dev t)\<rparr>"

definition target_halt_request :: "'d target \<Rightarrow> 'd target" where
  "target_halt_request t = t\<lparr>t_dev := halt_request_fn t (t_dev t)\<rparr>"

definition target_halt_poll :: "'d target \<Rightarrow> halt_reason \<times> u32 \<times> 'd target" where
  "target_halt_poll t =
     (let (r, watch, d) = halt_poll_fn t (t_dev t) in (r, watch, t\<lparr>t_dev := d\<rparr>))"

definition target_halt_resume :: "bool \<Rightarrow> 'd target \<Rightarrow> 'd target" where
  "target_halt_resume step t = t\<lparr>t_dev := halt_resume_fn t step (t_dev t)\<rparr>"

definition MAX_CMDLINE :: nat where "MAX_CMDLINE = 81"

text \<open>
  \<open>strncpy_s\<close> with 79 bytes of room and a limit of 79 characters calls the invalid parameter
  handler, which ends the process, when the text has 79 characters or more.
\<close>

definition target_set_cmdline :: "u8 list \<Rightarrow> 'd target \<Rightarrow> 'd target result" where
  "target_set_cmdline text t =
     (let len_dst = MAX_CMDLINE - 1 in
      if length text < len_dst - 1 then Inr (t\<lparr>cmdline := text\<rparr>) else Inl Exited)"

definition target_set_heapinfo :: "u32 \<Rightarrow> u32 \<Rightarrow> u32 \<Rightarrow> u32 \<Rightarrow> 'd target option \<Rightarrow> 'd target option" where
  "target_set_heapinfo heap_base heap_limit stack_base stack_limit p =
     map_option (\<lambda>t. t\<lparr>heapinfo := [heap_base, heap_limit, stack_base, stack_limit]\<rparr>) p"

section \<open>Break- and watchpoints\<close>

definition target_breakwatch_set ::
    "bool \<Rightarrow> u32 \<Rightarrow> u32 \<Rightarrow> u32 \<Rightarrow> 'd target \<Rightarrow> i32 \<times> 'd target" where
  "target_breakwatch_set malloc_ok ty addr len t =
     (let bw = \<lparr>bw_type = ty, bw_addr = addr, bw_size = len, bw_reserved = [0, 0, 0, 0]\<rparr>;
          (ret, bw, d) = (case breakwatch_set_fn t of
                            None \<Rightarrow> (1, bw, t_dev t)
                          | Some f \<Rightarrow> f bw (t_dev t));
          t = t\<lparr>t_dev := d\<rparr>
      in if ret = 0
         then if malloc_ok then (ret, t\<lparr>bw_list := bw # bw_list t\<rparr>) else (1, t)
         else (ret, t))"

definition bw_matches :: "u32 \<Rightarrow> u32 \<Rightarrow> u32 \<Rightarrow> breakwatch \<Rightarrow> bool" where
  "bw_matches ty addr len bw \<longleftrightarrow> bw_type bw = ty \<and> bw_addr bw = addr \<and> bw_size bw = len"

definition target_breakwatch_clear :: "u32 \<Rightarrow> u32 \<Rightarrow> u32 \<Rightarrow> 'd target \<Rightarrow> i32 \<times> 'd target" where
  "target_breakwatch_clear ty addr len t =
     (let before = takeWhile (\<lambda>bw. \<not> bw_matches ty addr len bw) (bw_list t);
          bw = dropWhile (\<lambda>bw. \<not> bw_matches ty addr len bw) (bw_list t)
      in if bw = [] then (-1, t)
         else let (ret, d) = (case breakwatch_clear_fn t of
                                None \<Rightarrow> (1, t_dev t)
                              | Some f \<Rightarrow> f bw (t_dev t));
                  t = t\<lparr>t_dev := d\<rparr>
              in if ret = 0 then (ret, t\<lparr>bw_list := before @ tl bw\<rparr>) else (ret, t))"

section \<open>Accessors\<close>

definition target_regs_size :: "'d target \<Rightarrow> u32" where "target_regs_size t = regs_size t"
definition target_tdesc :: "'d target \<Rightarrow> u8 list" where
  "target_tdesc t = (case tdesc t of Some s \<Rightarrow> s | None \<Rightarrow> [])"
definition target_driver_name :: "'d target \<Rightarrow> u8 list" where "target_driver_name t = driver t"
definition target_core_name :: "'d target \<Rightarrow> u8 list" where "target_core_name t = core t"
definition target_designer :: "'d target \<Rightarrow> u32" where "target_designer t = ucast (t_designer t)"
definition target_idcode :: "'d target \<Rightarrow> u32" where "target_idcode t = ucast (idcode t)"

section \<open>Monitor commands\<close>

definition tc_printf :: "(u8 list \<Rightarrow> 's \<Rightarrow> 's result) \<Rightarrow> 'd target \<Rightarrow> u8 list \<Rightarrow> 's \<Rightarrow> 's result" where
  "tc_printf printf t text s = (if has_tc t then printf text s else Inr s)"

definition target_command_help ::
    "(u8 list \<Rightarrow> 's \<Rightarrow> 's result) \<Rightarrow> 'd target \<Rightarrow> 's \<Rightarrow> 's result" where
  "target_command_help printf t s =
     foldR (\<lambda>(name, cmds) s.
       bindR (tc_printf printf t (name @ str '' specific commands:'' @ [10]) s)
         (foldR (\<lambda>c. tc_printf printf t ([9] @ cmd c @ str '' -- '' @ cmd_help c @ [10])) cmds))
       (commands t) s"

text \<open>The first command, in any group, of which \<open>argv[0]\<close> is a prefix.\<close>

definition target_command :: "u8 list list \<Rightarrow> 'd target \<Rightarrow> (i32 \<times> 'd target) result" where
  "target_command argv t =
     (let cs = concat (map snd (commands t)) in
      if cs = [] then Inr (-1, t)
      else if argv = [] then Inl Crash
      else case find (\<lambda>c. take (length (hd argv)) (cmd c) = hd argv) cs of
             None \<Rightarrow> Inr (-1, t)
           | Some c \<Rightarrow>
               let (ok, d) = handler c argv (t_dev t) in Inr (if ok then 0 else 1, t\<lparr>t_dev := d\<rparr>))"

section \<open>Calls to the host\<close>

text \<open>
  The controller: the functions of the debugger that a target can call, on the debugger's
  state \<open>'s\<close>. Each wrapper answers by itself when the debugger does not implement the call.
\<close>

type_synonym 's host_call = "u32 list \<Rightarrow> 's \<Rightarrow> (i32 \<times> 's) result"

record 's target_controller =
  tc_set_errno :: "u32 \<Rightarrow> 's \<Rightarrow> 's"
  open_fn :: "'s host_call option"
  close_fn :: "'s host_call option"
  read_fn :: "'s host_call option"
  write_fn :: "'s host_call option"
  lseek_fn :: "'s host_call option"
  rename_fn :: "'s host_call option"
  unlink_fn :: "'s host_call option"
  stat_fn :: "'s host_call option"
  fstat_fn :: "'s host_call option"
  gettimeofday_fn :: "'s host_call option"
  isatty_fn :: "'s host_call option"
  system_fn :: "'s host_call option"

definition TARGET_ENOENT :: u32 where "TARGET_ENOENT = 2"
definition TARGET_EBADF :: u32 where "TARGET_EBADF = 9"
definition TARGET_ENFILE :: u32 where "TARGET_ENFILE = 23"

definition host_or_error ::
    "'s target_controller \<Rightarrow> 's host_call option \<Rightarrow> u32 \<Rightarrow> u32 list \<Rightarrow> 's \<Rightarrow> (i32 \<times> 's) result" where
  "host_or_error tc f err args s =
     (case f of None \<Rightarrow> Inr (-1, tc_set_errno tc err s) | Some f \<Rightarrow> f args s)"

definition host_or :: "'s host_call option \<Rightarrow> i32 \<Rightarrow> u32 list \<Rightarrow> 's \<Rightarrow> (i32 \<times> 's) result" where
  "host_or f ret args s = (case f of None \<Rightarrow> Inr (ret, s) | Some f \<Rightarrow> f args s)"

definition tc_open :: "'s target_controller \<Rightarrow> u32 \<Rightarrow> u32 \<Rightarrow> u32 \<Rightarrow> u32 \<Rightarrow> 's \<Rightarrow> (i32 \<times> 's) result" where
  "tc_open tc path plen flags mode = host_or_error tc (open_fn tc) TARGET_ENFILE [path, plen, flags, mode]"

definition tc_close :: "'s target_controller \<Rightarrow> u32 \<Rightarrow> 's \<Rightarrow> (i32 \<times> 's) result" where
  "tc_close tc fd = host_or_error tc (close_fn tc) TARGET_EBADF [fd]"

definition tc_read :: "'s target_controller \<Rightarrow> u32 \<Rightarrow> u32 \<Rightarrow> u32 \<Rightarrow> 's \<Rightarrow> (i32 \<times> 's) result" where
  "tc_read tc fd buf count = host_or (read_fn tc) 0 [fd, buf, count]"

definition tc_write :: "'s target_controller \<Rightarrow> u32 \<Rightarrow> u32 \<Rightarrow> u32 \<Rightarrow> 's \<Rightarrow> (i32 \<times> 's) result" where
  "tc_write tc fd buf count = host_or (write_fn tc) 0 [fd, buf, count]"

definition tc_lseek :: "'s target_controller \<Rightarrow> u32 \<Rightarrow> u32 \<Rightarrow> u32 \<Rightarrow> 's \<Rightarrow> (i32 \<times> 's) result" where
  "tc_lseek tc fd offset flag = host_or (lseek_fn tc) 0 [fd, offset, flag]"

definition tc_rename :: "'s target_controller \<Rightarrow> u32 \<Rightarrow> u32 \<Rightarrow> u32 \<Rightarrow> u32 \<Rightarrow> 's \<Rightarrow> (i32 \<times> 's) result" where
  "tc_rename tc oldpath oldlen newpath newlen =
     host_or_error tc (rename_fn tc) TARGET_ENOENT [oldpath, oldlen, newpath, newlen]"

definition tc_unlink :: "'s target_controller \<Rightarrow> u32 \<Rightarrow> u32 \<Rightarrow> 's \<Rightarrow> (i32 \<times> 's) result" where
  "tc_unlink tc path plen = host_or_error tc (unlink_fn tc) TARGET_ENOENT [path, plen]"

definition tc_stat :: "'s target_controller \<Rightarrow> u32 \<Rightarrow> u32 \<Rightarrow> u32 \<Rightarrow> 's \<Rightarrow> (i32 \<times> 's) result" where
  "tc_stat tc path plen buf = host_or_error tc (stat_fn tc) TARGET_ENOENT [path, plen, buf]"

definition tc_fstat :: "'s target_controller \<Rightarrow> u32 \<Rightarrow> u32 \<Rightarrow> 's \<Rightarrow> (i32 \<times> 's) result" where
  "tc_fstat tc fd buf = host_or (fstat_fn tc) 0 [fd, buf]"

definition tc_gettimeofday :: "'s target_controller \<Rightarrow> u32 \<Rightarrow> u32 \<Rightarrow> 's \<Rightarrow> (i32 \<times> 's) result" where
  "tc_gettimeofday tc tv tz = host_or (gettimeofday_fn tc) (-1) [tv, tz]"

definition tc_isatty :: "'s target_controller \<Rightarrow> u32 \<Rightarrow> 's \<Rightarrow> (i32 \<times> 's) result" where
  "tc_isatty tc fd = host_or (isatty_fn tc) 1 [fd]"

definition tc_system :: "'s target_controller \<Rightarrow> u32 \<Rightarrow> u32 \<Rightarrow> 's \<Rightarrow> (i32 \<times> 's) result" where
  "tc_system tc text cmdlen = host_or (system_fn tc) (-1) [text, cmdlen]"

section \<open>The contract of a memory driver\<close>

text \<open>
  What the users of \<open>mem_read\<close> rely on: where every byte asked for is readable, the first
  \<open>len\<close> bytes of the buffer become the content of the memory, the rest of the buffer and
  the memory itself stay; and asking for errors does not change the memory.
\<close>

locale memory_reader =
  fixes rd :: "u32 \<Rightarrow> u32 \<Rightarrow> u8 list \<Rightarrow> 'd \<Rightarrow> u8 list \<times> 'd"
    and check :: "'d \<Rightarrow> bool \<times> 'd"
    and content :: "'d \<Rightarrow> memory"
    and ok :: "'d \<Rightarrow> bool"
    and readable :: "u32 \<Rightarrow> bool"
  assumes rd_ok: "ok d \<Longrightarrow> (\<And>i. i < unat n \<Longrightarrow> readable (a + of_nat i)) \<Longrightarrow> unat n \<le> length buf \<Longrightarrow>
      fst (rd a n buf d) = mem_load (content d) a (unat n) @ drop (unat n) buf \<and>
      content (snd (rd a n buf d)) = content d \<and> ok (snd (rd a n buf d))"
    and check_ok: "ok d \<Longrightarrow>
      \<not> fst (check d) \<and> content (snd (check d)) = content d \<and> ok (snd (check d))"
begin

text \<open>A target with this driver whose device works.\<close>

definition works :: "'d target \<Rightarrow> bool" where
  "works t \<longleftrightarrow> mem_read_fn t = rd \<and> check_error_fn t = check \<and> ok (t_dev t)"

lemma target_mem_read_bytes:
  assumes "works t" "unat n \<le> length buf" "\<And>i. i < unat n \<Longrightarrow> readable (a + of_nat i)"
  obtains d' where "target_mem_read buf a n t =
      (False, mem_load (content (t_dev t)) a (unat n) @ drop (unat n) buf, t\<lparr>t_dev := d'\<rparr>)"
    "content d' = content (t_dev t)" "works (t\<lparr>t_dev := d'\<rparr>)"
proof -
  obtain bs d where r: "rd a n buf (t_dev t) = (bs, d)" by fastforce
  obtain e d' where c: "check d = (e, d')" by fastforce
  have t: "mem_read_fn t = rd" "check_error_fn t = check" "ok (t_dev t)"
    using assms(1) by (simp_all add: works_def)
  have "bs = mem_load (content (t_dev t)) a (unat n) @ drop (unat n) buf" "content d = content (t_dev t)" "ok d"
    using rd_ok [OF t(3) assms(3,2)] r by auto
  moreover from this have "\<not> e" "content d' = content d" "ok d'" using check_ok [of d] c by auto
  ultimately show thesis
    using that [of d'] t r c by (simp add: target_mem_read_def target_check_error_def works_def)
qed

end

section \<open>The memory map as text\<close>

text \<open>What the XML memory map should be, and that the buffer holds it when it fits.\<close>

definition map_text :: "'d target \<Rightarrow> u8 list" where
  "map_text t = str ''<memory-map>'' @ concat (map ram_text (ram t)) @
     concat (map (\<lambda>f. flash_text f @ blocksize_text f) (flash t)) @ str ''</memory-map>''"

definition printed :: "u8 list \<Rightarrow> u8 list \<Rightarrow> u8 list \<times> u32" where
  "printed acc buf = (blit 0 (acc @ [0]) buf, of_nat (length acc))"

lemma blit_blit_adjacent:
  "length xs + length ys + length zs \<le> length buf \<Longrightarrow>
   blit (length xs) ys (blit 0 (xs @ zs) buf) =
     blit 0 (xs @ ys) (blit 0 (xs @ zs) buf)"
  by (simp add: blit_def)

lemma blit_longer:
  "length xs \<le> length ys \<Longrightarrow> length ys \<le> length buf \<Longrightarrow> blit 0 ys (blit 0 xs buf) = blit 0 ys buf"
  by (simp add: blit_def)

lemma emit_printed:
  assumes "length acc + length s < unat len" "unat len \<le> length buf"
  shows "emit len s (printed acc buf) = Inr (printed (acc @ s) buf)"
proof -
  have small: "length acc < 2 ^ 32" using assms(1) unat_u32_less [of len] by linarith
  have i: "unat (of_nat (length acc) :: u32) = length acc" by (rule unat_of_nat_u32 [OF small])
  have n: "unat (len - of_nat (length acc)) = unat len - length acc"
    using assms(1) by (intro unat_minus_nat) simp
  have nz: "len - of_nat (length acc) \<noteq> 0"
    using n assms(1) by (metis unat_0 zero_less_diff add_lessD1 less_numeral_extra(3))
  have "blit (length acc) (s @ [0]) (blit 0 (acc @ [0]) buf) = blit 0 (acc @ s @ [0]) buf"
  proof (cases "s = []")
    case True
    then show ?thesis using assms by (simp add: blit_def)
  next
    case False
    then have "length s \<noteq> 0" by simp
    then show ?thesis using assms by (simp add: blit_def min_def add.commute)
  qed
  then show ?thesis
    using assms i n nz by (simp add: emit_def printed_def Let_def length_blit)
qed

lemma foldR_printed:
  assumes step: "\<And>x acc. x \<in> set xs \<Longrightarrow> length acc + length (text x) < unat len \<Longrightarrow>
      f x (printed acc buf) = Inr (printed (acc @ text x) buf)"
    and "length acc + length (concat (map text xs)) < unat len"
  shows "foldR f xs (printed acc buf) = Inr (printed (acc @ concat (map text xs)) buf)"
  using assms
proof (induction xs arbitrary: acc)
  case Nil
  then show ?case by simp
next
  case (Cons x xs)
  have "f x (printed acc buf) = Inr (printed (acc @ text x) buf)"
    using Cons.prems(2) by (intro Cons.prems(1)) simp_all
  moreover have "foldR f xs (printed (acc @ text x) buf) =
      Inr (printed ((acc @ text x) @ concat (map text xs)) buf)"
    using Cons.prems by (intro Cons.IH) simp_all
  ultimately show ?case by simp
qed

lemma emit_first:
  assumes "length s < unat len" "unat len \<le> length buf"
  shows "emit len s (buf, 0) = Inr (printed s buf)"
proof -
  have "len \<noteq> 0" using assms(1) by auto
  with assms show ?thesis by (simp add: emit_def printed_def)
qed

lemma mem_map_printed:
  assumes "length (map_text t) < unat len" "unat len \<le> length buf"
  shows "target_mem_map t buf len =
    Inr (\<not> of_nat (length (map_text t)) > len - 2, blit 0 (map_text t @ [0]) buf)"
proof -
  define a z where "a = str ''<memory-map>''" and "z = str ''</memory-map>''"
  let ?r = "concat (map ram_text (ram t))"
  let ?f = "concat (map (\<lambda>f. flash_text f @ blocksize_text f) (flash t))"
  have xml: "map_text t = a @ ?r @ ?f @ z" by (simp add: map_text_def a_def z_def)
  then have len: "length a + length ?r + length ?f + length z < unat len"
    using assms(1) by simp
  have a: "emit len a (buf, 0) = Inr (printed a buf)"
    using len assms(2) by (intro emit_first) linarith+
  have r: "foldR (map_ram len) (ram t) (printed a buf) = Inr (printed (a @ ?r) buf)"
    by (rule foldR_printed [where len = len]) (use len assms(2) in \<open>auto simp: map_ram_def emit_printed\<close>)
  have f: "foldR (map_flash len) (flash t) (printed (a @ ?r) buf) = Inr (printed ((a @ ?r) @ ?f) buf)"
    by (rule foldR_printed [where len = len]) (use len assms(2) in \<open>auto simp: map_flash_def emit_printed\<close>)
  have z: "emit len z (printed ((a @ ?r) @ ?f) buf) = Inr (printed (map_text t) buf)"
    using emit_printed [of "(a @ ?r) @ ?f" z len buf] len assms(2) by (simp add: xml)
  show ?thesis
    unfolding target_mem_map_def a_def [symmetric] z_def [symmetric] a bindR_simps r f z
    by (simp add: printed_def)
qed

section \<open>Properties\<close>

text \<open>
  C25: the memory map that GDB is told is complete. When the XML text of the RAM and flash
  regions and its terminating zero fit into the first \<open>len\<close> bytes of the buffer,
  \<open>target_mem_map\<close> writes exactly that text and zero at its start, and nothing else; it reports
  success exactly when at least one more byte is left over.
\<close>

theorem mem_map_complete:
  assumes "length (map_text t) < unat len" "unat len \<le> length buf" "2 \<le> unat len"
  shows "\<exists>buf'. target_mem_map t buf len = Inr (length (map_text t) + 2 \<le> unat len, buf') \<and>
    take (Suc (length (map_text t))) buf' = map_text t @ [0] \<and>
    drop (Suc (length (map_text t))) buf' = drop (Suc (length (map_text t))) buf"
proof -
  have small: "length (map_text t) < 2 ^ 32" using assms(1) unat_u32_less [of len] by linarith
  have "unat (len - of_nat 2) = unat len - 2" using assms(3) by (rule unat_minus_nat)
  then have "(\<not> of_nat (length (map_text t)) > len - 2) = (length (map_text t) + 2 \<le> unat len)"
    using unat_of_nat_u32 [OF small] assms(3) by (auto simp: word_less_nat_alt)
  then have m: "target_mem_map t buf len =
      Inr (length (map_text t) + 2 \<le> unat len, blit 0 (map_text t @ [0]) buf)"
    using mem_map_printed [OF assms(1,2)] by simp
  show ?thesis
    using assms(1,2)
    by (intro exI [of _ "blit 0 (map_text t @ [0]) buf"]) (simp add: m blit_def)
qed

theorem mem_map_complete_witness:
  "let t = (nop_target 0 ())\<lparr>ram := [\<lparr>ram_start = 0x20000000, ram_length = 0x5000\<rparr>]\<rparr> in
   \<exists>buf'. target_mem_map t (replicate 1024 0) 1024 = Inr (True, buf') \<and>
     take (Suc (length (map_text t))) buf' = map_text t @ [0]"
proof -
  let ?t = "(nop_target 0 ())\<lparr>ram := [\<lparr>ram_start = 0x20000000, ram_length = 0x5000\<rparr>]\<rparr>"
  have len: "length (map_text ?t) < 1000"
    using length_fmt_x(1) [of "0x5000"] length_fmt_08(1) [of "0x20000000"]
    by (simp add: map_text_def nop_target_def ram_text_def)
  then show ?thesis
    using mem_map_complete [of ?t 1024 "replicate 1024 0"] by auto
qed

end
