(* ===== verification/Crc32.thy ===== *)
theory Crc32
  imports Target_Core
begin

text \<open>
  \<^verbatim>\<open>GdbServer/Gdb/crc32.c\<close> as the hosted build compiles it: the table-driven CRC-32 that
  answers GDB's \<open>qCRC\<close> packet. The file's other branch, for the probe firmware, computes the
  last bytes bit by bit with the polynomial \<open>0x4C11DB7\<close>; it is the reference here. The
  theory proves that the two agree, for every state and byte, and that the loop over
  128-byte blocks computes the CRC of the target's memory.
\<close>

section \<open>The table and the loop\<close>

definition crc32_table :: "u32 list" where
  "crc32_table = [
    0x00000000, 0x04C11DB7, 0x09823B6E, 0x0D4326D9, 0x130476DC, 0x17C56B6B,
    0x1A864DB2, 0x1E475005, 0x2608EDB8, 0x22C9F00F, 0x2F8AD6D6, 0x2B4BCB61,
    0x350C9B64, 0x31CD86D3, 0x3C8EA00A, 0x384FBDBD, 0x4C11DB70, 0x48D0C6C7,
    0x4593E01E, 0x4152FDA9, 0x5F15ADAC, 0x5BD4B01B, 0x569796C2, 0x52568B75,
    0x6A1936C8, 0x6ED82B7F, 0x639B0DA6, 0x675A1011, 0x791D4014, 0x7DDC5DA3,
    0x709F7B7A, 0x745E66CD, 0x9823B6E0, 0x9CE2AB57, 0x91A18D8E, 0x95609039,
    0x8B27C03C, 0x8FE6DD8B, 0x82A5FB52, 0x8664E6E5, 0xBE2B5B58, 0xBAEA46EF,
    0xB7A96036, 0xB3687D81, 0xAD2F2D84, 0xA9EE3033, 0xA4AD16EA, 0xA06C0B5D,
    0xD4326D90, 0xD0F37027, 0xDDB056FE, 0xD9714B49, 0xC7361B4C, 0xC3F706FB,
    0xCEB42022, 0xCA753D95, 0xF23A8028, 0xF6FB9D9F, 0xFBB8BB46, 0xFF79A6F1,
    0xE13EF6F4, 0xE5FFEB43, 0xE8BCCD9A, 0xEC7DD02D, 0x34867077, 0x30476DC0,
    0x3D044B19, 0x39C556AE, 0x278206AB, 0x23431B1C, 0x2E003DC5, 0x2AC12072,
    0x128E9DCF, 0x164F8078, 0x1B0CA6A1, 0x1FCDBB16, 0x018AEB13, 0x054BF6A4,
    0x0808D07D, 0x0CC9CDCA, 0x7897AB07, 0x7C56B6B0, 0x71159069, 0x75D48DDE,
    0x6B93DDDB, 0x6F52C06C, 0x6211E6B5, 0x66D0FB02, 0x5E9F46BF, 0x5A5E5B08,
    0x571D7DD1, 0x53DC6066, 0x4D9B3063, 0x495A2DD4, 0x44190B0D, 0x40D816BA,
    0xACA5C697, 0xA864DB20, 0xA527FDF9, 0xA1E6E04E, 0xBFA1B04B, 0xBB60ADFC,
    0xB6238B25, 0xB2E29692, 0x8AAD2B2F, 0x8E6C3698, 0x832F1041, 0x87EE0DF6,
    0x99A95DF3, 0x9D684044, 0x902B669D, 0x94EA7B2A, 0xE0B41DE7, 0xE4750050,
    0xE9362689, 0xEDF73B3E, 0xF3B06B3B, 0xF771768C, 0xFA325055, 0xFEF34DE2,
    0xC6BCF05F, 0xC27DEDE8, 0xCF3ECB31, 0xCBFFD686, 0xD5B88683, 0xD1799B34,
    0xDC3ABDED, 0xD8FBA05A, 0x690CE0EE, 0x6DCDFD59, 0x608EDB80, 0x644FC637,
    0x7A089632, 0x7EC98B85, 0x738AAD5C, 0x774BB0EB, 0x4F040D56, 0x4BC510E1,
    0x46863638, 0x42472B8F, 0x5C007B8A, 0x58C1663D, 0x558240E4, 0x51435D53,
    0x251D3B9E, 0x21DC2629, 0x2C9F00F0, 0x285E1D47, 0x36194D42, 0x32D850F5,
    0x3F9B762C, 0x3B5A6B9B, 0x0315D626, 0x07D4CB91, 0x0A97ED48, 0x0E56F0FF,
    0x1011A0FA, 0x14D0BD4D, 0x19939B94, 0x1D528623, 0xF12F560E, 0xF5EE4BB9,
    0xF8AD6D60, 0xFC6C70D7, 0xE22B20D2, 0xE6EA3D65, 0xEBA91BBC, 0xEF68060B,
    0xD727BBB6, 0xD3E6A601, 0xDEA580D8, 0xDA649D6F, 0xC423CD6A, 0xC0E2D0DD,
    0xCDA1F604, 0xC960EBB3, 0xBD3E8D7E, 0xB9FF90C9, 0xB4BCB610, 0xB07DABA7,
    0xAE3AFBA2, 0xAAFBE615, 0xA7B8C0CC, 0xA379DD7B, 0x9B3660C6, 0x9FF77D71,
    0x92B45BA8, 0x9675461F, 0x8832161A, 0x8CF30BAD, 0x81B02D74, 0x857130C3,
    0x5D8A9099, 0x594B8D2E, 0x5408ABF7, 0x50C9B640, 0x4E8EE645, 0x4A4FFBF2,
    0x470CDD2B, 0x43CDC09C, 0x7B827D21, 0x7F436096, 0x7200464F, 0x76C15BF8,
    0x68860BFD, 0x6C47164A, 0x61043093, 0x65C52D24, 0x119B4BE9, 0x155A565E,
    0x18197087, 0x1CD86D30, 0x029F3D35, 0x065E2082, 0x0B1D065B, 0x0FDC1BEC,
    0x3793A651, 0x3352BBE6, 0x3E119D3F, 0x3AD08088, 0x2497D08D, 0x2056CD3A,
    0x2D15EBE3, 0x29D4F654, 0xC5A92679, 0xC1683BCE, 0xCC2B1D17, 0xC8EA00A0,
    0xD6AD50A5, 0xD26C4D12, 0xDF2F6BCB, 0xDBEE767C, 0xE3A1CBC1, 0xE760D676,
    0xEA23F0AF, 0xEEE2ED18, 0xF0A5BD1D, 0xF464A0AA, 0xF9278673, 0xFDE69BC4,
    0x89B8FD09, 0x8D79E0BE, 0x803AC667, 0x84FBDBD0, 0x9ABC8BD5, 0x9E7D9662,
    0x933EB0BB, 0x97FFAD0C, 0xAFB010B1, 0xAB710D06, 0xA6322BDF, 0xA2F33668,
    0xBCB4666D, 0xB8757BDA, 0xB5365D03, 0xB1F740B4]"

definition crc32_calc :: "u32 \<Rightarrow> u8 \<Rightarrow> u32" where
  "crc32_calc crc data =
     push_bit 8 crc XOR crc32_table ! unat ((drop_bit 24 crc XOR ucast data) AND 255)"

lemma block_part:
  fixes len :: u32
  assumes "len \<noteq> 0"
  shows "unat (min 128 len) \<le> 128" "unat (min 128 len) \<le> unat len" "0 < unat (min 128 len)"
    "unat (len - min 128 len) = unat len - unat (min 128 len)"
proof -
  have le: "min 128 len \<le> len" "min 128 len \<le> 128" by simp_all
  then show "unat (min 128 len) \<le> unat len" "unat (len - min 128 len) = unat len - unat (min 128 len)"
    by (simp_all add: word_le_nat_alt unat_sub)
  show "unat (min 128 len) \<le> 128" using le(2) unfolding word_le_nat_alt by simp
  have "min 128 len \<noteq> 0" using assms by (simp add: min_def)
  then show "0 < unat (min 128 len)" by (simp add: unat_gt_0)
qed

text \<open>\<open>bytes\<close> is the local array of 128 bytes, uninitialised at the start.\<close>

function generic_crc32_loop ::
    "u32 \<Rightarrow> u8 list \<Rightarrow> u32 \<Rightarrow> u32 \<Rightarrow> 'd target \<Rightarrow> u32 \<times> 'd target" where
  "generic_crc32_loop crc bytes base len t =
     (if len = 0 then (crc, t)
      else let read_len = min 128 len;
               (_, bytes, t) = target_mem_read bytes base read_len t;
               crc = fold (\<lambda>b crc. crc32_calc crc b) (take (unat read_len) bytes) crc
           in generic_crc32_loop crc bytes (base + read_len) (len - read_len) t)"
  by pat_completeness auto
termination
proof (relation "measure (\<lambda>(crc, bytes, base, len, t). unat len)", goal_cases)
  case 1
  then show ?case by simp
next
  case (2 crc bytes base len t)
  then show ?case using block_part [of len] by simp
qed

declare generic_crc32_loop.simps [simp del]

definition generic_crc32 :: "u8 list \<Rightarrow> u32 \<Rightarrow> u32 \<Rightarrow> 'd target \<Rightarrow> u32 \<times> 'd target" where
  "generic_crc32 bytes base len t = generic_crc32_loop (-1) bytes base len t"

section \<open>The bitwise CRC\<close>

definition crc_bit :: "u32 \<Rightarrow> u32" where
  "crc_bit crc = (if crc AND 0x80000000 \<noteq> 0 then push_bit 1 crc XOR 0x4C11DB7 else push_bit 1 crc)"

definition crc_byte :: "u32 \<Rightarrow> u8 \<Rightarrow> u32" where
  "crc_byte crc data = (crc_bit ^^ 8) (crc XOR push_bit 24 (ucast data))"

text \<open>The reference: the CRC of a byte sequence, bit by bit.\<close>

definition crc_bytes :: "u8 list \<Rightarrow> u32" where
  "crc_bytes bs = fold (\<lambda>b crc. crc_byte crc b) bs (-1)"

section \<open>The table is the bitwise CRC of its index\<close>

lemma crc_bit8:
  "(crc_bit ^^ 8) x = crc_bit (crc_bit (crc_bit (crc_bit (crc_bit (crc_bit (crc_bit (crc_bit x)))))))"
  by (simp add: eval_nat_numeral)

lemma upt_256: "[0..<256] = 0 # 1 # [2..<256]"
  by (simp add: upt_conv_Cons numeral_2_eq_2)

definition crc_entry :: "nat \<Rightarrow> u32" where
  "crc_entry k = (crc_bit ^^ 8) (push_bit 24 (of_nat k))"

lemma crc32_table_bitwise: "crc32_table = map crc_entry [0..<256]"
  unfolding upt_256 by (simp add: crc_entry_def crc_bit8 crc_bit_def crc32_table_def)

section \<open>The two agree\<close>

lemma top_bit: "c AND 0x80000000 \<noteq> 0 \<longleftrightarrow> bit (c :: u32) 31"
proof -
  have "(0x80000000 :: u32) = 2 ^ 31" by simp
  then show ?thesis by (simp only: and_exp_eq_0_iff_not_bit not_not)
qed

lemma crc_bit_alt:
  "crc_bit c = push_bit 1 c XOR (if bit c 31 then 0x4C11DB7 else 0)"
  by (simp add: crc_bit_def top_bit)

lemma crc_bit_xor: "crc_bit (a XOR b) = crc_bit a XOR crc_bit b"
  by (simp add: crc_bit_alt bit_xor_iff push_bit_xor ac_simps)

lemma crc_bits_xor: "(crc_bit ^^ n) (a XOR b) = (crc_bit ^^ n) a XOR (crc_bit ^^ n) b"
  by (induction n) (simp_all add: crc_bit_xor)

lemma crc_bits_low:
  "k \<le> 8 \<Longrightarrow> (crc_bit ^^ k) (take_bit 24 c) = push_bit k (take_bit 24 c)"
proof (induction k)
  case 0
  then show ?case by simp
next
  case (Suc k)
  then have "\<not> 31 - k < 24" by simp
  then have "\<not> bit (push_bit k (take_bit 24 c)) 31" by (simp add: bit_simps)
  then have "crc_bit (push_bit k (take_bit 24 c)) = push_bit (Suc k) (take_bit 24 c)"
    by (simp add: crc_bit_alt push_bit_double)
  with Suc show ?case by simp
qed

lemma split_top_byte:
  "crc XOR push_bit 24 (ucast (d :: u8)) =
    push_bit 24 ((drop_bit 24 crc XOR ucast d) AND 255) XOR take_bit 24 (crc :: u32)"
proof -
  have m: "(255 :: u32) = mask 8" by (simp add: mask_eq_exp_minus_1)
  show ?thesis
    unfolding m by (rule bit_word_eqI) (auto simp: bit_simps)
qed

lemma crc32_calc_bitwise: "crc32_calc crc d = crc_byte crc d"
proof -
  let ?i = "(drop_bit 24 crc XOR ucast d) AND 255"
  have i: "unat ?i < 256"
    using word_and_le1 [of "drop_bit 24 crc XOR ucast d" "255 :: u32"]
    by (simp add: word_le_nat_alt)
  have "crc32_table ! unat ?i = (crc_bit ^^ 8) (push_bit 24 ?i)"
    unfolding crc32_table_bitwise using i by (simp add: crc_entry_def)
  moreover have "push_bit 8 (take_bit 24 crc) = push_bit 8 crc"
    by (rule bit_word_eqI) (auto simp: bit_simps)
  ultimately show ?thesis
    unfolding crc32_calc_def crc_byte_def split_top_byte crc_bits_xor
    by (simp add: crc_bits_low xor.commute)
qed

lemma fold_crc32: "fold (\<lambda>b crc. crc32_calc crc b) bs crc = fold (\<lambda>b crc. crc_byte crc b) bs crc"
  by (simp add: crc32_calc_bitwise)

context memory_reader
begin

lemma crc32_loop:
  assumes "works t" "length bytes = 128"
    and "\<And>i. i < unat len \<Longrightarrow> readable (base + of_nat i)"
  shows "fst (generic_crc32_loop crc bytes base len t) =
    fold (\<lambda>b crc. crc_byte crc b) (mem_load (content (t_dev t)) base (unat len)) crc"
  using assms
proof (induction crc bytes base len t rule: generic_crc32_loop.induct)
  case (1 crc bytes base len t)
  show ?case
  proof (cases "len = 0")
    case True
    then show ?thesis by (simp add: generic_crc32_loop.simps)
  next
    case False
    let ?n = "min 128 len"
    let ?bs = "mem_load (content (t_dev t)) base (unat ?n)"
    note part = block_part [OF False]
    have small: "unat ?n \<le> length bytes" using part(1) "1.prems"(2) by simp
    have rdb: "readable (base + of_nat i)" if "i < unat ?n" for i
      using "1.prems"(3) that part(2) by simp
    obtain d' where r: "target_mem_read bytes base ?n t =
        (False, ?bs @ drop (unat ?n) bytes, t\<lparr>t_dev := d'\<rparr>)"
      and t': "content d' = content (t_dev t)" "works (t\<lparr>t_dev := d'\<rparr>)"
      by (rule target_mem_read_bytes [OF "1.prems"(1) small rdb])
    let ?t = "t\<lparr>t_dev := d'\<rparr>"
    let ?bytes = "?bs @ drop (unat ?n) bytes"
    have len: "length ?bytes = 128" using small "1.prems"(2) by simp
    have rest: "readable (base + ?n + of_nat i)" if "i < unat (len - ?n)" for i
      using "1.prems"(3) [of "unat ?n + i"] that part(2,4) by (simp add: add.assoc)
    have "fst (generic_crc32_loop (fold (\<lambda>b crc. crc32_calc crc b) ?bs crc) ?bytes (base + ?n) (len - ?n) ?t) =
        fold (\<lambda>b crc. crc_byte crc b) (mem_load (content (t_dev t)) (base + ?n) (unat (len - ?n)))
          (fold (\<lambda>b crc. crc32_calc crc b) ?bs crc)"
      using "1.IH" [OF False refl refl r [symmetric] refl refl t'(2) len rest] t'(1) by simp
    moreover have "mem_load (content (t_dev t)) base (unat len) =
        ?bs @ mem_load (content (t_dev t)) (base + ?n) (unat (len - ?n))"
      using mem_load_add [of _ base "unat ?n" "unat (len - ?n)"] part(2,4) by simp
    ultimately show ?thesis
      using False r by (subst generic_crc32_loop.simps) (simp add: Let_def fold_crc32)
  qed
qed

lemma crc32_memory:
  assumes "works t" "length bytes = 128"
    and "\<And>i. i < unat len \<Longrightarrow> readable (base + of_nat i)"
  shows "fst (generic_crc32 bytes base len t) = crc_bytes (mem_load (content (t_dev t)) base (unat len))"
  unfolding generic_crc32_def crc_bytes_def by (rule crc32_loop [OF assms])

end

section \<open>Properties\<close>

text \<open>
  C28: the table-driven step is the CRC-32 step with the polynomial \<open>0x4C11DB7\<close>, most
  significant bit first: for every state and every byte, \<open>crc32_calc\<close> gives what shifting the
  byte in bit by bit gives, so the two branches of the file compute the same checksum.
\<close>

theorem crc32_calc_is_crc:
  "crc32_calc crc data =
    (crc_bit ^^ 8) (crc XOR push_bit 24 (ucast data))"
  by (simp only: crc32_calc_bitwise crc_byte_def)

end
