(* ===== verification/Command.thy ===== *)
theory Command
  imports Target_Core
begin

text \<open>
  \<^verbatim>\<open>GdbServer/Gdb/command.c\<close>: splitting a monitor command into its words and handing them to the
  target. (The built-in commands of the file are compiled out.)
\<close>

definition is_blank :: "u8 \<Rightarrow> bool" where
  "is_blank c \<longleftrightarrow> c = 0x20 \<or> c = 9"

text \<open>The words that \<open>strtok(cmd, " \t")\<close> delivers one after the other.\<close>

function strtok_words :: "u8 list \<Rightarrow> u8 list list" where
  "strtok_words s =
     (case dropWhile is_blank s of
        [] \<Rightarrow> []
      | c # cs \<Rightarrow> (c # takeWhile (\<lambda>c. \<not> is_blank c) cs) # strtok_words (dropWhile (\<lambda>c. \<not> is_blank c) cs))"
  by pat_completeness auto
termination
proof (relation "measure length", goal_cases)
  case 1
  then show ?case by simp
next
  case (2 s c cs)
  have "length (dropWhile (\<lambda>c. \<not> is_blank c) cs) \<le> length cs" by (rule length_dropWhile_le)
  moreover have "Suc (length cs) \<le> length s"
    using length_dropWhile_le [of is_blank s] 2 by simp
  ultimately show ?case by simp
qed

declare strtok_words.simps [simp del]

text \<open>\<open>argv\<close> has room for one word more than the command has blanks.\<close>

definition argc_estimate :: "u8 list \<Rightarrow> nat" where
  "argc_estimate s = Suc (length (filter is_blank s))"

definition command_process :: "'d target option \<Rightarrow> u8 list \<Rightarrow> (i32 \<times> 'd target option) result" where
  "command_process t buf =
     (let s = c_string buf;
          argv = strtok_words s
      in if argc_estimate s < length argv then Inl Crash
         else case t of
                None \<Rightarrow> Inr (-1, None)
              | Some t \<Rightarrow> bindR (target_command argv t) (\<lambda>(c, t). Inr (c, Some t)))"

section \<open>The words\<close>

lemma strtok_words_none: "dropWhile is_blank s = [] \<Longrightarrow> strtok_words s = []"
  by (subst strtok_words.simps) (simp only: list.case)

lemma strtok_words_step:
  "dropWhile is_blank s = c # cs \<Longrightarrow> strtok_words s =
    (c # takeWhile (\<lambda>c. \<not> is_blank c) cs) # strtok_words (dropWhile (\<lambda>c. \<not> is_blank c) cs)"
  by (subst strtok_words.simps) (simp only: list.case)

lemma strtok_words_Nil [simp]: "strtok_words [] = []"
  by (rule strtok_words_none) simp

lemma strtok_words_bound:
  "length (strtok_words s) \<le> argc_estimate s \<and>
   (s \<noteq> [] \<and> is_blank (hd s) \<longrightarrow> length (strtok_words s) \<le> length (filter is_blank s))"
proof (induction s rule: strtok_words.induct)
  case (1 s)
  show ?case
  proof (cases "dropWhile is_blank s")
    case Nil
    then show ?thesis using strtok_words_none [OF Nil] by simp
  next
    case (Cons c cs)
    let ?rest = "dropWhile (\<lambda>c. \<not> is_blank c) cs"
    have "\<not> is_blank c" using Cons by (metis hd_dropWhile list.distinct(1) list.sel(1))
    then have "filter is_blank s = takeWhile is_blank s @ filter is_blank cs"
      using takeWhile_dropWhile_id [of is_blank s, symmetric] Cons
      by (metis filter.simps(2) filter_append filter_True set_takeWhileD)
    moreover have "filter is_blank cs = filter is_blank ?rest"
      by (induction cs) auto
    ultimately have blanks: "filter is_blank s = takeWhile is_blank s @ filter is_blank ?rest" by simp
    have words: "length (strtok_words s) = Suc (length (strtok_words ?rest))"
      using strtok_words_step [OF Cons] by simp
    have "length (strtok_words ?rest) \<le> length (filter is_blank ?rest)"
    proof (cases "?rest = []")
      case True
      show ?thesis unfolding True by simp
    next
      case False
      then have "is_blank (hd ?rest)" using hd_dropWhile [OF False] by simp
      with False show ?thesis using "1.IH" [OF Cons] by (elim conjE) (erule mp, rule conjI)
    qed
    moreover have "s \<noteq> [] \<and> is_blank (hd s) \<Longrightarrow> 1 \<le> length (takeWhile is_blank s)"
      by (cases s) auto
    ultimately show ?thesis
      using words arg_cong [OF blanks, of length] unfolding argc_estimate_def length_append by linarith
  qed
qed

lemma command_process_words:
  "command_process t buf =
    (case t of
       None \<Rightarrow> Inr (-1, None)
     | Some t \<Rightarrow> bindR (target_command (strtok_words (c_string buf)) t) (\<lambda>(c, t). Inr (c, Some t)))"
  using strtok_words_bound [of "c_string buf"] by (simp add: command_process_def Let_def)

text \<open>The words are the maximal runs of characters that are not blanks.\<close>

lemma strtok_words_plain:
  "w \<in> set (strtok_words s) \<Longrightarrow> w \<noteq> [] \<and> (\<forall>c \<in> set w. \<not> is_blank c)"
proof (induction s rule: strtok_words.induct)
  case (1 s)
  show ?case
  proof (cases "dropWhile is_blank s")
    case Nil
    with "1.prems" show ?thesis using strtok_words_none [OF Nil] by simp
  next
    case (Cons c cs)
    have "\<not> is_blank c" using Cons by (metis hd_dropWhile list.distinct(1) list.sel(1))
    moreover have "w = c # takeWhile (\<lambda>c. \<not> is_blank c) cs \<or>
        w \<in> set (strtok_words (dropWhile (\<lambda>c. \<not> is_blank c) cs))"
      using "1.prems" strtok_words_step [OF Cons] by simp
    ultimately show ?thesis
    proof (elim disjE)
      assume "\<not> is_blank c" "w = c # takeWhile (\<lambda>c. \<not> is_blank c) cs"
      then show ?thesis by (auto dest: set_takeWhileD)
    next
      assume "w \<in> set (strtok_words (dropWhile (\<lambda>c. \<not> is_blank c) cs))"
      then show ?thesis by (rule "1.IH" [OF Cons])
    qed
  qed
qed

lemma strtok_words_content:
  "concat (strtok_words s) = filter (\<lambda>c. \<not> is_blank c) s"
proof (induction s rule: strtok_words.induct)
  case (1 s)
  show ?case
  proof (cases "dropWhile is_blank s")
    case Nil
    then show ?thesis
      using strtok_words_none [OF Nil] by (simp add: dropWhile_eq_Nil_conv filter_empty_conv)
  next
    case (Cons c cs)
    have c: "\<not> is_blank c" using Cons by (metis hd_dropWhile list.distinct(1) list.sel(1))
    have "filter (\<lambda>c. \<not> is_blank c) s = filter (\<lambda>c. \<not> is_blank c) (c # cs)"
      unfolding Cons [symmetric] by (induction s) auto
    also have "\<dots> = c # takeWhile (\<lambda>c. \<not> is_blank c) cs @
        filter (\<lambda>c. \<not> is_blank c) (dropWhile (\<lambda>c. \<not> is_blank c) cs)"
      using c by (induction cs) auto
    finally show ?thesis
      using "1.IH" [OF Cons] strtok_words_step [OF Cons] by simp
  qed
qed

section \<open>Properties\<close>



end
