(* ===== verification/Mmio.thy ===== *)
theory Mmio
  imports Prelude
begin

text \<open>
  Memory-mapped input and output of the probe firmware (\<^verbatim>\<open>Bootloader/\<close>). The address space of
  the microcontroller is an argument of every definition that touches it: a \<open>bus\<close> on a state
  \<open>'h\<close> of the hardware, with one function to load and one to store 1, 2 or 4 bytes. Loads
  return the hardware state as well, since reading a register can change it. The macros
  \<open>MMIO32(a) |= v\<close> and \<open>MMIO32(a) &= ~v\<close> of the code are a load followed by a store, which
  is what the compiler makes of them. A polling loop may spin for ever: it is a partial
  function, and \<open>None\<close> means that it never ends.
\<close>

section \<open>The bus\<close>

record 'h bus =
  bus_read :: "nat \<Rightarrow> u32 \<Rightarrow> 'h \<Rightarrow> u32 \<times> 'h"
  bus_write :: "nat \<Rightarrow> u32 \<Rightarrow> u32 \<Rightarrow> 'h \<Rightarrow> 'h"

definition mmio_read :: "'h bus \<Rightarrow> u32 \<Rightarrow> 'h \<Rightarrow> u32 \<times> 'h" where
  "mmio_read b a h = bus_read b 4 a h"

definition mmio_write :: "'h bus \<Rightarrow> u32 \<Rightarrow> u32 \<Rightarrow> 'h \<Rightarrow> 'h" where
  "mmio_write b a v h = bus_write b 4 a v h"

text \<open>\<open>|=\<close>, \<open>&= ~\<close>, and the general read-modify-write.\<close>

definition mmio_modify :: "'h bus \<Rightarrow> u32 \<Rightarrow> (u32 \<Rightarrow> u32) \<Rightarrow> 'h \<Rightarrow> 'h" where
  "mmio_modify b a f h = (let (x, h) = mmio_read b a h in mmio_write b a (f x) h)"

definition mmio_set :: "'h bus \<Rightarrow> u32 \<Rightarrow> u32 \<Rightarrow> 'h \<Rightarrow> 'h" where
  "mmio_set b a v = mmio_modify b a (\<lambda>x. x OR v)"

definition mmio_clear :: "'h bus \<Rightarrow> u32 \<Rightarrow> u32 \<Rightarrow> 'h \<Rightarrow> 'h" where
  "mmio_clear b a v = mmio_modify b a (\<lambda>x. x AND NOT v)"

text \<open>\<open>while (MMIO32(a) & v);\<close>\<close>

partial_function (option) mmio_wait :: "'h bus \<Rightarrow> u32 \<Rightarrow> u32 \<Rightarrow> 'h \<Rightarrow> 'h option" where
  "mmio_wait b a v h =
     (case mmio_read b a h of (x, h) \<Rightarrow> if x AND v \<noteq> 0 then mmio_wait b a v h else Some h)"

lemmas mmio_simps = mmio_set_def mmio_clear_def mmio_modify_def mmio_write_def mmio_read_def

section \<open>Ordinary memory\<close>

text \<open>Loading and storing a little-endian number of 1, 2 or 4 bytes.\<close>

definition load_le :: "nat \<Rightarrow> u32 \<Rightarrow> memory \<Rightarrow> u32" where
  "load_le n a m =
     (if n = 1 then ucast (m a) else if n = 2 then ucast (rd16 (mem_load m a 2)) else rd32 (mem_load m a 4))"

definition bytes_le :: "nat \<Rightarrow> u32 \<Rightarrow> u8 list" where
  "bytes_le n v = (if n = 1 then [ucast v] else if n = 2 then le16 (ucast v) else le32 v)"

definition store_le :: "nat \<Rightarrow> u32 \<Rightarrow> u32 \<Rightarrow> memory \<Rightarrow> memory" where
  "store_le n a v m = overlay a (bytes_le n v) m"

lemma length_bytes_le [simp]: "n \<in> {1, 2, 4} \<Longrightarrow> length (bytes_le n v) = n"
  by (auto simp: bytes_le_def)

lemma list2: "length bs = 2 \<Longrightarrow> \<exists>a b. bs = [a, b]"
  by (auto simp: length_Suc_conv numeral_2_eq_2)

lemma list4: "length bs = 4 \<Longrightarrow> \<exists>a b c d. bs = [a, b, c, d]"
  by (auto simp: length_Suc_conv eval_nat_numeral)

lemma not_bit_u8: "8 \<le> n \<Longrightarrow> \<not> bit (w :: u8) n"
  using bit_imp_le_length [of w n] by auto

lemma le16_rd16 [le_simps]: "length bs = 2 \<Longrightarrow> le16 (rd16 bs) = bs"
  by (drule list2) (auto simp: le16_def rd16_def intro!: bit_word_eqI simp: bit_simps not_bit_u8)

lemma le32_rd32 [le_simps]: "length bs = 4 \<Longrightarrow> le32 (rd32 bs) = bs"
  by (drule list4) (auto simp: le32_def rd32_def intro!: bit_word_eqI simp: bit_simps not_bit_u8)

text \<open>The bytes of the number that was loaded are the bytes in memory.\<close>

lemma bytes_load_le: "n \<in> {1, 2, 4} \<Longrightarrow> bytes_le n (load_le n a m) = mem_load m a n"
proof -
  have u16: "ucast (ucast (w :: u16) :: u32) = w" for w
    by (rule bit_word_eqI) (auto simp: bit_simps)
  have u8: "ucast (ucast (w :: u8) :: u32) = w" for w
    by (rule bit_word_eqI) (auto simp: bit_simps)
  show "n \<in> {1, 2, 4} \<Longrightarrow> ?thesis"
    by (auto simp: bytes_le_def load_le_def le_simps u16 u8) (simp add: mem_load_def)
qed

lemma u32_u16: "ucast (ucast (w :: u16) :: u32) = w"
  by (rule bit_word_eqI) (auto simp: bit_simps)

lemma load_store_same: "load_le 4 a (store_le 4 a v m) = v"
  using mem_load_overlay [of "le32 v" a m] rd32_le32 [of v "[]"]
  by (simp add: load_le_def store_le_def bytes_le_def)

lemma load_store_other:
  assumes "4 \<le> unat (a - c)" "4 \<le> unat (c - a)"
  shows "load_le 4 a (store_le 4 c v m) = load_le 4 a m"
proof -
  have "4 \<le> unat (a + of_nat i - c)" if "i < 4" for i
  proof -
    have e: "a - c = - (c - a)" by simp
    have "unat (a - c) = 2 ^ 32 - unat (c - a)"
      using assms(2) unat_minus_nat_wrap [of 0 "unat (c - a)"] unat_u32_less [of "c - a"] by simp
    then have "unat (a - c) + i < 2 ^ 32" using assms(2) that unat_u32_less [of "c - a"] by simp
    then have "unat ((a - c) + of_nat i) = unat (a - c) + i"
      using that by (simp add: unat_word_ariths unat_of_nat)
    moreover have "a + of_nat i - c = (a - c) + of_nat i" by simp
    ultimately have "unat (a + of_nat i - c) = unat (a - c) + i" by (simp only:)
    then show ?thesis using assms(1) by simp
  qed
  then have "mem_load (overlay c (le32 v) m) a 4 = mem_load m a 4"
    by (intro mem_load_overlay_other) simp
  then show ?thesis by (simp add: load_le_def store_le_def bytes_le_def)
qed

text \<open>A memory without any registers, the simplest bus.\<close>

definition plain_bus :: "memory bus" where
  "plain_bus = \<lparr>bus_read = \<lambda>n a m. (load_le n a m, m), bus_write = \<lambda>n a v m. store_le n a v m\<rparr>"

lemma plain_bus_simps [simp]:
  "mmio_read plain_bus a m = (load_le 4 a m, m)"
  "mmio_write plain_bus a v m = store_le 4 a v m"
  "bus_read plain_bus n a m = (load_le n a m, m)"
  "bus_write plain_bus n a v m = store_le n a v m"
  by (simp_all add: plain_bus_def mmio_read_def mmio_write_def)

end
