(* ===== verification/Flash_Ctl.thy ===== *)
theory Flash_Ctl
  imports Mmio
begin

text \<open>
  The flash driver of the probe firmware, \<^verbatim>\<open>Bootloader/libopencm3/lib/stm32/f1/flash.c\<close> and
  \<^verbatim>\<open>stm32/common/flash_common_all.c\<close>: one definition per function, on an arbitrary bus. A
  function that polls the busy flag returns an option, \<open>None\<close> when the flag never clears.
\<close>

section \<open>Registers\<close>

definition FLASH_ACR :: u32 where "FLASH_ACR = 0x40022000"
definition FLASH_KEYR :: u32 where "FLASH_KEYR = 0x40022004"
definition FLASH_OPTKEYR :: u32 where "FLASH_OPTKEYR = 0x40022008"
definition FLASH_SR :: u32 where "FLASH_SR = 0x4002200C"
definition FLASH_CR :: u32 where "FLASH_CR = 0x40022010"
definition FLASH_AR :: u32 where "FLASH_AR = 0x40022014"
definition FLASH_KEYR2 :: u32 where "FLASH_KEYR2 = 0x40022044"
definition FLASH_SR2 :: u32 where "FLASH_SR2 = 0x4002204C"
definition FLASH_CR2 :: u32 where "FLASH_CR2 = 0x40022050"
definition FLASH_BASE :: u32 where "FLASH_BASE = 0x08000000"

definition FLASH_ACR_HLFCYA :: u32 where "FLASH_ACR_HLFCYA = 0x08"
definition FLASH_ACR_PRFTEN :: u32 where "FLASH_ACR_PRFTEN = 0x10"
definition FLASH_ACR_LATENCY_MASK :: u32 where "FLASH_ACR_LATENCY_MASK = 7"
definition FLASH_ACR_LATENCY_SHIFT :: nat where "FLASH_ACR_LATENCY_SHIFT = 0"
definition FLASH_SR_EOP :: u32 where "FLASH_SR_EOP = 0x20"
definition FLASH_SR_WRPRTERR :: u32 where "FLASH_SR_WRPRTERR = 0x10"
definition FLASH_SR_PGERR :: u32 where "FLASH_SR_PGERR = 0x04"
definition FLASH_SR_BSY :: u32 where "FLASH_SR_BSY = 0x01"
definition FLASH_CR_LOCK :: u32 where "FLASH_CR_LOCK = 0x80"
definition FLASH_CR_STRT :: u32 where "FLASH_CR_STRT = 0x40"
definition FLASH_CR_MER :: u32 where "FLASH_CR_MER = 0x04"
definition FLASH_CR_PER :: u32 where "FLASH_CR_PER = 0x02"
definition FLASH_CR_PG :: u32 where "FLASH_CR_PG = 0x01"
definition FLASH_KEYR_KEY1 :: u32 where "FLASH_KEYR_KEY1 = 0x45670123"
definition FLASH_KEYR_KEY2 :: u32 where "FLASH_KEYR_KEY2 = 0xCDEF89AB"

lemmas flash_regs =
  FLASH_ACR_def FLASH_KEYR_def FLASH_OPTKEYR_def FLASH_SR_def FLASH_CR_def FLASH_AR_def
  FLASH_KEYR2_def FLASH_SR2_def FLASH_CR2_def

lemmas flash_bits =
  FLASH_SR_EOP_def FLASH_SR_WRPRTERR_def FLASH_SR_PGERR_def FLASH_SR_BSY_def FLASH_CR_LOCK_def
  FLASH_CR_STRT_def FLASH_CR_MER_def FLASH_CR_PER_def FLASH_CR_PG_def FLASH_KEYR_KEY1_def
  FLASH_KEYR_KEY2_def

section \<open>Functions\<close>

definition desig_get_flash_size :: u16 where
  "desig_get_flash_size = 128"

definition flash_halfcycle_enable :: "'h bus \<Rightarrow> 'h \<Rightarrow> 'h" where
  "flash_halfcycle_enable b = mmio_set b FLASH_ACR FLASH_ACR_HLFCYA"

definition flash_halfcycle_disable :: "'h bus \<Rightarrow> 'h \<Rightarrow> 'h" where
  "flash_halfcycle_disable b = mmio_clear b FLASH_ACR FLASH_ACR_HLFCYA"

definition flash_unlock_upper :: "'h bus \<Rightarrow> 'h \<Rightarrow> 'h" where
  "flash_unlock_upper b h =
     (if desig_get_flash_size > 512 then
        mmio_write b FLASH_KEYR2 FLASH_KEYR_KEY2
          (mmio_write b FLASH_KEYR2 FLASH_KEYR_KEY1 (mmio_set b FLASH_CR2 FLASH_CR_LOCK h))
      else h)"

definition flash_lock_upper :: "'h bus \<Rightarrow> 'h \<Rightarrow> 'h" where
  "flash_lock_upper b = mmio_set b FLASH_CR2 FLASH_CR_LOCK"

definition flash_clear_flag_upper :: "'h bus \<Rightarrow> u32 \<Rightarrow> 'h \<Rightarrow> 'h" where
  "flash_clear_flag_upper b flag h =
     (if desig_get_flash_size > 512 then mmio_set b FLASH_SR2 flag h else h)"

definition flash_clear_pgerr_flag_upper :: "'h bus \<Rightarrow> 'h \<Rightarrow> 'h" where
  "flash_clear_pgerr_flag_upper b = flash_clear_flag_upper b FLASH_SR_PGERR"

definition flash_clear_eop_flag_upper :: "'h bus \<Rightarrow> 'h \<Rightarrow> 'h" where
  "flash_clear_eop_flag_upper b = flash_clear_flag_upper b FLASH_SR_EOP"

definition flash_clear_wrprterr_flag_upper :: "'h bus \<Rightarrow> 'h \<Rightarrow> 'h" where
  "flash_clear_wrprterr_flag_upper b = flash_clear_flag_upper b FLASH_SR_WRPRTERR"

text \<open>
  The three functions for the lower bank are declared but not part of the repository's copy of
  the library; they are arguments.
\<close>

definition flash_clear_status_flags ::
    "'h bus \<Rightarrow> ('h \<Rightarrow> 'h) \<Rightarrow> ('h \<Rightarrow> 'h) \<Rightarrow> ('h \<Rightarrow> 'h) \<Rightarrow> 'h \<Rightarrow> 'h" where
  "flash_clear_status_flags b clear_pgerr clear_eop clear_wrprterr h =
     (let h = clear_wrprterr (clear_eop (clear_pgerr h))
      in if desig_get_flash_size > 512
         then flash_clear_wrprterr_flag_upper b
                (flash_clear_eop_flag_upper b (flash_clear_pgerr_flag_upper b h))
         else h)"

definition all_flags :: u32 where
  "all_flags = FLASH_SR_PGERR OR FLASH_SR_EOP OR FLASH_SR_WRPRTERR OR FLASH_SR_BSY"

definition flash_get_status_flags :: "'h bus \<Rightarrow> 'h \<Rightarrow> u32 \<times> 'h" where
  "flash_get_status_flags b h =
     (let (x, h) = mmio_read b FLASH_SR h; flags = x AND all_flags
      in if desig_get_flash_size > 512
         then (let (y, h) = mmio_read b FLASH_SR2 h in (flags OR (y AND all_flags), h))
         else (flags, h))"

definition flash_wait_for_last_operation :: "'h bus \<Rightarrow> 'h \<Rightarrow> 'h option" where
  "flash_wait_for_last_operation b h =
     map_option (mmio_set b FLASH_SR FLASH_SR_EOP) (mmio_wait b FLASH_SR FLASH_SR_BSY h)"

text \<open>The control register of the bank an address lies in.\<close>

definition cr_of :: "u32 \<Rightarrow> u32" where
  "cr_of address =
     (if desig_get_flash_size > 512 \<and> address \<ge> FLASH_BASE + 0x00080000 then FLASH_CR2 else FLASH_CR)"

definition flash_program_half_word :: "'h bus \<Rightarrow> u32 \<Rightarrow> u16 \<Rightarrow> 'h \<Rightarrow> 'h option" where
  "flash_program_half_word b address data h =
     (case flash_wait_for_last_operation b h of
        None \<Rightarrow> None
      | Some h \<Rightarrow>
          let h = mmio_set b (cr_of address) FLASH_CR_PG h;
              h = bus_write b 2 address (ucast data) h
          in map_option (mmio_clear b (cr_of address) FLASH_CR_PG) (flash_wait_for_last_operation b h))"

definition flash_erase_page :: "'h bus \<Rightarrow> u32 \<Rightarrow> 'h \<Rightarrow> 'h option" where
  "flash_erase_page b page_address h =
     (case flash_wait_for_last_operation b h of
        None \<Rightarrow> None
      | Some h \<Rightarrow>
          let h = mmio_write b FLASH_CR FLASH_CR_PER h;
              h = mmio_write b FLASH_AR page_address h;
              h = mmio_write b FLASH_CR (FLASH_CR_PER OR FLASH_CR_STRT) h
          in map_option (mmio_clear b FLASH_CR FLASH_CR_PER) (flash_wait_for_last_operation b h))"

definition flash_erase_all_pages :: "'h bus \<Rightarrow> 'h \<Rightarrow> 'h option" where
  "flash_erase_all_pages b h =
     (case flash_wait_for_last_operation b h of
        None \<Rightarrow> None
      | Some h \<Rightarrow>
          let h = mmio_set b FLASH_CR FLASH_CR_STRT (mmio_set b FLASH_CR FLASH_CR_MER h)
          in (case flash_wait_for_last_operation b h of
                None \<Rightarrow> None
              | Some h \<Rightarrow>
                  let h = mmio_clear b FLASH_CR FLASH_CR_MER h;
                      h = mmio_set b FLASH_CR2 FLASH_CR_STRT (mmio_set b FLASH_CR2 FLASH_CR_MER h)
                  in map_option (mmio_clear b FLASH_CR2 FLASH_CR_MER)
                       (flash_wait_for_last_operation b h)))"

definition flash_unlock :: "'h bus \<Rightarrow> 'h \<Rightarrow> 'h" where
  "flash_unlock b h =
     (let (x, h) = mmio_read b FLASH_CR h
      in if x AND FLASH_CR_LOCK \<noteq> 0
         then mmio_write b FLASH_KEYR FLASH_KEYR_KEY2 (mmio_write b FLASH_KEYR FLASH_KEYR_KEY1 h)
         else h)"

definition flash_prefetch_enable :: "'h bus \<Rightarrow> 'h \<Rightarrow> 'h" where
  "flash_prefetch_enable b = mmio_set b FLASH_ACR FLASH_ACR_PRFTEN"

definition flash_prefetch_disable :: "'h bus \<Rightarrow> 'h \<Rightarrow> 'h" where
  "flash_prefetch_disable b = mmio_clear b FLASH_ACR FLASH_ACR_PRFTEN"

definition flash_set_ws :: "'h bus \<Rightarrow> u32 \<Rightarrow> 'h \<Rightarrow> 'h" where
  "flash_set_ws b ws = mmio_modify b FLASH_ACR
     (\<lambda>reg32. (reg32 AND NOT (push_bit FLASH_ACR_LATENCY_SHIFT FLASH_ACR_LATENCY_MASK))
        OR push_bit FLASH_ACR_LATENCY_SHIFT ws)"

definition flash_unlock_option_bytes :: "'h bus \<Rightarrow> 'h \<Rightarrow> 'h" where
  "flash_unlock_option_bytes b h =
     mmio_write b FLASH_OPTKEYR FLASH_KEYR_KEY2 (mmio_write b FLASH_OPTKEYR FLASH_KEYR_KEY1 h)"

end
