(* ===== verification/F103.thy ===== *)
theory F103
  imports Flash_Ctl Nor_Flash
begin

text \<open>
  The microcontroller the firmware runs on, as the instance of the bus that the properties of
  the firmware are stated for: a byte-addressed memory and the flash program and erase
  controller of the STM32F103 as documented in ST's programming manual PM0075. The flash is
  the 128 KB from \<open>0x08000000\<close>, in pages of 1 KB. Everything that is not a register of the
  controller is memory. A program or erase operation keeps the busy flag set for \<open>f_time\<close>
  reads of the status register, a number the proofs leave open. A wrong key sequence blocks
  the controller until reset (\<open>f_key = 2\<close>); programming a half word that is not erased is
  refused and sets \<open>PGERR\<close>, unless the value is 0. Writing a one to a bit of the fault status
  registers of the core (\<open>CFSR\<close>, \<open>DFSR\<close>) clears it.
\<close>

section \<open>State and accesses\<close>

record f103 =
  f_mem :: memory
  f_locked :: bool
  f_key :: nat
  f_cr :: u32
  f_sr :: u32
  f_ar :: u32
  f_busy :: nat
  f_time :: nat

definition in_flash :: "u32 \<Rightarrow> bool" where
  "in_flash a \<longleftrightarrow> 0x08000000 \<le> a \<and> a < 0x08020000"

definition f103_read :: "nat \<Rightarrow> u32 \<Rightarrow> f103 \<Rightarrow> u32 \<times> f103" where
  "f103_read n a h =
     (if a = FLASH_SR then
        (f_sr h OR (if f_busy h = 0 then 0 else FLASH_SR_BSY), h\<lparr>f_busy := f_busy h - 1\<rparr>)
      else if a = FLASH_CR then (f_cr h OR (if f_locked h then FLASH_CR_LOCK else 0), h)
      else (load_le n a (f_mem h), h))"

definition half_program :: "u32 \<Rightarrow> u16 \<Rightarrow> f103 \<Rightarrow> f103" where
  "half_program a v h =
     (if half_erased a (f_mem h) \<or> v = 0
      then h\<lparr>f_mem := overlay a (le16 v) (f_mem h), f_sr := f_sr h OR FLASH_SR_EOP, f_busy := f_time h\<rparr>
      else h\<lparr>f_sr := f_sr h OR FLASH_SR_PGERR\<rparr>)"

definition page_of :: "u32 \<Rightarrow> u32" where
  "page_of a = a AND NOT 0x3FF"

definition page_erase :: "u32 \<Rightarrow> memory \<Rightarrow> memory" where
  "page_erase a m = (\<lambda>x. if in_flash x \<and> page_of x = page_of a then -1 else m x)"

definition mass_erase :: "memory \<Rightarrow> memory" where
  "mass_erase m = (\<lambda>x. if in_flash x then -1 else m x)"

definition start_erase :: "(memory \<Rightarrow> memory) \<Rightarrow> f103 \<Rightarrow> f103" where
  "start_erase f h =
     h\<lparr>f_mem := f (f_mem h), f_sr := f_sr h OR FLASH_SR_EOP, f_busy := f_time h\<rparr>"

definition write_key :: "u32 \<Rightarrow> f103 \<Rightarrow> f103" where
  "write_key v h =
     (if \<not> f_locked h then h
      else if f_key h = 0 \<and> v = FLASH_KEYR_KEY1 then h\<lparr>f_key := 1\<rparr>
      else if f_key h = 1 \<and> v = FLASH_KEYR_KEY2 then h\<lparr>f_key := 0, f_locked := False\<rparr>
      else h\<lparr>f_key := 2\<rparr>)"

definition write_cr :: "u32 \<Rightarrow> f103 \<Rightarrow> f103" where
  "write_cr v h =
     (if f_locked h then h
      else if v AND FLASH_CR_LOCK \<noteq> 0 then h\<lparr>f_locked := True, f_cr := 0\<rparr>
      else
        let h = h\<lparr>f_cr := v AND NOT FLASH_CR_STRT\<rparr>
        in if v AND FLASH_CR_STRT = 0 then h
           else if v AND FLASH_CR_MER \<noteq> 0 then start_erase mass_erase h
           else if v AND FLASH_CR_PER \<noteq> 0 then start_erase (page_erase (f_ar h)) h
           else h)"

definition status_register :: "u32 \<Rightarrow> bool" where
  "status_register a \<longleftrightarrow> a = 0xE000ED28 \<or> a = 0xE000ED30"

definition f103_write :: "nat \<Rightarrow> u32 \<Rightarrow> u32 \<Rightarrow> f103 \<Rightarrow> f103" where
  "f103_write n a v h =
     (if a = FLASH_KEYR then write_key v h
      else if a = FLASH_SR then h\<lparr>f_sr := f_sr h AND NOT v\<rparr>
      else if a = FLASH_CR then write_cr v h
      else if a = FLASH_AR then h\<lparr>f_ar := v\<rparr>
      else if in_flash a then
        (if n = 2 \<and> \<not> f_locked h \<and> f_cr h AND FLASH_CR_PG \<noteq> 0 then half_program a (ucast v) h else h)
      else if status_register a then
        h\<lparr>f_mem := store_le n a (load_le n a (f_mem h) AND NOT v) (f_mem h)\<rparr>
      else h\<lparr>f_mem := store_le n a v (f_mem h)\<rparr>)"

definition f103_bus :: "f103 bus" where
  "f103_bus = \<lparr>bus_read = f103_read, bus_write = f103_write\<rparr>"

section \<open>The driver on the controller\<close>

text \<open>Polling ends, however long the operation takes; the driver's wait clears every flag.\<close>

lemma f103_sr [simp]:
  "mmio_read f103_bus FLASH_SR h =
     (f_sr h OR (if f_busy h = 0 then 0 else FLASH_SR_BSY), h\<lparr>f_busy := f_busy h - 1\<rparr>)"
  by (simp add: mmio_read_def f103_bus_def f103_read_def)

lemma f103_sr_write [simp]: "mmio_write f103_bus FLASH_SR v h = h\<lparr>f_sr := f_sr h AND NOT v\<rparr>"
  by (simp add: mmio_write_def f103_bus_def f103_write_def flash_regs)

lemma f103_cr [simp]:
  "mmio_read f103_bus FLASH_CR h = (f_cr h OR (if f_locked h then FLASH_CR_LOCK else 0), h)"
  by (simp add: mmio_read_def f103_bus_def f103_read_def flash_regs)

lemma f103_cr_write [simp]: "mmio_write f103_bus FLASH_CR v h = write_cr v h"
  by (simp add: mmio_write_def f103_bus_def f103_write_def flash_regs)

lemma f103_ar_write [simp]: "mmio_write f103_bus FLASH_AR v h = h\<lparr>f_ar := v\<rparr>"
  by (simp add: mmio_write_def f103_bus_def f103_write_def flash_regs)

lemma f103_keyr_write [simp]: "mmio_write f103_bus FLASH_KEYR v h = write_key v h"
  by (simp add: mmio_write_def f103_bus_def f103_write_def)

lemma mmio_wait_f103:
  "f_sr h AND FLASH_SR_BSY = 0 \<Longrightarrow> mmio_wait f103_bus FLASH_SR FLASH_SR_BSY h = Some (h\<lparr>f_busy := 0\<rparr>)"
proof (induction "f_busy h" arbitrary: h)
  case 0
  then have "h = h\<lparr>f_busy := 0\<rparr>" by simp
  with 0 show ?case by (subst mmio_wait.simps) simp
next
  case (Suc n)
  have "(f_sr h OR FLASH_SR_BSY) AND FLASH_SR_BSY \<noteq> 0"
    by (simp add: flash_bits bit.conj_disj_distrib2)
  with Suc.hyps Suc.prems show ?case
    by (subst mmio_wait.simps) (simp flip: Suc.hyps(2))
qed

definition settled :: "f103 \<Rightarrow> f103" where
  "settled h = h\<lparr>f_busy := 0, f_sr := 0\<rparr>"

lemma settled_simps [simp]:
  "f_mem (settled h) = f_mem h" "f_locked (settled h) = f_locked h" "f_key (settled h) = f_key h"
  "f_cr (settled h) = f_cr h" "f_ar (settled h) = f_ar h" "f_time (settled h) = f_time h"
  "f_busy (settled h) = 0" "f_sr (settled h) = 0" "settled (settled h) = settled h"
  by (simp_all add: settled_def)

lemma and_not_or: "x AND NOT x AND NOT y = (0 :: u32)"
  by (rule bit_word_eqI) (auto simp: bit_simps)

lemma flash_wait_f103:
  "f_sr h AND FLASH_SR_BSY = 0 \<Longrightarrow> flash_wait_for_last_operation f103_bus h = Some (settled h)"
proof -
  assume "f_sr h AND FLASH_SR_BSY = 0"
  from mmio_wait_f103 [OF this] show ?thesis
    by (simp add: flash_wait_for_last_operation_def mmio_set_def mmio_modify_def settled_def
        and_not_or)
qed

text \<open>
  The controller at rest: no operation is left half done and no wrong key was ever written. A
  busy flag and the lock may be set.
\<close>

definition at_rest :: "f103 \<Rightarrow> bool" where
  "at_rest h \<longleftrightarrow> f_key h = 0 \<and> f_cr h = 0 \<and> f_sr h = 0"

lemma at_rest_settled: "at_rest h \<Longrightarrow> at_rest (settled h)"
  by (simp add: at_rest_def)

lemma flash_unlock_f103:
  "at_rest h \<Longrightarrow> flash_unlock f103_bus h = h\<lparr>f_locked := False\<rparr>"
  by (cases h)
    (simp add: flash_unlock_def at_rest_def write_key_def flash_bits)

text \<open>
  Programming a half word: the memory changes when the location was erased (or 0 is written);
  either way the driver leaves the status register empty.
\<close>

definition programmed :: "u32 \<Rightarrow> u16 \<Rightarrow> memory \<Rightarrow> memory" where
  "programmed a v m = (if half_erased a m \<or> v = 0 then overlay a (le16 v) m else m)"

lemma cr_of_f103 [simp]: "cr_of a = FLASH_CR"
  by (simp add: cr_of_def desig_get_flash_size_def)

lemma in_flash_regs [simp]:
  "in_flash a \<Longrightarrow> a \<noteq> FLASH_KEYR" "in_flash a \<Longrightarrow> a \<noteq> FLASH_SR"
  "in_flash a \<Longrightarrow> a \<noteq> FLASH_CR" "in_flash a \<Longrightarrow> a \<noteq> FLASH_AR"
  by (auto simp: in_flash_def flash_regs)

lemma program_half_word_f103:
  assumes "at_rest h" "\<not> f_locked h" "in_flash a"
  shows "flash_program_half_word f103_bus a v h =
    Some (settled h\<lparr>f_mem := programmed a v (f_mem h)\<rparr>)"
proof -
  let ?h = "settled h\<lparr>f_cr := FLASH_CR_PG\<rparr>"
  have cr: "mmio_set f103_bus FLASH_CR FLASH_CR_PG (settled h) = ?h"
    using assms by (simp add: mmio_set_def mmio_modify_def write_cr_def at_rest_def flash_bits)
  have w: "bus_write f103_bus 2 a (ucast v) ?h = half_program a v ?h"
  proof -
    have "ucast (ucast v :: u32) = v" by (rule bit_word_eqI) (auto simp: bit_simps)
    then show ?thesis using assms by (simp add: f103_bus_def f103_write_def flash_bits)
  qed
  have p: "flash_wait_for_last_operation f103_bus (half_program a v ?h) =
      Some (?h\<lparr>f_mem := programmed a v (f_mem h)\<rparr>)"
    by (subst flash_wait_f103)
      (auto simp: half_program_def programmed_def settled_def flash_bits)
  show ?thesis
    using assms flash_wait_f103 [of h] cr w p
    by (simp add: flash_program_half_word_def mmio_clear_def mmio_modify_def write_cr_def
        flash_bits at_rest_def)
qed

text \<open>Erasing a page.\<close>

lemma erase_page_f103:
  assumes "at_rest h" "\<not> f_locked h"
  shows "flash_erase_page f103_bus a h =
    Some (settled h\<lparr>f_mem := page_erase a (f_mem h), f_ar := a\<rparr>)"
proof -
  let ?h = "start_erase (page_erase a) (settled h\<lparr>f_ar := a, f_cr := 2\<rparr>)"
  have w: "flash_wait_for_last_operation f103_bus ?h =
      Some (settled h\<lparr>f_mem := page_erase a (f_mem h), f_ar := a, f_cr := 2\<rparr>)"
    by (subst flash_wait_f103) (simp_all add: start_erase_def settled_def flash_bits)
  show ?thesis
    using assms w flash_wait_f103 [of h]
    by (simp add: flash_erase_page_def write_cr_def at_rest_def flash_bits mmio_clear_def
        mmio_modify_def)
qed

end
