(* ===== verification/Peripherals.thy ===== *)
theory Peripherals
  imports Mmio
begin

text \<open>
  The drivers of the probe firmware that set registers of the microcontroller: pins
  (\<^verbatim>\<open>Bootloader/libopencm3/lib/stm32/f1/gpio.c\<close>), the interrupt controller (\<^verbatim>\<open>cm3/nvic.c\<close>, the
  ARMv7-M branches), the system timer (\<^verbatim>\<open>cm3/systick.c\<close>) and the clock gates and resets
  (\<^verbatim>\<open>stm32/common/rcc_common_all.c\<close>). Each function takes the bus and the state of the hardware.
\<close>

section \<open>Pins\<close>

definition AFIO_EVCR :: u32 where "AFIO_EVCR = 0x40010000"
definition AFIO_MAPR :: u32 where "AFIO_MAPR = 0x40010004"
definition AFIO_MAPR2 :: u32 where "AFIO_MAPR2 = 0x4001001C"
definition AFIO_EVCR_EVOE :: u32 where "AFIO_EVCR_EVOE = 0x80"
definition AFIO_MAPR_SWJ_MASK :: u32 where "AFIO_MAPR_SWJ_MASK = 0x07000000"

text \<open>One round of the loop over the pins; the pair is \<open>crl\<close> and \<open>crh\<close>.\<close>

definition set_pin :: "u8 \<Rightarrow> u8 \<Rightarrow> u16 \<Rightarrow> nat \<Rightarrow> u32 \<times> u32 \<Rightarrow> u32 \<times> u32" where
  "set_pin mode cnf gpios i cr =
     (if \<not> bit gpios i then cr
      else
        let offset = (if i < 8 then i * 4 else (i - 8) * 4);
            tmp32 = (if i < 8 then fst cr else snd cr);
            tmp32 = tmp32 AND NOT (push_bit offset 0xF);
            tmp32 = tmp32 OR (push_bit offset (ucast mode) OR push_bit (offset + 2) (ucast cnf))
        in (if i < 8 then tmp32 else fst cr, if i \<ge> 8 then tmp32 else snd cr))"

definition gpio_set_mode :: "'h bus \<Rightarrow> u32 \<Rightarrow> u8 \<Rightarrow> u8 \<Rightarrow> u16 \<Rightarrow> 'h \<Rightarrow> 'h" where
  "gpio_set_mode b gpioport mode cnf gpios h =
     (let (crl, h) = mmio_read b gpioport h;
          (crh, h) = mmio_read b (gpioport + 4) h;
          (crl, crh) = fold (set_pin mode cnf gpios) [0..<16] (crl, crh)
      in mmio_write b (gpioport + 4) crh (mmio_write b gpioport crl h))"

definition gpio_set_eventout :: "'h bus \<Rightarrow> u8 \<Rightarrow> u8 \<Rightarrow> 'h \<Rightarrow> 'h" where
  "gpio_set_eventout b evoutport evoutpin =
     mmio_write b AFIO_EVCR (AFIO_EVCR_EVOE OR ucast evoutport OR ucast evoutpin)"

definition gpio_primary_remap :: "'h bus \<Rightarrow> u32 \<Rightarrow> u32 \<Rightarrow> 'h \<Rightarrow> 'h" where
  "gpio_primary_remap b swjdisable maps =
     mmio_modify b AFIO_MAPR (\<lambda>reg. (reg AND NOT AFIO_MAPR_SWJ_MASK) OR swjdisable OR maps)"

definition gpio_secondary_remap :: "'h bus \<Rightarrow> u32 \<Rightarrow> 'h \<Rightarrow> 'h" where
  "gpio_secondary_remap b maps = mmio_set b AFIO_MAPR2 maps"

section \<open>Interrupt controller\<close>

text \<open>\<open>NVIC_IRQ_COUNT\<close> is in a header generated from \<^verbatim>\<open>stm32/f1/irq.json\<close>, which lists 68 interrupts.\<close>

definition NVIC_IRQ_COUNT :: u8 where "NVIC_IRQ_COUNT = 68"
definition NVIC_BASE :: u32 where "NVIC_BASE = 0xE000E100"
definition SCB_SHPR :: "u32 \<Rightarrow> u32" where "SCB_SHPR i = 0xE000ED18 + i"
definition NVIC_STIR :: u32 where "NVIC_STIR = 0xE000EF00"

definition nvic_reg :: "u32 \<Rightarrow> u8 \<Rightarrow> u32" where
  "nvic_reg off irqn = NVIC_BASE + off + ucast (irqn div 32) * 4"

definition irq_bit :: "u8 \<Rightarrow> u32" where
  "irq_bit irqn = push_bit (unat (irqn mod 32)) 1"

definition nvic_enable_irq :: "'h bus \<Rightarrow> u8 \<Rightarrow> 'h \<Rightarrow> 'h" where
  "nvic_enable_irq b irqn = mmio_write b (nvic_reg 0 irqn) (irq_bit irqn)"

definition nvic_disable_irq :: "'h bus \<Rightarrow> u8 \<Rightarrow> 'h \<Rightarrow> 'h" where
  "nvic_disable_irq b irqn = mmio_write b (nvic_reg 0x80 irqn) (irq_bit irqn)"

definition irq_flag :: "'h bus \<Rightarrow> u32 \<Rightarrow> u8 \<Rightarrow> 'h \<Rightarrow> u8 \<times> 'h" where
  "irq_flag b off irqn h =
     (let (x, h) = mmio_read b (nvic_reg off irqn) h
      in (if x AND irq_bit irqn \<noteq> 0 then 1 else 0, h))"

definition nvic_get_pending_irq :: "'h bus \<Rightarrow> u8 \<Rightarrow> 'h \<Rightarrow> u8 \<times> 'h" where
  "nvic_get_pending_irq b = irq_flag b 0x100"

definition nvic_set_pending_irq :: "'h bus \<Rightarrow> u8 \<Rightarrow> 'h \<Rightarrow> 'h" where
  "nvic_set_pending_irq b irqn = mmio_write b (nvic_reg 0x100 irqn) (irq_bit irqn)"

definition nvic_clear_pending_irq :: "'h bus \<Rightarrow> u8 \<Rightarrow> 'h \<Rightarrow> 'h" where
  "nvic_clear_pending_irq b irqn = mmio_write b (nvic_reg 0x180 irqn) (irq_bit irqn)"

definition nvic_get_irq_enabled :: "'h bus \<Rightarrow> u8 \<Rightarrow> 'h \<Rightarrow> u8 \<times> 'h" where
  "nvic_get_irq_enabled b = irq_flag b 0"

definition nvic_get_active_irq :: "'h bus \<Rightarrow> u8 \<Rightarrow> 'h \<Rightarrow> u8 \<times> 'h" where
  "nvic_get_active_irq b = irq_flag b 0x200"

definition nvic_set_priority :: "'h bus \<Rightarrow> u8 \<Rightarrow> u8 \<Rightarrow> 'h \<Rightarrow> 'h" where
  "nvic_set_priority b irqn priority =
     (if irqn \<ge> NVIC_IRQ_COUNT
      then bus_write b 1 (SCB_SHPR (ucast (irqn AND 0xF) - 4)) (ucast priority)
      else bus_write b 1 (NVIC_BASE + 0x300 + ucast irqn) (ucast priority))"

definition nvic_generate_software_interrupt :: "'h bus \<Rightarrow> u16 \<Rightarrow> 'h \<Rightarrow> 'h" where
  "nvic_generate_software_interrupt b irqn h =
     (if irqn \<le> 239 then mmio_set b NVIC_STIR (ucast irqn) h else h)"

section \<open>System timer\<close>

definition STK_CSR :: u32 where "STK_CSR = 0xE000E010"
definition STK_RVR :: u32 where "STK_RVR = 0xE000E014"
definition STK_CVR :: u32 where "STK_CVR = 0xE000E018"
definition STK_CALIB :: u32 where "STK_CALIB = 0xE000E01C"
definition STK_RVR_RELOAD :: u32 where "STK_RVR_RELOAD = 0x00FFFFFF"
definition STK_CVR_CURRENT :: u32 where "STK_CVR_CURRENT = 0x00FFFFFF"
definition STK_CALIB_TENMS :: u32 where "STK_CALIB_TENMS = 0x00FFFFFF"
definition STK_CSR_COUNTFLAG :: u32 where "STK_CSR_COUNTFLAG = 0x10000"
definition STK_CSR_CLKSOURCE :: u32 where "STK_CSR_CLKSOURCE = 4"
definition STK_CSR_TICKINT :: u32 where "STK_CSR_TICKINT = 2"
definition STK_CSR_ENABLE :: u32 where "STK_CSR_ENABLE = 1"
definition STK_CSR_CLKSOURCE_AHB :: u8 where "STK_CSR_CLKSOURCE_AHB = 4"
definition STK_CSR_CLKSOURCE_AHB_DIV8 :: u8 where "STK_CSR_CLKSOURCE_AHB_DIV8 = 0"

definition masked_read :: "'h bus \<Rightarrow> u32 \<Rightarrow> u32 \<Rightarrow> 'h \<Rightarrow> u32 \<times> 'h" where
  "masked_read b a m h = (let (x, h) = mmio_read b a h in (x AND m, h))"

definition systick_set_reload :: "'h bus \<Rightarrow> u32 \<Rightarrow> 'h \<Rightarrow> 'h" where
  "systick_set_reload b v = mmio_write b STK_RVR (v AND STK_RVR_RELOAD)"

definition systick_get_reload :: "'h bus \<Rightarrow> 'h \<Rightarrow> u32 \<times> 'h" where
  "systick_get_reload b = masked_read b STK_RVR STK_RVR_RELOAD"

definition systick_set_clocksource :: "'h bus \<Rightarrow> u8 \<Rightarrow> 'h \<Rightarrow> 'h" where
  "systick_set_clocksource b clocksource = mmio_modify b STK_CSR
     (\<lambda>x. (x AND NOT STK_CSR_CLKSOURCE) OR (ucast clocksource AND STK_CSR_CLKSOURCE))"

text \<open>\<open>ahb / freq\<close> with \<open>freq = 0\<close> is undefined behaviour, \<open>None\<close>.\<close>

definition systick_set_frequency :: "'h bus \<Rightarrow> u32 \<Rightarrow> u32 \<Rightarrow> 'h \<Rightarrow> (bool \<times> 'h) option" where
  "systick_set_frequency b freq ahb h =
     (if freq = 0 then None
      else
        let ratio = ahb div freq
        in if ratio \<ge> STK_RVR_RELOAD * 8 then Some (False, h)
           else if ratio \<ge> STK_RVR_RELOAD then
             Some (True, systick_set_reload b (ratio div 8 - 1)
                           (systick_set_clocksource b STK_CSR_CLKSOURCE_AHB_DIV8 h))
           else
             Some (True, systick_set_reload b (ratio - 1)
                           (systick_set_clocksource b STK_CSR_CLKSOURCE_AHB h)))"

definition systick_get_value :: "'h bus \<Rightarrow> 'h \<Rightarrow> u32 \<times> 'h" where
  "systick_get_value b = masked_read b STK_CVR STK_CVR_CURRENT"

definition systick_interrupt_enable :: "'h bus \<Rightarrow> 'h \<Rightarrow> 'h" where
  "systick_interrupt_enable b = mmio_set b STK_CSR STK_CSR_TICKINT"

definition systick_interrupt_disable :: "'h bus \<Rightarrow> 'h \<Rightarrow> 'h" where
  "systick_interrupt_disable b = mmio_clear b STK_CSR STK_CSR_TICKINT"

definition systick_counter_enable :: "'h bus \<Rightarrow> 'h \<Rightarrow> 'h" where
  "systick_counter_enable b = mmio_set b STK_CSR STK_CSR_ENABLE"

definition systick_counter_disable :: "'h bus \<Rightarrow> 'h \<Rightarrow> 'h" where
  "systick_counter_disable b = mmio_clear b STK_CSR STK_CSR_ENABLE"

definition systick_get_countflag :: "'h bus \<Rightarrow> 'h \<Rightarrow> u8 \<times> 'h" where
  "systick_get_countflag b h =
     (let (x, h) = mmio_read b STK_CSR h in (if x AND STK_CSR_COUNTFLAG \<noteq> 0 then 1 else 0, h))"

definition systick_clear :: "'h bus \<Rightarrow> 'h \<Rightarrow> 'h" where
  "systick_clear b = mmio_write b STK_CVR 0"

definition systick_get_calib :: "'h bus \<Rightarrow> 'h \<Rightarrow> u32 \<times> 'h" where
  "systick_get_calib b = masked_read b STK_CALIB STK_CALIB_TENMS"

section \<open>Clock gates and resets\<close>

definition RCC_BASE :: u32 where "RCC_BASE = 0x40021000"
definition RCC_CR :: u32 where "RCC_CR = 0x40021000"
definition RCC_CFGR :: u32 where "RCC_CFGR = 0x40021004"
definition RCC_BDCR :: u32 where "RCC_BDCR = 0x40021020"
definition RCC_CR_HSEBYP :: u32 where "RCC_CR_HSEBYP = 0x40000"
definition RCC_BDCR_LSEBYP :: u32 where "RCC_BDCR_LSEBYP = 4"

text \<open>The enumerators \<open>_REG_BIT(base, bit)\<close> are \<open>base * 32 + bit\<close>; only the values matter.\<close>

definition RCC_REG :: "u32 \<Rightarrow> u32" where
  "RCC_REG i = RCC_BASE + drop_bit 5 i"

definition RCC_BIT :: "u32 \<Rightarrow> u32" where
  "RCC_BIT i = push_bit (unat (i AND 0x1F)) 1"

definition rcc_peripheral_enable_clock :: "'h bus \<Rightarrow> u32 \<Rightarrow> u32 \<Rightarrow> 'h \<Rightarrow> 'h" where
  "rcc_peripheral_enable_clock b reg en = mmio_set b reg en"

definition rcc_peripheral_disable_clock :: "'h bus \<Rightarrow> u32 \<Rightarrow> u32 \<Rightarrow> 'h \<Rightarrow> 'h" where
  "rcc_peripheral_disable_clock b reg en = mmio_clear b reg en"

definition rcc_peripheral_reset :: "'h bus \<Rightarrow> u32 \<Rightarrow> u32 \<Rightarrow> 'h \<Rightarrow> 'h" where
  "rcc_peripheral_reset b reg reset = mmio_set b reg reset"

definition rcc_peripheral_clear_reset :: "'h bus \<Rightarrow> u32 \<Rightarrow> u32 \<Rightarrow> 'h \<Rightarrow> 'h" where
  "rcc_peripheral_clear_reset b reg clear_reset = mmio_clear b reg clear_reset"

definition rcc_periph_clock_enable :: "'h bus \<Rightarrow> u32 \<Rightarrow> 'h \<Rightarrow> 'h" where
  "rcc_periph_clock_enable b clken = mmio_set b (RCC_REG clken) (RCC_BIT clken)"

definition rcc_periph_clock_disable :: "'h bus \<Rightarrow> u32 \<Rightarrow> 'h \<Rightarrow> 'h" where
  "rcc_periph_clock_disable b clken = mmio_clear b (RCC_REG clken) (RCC_BIT clken)"

definition rcc_periph_reset_hold :: "'h bus \<Rightarrow> u32 \<Rightarrow> 'h \<Rightarrow> 'h" where
  "rcc_periph_reset_hold b rst = mmio_set b (RCC_REG rst) (RCC_BIT rst)"

definition rcc_periph_reset_release :: "'h bus \<Rightarrow> u32 \<Rightarrow> 'h \<Rightarrow> 'h" where
  "rcc_periph_reset_release b rst = mmio_clear b (RCC_REG rst) (RCC_BIT rst)"

definition rcc_periph_reset_pulse :: "'h bus \<Rightarrow> u32 \<Rightarrow> 'h \<Rightarrow> 'h" where
  "rcc_periph_reset_pulse b rst h =
     mmio_clear b (RCC_REG rst) (RCC_BIT rst) (mmio_set b (RCC_REG rst) (RCC_BIT rst) h)"

definition rcc_set_mco :: "'h bus \<Rightarrow> u32 \<Rightarrow> 'h \<Rightarrow> 'h" where
  "rcc_set_mco b mcosrc = mmio_modify b RCC_CFGR
     (\<lambda>x. (x AND NOT (push_bit 24 0xF)) OR push_bit 24 mcosrc)"

datatype rcc_osc = RCC_PLL | RCC_PLL2 | RCC_PLL3 | RCC_HSE | RCC_HSI | RCC_LSE | RCC_LSI

definition rcc_osc_bypass_enable :: "'h bus \<Rightarrow> rcc_osc \<Rightarrow> 'h \<Rightarrow> 'h" where
  "rcc_osc_bypass_enable b osc h =
     (case osc of
        RCC_HSE \<Rightarrow> mmio_set b RCC_CR RCC_CR_HSEBYP h
      | RCC_LSE \<Rightarrow> mmio_set b RCC_BDCR RCC_BDCR_LSEBYP h
      | _ \<Rightarrow> h)"

definition rcc_osc_bypass_disable :: "'h bus \<Rightarrow> rcc_osc \<Rightarrow> 'h \<Rightarrow> 'h" where
  "rcc_osc_bypass_disable b osc h =
     (case osc of
        RCC_HSE \<Rightarrow> mmio_clear b RCC_CR RCC_CR_HSEBYP h
      | RCC_LSE \<Rightarrow> mmio_clear b RCC_BDCR RCC_BDCR_LSEBYP h
      | _ \<Rightarrow> h)"

definition rcc_get_div_from_hpre :: "u8 \<Rightarrow> u16" where
  "rcc_get_div_from_hpre div_val =
     (if div_val < 8 then 1
      else if div_val \<le> 0xB then push_bit (unat (div_val - 7)) 1
      else push_bit (unat (div_val - 6)) 1)"

section \<open>Setting the mode of pins\<close>

text \<open>The four configuration bits of pin \<open>j\<close> in \<open>crl\<close> or \<open>crh\<close>.\<close>

definition pin_field :: "nat \<Rightarrow> u32 \<times> u32 \<Rightarrow> u32" where
  "pin_field j cr = drop_bit (4 * (j mod 8)) (if j < 8 then fst cr else snd cr) AND 0xF"

lemma F_mask: "(0xF :: u32) = mask 4"
  by (simp add: mask_eq_exp_minus_1)

definition nibble :: "nat \<Rightarrow> u32 \<Rightarrow> u32" where
  "nibble k r = drop_bit (4 * k) r AND mask 4"

definition set_nibble :: "u8 \<Rightarrow> u8 \<Rightarrow> nat \<Rightarrow> nat \<Rightarrow> u32 \<Rightarrow> u32" where
  "set_nibble mode cnf s off r =
     (r AND NOT (push_bit off (mask 4))) OR (push_bit off (ucast mode) OR push_bit (off + s) (ucast cnf))"

lemma take_bit_small: "(w :: u8) < 4 \<Longrightarrow> take_bit 2 w = w"
  by (simp add: take_bit_eq_mod word_less_nat_alt unat_mod_distrib word_arith_nat_mod)

lemma nibble_same:
  assumes "mode < 4" "cnf < 4" "k < 8" "s \<le> 2"
  shows "nibble k (set_nibble mode cnf s (4 * k) r) = ucast mode OR push_bit s (ucast cnf)"
proof -
  have "nibble k (set_nibble (take_bit 2 mode) (take_bit 2 cnf) s (4 * k) r) =
      ucast (take_bit 2 mode) OR push_bit s (ucast (take_bit 2 cnf))"
    using assms(3,4) by (intro bit_word_eqI) (auto simp: nibble_def set_nibble_def bit_simps)
  then show ?thesis using assms by (simp add: take_bit_small)
qed

lemma nibble_other:
  assumes "mode < 4" "cnf < 4" "l < 8" "k \<noteq> l" "s \<le> 2"
  shows "nibble l (set_nibble mode cnf s (4 * k) r) = nibble l r"
proof -
  have "nibble l (set_nibble (take_bit 2 mode) (take_bit 2 cnf) s (4 * k) r) = nibble l r"
  proof (rule bit_word_eqI)
    fix n assume "n < LENGTH(32)"
    have out: "\<not> (4 * k \<le> 4 * l + n \<and> 4 * l + n - 4 * k < 4)" if "n < 4"
      using assms(4) that by linarith
    then show "bit (nibble l (set_nibble (take_bit 2 mode) (take_bit 2 cnf) s (4 * k) r)) n =
        bit (nibble l r) n"
      using assms(3,5) by (auto simp: nibble_def set_nibble_def bit_simps)
  qed
  then show ?thesis using assms by (simp add: take_bit_small)
qed

text \<open>One round of the loop changes the field of its pin and no other.\<close>

lemma pin_field_nibble:
  "pin_field j cr = nibble (j mod 8) (if j < 8 then fst cr else snd cr)"
  by (simp add: pin_field_def nibble_def F_mask)

lemma set_pin_nibble:
  "set_pin mode cnf gpios i cr =
     (if \<not> bit gpios i then cr
      else if i < 8 then (set_nibble mode cnf 2 (4 * i) (fst cr), snd cr)
      else (fst cr, set_nibble mode cnf 2 (4 * (i - 8)) (snd cr)))"
  by (simp add: set_pin_def set_nibble_def Let_def mult.commute F_mask)

lemma set_pin_field:
  assumes "mode < 4" "cnf < 4" "i < 16" "j < 16"
  shows "pin_field j (set_pin mode cnf gpios i cr) =
    (if i = j \<and> bit gpios i then ucast mode OR push_bit 2 (ucast cnf) else pin_field j cr)"
proof -
  have "i mod 8 \<noteq> j mod 8" if "i \<noteq> j" "(i < 8) = (j < 8)"
    using assms(3,4) that by (auto simp: mod_if)
  moreover have "4 * i = 4 * (i mod 8)" if "i < 8" using that by simp
  moreover have "i - 8 = i mod 8" if "\<not> i < 8" using assms(3) that by (simp add: mod_if)
  ultimately show ?thesis
    by (cases "i = j") (simp_all add: pin_field_nibble set_pin_nibble nibble_same [OF assms(1,2)]
        nibble_other [OF assms(1,2)])
qed

lemma fold_set_pin:
  assumes "mode < 4" "cnf < 4" "j < 16"
  shows "set is \<subseteq> {..<16} \<Longrightarrow> pin_field j (fold (set_pin mode cnf gpios) is cr) =
    (if j \<in> set is \<and> bit gpios j then ucast mode OR push_bit 2 (ucast cnf) else pin_field j cr)"
proof (induction "is" arbitrary: cr)
  case (Cons i js)
  then show ?case using set_pin_field [OF assms(1,2) _ assms(3), of i gpios cr] by auto
qed simp

section \<open>Properties\<close>

text \<open>
  C38: \<open>gpio_set_mode\<close> gives each selected pin the mode and configuration asked for and leaves
  the other pins of the port as they were.
\<close>

theorem gpio_set_mode_pins:
  assumes "mode < 4" "cnf < 4" "j < 16"
  shows "pin_field j
      (fst (mmio_read plain_bus port (gpio_set_mode plain_bus port mode cnf gpios m)),
       fst (mmio_read plain_bus (port + 4) (gpio_set_mode plain_bus port mode cnf gpios m))) =
    (if bit gpios j then ucast mode OR push_bit 2 (ucast cnf)
     else pin_field j (fst (mmio_read plain_bus port m), fst (mmio_read plain_bus (port + 4) m)))"
proof -
  obtain crl crh where f: "fold (set_pin mode cnf gpios) [0..<16]
      (load_le 4 port m, load_le 4 (port + 4) m) = (crl, crh)" by fastforce
  have "load_le 4 port (store_le 4 (port + 4) crh (store_le 4 port crl m)) = crl"
    by (subst load_store_other) (simp_all add: load_store_same)
  moreover have "set [0..<16] \<subseteq> {..<16 :: nat}" by auto
  ultimately show ?thesis
    using fold_set_pin [OF assms, of "[0..<16]" gpios "(load_le 4 port m, load_le 4 (port + 4) m)"]
      assms(3) f by (simp add: gpio_set_mode_def load_store_same)
qed

theorem gpio_set_mode_pins_witness:
  "pin_field 13
      (fst (mmio_read plain_bus 0x40011000 (gpio_set_mode plain_bus 0x40011000 2 0 0x2000 (\<lambda>_. 0x44))),
       fst (mmio_read plain_bus 0x40011004 (gpio_set_mode plain_bus 0x40011000 2 0 0x2000 (\<lambda>_. 0x44)))) = 2"
  using gpio_set_mode_pins [where mode = 2 and cnf = 0 and j = 13 and gpios = "0x2000" and port = "0x40011000" and m = "\<lambda>_. 0x44"]
  by (simp add: bit_numeral_rec)

end
