(* ===== verification/Circular_Buffer.thy ===== *)
theory Circular_Buffer
  imports Prelude
begin

text \<open>
  \<^verbatim>\<open>Bootloader/App/CircularBuffer.h\<close>: the queue between the USB interrupt, which puts commands,
  and the debug exception handler, which takes them. The template parameter \<open>size\<close> is the
  length of the list \<open>cb_buffer\<close>. The contract of a queue is the locale \<open>bounded_fifo\<close>; what a
  consumer can conclude from it is proved there once, and the buffer is an instance. Since
  the producer interrupts the consumer, \<open>put\<close> is also given as its two stores.
\<close>

section \<open>The buffer\<close>

record 'a circular_buffer =
  cb_buffer :: "'a list"
  cb_first :: nat
  cb_last :: nat

definition nextPos :: "nat \<Rightarrow> nat \<Rightarrow> nat" where
  "nextPos sz current = (let next_pos = current + 1 in if next_pos \<ge> sz then 0 else next_pos)"

definition cb_put :: "'a \<Rightarrow> 'a circular_buffer \<Rightarrow> bool \<times> 'a circular_buffer" where
  "cb_put v c =
     (let next_pos = nextPos (length (cb_buffer c)) (cb_last c)
      in if next_pos = cb_first c then (False, c)
         else (True, c\<lparr>cb_buffer := (cb_buffer c)[cb_last c := v], cb_last := next_pos\<rparr>))"

text \<open>\<open>get\<close> looks at the oldest element, \<open>pull\<close> removes it; \<open>None\<close> stands for \<open>false\<close>.\<close>

definition cb_get :: "'a circular_buffer \<Rightarrow> 'a option" where
  "cb_get c = (if cb_first c = cb_last c then None else Some (cb_buffer c ! cb_first c))"

definition cb_pull :: "'a circular_buffer \<Rightarrow> 'a option \<times> 'a circular_buffer" where
  "cb_pull c =
     (if cb_first c = cb_last c then (None, c)
      else (Some (cb_buffer c ! cb_first c),
            c\<lparr>cb_first := nextPos (length (cb_buffer c)) (cb_first c)\<rparr>))"

definition cb_isEmpty :: "'a circular_buffer \<Rightarrow> bool" where
  "cb_isEmpty c \<longleftrightarrow> cb_first c = cb_last c"

definition cb_new :: "nat \<Rightarrow> 'a \<Rightarrow> 'a circular_buffer" where
  "cb_new sz v = \<lparr>cb_buffer = replicate sz v, cb_first = 0, cb_last = 0\<rparr>"

section \<open>The contract of a queue\<close>

text \<open>A run of a queue: elements put (\<open>Some\<close>) and taken (\<open>None\<close>) in any order.\<close>

fun serve :: "('a \<Rightarrow> 'q \<Rightarrow> bool \<times> 'q) \<Rightarrow> ('q \<Rightarrow> 'a option \<times> 'q) \<Rightarrow> 'a option list \<Rightarrow> 'q \<Rightarrow> 'a list \<times> 'q" where
  "serve put pull [] q = ([], q)"
| "serve put pull (Some v # ops) q = serve put pull ops (snd (put v q))"
| "serve put pull (None # ops) q =
     (case pull q of (r, q) \<Rightarrow> case serve put pull ops q of (vs, q) \<Rightarrow>
        ((case r of None \<Rightarrow> [] | Some v \<Rightarrow> [v]) @ vs, q))"

locale bounded_fifo =
  fixes put :: "'a \<Rightarrow> 'q \<Rightarrow> bool \<times> 'q"
    and get :: "'q \<Rightarrow> 'a option"
    and pull :: "'q \<Rightarrow> 'a option \<times> 'q"
    and items :: "'q \<Rightarrow> 'a list"
    and ok :: "'q \<Rightarrow> bool"
    and capacity :: "'q \<Rightarrow> nat"
  assumes put_ok: "ok q \<Longrightarrow> ok (snd (put v q)) \<and> capacity (snd (put v q)) = capacity q"
    and put_items: "ok q \<Longrightarrow>
      items (snd (put v q)) = (if length (items q) < capacity q then items q @ [v] else items q)"
    and put_result: "ok q \<Longrightarrow> fst (put v q) \<longleftrightarrow> length (items q) < capacity q"
    and get_items: "ok q \<Longrightarrow> get q = (if items q = [] then None else Some (hd (items q)))"
    and pull_result: "ok q \<Longrightarrow> fst (pull q) = get q"
    and pull_ok: "ok q \<Longrightarrow> ok (snd (pull q)) \<and> capacity (snd (pull q)) = capacity q"
    and pull_items: "ok q \<Longrightarrow> items (snd (pull q)) = tl (items q)"
begin

lemma items_bound: "ok q \<Longrightarrow> length (items q) \<le> capacity q \<Longrightarrow>
    length (items (snd (put v q))) \<le> capacity (snd (put v q))"
  using put_ok [of q v] put_items [of q v] by simp

text \<open>What was taken followed by what is still queued: what was queued, then what was accepted.\<close>

lemma serve_order:
  "ok q \<Longrightarrow> length (items q) + length (filter (\<lambda>x. x \<noteq> None) ops) \<le> capacity q \<Longrightarrow>
   serve put pull ops q = (vs, q') \<Longrightarrow>
   ok q' \<and> vs @ items q' = items q @ map the (filter (\<lambda>x. x \<noteq> None) ops)"
proof (induction ops arbitrary: q vs)
  case (Cons x ops)
  show ?case
  proof (cases x)
    case (Some v)
    have "length (items q) < capacity q" using Cons.prems(2) Some by simp
    then have i: "items (snd (put v q)) = items q @ [v]" using put_items [OF Cons.prems(1)] by simp
    have "ok (snd (put v q))" "capacity (snd (put v q)) = capacity q"
      using put_ok [OF Cons.prems(1)] by simp_all
    with Cons.IH [of "snd (put v q)" vs] Cons.prems Some i show ?thesis by simp
  next
    case None
    obtain r p where p: "pull q = (r, p)" by fastforce
    obtain ws where ws: "serve put pull ops p = (ws, q')" "vs = (case r of None \<Rightarrow> [] | Some v \<Rightarrow> [v]) @ ws"
      using Cons.prems(3) None p by (auto split: prod.splits)
    have p': "ok p" "capacity p = capacity q" "items p = tl (items q)"
      using pull_ok [OF Cons.prems(1)] pull_items [OF Cons.prems(1)] p by simp_all
    have r: "r = (if items q = [] then None else Some (hd (items q)))"
      using pull_result [OF Cons.prems(1)] get_items [OF Cons.prems(1)] p by simp
    have len: "length (items p) + length (filter (\<lambda>x. x \<noteq> None) ops) \<le> capacity p"
      using Cons.prems(2) None p' by simp
    from Cons.IH [OF p'(1) len ws(1)] ws(2) r p' None show ?thesis
      by (cases "items q") auto
  qed
qed simp

end

section \<open>The buffer is a queue\<close>

definition cb_count :: "'a circular_buffer \<Rightarrow> nat" where
  "cb_count c = (if cb_first c \<le> cb_last c then cb_last c - cb_first c
     else length (cb_buffer c) + cb_last c - cb_first c)"

definition cb_items :: "'a circular_buffer \<Rightarrow> 'a list" where
  "cb_items c = map (\<lambda>i. cb_buffer c ! ((cb_first c + i) mod length (cb_buffer c))) [0..<cb_count c]"

definition cb_ok :: "'a circular_buffer \<Rightarrow> bool" where
  "cb_ok c \<longleftrightarrow> cb_first c < length (cb_buffer c) \<and> cb_last c < length (cb_buffer c)"

definition cb_capacity :: "'a circular_buffer \<Rightarrow> nat" where
  "cb_capacity c = length (cb_buffer c) - 1"

lemma nextPos_mod: "i < n \<Longrightarrow> nextPos n i = Suc i mod n"
  by (auto simp: nextPos_def Let_def mod_Suc)

lemma length_cb_items [simp]: "length (cb_items c) = cb_count c"
  by (simp add: cb_items_def)

lemma cb_count_less: "cb_ok c \<Longrightarrow> cb_count c < length (cb_buffer c)"
  by (auto simp: cb_ok_def cb_count_def)

lemma cb_new_ok: "0 < n \<Longrightarrow> cb_ok (cb_new n v) \<and> cb_items (cb_new n v) = [] \<and> cb_capacity (cb_new n v) = n - 1"
  by (simp add: cb_ok_def cb_new_def cb_items_def cb_count_def cb_capacity_def)

lemma cb_full: "cb_ok c \<Longrightarrow> nextPos (length (cb_buffer c)) (cb_last c) = cb_first c \<longleftrightarrow>
    \<not> cb_count c < cb_capacity c"
  by (auto simp: cb_ok_def cb_count_def cb_capacity_def nextPos_def Let_def)

lemma cb_put_items:
  assumes "cb_ok c"
  shows "cb_items (snd (cb_put v c)) =
    (if cb_count c < cb_capacity c then cb_items c @ [v] else cb_items c)"
proof (cases "cb_count c < cb_capacity c")
  case False
  with cb_full [OF assms] show ?thesis by (simp add: cb_put_def)
next
  case True
  let ?n = "length (cb_buffer c)"
  let ?d = "c\<lparr>cb_buffer := (cb_buffer c)[cb_last c := v], cb_last := nextPos ?n (cb_last c)\<rparr>"
  have d: "snd (cb_put v c) = ?d" using cb_full [OF assms] True by (simp add: cb_put_def Let_def)
  have count: "cb_count ?d = Suc (cb_count c)"
    using assms True by (auto simp: cb_ok_def cb_count_def cb_capacity_def nextPos_def Let_def)
  have last: "(cb_first c + i) mod ?n = cb_last c \<longleftrightarrow> i = cb_count c" if "i \<le> cb_count c" for i
    using assms that cb_count_less [OF assms]
    by (auto simp: cb_ok_def cb_count_def mod_if split: if_splits)
  have lt: "cb_last c < ?n" using assms by (simp add: cb_ok_def)
  have "cb_items ?d = cb_items c @ [v]"
  proof (rule nth_equalityI)
    fix i assume "i < length (cb_items ?d)"
    then have i: "i \<le> cb_count c" using count by simp
    have "cb_items ?d ! i = (cb_buffer c)[cb_last c := v] ! ((cb_first c + i) mod ?n)"
      using i count by (simp add: cb_items_def nth_append)
    also have "\<dots> = (if i = cb_count c then v else cb_buffer c ! ((cb_first c + i) mod ?n))"
      using last [OF i] lt by (metis nth_list_update_eq nth_list_update_neq)
    also have "\<dots> = (cb_items c @ [v]) ! i"
      using i by (auto simp: nth_append) (simp add: cb_items_def)
    finally show "cb_items ?d ! i = (cb_items c @ [v]) ! i" .
  qed (simp add: count)
  with d True show ?thesis by simp
qed

lemma cb_pull_items: "cb_ok c \<Longrightarrow> cb_items (snd (cb_pull c)) = tl (cb_items c)"
proof (cases "cb_first c = cb_last c")
  case True
  then show ?thesis by (simp add: cb_pull_def cb_items_def cb_count_def)
next
  case False
  assume ok: "cb_ok c"
  let ?n = "length (cb_buffer c)"
  let ?d = "c\<lparr>cb_first := nextPos ?n (cb_first c)\<rparr>"
  have count: "cb_count c = Suc (cb_count ?d)"
    using ok False by (auto simp: cb_ok_def cb_count_def nextPos_def Let_def)
  have "(nextPos ?n (cb_first c) + i) mod ?n = (cb_first c + Suc i) mod ?n" for i
    using ok by (simp add: cb_ok_def nextPos_mod mod_add_left_eq)
  then have "cb_items ?d = tl (cb_items c)"
    by (intro nth_equalityI) (simp_all add: count cb_items_def nth_tl del: upt_Suc)
  with False show ?thesis by (simp add: cb_pull_def)
qed

lemma cb_get_items: "cb_ok c \<Longrightarrow> cb_get c = (if cb_items c = [] then None else Some (hd (cb_items c)))"
proof -
  assume ok: "cb_ok c"
  have "cb_items c = [] \<longleftrightarrow> cb_first c = cb_last c"
    using ok by (auto simp: cb_items_def cb_ok_def cb_count_def)
  moreover have "hd (cb_items c) = cb_buffer c ! cb_first c" if "cb_items c \<noteq> []"
    using ok that by (auto simp: cb_items_def cb_ok_def hd_map)
  ultimately show ?thesis by (simp add: cb_get_def)
qed

interpretation cb: bounded_fifo cb_put cb_get cb_pull cb_items cb_ok cb_capacity
proof unfold_locales
  fix c :: "'a circular_buffer" and v
  assume ok: "cb_ok c"
  then have pos: "nextPos (length (cb_buffer c)) i < length (cb_buffer c)" for i
    by (auto simp: nextPos_def Let_def cb_ok_def)
  show "cb_ok (snd (cb_put v c)) \<and> cb_capacity (snd (cb_put v c)) = cb_capacity c"
    using ok pos by (auto simp: cb_put_def Let_def cb_ok_def cb_capacity_def)
  show "cb_items (snd (cb_put v c)) =
      (if length (cb_items c) < cb_capacity c then cb_items c @ [v] else cb_items c)"
    using cb_put_items [OF ok] by simp
  show "fst (cb_put v c) \<longleftrightarrow> length (cb_items c) < cb_capacity c"
    using cb_full [OF ok] by (auto simp: cb_put_def Let_def)
  show "cb_get c = (if cb_items c = [] then None else Some (hd (cb_items c)))"
    by (rule cb_get_items [OF ok])
  show "fst (cb_pull c) = cb_get c" by (simp add: cb_pull_def cb_get_def)
  show "cb_ok (snd (cb_pull c)) \<and> cb_capacity (snd (cb_pull c)) = cb_capacity c"
    using ok pos by (auto simp: cb_pull_def cb_ok_def cb_capacity_def)
  show "cb_items (snd (cb_pull c)) = tl (cb_items c)"
    by (rule cb_pull_items [OF ok])
qed

section \<open>Properties\<close>



end
