(* ===== verification/Usb_Protocol.thy ===== *)
theory Usb_Protocol
  imports Prelude
begin

text \<open>
  The packets between the PC and the probe, \<^verbatim>\<open>Bootloader/App/DbgCommands.h\<close> and its copies in
  \<^verbatim>\<open>GdbServer/\<close>: the enumerations and the heads of the requests. Structures are packed and
  little-endian on both sides; a packet is the list of its bytes.
\<close>

section \<open>Enumerations\<close>

datatype debug_command =
  CMemoryRead | CMemoryWrite | CRegsRead | CRegsWrite | CResetHalt | CBreakpoint | CFlash | CAttach

fun command_code :: "debug_command \<Rightarrow> u8" where
  "command_code CMemoryRead = 0"
| "command_code CMemoryWrite = 1"
| "command_code CRegsRead = 2"
| "command_code CRegsWrite = 3"
| "command_code CResetHalt = 4"
| "command_code CBreakpoint = 5"
| "command_code CFlash = 6"
| "command_code CAttach = 7"

datatype reset_halt_state =
  HS_Running | HS_Error | HS_Request | HS_Stepping | HS_Breakpoint | HS_Watchpoint | HS_Fault |
  HS_Undefined

fun state_code :: "reset_halt_state \<Rightarrow> u8" where
  "state_code HS_Running = 0"
| "state_code HS_Error = 1"
| "state_code HS_Request = 2"
| "state_code HS_Stepping = 3"
| "state_code HS_Breakpoint = 4"
| "state_code HS_Watchpoint = 5"
| "state_code HS_Fault = 6"
| "state_code HS_Undefined = 7"

datatype reset_halt_command =
  RH_ResetOnly | RH_HaltOnly | RH_ResetAndHalt | RH_Resume | RH_ResumeStep | RH_GetState

fun reset_halt_code :: "reset_halt_command \<Rightarrow> u8" where
  "reset_halt_code RH_ResetOnly = 0"
| "reset_halt_code RH_HaltOnly = 1"
| "reset_halt_code RH_ResetAndHalt = 2"
| "reset_halt_code RH_Resume = 3"
| "reset_halt_code RH_ResumeStep = 4"
| "reset_halt_code RH_GetState = 5"

datatype flash_command = FC_Unlock | FC_Lock | FC_Erase | FC_Detach

fun flash_code :: "flash_command \<Rightarrow> u8" where
  "flash_code FC_Unlock = 0"
| "flash_code FC_Lock = 1"
| "flash_code FC_Erase = 2"
| "flash_code FC_Detach = 3"

datatype attach_command = AC_Attach | AC_Detach

fun attach_code :: "attach_command \<Rightarrow> u8" where
  "attach_code AC_Attach = 0"
| "attach_code AC_Detach = 1"

section \<open>Heads\<close>

text \<open>
  The head of a memory request and of its answer have the same layout, as have those of a
  register request: command, access size or register count, two more bytes, the address.
\<close>

definition mem_head :: "debug_command \<Rightarrow> u8 \<Rightarrow> u16 \<Rightarrow> u32 \<Rightarrow> u8 list" where
  "mem_head c align byteCount address = [command_code c, align] @ le16 byteCount @ le32 address"

definition reg_head :: "debug_command \<Rightarrow> u8 \<Rightarrow> u16 \<Rightarrow> u8 list" where
  "reg_head c regCount regIndex = [command_code c, regCount] @ le16 regIndex"

definition flash_head :: "u8 \<Rightarrow> u32 \<Rightarrow> u32 \<Rightarrow> u8 list" where
  "flash_head flashCommand address sz =
     [command_code CFlash, flashCommand] @ le16 0 @ le32 address @ le32 sz"

definition breakpoint_head :: "u8 \<Rightarrow> u16 \<Rightarrow> u8 list" where
  "breakpoint_head st n = [command_code CBreakpoint, st] @ le16 n"

record usb_breakpoint =
  ub_address :: u32
  ub_type :: u8
  ub_size :: u8
  ub_reserved :: u16

definition breakpoint_bytes :: "usb_breakpoint \<Rightarrow> u8 list" where
  "breakpoint_bytes bp = le32 (ub_address bp) @ [ub_type bp, ub_size bp] @ le16 (ub_reserved bp)"

lemma length_heads [simp]:
  "length (mem_head c a n x) = 8" "length (reg_head c k r) = 4" "length (flash_head f x z) = 12"
  "length (breakpoint_head st n) = 4" "length (breakpoint_bytes bp) = 8"
  by (simp_all add: mem_head_def reg_head_def flash_head_def breakpoint_head_def breakpoint_bytes_def)

text \<open>Reading a head back.\<close>

lemma mem_head_fields [le_simps]:
  "(mem_head c a n x @ bs) ! 0 = command_code c" "(mem_head c a n x @ bs) ! Suc 0 = a"
  "rd16 (drop 2 (mem_head c a n x) @ bs) = n" "rd32 (drop 4 (mem_head c a n x) @ bs) = x"
  using rd16_le16 [of n "le32 x @ bs"] rd32_le32 [of x bs]
  by (simp_all add: mem_head_def le16_def le32_def)

lemma mem_head_alone [le_simps]:
  "mem_head c a n x ! 0 = command_code c" "mem_head c a n x ! Suc 0 = a"
  "rd16 (drop 2 (mem_head c a n x)) = n" "rd32 (drop 4 (mem_head c a n x)) = x"
  using mem_head_fields [of c a n x "[]"] by simp_all

lemma reg_head_fields [le_simps]:
  "(reg_head c k r @ bs) ! 0 = command_code c" "(reg_head c k r @ bs) ! Suc 0 = k"
  "rd16 (drop 2 (reg_head c k r) @ bs) = r"
  using rd16_le16 [of r bs] by (simp_all add: reg_head_def le16_def)

lemma reg_head_alone [le_simps]:
  "reg_head c k r ! 0 = command_code c" "reg_head c k r ! Suc 0 = k" "rd16 (drop 2 (reg_head c k r)) = r"
  using reg_head_fields [of c k r "[]"] by simp_all

lemma command_code_inj [simp]: "command_code c = command_code c' \<longleftrightarrow> c = c'"
  by (cases c; cases c'; simp)

end
