(* ===== verification/Debug.thy ===== *)
theory Debug
  imports Usb_Protocol Circular_Buffer Flash_Ctl Peripherals
begin

text \<open>
  \<^verbatim>\<open>Bootloader/App/Debug.cpp\<close>: the debug monitor of the probe. The USB interrupt queues
  commands and pends the DebugMonitor exception; its handler, \<open>DebugHandler\<close>, is a state
  machine: it steps the core over interrupts, and while the core is halted it stays in a loop
  that takes commands from the queue. The \<open>return\<close>s of the C function, one round of its loop
  and its exit are separate outcomes, because the USB interrupt runs between rounds. Core
  registers that are not memory-mapped (BASEPRI, FAULTMASK) are fields of the state;
  \<open>context_data\<close>, where the assembler entry code saves the registers of the interrupted
  code, is a list of 19 words (r0 to r15, xPSR, MSP, PSP). Addresses of functions that the
  handler stores in the saved \<open>pc\<close> are given by \<open>image\<close>.
\<close>

section \<open>State\<close>

datatype handler_command =
  HNop | HHalt | HResume | HResumeStep | HStartFirmware | HStartLocalLoop | HStartEraseLoop

record 'h monitor =
  hw :: 'h
  usbCmdFrame :: "u8 list"
  usbAnsFrame :: "u8 list"
  context_data :: "u32 list"
  gCmdQueue :: "handler_command circular_buffer"
  gEraseParams :: "(u32 \<times> u32) circular_buffer"
  gHaltState :: reset_halt_state
  stepOnThread :: u8
  exitFromInterrupt :: bool
  allowUsbTransfer :: bool
  usbInitialized :: bool
  basepri :: u32
  faultmask :: u32

record image =
  addr_debugLocalLoop :: u32
  addr_flashEraseLoop :: u32

definition DEMCR :: u32 where "DEMCR = 0xE000EDFC"
definition DFSR :: u32 where "DFSR = 0xE000ED30"
definition GPIOA_ODR :: u32 where "GPIOA_ODR = 0x4001080C"
definition DFSR_BKPT :: u32 where "DFSR_BKPT = 0x02"
definition DEMCR_MON_PEND :: u32 where "DEMCR_MON_PEND = 0x20000"
definition DEMCR_MON_STEP :: u32 where "DEMCR_MON_STEP = 0x40000"
definition DEMCR_MON_REQ :: u32 where "DEMCR_MON_REQ = 0x80000"

definition on_hw :: "('h \<Rightarrow> 'h) \<Rightarrow> 'h monitor \<Rightarrow> 'h monitor" where
  "on_hw f m = m\<lparr>hw := f (hw m)\<rparr>"

definition read_hw :: "('h \<Rightarrow> 'a \<times> 'h) \<Rightarrow> 'h monitor \<Rightarrow> 'a \<times> 'h monitor" where
  "read_hw f m = (case f (hw m) of (x, h) \<Rightarrow> (x, m\<lparr>hw := h\<rparr>))"

section \<open>Requests\<close>

definition enqueue :: "'h bus \<Rightarrow> handler_command \<Rightarrow> 'h monitor \<Rightarrow> bool \<times> 'h monitor" where
  "enqueue b c m =
     (case cb_put c (gCmdQueue m) of (r, q) \<Rightarrow>
        (r, on_hw (mmio_set b DEMCR DEMCR_MON_PEND) (m\<lparr>gCmdQueue := q\<rparr>)))"

definition debugHaltRequest :: "'h bus \<Rightarrow> 'h monitor \<Rightarrow> bool \<times> 'h monitor" where
  "debugHaltRequest b = enqueue b HHalt"

definition debugResume :: "'h bus \<Rightarrow> bool \<Rightarrow> 'h monitor \<Rightarrow> bool \<times> 'h monitor" where
  "debugResume b step = enqueue b (if step then HResumeStep else HResume)"

definition debugStartFirmware :: "'h bus \<Rightarrow> 'h monitor \<Rightarrow> bool \<times> 'h monitor" where
  "debugStartFirmware b = enqueue b HStartFirmware"

definition debugStartLocalLoop :: "'h bus \<Rightarrow> 'h monitor \<Rightarrow> bool \<times> 'h monitor" where
  "debugStartLocalLoop b = enqueue b HStartLocalLoop"

definition debugStartEraseLoop :: "'h bus \<Rightarrow> u32 \<Rightarrow> u32 \<Rightarrow> 'h monitor \<Rightarrow> bool \<times> 'h monitor" where
  "debugStartEraseLoop b address sz m =
     (case cb_put (address, sz) (gEraseParams m) of (r, p) \<Rightarrow>
        case enqueue b HStartEraseLoop (m\<lparr>gEraseParams := p\<rparr>) of (r', m) \<Rightarrow> (r \<and> r', m))"

definition debugGetHaltState :: "'h monitor \<Rightarrow> reset_halt_state" where
  "debugGetHaltState m = gHaltState m"

section \<open>Silencing the user program\<close>

text \<open>The reset lines of the peripherals that user code may use, in the order of the code.\<close>

definition user_resets :: "u32 list" where
  "user_resets =
     [0x200, 0x201, 0x202, 0x20B, 0x20E, 0x211, 0x212, 0x215, 0x216, 0x219,
      0x183, 0x185, 0x186, 0x189, 0x18A, 0x18B, 0x18C, 0x18E]"

definition debugResetUserPheripherals :: "'h bus \<Rightarrow> 'h \<Rightarrow> 'h" where
  "debugResetUserPheripherals b = fold (rcc_periph_reset_pulse b) user_resets"

text \<open>All interrupts but 19 and 20, those of the USB controller.\<close>

definition user_irqs :: "u8 list" where
  "user_irqs = filter (\<lambda>i. i \<noteq> 19 \<and> i \<noteq> 20) (map of_nat [0..<256])"

definition debugDisableUserInterrupts :: "'h bus \<Rightarrow> 'h \<Rightarrow> 'h" where
  "debugDisableUserInterrupts b h =
     fold (nvic_clear_pending_irq b) user_irqs
       (debugResetUserPheripherals b (fold (nvic_disable_irq b) user_irqs h))"

definition enableDisableDebugCommandHandler :: "'h bus \<Rightarrow> bool \<Rightarrow> 'h \<Rightarrow> 'h" where
  "enableDisableDebugCommandHandler b enable h =
     (if enable then nvic_enable_irq b 20 (nvic_enable_irq b 19 h)
      else nvic_disable_irq b 20 (nvic_disable_irq b 19 h))"

section \<open>Erasing\<close>

text \<open>
  The thread-mode function that the handler starts for \<open>StartEraseLoop\<close>. Its two inner loops
  run over word addresses that may wrap around, so they are partial functions.
\<close>

partial_function (option) needs_erase :: "'h bus \<Rightarrow> u32 \<Rightarrow> u32 \<Rightarrow> 'h \<Rightarrow> (bool \<times> 'h) option" where
  "needs_erase b checkAddress stop_addr h =
     (if checkAddress < stop_addr then
        case mmio_read b checkAddress h of (v, h) \<Rightarrow>
          if v \<noteq> 0xFFFFFFFF then Some (True, h) else needs_erase b (checkAddress + 4) stop_addr h
      else Some (False, h))"

partial_function (option) erase_pages :: "'h bus \<Rightarrow> u32 \<Rightarrow> u32 \<Rightarrow> 'h \<Rightarrow> 'h option" where
  "erase_pages b curAddress lastAddress h =
     (if curAddress < lastAddress then
        Option.bind (needs_erase b curAddress (curAddress + 0x400) h) (\<lambda>(erase, h).
        Option.bind (if erase then flash_erase_page b curAddress (flash_unlock b h) else Some h) (\<lambda>h.
          erase_pages b (curAddress + 0x400) lastAddress h))
      else Some h)"

text \<open>\<open>while (gEraseParams.pull(params))\<close>, left when a range is not accepted.\<close>

definition range_accepted :: "u32 \<Rightarrow> u32 \<Rightarrow> bool" where
  "range_accepted address sz \<longleftrightarrow>
     \<not> (address < 0x8004000 \<or> address > 0x80020000) \<and> \<not> (address + sz > 0x80020000)"

partial_function (option) erase_requests :: "'h bus \<Rightarrow> 'h monitor \<Rightarrow> 'h monitor option" where
  "erase_requests b m =
     (case cb_pull (gEraseParams m) of
        (None, q) \<Rightarrow> Some m
      | (Some p, q) \<Rightarrow>
          let m = m\<lparr>gEraseParams := q\<rparr>
          in if \<not> range_accepted (fst p) (snd p) then Some m
             else Option.bind (erase_pages b (fst p) (fst p + snd p) (hw m)) (\<lambda>h.
                    erase_requests b (m\<lparr>hw := h\<rparr>)))"

text \<open>\<open>flashEraseLoop\<close> up to the endless loop at its end, where the handler takes over.\<close>

definition flashEraseLoop :: "'h bus \<Rightarrow> 'h monitor \<Rightarrow> 'h monitor option" where
  "flashEraseLoop b m =
     map_option
       (\<lambda>m. snd (debugStartLocalLoop b (on_hw (enableDisableDebugCommandHandler b True) m)))
       (erase_requests b (on_hw (enableDisableDebugCommandHandler b False) m))"

section \<open>The exception handler\<close>

datatype 'm outcome =
    Returned 'm   \<comment> \<open>the handler returns to the interrupted code\<close>
  | Looping 'm    \<comment> \<open>the handler goes on with its loop\<close>
  | Hung 'm       \<comment> \<open>it ends in \<open>while(true)\<close>\<close>

definition setDebugCode :: "'h bus \<Rightarrow> 'h monitor \<Rightarrow> 'h monitor" where
  "setDebugCode b = on_hw (\<lambda>h. snd (mmio_read b GPIOA_ODR h))"

definition interruptActive :: "'h monitor \<Rightarrow> bool" where
  "interruptActive m \<longleftrightarrow> context_data m ! 16 AND 0xFF \<noteq> 0"

text \<open>\<open>DEMCR |= MON_STEP; DEMCR &= ~MON_PEND;\<close>\<close>

definition step_again :: "'h bus \<Rightarrow> 'h monitor \<Rightarrow> 'h monitor" where
  "step_again b = on_hw (\<lambda>h. mmio_clear b DEMCR DEMCR_MON_PEND (mmio_set b DEMCR DEMCR_MON_STEP h))"

definition step_interrupt :: "'h bus \<Rightarrow> 'h monitor \<Rightarrow> 'h monitor outcome" where
  "step_interrupt b m =
     (let m = (if stepOnThread m \<noteq> 0 then
                 (case read_hw (mmio_read b DFSR) m of (x, m) \<Rightarrow>
                    if x AND DFSR_BKPT \<noteq> 0
                    then (on_hw (mmio_clear b DEMCR DEMCR_MON_STEP)
                            (m\<lparr>stepOnThread := 0, exitFromInterrupt := False\<rparr>))\<lparr>basepri := 0\<rparr>
                    else m)
               else m);
          m = (if stepOnThread m = 1
               then m\<lparr>stepOnThread := 2, exitFromInterrupt := True, basepri := 0x30\<rparr> else m)
      in if exitFromInterrupt m then Returned (step_again b m) else Looping m)"

definition step_thread :: "'h bus \<Rightarrow> 'h monitor \<Rightarrow> 'h monitor outcome" where
  "step_thread b m =
     (if stepOnThread m = 2 then Returned (step_again b (m\<lparr>stepOnThread := 3\<rparr>))
      else
        let m = (if stepOnThread m = 3 then m\<lparr>stepOnThread := 0, basepri := 0\<rparr> else m);
            m = (if exitFromInterrupt m
                 then (on_hw (mmio_clear b DEMCR DEMCR_MON_STEP) m)\<lparr>exitFromInterrupt := False\<rparr> else m)
        in Looping m)"

text \<open>From the entry of the handler to the start of its loop.\<close>

definition handler_enter :: "'h bus \<Rightarrow> 'h monitor \<Rightarrow> 'h monitor outcome" where
  "handler_enter b m =
     (case (if interruptActive m then step_interrupt b m else step_thread b m) of
        Looping m \<Rightarrow>
          let m = setDebugCode b (m\<lparr>stepOnThread := 0\<rparr>)
          in (case read_hw (mmio_read b DEMCR) m of (x, m) \<Rightarrow>
                if x AND DEMCR_MON_REQ \<noteq> 0 then
                  let m = on_hw (mmio_clear b DEMCR DEMCR_MON_PEND) m
                  in if cb_isEmpty (gCmdQueue m) then Returned m else Looping (setDebugCode b m)
                else
                  Looping (setDebugCode b
                    (if cb_isEmpty (gCmdQueue m) then m\<lparr>gHaltState := HS_Breakpoint\<rparr> else m)))
      | x \<Rightarrow> x)"

text \<open>Preparing the saved registers to run code at \<open>pc\<close> with stack \<open>sp\<close>.\<close>

definition redirect :: "u32 \<Rightarrow> u32 \<Rightarrow> 'h monitor \<Rightarrow> 'h monitor" where
  "redirect pc sp m =
     m\<lparr>context_data := (context_data m)[15 := pc, 14 := pc, 13 := sp, 16 := push_bit 24 (pc AND 1)]\<rparr>"

definition pull_cmd :: "'h monitor \<Rightarrow> 'h monitor" where
  "pull_cmd m = m\<lparr>gCmdQueue := snd (cb_pull (gCmdQueue m))\<rparr>"

text \<open>A command that needs thread mode, found while an interrupt is active: step out of it first.\<close>

definition leave_interrupt :: "'h bus \<Rightarrow> 'h monitor \<Rightarrow> 'h monitor outcome" where
  "leave_interrupt b m = Returned (step_again b (m\<lparr>exitFromInterrupt := True\<rparr>))"

definition userCodeVectorTable :: u32 where "userCodeVectorTable = 0x8004000"
definition resetVectorOffset :: u32 where "resetVectorOffset = 4"
definition maxFirmwareSize :: u32 where "maxFirmwareSize = 0x8020000 - userCodeVectorTable"

definition start_firmware :: "'h bus \<Rightarrow> 'h monitor \<Rightarrow> 'h monitor outcome" where
  "start_firmware b m =
     (let m = on_hw (debugDisableUserInterrupts b) (pull_cmd m);
          (stackPointer, m) = read_hw (mmio_read b userCodeVectorTable) m;
          (resetAddress, m) = read_hw (mmio_read b (userCodeVectorTable + resetVectorOffset)) m;
          lastFirmwareAddress = userCodeVectorTable + maxFirmwareSize;
          m = on_hw (fold (\<lambda>i h. snd (mmio_read b (userCodeVectorTable + 4 * of_nat i) h))
                      [0..<unat maxFirmwareSize div 4]) m
      in if userCodeVectorTable < resetAddress \<and> resetAddress < lastFirmwareAddress then
           (case read_hw (mmio_read b resetAddress) m of (cmdAtResetVector, m) \<Rightarrow>
              if cmdAtResetVector \<noteq> 0xFFFFFFFF then
                Returned ((step_again b (redirect resetAddress stackPointer (setDebugCode b m)))
                  \<lparr>allowUsbTransfer := True\<rparr>)
              else Looping m)
         else Looping m)"

text \<open>The body of the loop.\<close>

definition handler_round :: "'h bus \<Rightarrow> image \<Rightarrow> 'h monitor \<Rightarrow> 'h monitor outcome" where
  "handler_round b img m =
     (case cb_get (gCmdQueue m) of
        None \<Rightarrow> Looping m
      | Some HHalt \<Rightarrow> Looping ((pull_cmd m)\<lparr>gHaltState := HS_Request\<rparr>)
      | Some HResume \<Rightarrow>
          Looping ((on_hw (mmio_clear b DEMCR DEMCR_MON_STEP) (pull_cmd m))\<lparr>gHaltState := HS_Running\<rparr>)
      | Some HResumeStep \<Rightarrow>
          let m = pull_cmd m;
              m = (if \<not> interruptActive m then m\<lparr>stepOnThread := 1\<rparr> else m);
              m = step_again b (on_hw (mmio_set b DFSR DFSR_BKPT) m)
          in Looping (m\<lparr>gHaltState := HS_Running\<rparr>)
      | Some HStartLocalLoop \<Rightarrow>
          let m = setDebugCode b m
          in if \<not> interruptActive m then
               let m = on_hw (debugDisableUserInterrupts b) (pull_cmd m);
                   m = on_hw (mmio_set b DEMCR DEMCR_MON_STEP)
                         (redirect (addr_debugLocalLoop img) 0x20005000 m)
               in Returned ((step_again b m)\<lparr>gHaltState := HS_Running\<rparr>)
             else leave_interrupt b m
      | Some HStartEraseLoop \<Rightarrow>
          let m = setDebugCode b m
          in if \<not> interruptActive m then
               let m = on_hw (debugDisableUserInterrupts b) (pull_cmd m);
                   m = redirect (addr_flashEraseLoop img) 0x20005000 m
               in Returned ((on_hw (mmio_clear b DEMCR DEMCR_MON_PEND) m)\<lparr>gHaltState := HS_Running\<rparr>)
             else leave_interrupt b m
      | Some HStartFirmware \<Rightarrow>
          let m = setDebugCode b m
          in if \<not> interruptActive m then start_firmware b m else leave_interrupt b m
      | Some HNop \<Rightarrow> Hung m)"

text \<open>One round with the test at its end, and what follows the loop.\<close>

definition handler_loop :: "'h bus \<Rightarrow> image \<Rightarrow> 'h monitor \<Rightarrow> 'h monitor outcome" where
  "handler_loop b img m =
     (case handler_round b img m of
        Looping m \<Rightarrow>
          if gHaltState m \<noteq> HS_Running then Looping m
          else Returned (setDebugCode b
            (if cb_isEmpty (gCmdQueue m) then on_hw (mmio_clear b DEMCR DEMCR_MON_PEND) m else m))
      | x \<Rightarrow> x)"

end
