(* ===== verification/Debug_Machine.thy ===== *)
theory Debug_Machine
  imports Debug F103
begin

text \<open>
  The debug monitor as a transition system: USB requests, which may come at any time, the
  DebugMonitor exception, which interrupts user code with any register contents, the rounds
  of the handler's loop, and the erase loop that runs in thread mode. The invariant of the
  reachable states and the sequences of exceptions that make up resuming, stepping and
  starting the firmware.
\<close>

section \<open>Transitions\<close>

datatype mode = Thread | Handler | Stuck

definition after_handler :: "'m outcome \<Rightarrow> mode \<times> 'm" where
  "after_handler r = (case r of Returned m \<Rightarrow> (Thread, m) | Looping m \<Rightarrow> (Handler, m) | Hung m \<Rightarrow> (Stuck, m))"

inductive monitor_step :: "'h bus \<Rightarrow> image \<Rightarrow> mode \<times> 'h monitor \<Rightarrow> mode \<times> 'h monitor \<Rightarrow> bool"
  for b :: "'h bus" and img :: image where
  halt: "monitor_step b img (k, m) (k, snd (debugHaltRequest b m))"
| resume: "monitor_step b img (k, m) (k, snd (debugResume b step m))"
| firmware: "monitor_step b img (k, m) (k, snd (debugStartFirmware b m))"
| local_loop: "monitor_step b img (k, m) (k, snd (debugStartLocalLoop b m))"
| erase: "monitor_step b img (k, m) (k, snd (debugStartEraseLoop b a sz m))"
| enter: "length rs = 19 \<Longrightarrow>
    monitor_step b img (Thread, m) (after_handler (handler_enter b (m\<lparr>context_data := rs\<rparr>)))"
| loop: "monitor_step b img (Handler, m) (after_handler (handler_loop b img m))"
| erase_loop: "flashEraseLoop b m = Some m' \<Longrightarrow> monitor_step b img (Thread, m) (Thread, m')"

inductive_simps monitor_step_Stuck [simp]: "monitor_step b img (Stuck, m) s"

definition initial :: "'h \<Rightarrow> 'h monitor" where
  "initial h =
     \<lparr>hw = h, usbCmdFrame = replicate 64 0, usbAnsFrame = replicate 64 0,
      context_data = replicate 19 0, gCmdQueue = cb_new 16 HNop, gEraseParams = cb_new 4 (0, 0),
      gHaltState = HS_Running, stepOnThread = 0, exitFromInterrupt = False,
      allowUsbTransfer = False, usbInitialized = False, basepri = 0, faultmask = 0\<rparr>"

section \<open>The invariant\<close>

definition queues_ok :: "'h monitor \<Rightarrow> bool" where
  "queues_ok m \<longleftrightarrow>
     cb_ok (gCmdQueue m) \<and> cb_capacity (gCmdQueue m) = 15 \<and> HNop \<notin> set (cb_items (gCmdQueue m)) \<and>
     cb_ok (gEraseParams m) \<and> cb_capacity (gEraseParams m) = 3"

definition monitor_inv :: "'h monitor \<Rightarrow> bool" where
  "monitor_inv m \<longleftrightarrow> queues_ok m \<and> length (context_data m) = 19 \<and> stepOnThread m \<in> {0, 1, 2, 3}"

text \<open>What the pieces of the handler may change.\<close>

definition pair_fields :: "'h monitor \<Rightarrow> handler_command circular_buffer \<times> (u32 \<times> u32) circular_buffer \<times> nat" where
  "pair_fields m = (gCmdQueue m, gEraseParams m, length (context_data m))"

lemma inv_pair_fields:
  "pair_fields m = pair_fields m' \<Longrightarrow> stepOnThread m' \<in> {0, 1, 2, 3} \<Longrightarrow> monitor_inv m \<Longrightarrow> monitor_inv m'"
  by (auto simp: monitor_inv_def queues_ok_def pair_fields_def)

lemma fields_simps [simp]:
  "pair_fields (on_hw f m) = pair_fields m" "stepOnThread (on_hw f m) = stepOnThread m"
  "gCmdQueue (on_hw f m) = gCmdQueue m" "gEraseParams (on_hw f m) = gEraseParams m"
  "context_data (on_hw f m) = context_data m" "gHaltState (on_hw f m) = gHaltState m"
  "exitFromInterrupt (on_hw f m) = exitFromInterrupt m" "hw (on_hw f m) = f (hw m)"
  "basepri (on_hw f m) = basepri m" "allowUsbTransfer (on_hw f m) = allowUsbTransfer m"
  "interruptActive (on_hw f m) = interruptActive m"
  "pair_fields (m\<lparr>stepOnThread := s\<rparr>) = pair_fields m"
  "pair_fields (m\<lparr>gHaltState := hs\<rparr>) = pair_fields m"
  "pair_fields (m\<lparr>exitFromInterrupt := e\<rparr>) = pair_fields m"
  "pair_fields (m\<lparr>basepri := p\<rparr>) = pair_fields m"
  "pair_fields (m\<lparr>allowUsbTransfer := u\<rparr>) = pair_fields m"
  "pair_fields (redirect pc sp m) = pair_fields m" "stepOnThread (redirect pc sp m) = stepOnThread m"
  by (simp_all add: on_hw_def pair_fields_def redirect_def interruptActive_def)

lemma read_hw_fields:
  "read_hw f m = (x, m') \<Longrightarrow> pair_fields m' = pair_fields m \<and> stepOnThread m' = stepOnThread m \<and>
     exitFromInterrupt m' = exitFromInterrupt m \<and> gHaltState m' = gHaltState m \<and> gCmdQueue m' = gCmdQueue m"
  by (auto simp: read_hw_def pair_fields_def split: prod.splits)

lemma step_again_fields [simp]:
  "pair_fields (step_again b m) = pair_fields m" "stepOnThread (step_again b m) = stepOnThread m"
  "pair_fields (setDebugCode b m) = pair_fields m" "stepOnThread (setDebugCode b m) = stepOnThread m"
  "gHaltState (setDebugCode b m) = gHaltState m" "gHaltState (step_again b m) = gHaltState m"
  by (simp_all add: step_again_def setDebugCode_def)

text \<open>The filter at the entry of the handler leaves the queues alone.\<close>

fun outcome_all :: "('m \<Rightarrow> bool) \<Rightarrow> 'm outcome \<Rightarrow> bool" where
  "outcome_all P (Returned m) = P m"
| "outcome_all P (Looping m) = P m"
| "outcome_all P (Hung m) = False"

lemma outcome_mono: "outcome_all P r \<Longrightarrow> (\<And>m. P m \<Longrightarrow> Q m) \<Longrightarrow> outcome_all Q r"
  by (cases r) auto

lemma step_interrupt_fields:
  "stepOnThread m \<in> {0, 1, 2, 3} \<Longrightarrow>
   outcome_all (\<lambda>m'. pair_fields m' = pair_fields m \<and> stepOnThread m' \<in> {0, 1, 2, 3}) (step_interrupt b m)"
  by (cases "read_hw (mmio_read b DFSR) m")
    (auto simp: step_interrupt_def Let_def dest!: read_hw_fields)

lemma step_thread_fields:
  "stepOnThread m \<in> {0, 1, 2, 3} \<Longrightarrow>
   outcome_all (\<lambda>m'. pair_fields m' = pair_fields m \<and> stepOnThread m' \<in> {0, 1, 2, 3}) (step_thread b m)"
  by (auto simp: step_thread_def Let_def)

lemma handler_enter_fields:
  assumes "stepOnThread m \<in> {0, 1, 2, 3}"
  shows "outcome_all (\<lambda>m'. pair_fields m' = pair_fields m \<and> stepOnThread m' \<in> {0, 1, 2, 3})
    (handler_enter b m)"
proof -
  let ?r = "if interruptActive m then step_interrupt b m else step_thread b m"
  have "outcome_all (\<lambda>m'. pair_fields m' = pair_fields m \<and> stepOnThread m' \<in> {0, 1, 2, 3}) ?r"
    using step_interrupt_fields [OF assms] step_thread_fields [OF assms] by simp
  then show ?thesis
    by (cases ?r)
      (auto simp: handler_enter_def Let_def split: prod.splits dest!: read_hw_fields)
qed

lemma enqueue_inv:
  assumes "monitor_inv m" "c \<noteq> HNop"
  shows "monitor_inv (snd (enqueue b c m))"
proof -
  have ok: "cb_ok (gCmdQueue m)" using assms(1) by (simp add: monitor_inv_def queues_ok_def)
  have "set (cb_items (snd (cb_put c (gCmdQueue m)))) \<subseteq> insert c (set (cb_items (gCmdQueue m)))"
    using cb.put_items [OF ok, of c] by auto
  then show ?thesis
    using assms cb.put_ok [OF ok, of c]
    by (auto simp: monitor_inv_def queues_ok_def enqueue_def on_hw_def split: prod.splits)
qed

lemma pull_cmd_inv:
  assumes "monitor_inv m"
  shows "monitor_inv (pull_cmd m)"
proof -
  have ok: "cb_ok (gCmdQueue m)" using assms by (simp add: monitor_inv_def queues_ok_def)
  have "set (tl (cb_items (gCmdQueue m))) \<subseteq> set (cb_items (gCmdQueue m))"
    by (cases "cb_items (gCmdQueue m)") auto
  then show ?thesis
    using assms cb.pull_ok [OF ok] cb.pull_items [OF ok]
    by (auto simp: monitor_inv_def queues_ok_def pull_cmd_def)
qed

lemma get_not_nop: "monitor_inv m \<Longrightarrow> cb_get (gCmdQueue m) \<noteq> Some HNop"
  using cb.get_items [of "gCmdQueue m"]
  by (auto simp: monitor_inv_def queues_ok_def split: if_splits) (metis hd_in_set)+

lemma pull_cmd_step [simp]: "stepOnThread (pull_cmd m) = stepOnThread m"
  by (simp add: pull_cmd_def)

lemma inv_step: "monitor_inv m \<Longrightarrow> stepOnThread m \<in> {0, 1, 2, 3}"
  by (simp add: monitor_inv_def)

lemma start_firmware_inv:
  assumes "monitor_inv m"
  shows "outcome_all monitor_inv (start_firmware b m)"
proof -
  have same: "monitor_inv m'"
    if "pair_fields m' = pair_fields (pull_cmd m)" "stepOnThread m' = stepOnThread m" for m' :: "'a monitor"
    using inv_pair_fields [OF that(1) [symmetric]] inv_step [OF assms] pull_cmd_inv [OF assms] that(2) by simp
  show ?thesis
    by (auto simp: start_firmware_def Let_def split: prod.splits dest!: read_hw_fields intro!: same)
qed

lemma handler_round_inv:
  assumes "monitor_inv m"
  shows "outcome_all monitor_inv (handler_round b img m)"
proof -
  have pulled: "monitor_inv m'"
    if "pair_fields m' = pair_fields (pull_cmd m)" "stepOnThread m' \<in> {0, 1, 2, 3}" for m' :: "'a monitor"
    using inv_pair_fields [OF that(1) [symmetric] that(2) pull_cmd_inv [OF assms]] .
  have dbg: "pull_cmd (setDebugCode b m) = setDebugCode b (pull_cmd m)" for m :: "'a monitor"
    by (simp add: pull_cmd_def setDebugCode_def on_hw_def)
  have same: "monitor_inv m'" if "pair_fields m' = pair_fields m" "stepOnThread m' = stepOnThread m"
    for m' :: "'a monitor"
    using inv_pair_fields [OF that(1) [symmetric] _ assms] inv_step [OF assms] that(2) by simp
  note ok = inv_step [OF assms]
  have fw: "outcome_all monitor_inv (start_firmware b (setDebugCode b m))"
    by (intro start_firmware_inv same) simp_all
  show ?thesis
  proof (cases "cb_get (gCmdQueue m)")
    case None
    then show ?thesis using assms by (simp add: handler_round_def)
  next
    case (Some c)
    with get_not_nop [OF assms] ok fw show ?thesis
      by (cases c)
        (simp_all add: handler_round_def Let_def leave_interrupt_def dbg pulled same)
  qed
qed

lemma handler_loop_inv:
  assumes "monitor_inv m"
  shows "outcome_all monitor_inv (handler_loop b img m)"
proof -
  have same: "monitor_inv m'" if "monitor_inv m" "pair_fields m' = pair_fields m" "stepOnThread m' = stepOnThread m"
    for m m' :: "'a monitor"
    using inv_pair_fields [OF that(2) [symmetric] _ that(1)] inv_step [OF that(1)] that(3) by simp
  show ?thesis
    using handler_round_inv [OF assms, of b img]
    by (cases "handler_round b img m") (auto simp: handler_loop_def intro: same)
qed

lemma erase_requests_inv:
  assumes "erase_requests b m = Some m'" "monitor_inv m"
  shows "monitor_inv m'"
proof -
  have "monitor_inv m \<longrightarrow> monitor_inv m'"
  proof (rule erase_requests.raw_induct [OF _ assms(1), where P = "\<lambda>b m m'. monitor_inv m \<longrightarrow> monitor_inv m'"],
      rule impI)
    fix rec m m' and b :: "'a bus"
    assume rec: "\<And>b (m :: 'a monitor) m'. rec b m = Some m' \<Longrightarrow> monitor_inv m \<longrightarrow> monitor_inv m'"
      and inv: "monitor_inv m"
      and run: "(case cb_pull (gEraseParams m) of (None, q) \<Rightarrow> Some m
        | (Some p, q) \<Rightarrow> let m = m\<lparr>gEraseParams := q\<rparr>
          in if \<not> range_accepted (fst p) (snd p) then Some m
             else Option.bind (erase_pages b (fst p) (fst p + snd p) (hw m)) (\<lambda>h. rec b (m\<lparr>hw := h\<rparr>))) =
        Some m'"
    obtain r q where q: "cb_pull (gEraseParams m) = (r, q)" by fastforce
    have "cb_ok (gEraseParams m)" using inv by (simp add: monitor_inv_def queues_ok_def)
    then have inv': "monitor_inv (m\<lparr>gEraseParams := q\<rparr>)"
      using inv cb.pull_ok [of "gEraseParams m"] q by (auto simp: monitor_inv_def queues_ok_def)
    then have "monitor_inv (m\<lparr>gEraseParams := q, hw := h\<rparr>)" for h
      by (simp add: monitor_inv_def queues_ok_def)
    with run inv inv' q rec show "monitor_inv m'"
      by (auto simp: Let_def bind_eq_Some_conv split: option.splits if_splits)
  qed
  with assms(2) show ?thesis by simp
qed

lemma flashEraseLoop_inv: "flashEraseLoop b m = Some m' \<Longrightarrow> monitor_inv m \<Longrightarrow> monitor_inv m'"
proof -
  assume run: "flashEraseLoop b m = Some m'" and inv: "monitor_inv m"
  have hw: "monitor_inv (on_hw f m)" if "monitor_inv m" for f and m :: "'a monitor"
    using that by (simp add: on_hw_def monitor_inv_def queues_ok_def)
  from run obtain n where n: "erase_requests b (on_hw (enableDisableDebugCommandHandler b False) m) = Some n"
    and m': "m' = snd (debugStartLocalLoop b (on_hw (enableDisableDebugCommandHandler b True) n))"
    by (auto simp: flashEraseLoop_def)
  from erase_requests_inv [OF n hw [OF inv]] show ?thesis
    unfolding m' debugStartLocalLoop_def by (intro enqueue_inv hw) simp_all
qed

lemma after_handler_inv:
  "outcome_all monitor_inv r \<Longrightarrow> after_handler r = (k, m) \<Longrightarrow> k \<noteq> Stuck \<and> monitor_inv m"
  by (cases r) (auto simp: after_handler_def)

lemma erase_request_inv: "monitor_inv m \<Longrightarrow> monitor_inv (snd (debugStartEraseLoop b a sz m))"
proof -
  assume inv: "monitor_inv m"
  obtain r p where p: "cb_put (a, sz) (gEraseParams m) = (r, p)" by fastforce
  have "cb_ok (gEraseParams m)" using inv by (simp add: monitor_inv_def queues_ok_def)
  then have "monitor_inv (m\<lparr>gEraseParams := p\<rparr>)"
    using inv cb.put_ok [of "gEraseParams m" "(a, sz)"] p by (auto simp: monitor_inv_def queues_ok_def)
  from enqueue_inv [OF this, of HStartEraseLoop b] p show ?thesis
    by (cases "enqueue b HStartEraseLoop (m\<lparr>gEraseParams := p\<rparr>)") (simp add: debugStartEraseLoop_def)
qed

lemma monitor_step_inv:
  "monitor_step b img s s' \<Longrightarrow> monitor_inv (snd s) \<Longrightarrow> fst s \<noteq> Stuck \<Longrightarrow>
   monitor_inv (snd s') \<and> fst s' \<noteq> Stuck"
proof (induction rule: monitor_step.induct)
  case (enter rs m)
  then have inv: "monitor_inv (m\<lparr>context_data := rs\<rparr>)" by (simp add: monitor_inv_def queues_ok_def)
  have "outcome_all monitor_inv (handler_enter b (m\<lparr>context_data := rs\<rparr>))"
    using outcome_mono [OF handler_enter_fields [OF inv_step [OF inv], of b]]
      inv_pair_fields [OF _ _ inv] by metis
  then show ?case
    using after_handler_inv by (metis prod.collapse)
next
  case (loop m)
  then show ?case using after_handler_inv [OF handler_loop_inv] by (metis prod.collapse snd_conv)
qed (simp_all add: debugHaltRequest_def debugResume_def debugStartFirmware_def debugStartLocalLoop_def
    enqueue_inv erase_request_inv flashEraseLoop_inv)

lemma initial_inv: "monitor_inv (initial h)"
  using cb_new_ok [of 16 HNop] cb_new_ok [of 4 "(0, 0) :: u32 \<times> u32"]
  by (simp add: initial_def monitor_inv_def queues_ok_def)

section \<open>Properties\<close>



section \<open>The debug registers of the core\<close>

definition demcr :: "f103 monitor \<Rightarrow> u32" where
  "demcr m = load_le 4 DEMCR (f_mem (hw m))"

definition dfsr :: "f103 monitor \<Rightarrow> u32" where
  "dfsr m = load_le 4 DFSR (f_mem (hw m))"

lemma f103_demcr [simp]:
  "mmio_read f103_bus DEMCR h = (load_le 4 DEMCR (f_mem h), h)"
  "mmio_write f103_bus DEMCR v h = h\<lparr>f_mem := store_le 4 DEMCR v (f_mem h)\<rparr>"
  by (simp_all add: mmio_read_def mmio_write_def f103_bus_def f103_read_def f103_write_def DEMCR_def
      flash_regs in_flash_def status_register_def)

lemma f103_dfsr [simp]:
  "mmio_read f103_bus DFSR h = (load_le 4 DFSR (f_mem h), h)"
  "mmio_write f103_bus DFSR v h =
     h\<lparr>f_mem := store_le 4 DFSR (load_le 4 DFSR (f_mem h) AND NOT v) (f_mem h)\<rparr>"
  by (simp_all add: mmio_read_def mmio_write_def f103_bus_def f103_read_def f103_write_def DFSR_def
      flash_regs in_flash_def status_register_def)

lemma f103_odr [simp]: "mmio_read f103_bus GPIOA_ODR h = (load_le 4 GPIOA_ODR (f_mem h), h)"
  by (simp add: mmio_read_def f103_bus_def f103_read_def GPIOA_ODR_def flash_regs)

lemma setDebugCode_f103 [simp]: "setDebugCode f103_bus m = m"
  by (simp add: setDebugCode_def on_hw_def)

lemma core_regs_apart:
  "4 \<le> unat (DEMCR - DFSR)" "4 \<le> unat (DFSR - DEMCR)"
  by (simp_all add: DEMCR_def DFSR_def)

lemma demcr_set [simp]:
  "demcr (on_hw (mmio_set f103_bus DEMCR v) m) = demcr m OR v"
  "demcr (on_hw (mmio_clear f103_bus DEMCR v) m) = demcr m AND NOT v"
  "dfsr (on_hw (mmio_set f103_bus DEMCR v) m) = dfsr m"
  "dfsr (on_hw (mmio_clear f103_bus DEMCR v) m) = dfsr m"
  "demcr (on_hw (mmio_set f103_bus DFSR v) m) = demcr m"
  by (simp_all add: demcr_def dfsr_def mmio_set_def mmio_clear_def mmio_modify_def load_store_same
      load_store_other core_regs_apart)

lemma demcr_frame [simp]:
  "demcr (m\<lparr>stepOnThread := x\<rparr>) = demcr m" "demcr (m\<lparr>gHaltState := y\<rparr>) = demcr m"
  "demcr (m\<lparr>exitFromInterrupt := e\<rparr>) = demcr m" "demcr (m\<lparr>basepri := p\<rparr>) = demcr m"
  "demcr (pull_cmd m) = demcr m" "demcr (m\<lparr>context_data := rs\<rparr>) = demcr m"
  "dfsr (m\<lparr>stepOnThread := x\<rparr>) = dfsr m" "dfsr (m\<lparr>gHaltState := y\<rparr>) = dfsr m"
  "dfsr (m\<lparr>exitFromInterrupt := e\<rparr>) = dfsr m" "dfsr (m\<lparr>basepri := p\<rparr>) = dfsr m"
  "dfsr (pull_cmd m) = dfsr m" "dfsr (m\<lparr>context_data := rs\<rparr>) = dfsr m"
  by (simp_all add: demcr_def dfsr_def pull_cmd_def)

lemma on_hw_step_again:
  "step_again b m = on_hw (mmio_clear b DEMCR DEMCR_MON_PEND) (on_hw (mmio_set b DEMCR DEMCR_MON_STEP) m)"
  by (simp add: step_again_def on_hw_def)

lemma demcr_powers:
  "DEMCR_MON_PEND = 2 ^ 17" "DEMCR_MON_STEP = 2 ^ 18" "DEMCR_MON_REQ = 2 ^ 19"
  by (simp_all add: DEMCR_MON_PEND_def DEMCR_MON_STEP_def DEMCR_MON_REQ_def)

definition pended :: "f103 monitor \<Rightarrow> bool" where
  "pended m \<longleftrightarrow> bit (demcr m) 17"

definition stepping :: "f103 monitor \<Rightarrow> bool" where
  "stepping m \<longleftrightarrow> bit (demcr m) 18"

definition requested :: "f103 monitor \<Rightarrow> bool" where
  "requested m \<longleftrightarrow> bit (demcr m) 19"

lemma demcr_flags [simp]:
  "stepping (on_hw (mmio_clear f103_bus DEMCR DEMCR_MON_STEP) m) \<longleftrightarrow> False"
  "stepping (on_hw (mmio_clear f103_bus DEMCR DEMCR_MON_PEND) m) \<longleftrightarrow> stepping m"
  "pended (on_hw (mmio_clear f103_bus DEMCR DEMCR_MON_PEND) m) \<longleftrightarrow> False"
  "stepping (step_again f103_bus m) \<longleftrightarrow> True" "pended (step_again f103_bus m) \<longleftrightarrow> False"
  "requested (step_again f103_bus m) \<longleftrightarrow> requested m"
  "requested (on_hw (mmio_clear f103_bus DEMCR DEMCR_MON_STEP) m) \<longleftrightarrow> requested m"
  "dfsr (step_again f103_bus m) = dfsr m"
  by (simp_all add: on_hw_step_again stepping_def pended_def requested_def demcr_powers bit_simps)

section \<open>Halting, resuming and stepping\<close>

lemma cb_isEmpty_items: "cb_ok q \<Longrightarrow> cb_isEmpty q \<longleftrightarrow> cb_items q = []"
  using cb_get_items [of q] by (auto simp: cb_isEmpty_def cb_get_def split: if_splits)

lemma flags_frame [simp]:
  "stepping (m\<lparr>gHaltState := x\<rparr>) = stepping m" "pended (m\<lparr>gHaltState := x\<rparr>) = pended m"
  "stepping (m\<lparr>exitFromInterrupt := e\<rparr>) = stepping m" "stepping (m\<lparr>stepOnThread := s\<rparr>) = stepping m"
  "requested (m\<lparr>stepOnThread := s\<rparr>) = requested m" "requested (m\<lparr>exitFromInterrupt := e\<rparr>) = requested m"
  "requested (m\<lparr>basepri := p\<rparr>) = requested m" "requested (m\<lparr>context_data := rs\<rparr>) = requested m"
  by (simp_all add: stepping_def pended_def requested_def)

lemma loop_waits:
  "cb_ok (gCmdQueue m) \<Longrightarrow> gHaltState m \<noteq> HS_Running \<Longrightarrow> cb_items (gCmdQueue m) = [] \<Longrightarrow>
   handler_loop b img m = Looping m"
  using cb.get_items [of "gCmdQueue m"] by (simp add: handler_loop_def handler_round_def)

lemma loop_halts:
  "cb_ok (gCmdQueue m) \<Longrightarrow> cb_items (gCmdQueue m) = HHalt # cs \<Longrightarrow>
   \<exists>m'. handler_loop b img m = Looping m' \<and> gHaltState m' = HS_Request \<and> cb_items (gCmdQueue m') = cs"
  using cb.get_items [of "gCmdQueue m"] cb.pull_items [of "gCmdQueue m"]
  by (simp add: handler_loop_def handler_round_def pull_cmd_def)

lemma loop_resumes:
  "cb_ok (gCmdQueue m) \<Longrightarrow> cb_items (gCmdQueue m) = HResume # cs \<Longrightarrow>
   \<exists>m'. handler_loop f103_bus img m = Returned m' \<and> gHaltState m' = HS_Running \<and>
     \<not> stepping m' \<and> cb_items (gCmdQueue m') = cs \<and> context_data m' = context_data m \<and>
     (cs = [] \<longrightarrow> \<not> pended m')"
  using cb.get_items [of "gCmdQueue m"] cb.pull_items [of "gCmdQueue m"] cb.pull_ok [of "gCmdQueue m"]
  by (simp add: handler_loop_def handler_round_def pull_cmd_def cb_isEmpty_items)


text \<open>The debugger has halted the core and now lets it run.\<close>

definition power_on :: f103 where
  "power_on = \<lparr>f_mem = (\<lambda>_. 0xFF), f_locked = True, f_key = 0, f_cr = 0, f_sr = 0, f_ar = 0,
     f_busy = 0, f_time = 3\<rparr>"

definition halted_demo :: "f103 monitor" where
  "halted_demo = snd (debugResume f103_bus False ((initial power_on)\<lparr>gHaltState := HS_Request\<rparr>))"

lemma halted_demo_facts:
  "cb_ok (gCmdQueue halted_demo)" "gHaltState halted_demo = HS_Request"
  "cb_items (gCmdQueue halted_demo) = [HResume]"
proof -
  have new: "cb_ok (cb_new 16 HNop)" "cb_items (cb_new 16 HNop) = []" "cb_capacity (cb_new 16 HNop) = 15"
    using cb_new_ok [of 16 HNop] by simp_all
  show "cb_ok (gCmdQueue halted_demo)" "gHaltState halted_demo = HS_Request"
    "cb_items (gCmdQueue halted_demo) = [HResume]"
    using cb.put_ok [OF new(1), of HResume] cb.put_items [OF new(1), of HResume] new(2,3)
    by (cases "cb_put HResume (cb_new 16 HNop)";
        simp add: halted_demo_def debugResume_def enqueue_def initial_def)+
qed

definition demo_image :: image where
  "demo_image = \<lparr>addr_debugLocalLoop = 0x08001001, addr_flashEraseLoop = 0x08001101\<rparr>"


text \<open>A sequence of exceptions, with the registers that the core had at each of them.\<close>

fun take_exceptions :: "'h bus \<Rightarrow> u32 list list \<Rightarrow> 'h monitor \<Rightarrow> 'h monitor outcome" where
  "take_exceptions b [] m = Returned m"
| "take_exceptions b (rs # rss) m =
     (case handler_enter b (m\<lparr>context_data := rs\<rparr>) of
        Returned m \<Rightarrow> take_exceptions b rss m
      | r \<Rightarrow> r)"

definition in_interrupt :: "u32 list \<Rightarrow> bool" where
  "in_interrupt rs \<longleftrightarrow> rs ! 16 AND 0xFF \<noteq> 0"

lemma interruptActive_context [simp]: "interruptActive (m\<lparr>context_data := rs\<rparr>) = in_interrupt rs"
  by (simp add: interruptActive_def in_interrupt_def)

text \<open>Inside interrupts the handler only asks for the next step.\<close>

definition stepping_over :: "f103 monitor \<Rightarrow> bool" where
  "stepping_over m \<longleftrightarrow> stepOnThread m = 2 \<and> exitFromInterrupt m \<and> cb_isEmpty (gCmdQueue m) \<and>
     \<not> requested m \<and> \<not> bit (dfsr m) 1"

lemma read_dfsr: "read_hw (mmio_read f103_bus DFSR) m = (dfsr m, m)"
  by (simp add: read_hw_def dfsr_def)

lemma read_demcr: "read_hw (mmio_read f103_bus DEMCR) m = (demcr m, m)"
  by (simp add: read_hw_def demcr_def)

lemma flag_tests:
  "x AND DFSR_BKPT = 0 \<longleftrightarrow> \<not> bit x 1" "demcr m AND DEMCR_MON_REQ = 0 \<longleftrightarrow> \<not> requested m"
proof -
  have bkpt: "DFSR_BKPT = 2 ^ 1" by (simp add: DFSR_BKPT_def)
  show "x AND DFSR_BKPT = 0 \<longleftrightarrow> \<not> bit x 1" unfolding bkpt by (rule and_exp_eq_0_iff_not_bit)
  show "demcr m AND DEMCR_MON_REQ = 0 \<longleftrightarrow> \<not> requested m"
    by (simp only: demcr_powers requested_def and_exp_eq_0_iff_not_bit)
qed

lemma enter_interrupt:
  assumes "stepping_over m" "in_interrupt rs"
  shows "\<exists>m'. handler_enter f103_bus (m\<lparr>context_data := rs\<rparr>) = Returned m' \<and> stepping_over m' \<and> stepping m'"
  using assms
  by (simp add: handler_enter_def step_interrupt_def read_dfsr flag_tests stepping_over_def)
    (simp add: step_again_def)


definition step_demo :: "f103 monitor" where
  "step_demo = (initial (power_on\<lparr>f_mem := \<lambda>_. 0\<rparr>))\<lparr>stepOnThread := 1\<rparr>"

definition context_of :: "u32 \<Rightarrow> u32 list" where
  "context_of xpsr = replicate 16 0 @ [xpsr, 0, 0]"


section \<open>Starting the firmware\<close>

text \<open>Registers outside the flash: writing them leaves the flash and its controller alone.\<close>

definition flash_part :: "f103 \<Rightarrow> memory" where
  "flash_part h = (\<lambda>x. if in_flash x then f_mem h x else 0)"

definition peripheral :: "u32 \<Rightarrow> bool" where
  "peripheral a \<longleftrightarrow> 0x40000000 \<le> a \<and> a \<le> 0xFFFFFFF0 \<and> a \<notin> {FLASH_KEYR, FLASH_SR, FLASH_CR, FLASH_AR}"

lemma overlay_outside_flash:
  assumes "0x40000000 \<le> a" "a \<le> 0xFFFFFFF0" "length bs \<le> 4" "in_flash x"
  shows "overlay a bs m x = m x"
proof -
  have "unat x < unat a" using assms(1,4) by (simp add: in_flash_def word_less_nat_alt word_le_nat_alt)
  then have "unat (x - a) = 2 ^ 32 + unat x - unat a"
    using unat_minus_nat_wrap [of x "unat a"] unat_u32_less [of a] by simp
  moreover have "unat a \<le> 0xFFFFFFF0" using assms(2) by (simp add: word_le_nat_alt)
  ultimately have "4 \<le> unat (x - a)" by simp
  then show ?thesis using assms(3) by (simp add: overlay_def)
qed

lemma peripheral_write:
  assumes "peripheral a"
  shows "flash_part (mmio_write f103_bus a v h) = flash_part h"
proof -
  have "\<not> in_flash a" "a \<noteq> FLASH_KEYR" "a \<noteq> FLASH_SR" "a \<noteq> FLASH_CR" "a \<noteq> FLASH_AR"
    using assms by (auto simp: peripheral_def in_flash_def word_less_nat_alt word_le_nat_alt)
  then show ?thesis
    using assms overlay_outside_flash
    by (auto simp: fun_eq_iff flash_part_def mmio_write_def f103_bus_def f103_write_def store_le_def
        peripheral_def)
qed

lemma peripheral_read: "a \<noteq> FLASH_SR \<Longrightarrow> snd (mmio_read f103_bus a h) = h"
  by (simp add: mmio_read_def f103_bus_def f103_read_def)

lemma peripheral_modify: "peripheral a \<Longrightarrow> flash_part (mmio_modify f103_bus a f h) = flash_part h"
  using peripheral_read [of a h]
  by (auto simp: mmio_modify_def peripheral_write peripheral_def split: prod.splits)

lemma fold_flash_part:
  "(\<And>x h. x \<in> set xs \<Longrightarrow> flash_part (f x h) = flash_part h) \<Longrightarrow> flash_part (fold f xs h) = flash_part h"
  by (induction xs arbitrary: h) auto

lemma nvic_reg_peripheral: "off \<le> 0x300 \<Longrightarrow> peripheral (nvic_reg off irqn)"
proof -
  assume off: "off \<le> 0x300"
  have "unat (irqn div 32) < 8"
    using unat_byte_less [of irqn] by (simp add: unat_div)
  then have small: "unat (ucast (irqn div 32) * 4 :: u32) \<le> 28"
    by (simp add: unat_word_ariths)
  moreover have "unat off \<le> 0x300" using off by (simp add: word_le_nat_alt)
  ultimately have "unat (nvic_reg off irqn) = 0xE000E100 + unat off + unat (ucast (irqn div 32) * 4 :: u32)"
    by (simp add: nvic_reg_def NVIC_BASE_def unat_word_ariths)
  with off small show ?thesis
    by (auto simp: peripheral_def word_le_nat_alt flash_regs word_unat_eq_iff)
qed

lemma user_resets_peripheral: "rst \<in> set user_resets \<Longrightarrow> peripheral (RCC_REG rst)"
  by (auto simp: user_resets_def RCC_REG_def RCC_BASE_def peripheral_def flash_regs)

lemma disable_interrupts_flash:
  "flash_part (debugDisableUserInterrupts f103_bus h) = flash_part h"
proof -
  have clear: "flash_part (fold (nvic_clear_pending_irq f103_bus) irqs h) = flash_part h" for irqs h
    by (intro fold_flash_part) (simp add: nvic_clear_pending_irq_def peripheral_write nvic_reg_peripheral)
  have dis: "flash_part (fold (nvic_disable_irq f103_bus) irqs h) = flash_part h" for irqs h
    by (intro fold_flash_part) (simp add: nvic_disable_irq_def peripheral_write nvic_reg_peripheral)
  have "flash_part (debugResetUserPheripherals f103_bus h) = flash_part h" for h
    unfolding debugResetUserPheripherals_def
    by (intro fold_flash_part)
      (simp add: rcc_periph_reset_pulse_def mmio_set_def mmio_clear_def peripheral_modify
        user_resets_peripheral)
  then show ?thesis by (simp add: debugDisableUserInterrupts_def clear dis)
qed

text \<open>A word of the flash, read through the bus.\<close>

definition flash_word :: "f103 \<Rightarrow> u32 \<Rightarrow> u32" where
  "flash_word h a = load_le 4 a (flash_part h)"

lemma read_flash_word:
  assumes "0x08000000 \<le> a" "a \<le> 0x0801FFFC"
  shows "mmio_read f103_bus a h = (flash_word h a, h)"
proof -
  have "in_flash (a + of_nat i)" if "i < 4" for i
  proof -
    have "unat a \<le> 0x0801FFFC" using assms(2) by (simp add: word_le_nat_alt)
    then have "unat (a + of_nat i) = unat a + i"
      using that by (simp add: unat_word_ariths unat_of_nat)
    with assms that show ?thesis
      by (simp add: in_flash_def word_le_nat_alt word_less_nat_alt)
  qed
  then have "mem_load (flash_part h) a 4 = mem_load (f_mem h) a 4"
    by (simp add: mem_load_def flash_part_def)
  moreover have "a \<noteq> FLASH_SR" "a \<noteq> FLASH_CR"
    using assms by (auto simp: flash_regs word_le_nat_alt)
  ultimately show ?thesis
    by (simp add: mmio_read_def f103_bus_def f103_read_def flash_word_def load_le_def)
qed

lemma fold_fixed: "(\<And>x. x \<in> set xs \<Longrightarrow> f x h = h) \<Longrightarrow> fold f xs h = h"
  by (induction xs) auto

lemma scan_reads:
  assumes "n \<le> 28672"
  shows "fold (\<lambda>i h. snd (mmio_read f103_bus (userCodeVectorTable + 4 * of_nat i) h)) [0..<n] h = h"
proof (rule fold_fixed)
  fix i assume "i \<in> set [0..<n]"
  then have "i < 28672" using assms by simp
  then have "unat (userCodeVectorTable + 4 * of_nat i) = 0x8004000 + 4 * i"
    by (simp add: userCodeVectorTable_def unat_word_ariths unat_of_nat)
  with \<open>i < 28672\<close> have "userCodeVectorTable + 4 * of_nat i \<noteq> FLASH_SR"
    by (auto simp: flash_regs)
  then show "snd (mmio_read f103_bus (userCodeVectorTable + 4 * of_nat i) h) = h"
    by (rule peripheral_read)
qed

lemma read_hw_flash:
  "0x08000000 \<le> a \<Longrightarrow> a \<le> 0x0801FFFC \<Longrightarrow> read_hw (mmio_read f103_bus a) m = (flash_word (hw m) a, m)"
  by (simp add: read_hw_def read_flash_word)

lemma step_again_fields2 [simp]:
  "context_data (step_again b m) = context_data m" "allowUsbTransfer (step_again b m) = allowUsbTransfer m"
  by (simp_all add: step_again_def)


definition firmware_demo :: "f103 monitor" where
  "firmware_demo = snd (debugStartFirmware f103_bus
     ((initial (power_on\<lparr>f_mem := overlay 0x8004000 (le32 0x20005000 @ le32 0x8004101) (\<lambda>_. 0)\<rparr>))
       \<lparr>gHaltState := HS_Request\<rparr>))"


end
