(* ===== verification/Debug_Erase.thy ===== *)
theory Debug_Erase
  imports Debug_Machine
begin

text \<open>
  What the erase loop of \<^verbatim>\<open>Bootloader/App/Debug.cpp\<close> does to the flash of the microcontroller:
  the pages of the requested range read as erased afterwards, and nothing else changes.
\<close>

section \<open>Pages\<close>

lemma page_of_div: "unat (page_of x) = unat x div 1024 * 1024"
proof -
  have "(0x3FF :: u32) = mask 10" by (simp add: mask_eq_exp_minus_1)
  then show ?thesis unfolding page_of_def using unat_and_not_mask [of x 10] by simp
qed

lemma and_not_same:
  assumes "a AND m = (0 :: u32)"
  shows "a AND NOT m = a"
proof (rule bit_word_eqI)
  fix n assume n: "n < LENGTH(32)"
  have "bit (a AND m) n = bit (0 :: u32) n" by (simp only: assms)
  with n show "bit (a AND NOT m) n = bit a n" by (auto simp: bit_and_iff bit_not_iff)
qed

lemma page_of_aligned: "a AND 0x3FF = 0 \<Longrightarrow> page_of a = a"
  unfolding page_of_def by (rule and_not_same)

lemma div_range:
  fixes a x :: nat
  assumes "a mod 1024 = 0"
  shows "x div 1024 * 1024 = a \<longleftrightarrow> a \<le> x \<and> x < a + 1024"
proof -
  define k q r where "k = a div 1024" and "q = x div 1024" and "r = x mod 1024"
  have "a = k * 1024" using assms div_mult_mod_eq [of a 1024] by (simp add: k_def)
  moreover have "x = q * 1024 + r" "r < 1024" by (simp_all add: q_def r_def)
  moreover have "q * 1024 = k * 1024 \<longleftrightarrow> k * 1024 \<le> q * 1024 + r \<and> q * 1024 + r < k * 1024 + 1024"
  proof -
    consider "q = k" | "q + 1 \<le> k" | "k + 1 \<le> q" by linarith
    then show ?thesis using \<open>r < 1024\<close> by cases simp_all
  qed
  ultimately show ?thesis by (simp add: q_def)
qed

lemma page_range:
  assumes "page_of a = a" "in_flash a"
  shows "in_flash x \<and> page_of x = a \<longleftrightarrow> a \<le> x \<and> x < a + 0x400"
proof -
  have m: "unat a mod 1024 = 0" using assms(1) page_of_div [of a] by (metis mod_mult_self2_is_0)
  have a: "unat a < 0x8020000" "0x8000000 \<le> unat a"
    using assms(2) by (simp_all add: in_flash_def word_less_nat_alt word_le_nat_alt)
  have up: "unat (a + 0x400) = unat a + 1024" using a(1) by (simp add: unat_word_ariths)
  have "page_of x = a \<longleftrightarrow> unat x div 1024 * 1024 = unat a"
    using page_of_div [of x] by (simp add: word_unat_eq_iff)
  also have "\<dots> \<longleftrightarrow> unat a \<le> unat x \<and> unat x < unat a + 1024"
    by (rule div_range [OF m])
  finally have "page_of x = a \<longleftrightarrow> a \<le> x \<and> x < a + 0x400"
    by (simp add: word_le_nat_alt word_less_nat_alt up)
  moreover have "in_flash x" if "a \<le> x" "x < a + 0x400"
  proof -
    obtain k where "unat a = 1024 * k" using m by blast
    then have "unat a + 1024 \<le> 0x8020000" using a(1) by simp
    then show ?thesis using that a(2) up by (simp add: in_flash_def word_le_nat_alt word_less_nat_alt)
  qed
  ultimately show ?thesis by blast
qed

section \<open>Looking for a page to erase\<close>

lemma load_ones: "load_le 4 a m = 0xFFFFFFFF \<Longrightarrow> i < 4 \<Longrightarrow> m (a + of_nat i) = -1"
proof -
  assume l: "load_le 4 a m = 0xFFFFFFFF" and i: "i < 4"
  have "mem_load m a 4 = le32 0xFFFFFFFF"
    using bytes_load_le [of 4 a m] l by (simp add: bytes_le_def)
  then have "mem_load m a 4 ! i = le32 0xFFFFFFFF ! i" by simp
  moreover have "le32 0xFFFFFFFF = [-1, -1, -1, -1]" by (simp add: le32_def)
  moreover have "i = 0 \<or> i = 1 \<or> i = 2 \<or> i = 3" using i by auto
  ultimately show ?thesis using i by auto
qed

lemma needs_erase_f103:
  assumes "in_flash a" "page_of a = a"
  shows "k \<le> 256 \<Longrightarrow> \<exists>e. needs_erase f103_bus (a + of_nat (1024 - 4 * k)) (a + 0x400) h = Some (e, h) \<and>
    (\<not> e \<longrightarrow> (\<forall>i. 1024 - 4 * k \<le> i \<and> i < 1024 \<longrightarrow> f_mem h (a + of_nat i) = -1))"
proof (induction k)
  case 0
  have "needs_erase f103_bus (a + 0x400) (a + 0x400) h = Some (False, h)"
    by (subst needs_erase.simps) simp
  then show ?case by (intro exI [of _ False]) (simp, linarith)
next
  case (Suc k)
  let ?c = "1024 - 4 * Suc k"
  have lt: "unat a < 0x8020000" using assms(1) by (simp add: in_flash_def word_less_nat_alt)
  have sum: "unat (a + of_nat d) = unat a + d" if "d \<le> 1024" for d
    using lt that by (simp add: unat_word_ariths unat_of_nat)
  have c: "unat (a + of_nat ?c) = unat a + ?c" "unat (a + 0x400) = unat a + 1024"
    using sum [of ?c] sum [of 1024] by simp_all
  have less: "a + of_nat ?c < a + 0x400" using c Suc.prems by (simp add: word_less_nat_alt)
  have rd: "mmio_read f103_bus (a + of_nat ?c) h = (load_le 4 (a + of_nat ?c) (f_mem h), h)"
  proof -
    have "a + of_nat ?c \<noteq> FLASH_SR" "a + of_nat ?c \<noteq> FLASH_CR"
      using c(1) lt by (auto simp: flash_regs word_unat_eq_iff)
    then show ?thesis by (simp add: mmio_read_def f103_bus_def f103_read_def)
  qed
  have next_word: "a + of_nat ?c + 4 = a + of_nat (1024 - 4 * k)"
    using Suc.prems by (simp add: of_nat_diff)
  show ?case
  proof (cases "load_le 4 (a + of_nat ?c) (f_mem h) = 0xFFFFFFFF")
    case False
    with less rd have "needs_erase f103_bus (a + of_nat ?c) (a + 0x400) h = Some (True, h)"
      by (subst needs_erase.simps) simp
    then show ?thesis by blast
  next
    case True
    obtain e where e: "needs_erase f103_bus (a + of_nat (1024 - 4 * k)) (a + 0x400) h = Some (e, h)"
      "\<not> e \<longrightarrow> (\<forall>i. 1024 - 4 * k \<le> i \<and> i < 1024 \<longrightarrow> f_mem h (a + of_nat i) = -1)"
      using Suc by auto
    have here: "f_mem h (a + of_nat i) = -1" if "?c \<le> i" "i < 1024 - 4 * k" for i
    proof -
      have "i - ?c < 4" "a + of_nat ?c + of_nat (i - ?c) = a + of_nat i"
        using that Suc.prems by (simp_all add: of_nat_diff)
      from load_ones [OF True this(1)] this(2) show ?thesis by (simp only:)
    qed
    have "\<not> e \<longrightarrow> (\<forall>i. ?c \<le> i \<and> i < 1024 \<longrightarrow> f_mem h (a + of_nat i) = -1)"
      using e(2) here by (metis not_le)
    moreover have "needs_erase f103_bus (a + of_nat ?c) (a + 0x400) h =
        needs_erase f103_bus (a + of_nat ?c + 4) (a + 0x400) h"
      using less rd True by (subst needs_erase.simps) simp
    ultimately show ?thesis using e(1) next_word by metis
  qed
qed

section \<open>Erasing a range\<close>

definition erase_span :: "u32 \<Rightarrow> u32 \<Rightarrow> memory \<Rightarrow> memory" where
  "erase_span a z m = (\<lambda>x. if a \<le> x \<and> x < z then -1 else m x)"

lemma at_rest_update:
  "at_rest h \<Longrightarrow> at_rest (settled h\<lparr>f_mem := m, f_ar := a\<rparr>)"
  "at_rest h \<Longrightarrow> at_rest (h\<lparr>f_locked := False\<rparr>)"
  by (simp_all add: at_rest_def)

lemma erase_one_page:
  assumes "at_rest h" "in_flash a" "page_of a = a"
  shows "\<exists>e h'. needs_erase f103_bus a (a + 0x400) h = Some (e, h) \<and>
    (if e then flash_erase_page f103_bus a (flash_unlock f103_bus h) else Some h) = Some h' \<and>
    at_rest h' \<and> f_mem h' = erase_span a (a + 0x400) (f_mem h)"
proof -
  obtain e where e: "needs_erase f103_bus a (a + 0x400) h = Some (e, h)"
    "\<not> e \<longrightarrow> (\<forall>i < 1024. f_mem h (a + of_nat i) = -1)"
    using needs_erase_f103 [OF assms(2,3), of 256 h] by auto
  show ?thesis
  proof (cases e)
    case True
    have "page_erase a m = erase_span a (a + 0x400) m" for m
      using page_range [OF assms(3,2)] assms(3) by (auto simp: page_erase_def erase_span_def fun_eq_iff)
    with True e(1) show ?thesis
      using erase_page_f103 [of "h\<lparr>f_locked := False\<rparr>" a] at_rest_update(2) [OF assms(1)]
      by (intro exI [of _ e] exI [of _ "settled (h\<lparr>f_locked := False\<rparr>)
          \<lparr>f_mem := page_erase a (f_mem h), f_ar := a\<rparr>"])
        (simp add: flash_unlock_f103 [OF assms(1)] at_rest_update)
  next
    case False
    have "f_mem h x = -1" if "a \<le> x" "x < a + 0x400" for x
    proof -
      have "unat a < 0x8020000" using assms(2) by (simp add: in_flash_def word_less_nat_alt)
      then have "unat (a + 0x400) = unat a + 1024" by (simp add: unat_word_ariths)
      then have "unat x - unat a < 1024" using that by (simp add: word_less_nat_alt word_le_nat_alt)
      moreover have "a + of_nat (unat x - unat a) = x"
        using that(1) by (simp add: word_le_nat_alt of_nat_diff)
      ultimately show ?thesis using e(2) False by metis
    qed
    then have "f_mem h = erase_span a (a + 0x400) (f_mem h)" by (auto simp: erase_span_def fun_eq_iff)
    with False e(1) assms(1) show ?thesis by auto
  qed
qed

lemma erase_pages_f103:
  "at_rest h \<Longrightarrow> page_of a = a \<Longrightarrow> 0x08000000 \<le> a \<Longrightarrow> unat a + n * 1024 \<le> 0x8020000 \<Longrightarrow>
   \<exists>h'. erase_pages f103_bus a (a + of_nat n * 0x400) h = Some h' \<and> at_rest h' \<and>
     f_mem h' = erase_span a (a + of_nat n * 0x400) (f_mem h)"
proof (induction n arbitrary: a h)
  case 0
  have "f_mem h = erase_span a a (f_mem h)" by (auto simp: erase_span_def fun_eq_iff)
  with 0 show ?case by (subst erase_pages.simps) simp
next
  case (Suc n)
  have flash: "in_flash a" using Suc.prems(3,4) by (simp add: in_flash_def word_less_nat_alt)
  obtain e h1 where h1: "needs_erase f103_bus a (a + 0x400) h = Some (e, h)"
    "(if e then flash_erase_page f103_bus a (flash_unlock f103_bus h) else Some h) = Some h1"
    "at_rest h1" "f_mem h1 = erase_span a (a + 0x400) (f_mem h)"
    using erase_one_page [OF Suc.prems(1) flash Suc.prems(2)] by blast
  have up: "unat (a + 0x400) = unat a + 1024"
    using Suc.prems(4) by (simp add: unat_word_ariths)
  have top: "unat (a + of_nat (Suc n) * 0x400) = unat a + Suc n * 1024"
  proof -
    have "unat (of_nat (Suc n * 1024) :: u32) = Suc n * 1024"
      using Suc.prems(4) by (intro unat_of_nat_u32) simp
    moreover have "(of_nat (Suc n) * 0x400 :: u32) = of_nat (Suc n * 1024)" by (simp add: algebra_simps)
    ultimately have "unat (of_nat (Suc n) * 0x400 :: u32) = Suc n * 1024" by (simp only:)
    then show ?thesis using Suc.prems(4) by (subst unat_add_lem [THEN iffD1]) simp_all
  qed
  have less: "a < a + of_nat (Suc n) * 0x400" using top by (simp add: word_less_nat_alt)
  have aligned: "page_of (a + 0x400) = a + 0x400"
  proof -
    have "unat a div 1024 * 1024 = unat a" using Suc.prems(2) page_of_div [of a] by simp
    then have "(unat a + 1024) div 1024 * 1024 = unat a + 1024"
      using div_add_self2 [of 1024 "unat a"] by simp
    then have "unat (page_of (a + 0x400)) = unat (a + 0x400)" using page_of_div [of "a + 0x400"] up by simp
    then show ?thesis by (simp add: word_unat_eq_iff)
  qed
  have "0x08000000 \<le> a + 0x400" using Suc.prems(3) up by (simp add: word_le_nat_alt)
  with Suc.IH [OF h1(3) aligned] Suc.prems(4) up
  obtain h2 where h2: "erase_pages f103_bus (a + 0x400) (a + 0x400 + of_nat n * 0x400) h1 = Some h2"
    "at_rest h2" "f_mem h2 = erase_span (a + 0x400) (a + 0x400 + of_nat n * 0x400) (f_mem h1)"
    by auto
  have end_eq: "a + 0x400 + of_nat n * 0x400 = a + of_nat (Suc n) * 0x400" by (simp add: algebra_simps)
  have "f_mem h2 = erase_span a (a + of_nat (Suc n) * 0x400) (f_mem h)"
  proof
    fix x
    have "(a \<le> x \<and> x < a + 0x400) \<or> (a + 0x400 \<le> x \<and> x < a + of_nat (Suc n) * 0x400) \<longleftrightarrow>
        a \<le> x \<and> x < a + of_nat (Suc n) * 0x400"
      using up top by (auto simp: word_le_nat_alt word_less_nat_alt)
    then show "f_mem h2 x = erase_span a (a + of_nat (Suc n) * 0x400) (f_mem h) x"
      unfolding h2(3) h1(4) end_eq by (auto simp: erase_span_def)
  qed
  with h1 h2 less end_eq show ?case
    by (subst erase_pages.simps) (simp del: of_nat_Suc)
qed

section \<open>The erase loop\<close>

text \<open>Writing a register of the core leaves the flash controller alone.\<close>

definition fpec_part :: "f103 \<Rightarrow> bool \<times> nat \<times> u32 \<times> u32" where
  "fpec_part h = (f_locked h, f_key h, f_cr h, f_sr h)"

lemma at_rest_fpec: "fpec_part h = fpec_part h' \<Longrightarrow> at_rest h = at_rest h'"
  by (simp add: fpec_part_def at_rest_def)

lemma peripheral_write_fpec:
  "peripheral a \<Longrightarrow> fpec_part (mmio_write f103_bus a v h) = fpec_part h"
proof -
  assume "peripheral a"
  then have "\<not> in_flash a" "a \<noteq> FLASH_KEYR" "a \<noteq> FLASH_SR" "a \<noteq> FLASH_CR" "a \<noteq> FLASH_AR"
    by (auto simp: peripheral_def in_flash_def word_less_nat_alt word_le_nat_alt)
  then show ?thesis by (simp add: mmio_write_def f103_bus_def f103_write_def fpec_part_def)
qed

lemma usb_interrupts:
  "flash_part (enableDisableDebugCommandHandler f103_bus e h) = flash_part h"
  "fpec_part (enableDisableDebugCommandHandler f103_bus e h) = fpec_part h"
  by (simp_all add: enableDisableDebugCommandHandler_def nvic_enable_irq_def nvic_disable_irq_def
      peripheral_write peripheral_write_fpec nvic_reg_peripheral)

lemma request_part:
  "flash_part (hw (snd (enqueue f103_bus c m))) = flash_part (hw m)"
proof -
  have "peripheral DEMCR" by (simp add: peripheral_def DEMCR_def flash_regs)
  then show ?thesis by (simp add: enqueue_def mmio_set_def peripheral_modify split: prod.splits)
qed

lemma erase_request_part:
  "flash_part (hw (snd (debugStartEraseLoop f103_bus a sz m))) = flash_part (hw m)"
proof -
  obtain r p where p: "cb_put (a, sz) (gEraseParams m) = (r, p)" by fastforce
  show ?thesis
    using request_part [of HStartEraseLoop "m\<lparr>gEraseParams := p\<rparr>"] p
    by (cases "enqueue f103_bus HStartEraseLoop (m\<lparr>gEraseParams := p\<rparr>)")
      (simp add: debugStartEraseLoop_def)
qed

lemma request_fpec: "fpec_part (hw (snd (enqueue f103_bus c m))) = fpec_part (hw m)"
proof -
  have "peripheral DEMCR" by (simp add: peripheral_def DEMCR_def flash_regs)
  then have "fpec_part (mmio_modify f103_bus DEMCR f h) = fpec_part h" for f h
    by (simp add: mmio_modify_def peripheral_write_fpec split: prod.splits)
      (simp add: mmio_read_def f103_bus_def f103_read_def DEMCR_def flash_regs fpec_part_def)
  then show ?thesis by (simp add: enqueue_def mmio_set_def split: prod.splits)
qed

text \<open>A request for whole pages of the user part of the flash, with what the loop keeps.\<close>

lemma erase_request_full:
  assumes "at_rest (hw m)" "cb_ok (gEraseParams m)"
    and "cb_items (gEraseParams m) = [(a, of_nat n * 0x400)]"
    and "page_of a = a" "0x08004000 \<le> a" "unat a + n * 1024 \<le> 0x8020000"
  shows "\<exists>m'. flashEraseLoop f103_bus m = Some m' \<and> cb_items (gEraseParams m') = [] \<and>
    flash_part (hw m') = (\<lambda>x. if in_flash x \<and> a \<le> x \<and> x < a + of_nat n * 0x400 then -1
                              else flash_part (hw m) x) \<and>
    at_rest (hw m') \<and> usbCmdFrame m' = usbCmdFrame m \<and> usbAnsFrame m' = usbAnsFrame m"
proof -
  let ?m = "on_hw (enableDisableDebugCommandHandler f103_bus False) m"
  obtain q where q: "cb_pull (gEraseParams m) = (Some (a, of_nat n * 0x400), q)"
    using cb.pull_result [OF assms(2)] cb.get_items [OF assms(2)] assms(3)
    by (cases "cb_pull (gEraseParams m)") simp
  have q': "cb_ok q" "cb_items q = []"
    using cb.pull_ok [OF assms(2)] cb.pull_items [OF assms(2)] assms(3) q by simp_all
  then have stop_here: "cb_pull q = (None, q)"
    using cb_isEmpty_items [of q] by (simp add: cb_pull_def cb_isEmpty_def)
  have top: "unat (a + of_nat n * 0x400) = unat a + n * 1024"
  proof -
    have "(of_nat n * 0x400 :: u32) = of_nat (n * 1024)" by simp
    moreover have "unat (of_nat (n * 1024) :: u32) = n * 1024"
      using assms(6) by (intro unat_of_nat_u32) simp
    ultimately have "unat (of_nat n * 0x400 :: u32) = n * 1024" by (simp only:)
    then show ?thesis using assms(6) by (subst unat_add_lem [THEN iffD1]) simp_all
  qed
  have accepted: "range_accepted a (of_nat n * 0x400)"
    using assms(5,6) top by (simp add: range_accepted_def word_less_nat_alt word_le_nat_alt)
  have rest: "at_rest (hw ?m)"
    using assms(1) at_rest_fpec [OF usb_interrupts(2)] by simp
  have "0x08000000 \<le> a" using assms(5) by (simp add: word_le_nat_alt)
  from erase_pages_f103 [OF rest assms(4) this assms(6)]
  obtain h' where h': "erase_pages f103_bus a (a + of_nat n * 0x400) (hw ?m) = Some h'"
    "at_rest h'" "f_mem h' = erase_span a (a + of_nat n * 0x400) (f_mem (hw ?m))" by blast
  have done': "erase_requests f103_bus ?m = Some (?m\<lparr>gEraseParams := q, hw := h'\<rparr>)"
    using q accepted h'(1) stop_here
    by (subst erase_requests.simps) (simp, subst erase_requests.simps, simp)
  let ?m' = "snd (debugStartLocalLoop f103_bus (on_hw (enableDisableDebugCommandHandler f103_bus True)
      (?m\<lparr>gEraseParams := q, hw := h'\<rparr>)))"
  have part: "flash_part h' = (\<lambda>x. if in_flash x \<and> a \<le> x \<and> x < a + of_nat n * 0x400 then -1
      else flash_part (hw m) x)"
    using usb_interrupts(1) [of False "hw m"] h'(3)
    by (auto simp: flash_part_def erase_span_def fun_eq_iff split: if_splits)
  have "flashEraseLoop f103_bus m = Some ?m'" using done' by (simp add: flashEraseLoop_def)
  moreover have "cb_items (gEraseParams ?m') = []"
    using q'(2) by (simp add: debugStartLocalLoop_def enqueue_def split: prod.splits)
  moreover have "flash_part (hw ?m') = flash_part h'"
    by (simp add: debugStartLocalLoop_def request_part usb_interrupts)
  moreover have "at_rest (hw ?m')"
  proof -
    have "fpec_part (hw ?m') = fpec_part h'"
      by (simp add: debugStartLocalLoop_def request_fpec usb_interrupts)
    with h'(2) show ?thesis using at_rest_fpec by blast
  qed
  moreover have "usbCmdFrame ?m' = usbCmdFrame m" "usbAnsFrame ?m' = usbAnsFrame m"
    by (simp_all add: debugStartLocalLoop_def enqueue_def on_hw_def split: prod.splits)
  ultimately show ?thesis using part by auto
qed



end
