(* ===== verification/Monitor.thy ===== *)
theory Monitor
  imports Debug
begin

text \<open>
  \<^verbatim>\<open>Bootloader/App/main.cpp\<close> and \<^verbatim>\<open>Memory.cpp\<close>: the command interpreter of the probe. A packet from
  the host is in \<open>usbCmdFrame\<close>, the answer is built in \<open>usbAnsFrame\<close>; structures are read and
  written at their byte offsets. The two frames are variables of the model, apart from the
  address space that the commands read and write; a command that touches the probe's own
  variables through their addresses is not covered. A command that does not come back is
  \<open>Inl\<close>: it spins for ever (\<open>Spinning\<close>), or reads behind the command frame (\<open>Crash\<close>).
\<close>

section \<open>Access rights and copying\<close>

definition memoryAccessRegions :: "(u32 \<times> u32 \<times> u32) list" where
  "memoryAccessRegions =
     [(0x08000000, 0x08020000, 3), (0x20000000, 0x20010000, 3), (0xE0000000, 0xE0100000, 3),
      (0x40000000, 0x40000C00, 3), (0x40002800, 0x40003400, 3), (0x40003800, 0x40003C00, 3),
      (0x40004400, 0x40004C00, 3), (0x40005400, 0x40005C00, 3), (0x40006400, 0x40006800, 3),
      (0x40006C00, 0x40007400, 3), (0x40010000, 0x40011C00, 3), (0x40012400, 0x40013400, 3),
      (0x40013800, 0x40013C00, 3), (0x40020000, 0x40020400, 3), (0x40021000, 0x40021400, 3),
      (0x40022000, 0x40022400, 3), (0x40023000, 0x40023400, 3)]"

fun region_access :: "(u32 \<times> u32 \<times> u32) list \<Rightarrow> u32 \<Rightarrow> u32 \<Rightarrow> u32" where
  "region_access [] a z = 0"
| "region_access ((rb, re, attributes) # rs) a z =
     (if rb \<le> a \<and> z \<le> re then attributes else region_access rs a z)"

definition checkMemRegionAccess :: "u32 \<Rightarrow> u32 \<Rightarrow> u32" where
  "checkMemRegionAccess = region_access memoryAccessRegions"

text \<open>
  The copying loop, with loads and stores of \<open>w\<close> bytes at an offset from the source and the
  destination. When \<open>w\<close> does not divide the size, the counter wraps around and never
  becomes 0.
\<close>

partial_function (option) copy_loop ::
    "nat \<Rightarrow> (u32 \<Rightarrow> 's \<Rightarrow> u32 \<times> 's) \<Rightarrow> (u32 \<Rightarrow> u32 \<Rightarrow> 's \<Rightarrow> 's) \<Rightarrow> u32 \<Rightarrow> u32 \<Rightarrow> 's \<Rightarrow> 's option" where
  "copy_loop w ld st off copySize s =
     (if copySize = 0 then Some s
      else case ld off s of (v, s) \<Rightarrow>
        copy_loop w ld st (off + of_nat w) (copySize - of_nat w) (st off v s))"

definition SCB_CFSR :: u32 where "SCB_CFSR = 0xE000ED28"
definition SCB_CCR :: u32 where "SCB_CCR = 0xE000ED14"
definition BFARVALID_MASK :: u32 where "BFARVALID_MASK = 0x8000"
definition SCB_CCR_BFHFNMIGN_Msk :: u32 where "SCB_CCR_BFHFNMIGN_Msk = 0x100"

definition copy_width :: "u32 \<Rightarrow> nat" where
  "copy_width align = (if align = 4 then 4 else if align = 2 then 2 else 1)"

definition dbg_memcpy ::
    "'h bus \<Rightarrow> (nat \<Rightarrow> u32 \<Rightarrow> 'h monitor \<Rightarrow> u32 \<times> 'h monitor) \<Rightarrow>
     (nat \<Rightarrow> u32 \<Rightarrow> u32 \<Rightarrow> 'h monitor \<Rightarrow> 'h monitor) \<Rightarrow> u32 \<Rightarrow> u32 \<Rightarrow> 'h monitor \<Rightarrow> 'h monitor result" where
  "dbg_memcpy b ld st sz align m =
     (let m = on_hw (mmio_set b SCB_CFSR BFARVALID_MASK) m;
          saved = faultmask m;
          m = on_hw (mmio_set b SCB_CCR SCB_CCR_BFHFNMIGN_Msk) (m\<lparr>faultmask := 1\<rparr>);
          w = copy_width align
      in (case copy_loop w (ld w) (st w) 0 sz m of
            None \<Rightarrow> Inl Spinning
          | Some m \<Rightarrow> Inr ((on_hw (mmio_clear b SCB_CCR SCB_CCR_BFHFNMIGN_Msk) m)\<lparr>faultmask := saved\<rparr>)))"

text \<open>The two ways the commands use it: memory to answer frame, command frame to memory.\<close>

definition load_mem :: "'h bus \<Rightarrow> u32 \<Rightarrow> nat \<Rightarrow> u32 \<Rightarrow> 'h monitor \<Rightarrow> u32 \<times> 'h monitor" where
  "load_mem b address w off = read_hw (bus_read b w (address + off))"

definition store_mem :: "'h bus \<Rightarrow> u32 \<Rightarrow> nat \<Rightarrow> u32 \<Rightarrow> u32 \<Rightarrow> 'h monitor \<Rightarrow> 'h monitor" where
  "store_mem b address w off v = on_hw (bus_write b w (address + off) v)"

definition le_value :: "nat \<Rightarrow> u8 list \<Rightarrow> u32" where
  "le_value w bs = (if w = 1 then ucast (bs ! 0) else if w = 2 then ucast (rd16 bs) else rd32 bs)"

definition load_frame :: "nat \<Rightarrow> nat \<Rightarrow> u32 \<Rightarrow> 'h monitor \<Rightarrow> u32 \<times> 'h monitor" where
  "load_frame base w off m = (le_value w (drop (base + unat off) (usbCmdFrame m)), m)"

definition store_frame :: "nat \<Rightarrow> nat \<Rightarrow> u32 \<Rightarrow> u32 \<Rightarrow> 'h monitor \<Rightarrow> 'h monitor" where
  "store_frame base w off v m =
     m\<lparr>usbAnsFrame := blit (base + unat off) (bytes_le w v) (usbAnsFrame m)\<rparr>"

section \<open>Helpers of the commands\<close>

definition getValidatedAlign :: "u32 \<Rightarrow> u32" where
  "getValidatedAlign align = (if (align - 1) AND align \<noteq> 0 then 1 else align)"

definition payloadSize :: "u32 \<Rightarrow> u32 \<Rightarrow> u32 \<Rightarrow> u32 \<Rightarrow> u32" where
  "payloadSize headSize maxBufferSize requiredDataSize align =
     (if headSize > maxBufferSize then 0
      else
        let maxPayloadSize = maxBufferSize - headSize;
            minAlignSize = getValidatedAlign align;
            sz = (if maxPayloadSize < requiredDataSize then maxPayloadSize else requiredDataSize)
        in sz AND NOT (minAlignSize - 1))"

definition dbgHeadValid :: "u32 \<Rightarrow> u8 list \<Rightarrow> u32 \<Rightarrow> debug_command \<Rightarrow> bool" where
  "dbgHeadValid headSize buf sz c \<longleftrightarrow> \<not> headSize > sz \<and> buf ! 0 = command_code c"

definition isFlashRegion :: "u32 \<Rightarrow> bool" where
  "isFlashRegion address \<longleftrightarrow> address \<ge> 0x08004000 \<and> address < 0x08020000"

text \<open>The loop of \<open>flashWrite\<close>; the data is what follows the head in the command frame.\<close>

function flashWrite_loop :: "'h bus \<Rightarrow> u32 \<Rightarrow> u8 list \<Rightarrow> nat \<Rightarrow> nat \<Rightarrow> 'h \<Rightarrow> 'h option" where
  "flashWrite_loop b address data dataIndex sz h =
     (if dataIndex < sz then
        let v = ucast (data ! dataIndex) OR push_bit 8 (ucast (data ! (dataIndex + 1)))
        in Option.bind (flash_program_half_word b (address + of_nat dataIndex) v h)
             (flashWrite_loop b address data (dataIndex + 2) sz)
      else Some h)"
  by pat_completeness auto
termination by (relation "measure (\<lambda>(b, a, d, i, sz, h). sz - i)") auto

declare flashWrite_loop.simps [simp del]

definition flashWrite :: "'h bus \<Rightarrow> u32 \<Rightarrow> u8 list \<Rightarrow> nat \<Rightarrow> 'h \<Rightarrow> 'h option" where
  "flashWrite b address data sz h = flashWrite_loop b address data 0 sz (flash_unlock b h)"

definition cmd_u16 :: "nat \<Rightarrow> 'h monitor \<Rightarrow> u16" where
  "cmd_u16 k m = rd16 (drop k (usbCmdFrame m))"

definition cmd_u32 :: "nat \<Rightarrow> 'h monitor \<Rightarrow> u32" where
  "cmd_u32 k m = rd32 (drop k (usbCmdFrame m))"

definition cmd_u8 :: "nat \<Rightarrow> 'h monitor \<Rightarrow> u8" where
  "cmd_u8 k m = usbCmdFrame m ! k"

definition put_ans :: "nat \<Rightarrow> u8 list \<Rightarrow> 'h monitor \<Rightarrow> 'h monitor" where
  "put_ans k bs m = m\<lparr>usbAnsFrame := blit k bs (usbAnsFrame m)\<rparr>"

section \<open>The commands\<close>

text \<open>
  Each returns the size of its answer, 0 when the packet is not acceptable. The answer to a
  memory command is \<open>cmd\<close>, \<open>align\<close>, \<open>byteCount\<close>, \<open>address\<close>, the layout of its request.
\<close>

definition memoryReadCommand :: "'h bus \<Rightarrow> u32 \<Rightarrow> u32 \<Rightarrow> 'h monitor \<Rightarrow> (u32 \<times> 'h monitor) result" where
  "memoryReadCommand b inSize outSize m =
     (if \<not> dbgHeadValid 8 (usbCmdFrame m) inSize CMemoryRead then Inr (0, m)
      else
        let address = cmd_u32 4 m;
            requiredReadSize = ucast (cmd_u16 2 m);
            align = ucast (cmd_u8 1 m);
            bytesToRead = payloadSize 8 outSize requiredReadSize align;
            m = put_ans 0 (mem_head CMemoryRead (ucast align) (ucast bytesToRead) address) m;
            accessible = checkMemRegionAccess address (address + bytesToRead) AND 1 \<noteq> 0
        in bindR
             (if accessible then dbg_memcpy b (load_mem b address) (store_frame 8) bytesToRead align m
              else Inr (put_ans 8 (replicate (unat bytesToRead) 0xFF) m))
             (\<lambda>m. Inr (8 + bytesToRead, m)))"

definition memoryWriteCommand :: "'h bus \<Rightarrow> u32 \<Rightarrow> u32 \<Rightarrow> 'h monitor \<Rightarrow> (u32 \<times> 'h monitor) result" where
  "memoryWriteCommand b inSize outSize m =
     (if \<not> dbgHeadValid 8 (usbCmdFrame m) inSize CMemoryWrite then Inr (0, m)
      else
        let address = cmd_u32 4 m;
            requiredWriteSize = ucast (cmd_u16 2 m);
            align = getValidatedAlign (ucast (cmd_u8 1 m));
            byteCountToWrite = payloadSize 8 inSize requiredWriteSize align
        in bindR
             (if isFlashRegion address then
                (case flashWrite b address (drop 8 (usbCmdFrame m)) (unat byteCountToWrite) (hw m) of
                   None \<Rightarrow> Inl Spinning
                 | Some h \<Rightarrow> Inr (m\<lparr>hw := h\<rparr>))
              else dbg_memcpy b (load_frame 8) (store_mem b address) byteCountToWrite align m)
             (\<lambda>m. Inr (8, put_ans 0
                (mem_head CMemoryWrite (ucast align) (ucast byteCountToWrite) address) m)))"

text \<open>\<open>sizeof(ArmRegisters) / 4\<close> is 17; the bounds of the code reach one word further.\<close>

definition regs_in_range :: "u32 \<Rightarrow> u32 \<Rightarrow> u32" where
  "regs_in_range regOffset n =
     (let maxRegs = 17 - regOffset + 1 in if n < maxRegs then n else maxRegs)"

definition regsReadCommand :: "'h bus \<Rightarrow> u32 \<Rightarrow> u32 \<Rightarrow> 'h monitor \<Rightarrow> (u32 \<times> 'h monitor) result" where
  "regsReadCommand b inSize outSize m =
     (if \<not> dbgHeadValid 4 (usbCmdFrame m) inSize CRegsRead then Inr (0, m)
      else
        let bytesToRead = payloadSize 4 outSize (ucast (cmd_u8 1 m) * 4) 4;
            regOffset = ucast (cmd_u16 2 m)
        in if regOffset > 17 then Inr (0, m)
           else
             let regsToRead = regs_in_range regOffset (bytesToRead div 4);
                 words = map (\<lambda>i. context_data m ! (i + unat regOffset)) [0..<unat regsToRead];
                 m = put_ans 4 (concat (map le32 words)) m
             in Inr (4 + bytesToRead,
                     put_ans 0 (reg_head CRegsRead (ucast regsToRead) (ucast regOffset)) m))"

definition regsWriteCommand :: "'h bus \<Rightarrow> u32 \<Rightarrow> u32 \<Rightarrow> 'h monitor \<Rightarrow> (u32 \<times> 'h monitor) result" where
  "regsWriteCommand b inSize outSize m =
     (if \<not> dbgHeadValid 4 (usbCmdFrame m) inSize CRegsWrite then Inr (0, m)
      else
        let bytesToWrite = payloadSize 4 inSize (ucast (cmd_u8 1 m) * 4) 4;
            regOffset = ucast (cmd_u16 2 m)
        in if regOffset > 17 then Inr (0, m)
           else
             let regsToWrite = regs_in_range regOffset (bytesToWrite div 4);
                 m = m\<lparr>context_data := blit (unat regOffset)
                       (map (\<lambda>i. cmd_u32 (4 + 4 * i) m) [0..<unat regsToWrite]) (context_data m)\<rparr>
             in Inr (4, put_ans 0 (reg_head CRegsWrite (ucast regsToWrite) (ucast regOffset)) m))"

definition resetHaltCommand :: "'h bus \<Rightarrow> u32 \<Rightarrow> u32 \<Rightarrow> 'h monitor \<Rightarrow> (u32 \<times> 'h monitor) result" where
  "resetHaltCommand b inSize outSize m =
     (if \<not> dbgHeadValid 4 (usbCmdFrame m) inSize CResetHalt then Inr (0, m)
      else
        let c = cmd_u8 1 m;
            m = put_ans 0 [command_code CResetHalt, c, state_code HS_Running, 0] m;
            m = (if c = 5 then put_ans 2 [state_code (debugGetHaltState m)] m
                 else if c = 1 \<or> c = 2 \<or> c = 0 then snd (debugHaltRequest b m)
                 else if c = 3 then snd (debugResume b False m)
                 else if c = 4 then snd (debugResume b True m)
                 else m)
        in Inr (4, m))"

definition flashCommand :: "'h bus \<Rightarrow> u32 \<Rightarrow> u32 \<Rightarrow> 'h monitor \<Rightarrow> (u32 \<times> 'h monitor) result" where
  "flashCommand b inSize outSize m =
     (if \<not> dbgHeadValid 12 (usbCmdFrame m) inSize CFlash then Inr (0, m)
      else
        let c = cmd_u8 1 m;
            m = put_ans 0 [command_code CFlash, c, 0] m;
            m = (if c = 3 then put_ans 2 [1] (snd (debugStartFirmware b m))
                 else if c = 2 then put_ans 2 [1] (snd (debugStartEraseLoop b (cmd_u32 4 m) (cmd_u32 8 m) m))
                 else if c = 0 then put_ans 2 [1] (on_hw (flash_unlock b) (snd (debugStartLocalLoop b m)))
                 else m)
        in Inr (4, m))"

definition attachCommand :: "'h bus \<Rightarrow> u32 \<Rightarrow> u32 \<Rightarrow> 'h monitor \<Rightarrow> (u32 \<times> 'h monitor) result" where
  "attachCommand b inSize outSize m =
     (if \<not> dbgHeadValid 4 (usbCmdFrame m) inSize CAttach then Inr (0, m)
      else
        let c = cmd_u8 1 m;
            m = put_ans 0 [cmd_u8 0 m, c, 1] m;
            m = (if c = 0 then snd (debugHaltRequest b m) else m);
            m = (if c = 1 then snd (debugResume b False (snd (debugStartFirmware b m))) else m)
        in Inr (4, m))"

section \<open>Breakpoints\<close>

definition FP_CTRL :: u32 where "FP_CTRL = 0xE0002000"
definition NUMOFBKPTS :: nat where "NUMOFBKPTS = 8"

definition FP_COMP :: "nat \<Rightarrow> u32" where
  "FP_COMP i = 0xE0002008 + 4 * of_nat i"

definition bp_word :: "u32 \<Rightarrow> u32" where
  "bp_word address = address AND 0x3FFFFFFC"

definition bp_half :: "u32 \<Rightarrow> u32" where
  "bp_half address = (if address AND 2 \<noteq> 0 then 2 else 1)"

text \<open>The first comparator with a property, read in order.\<close>

fun find_comp :: "'h bus \<Rightarrow> (u32 \<Rightarrow> bool) \<Rightarrow> u32 list \<Rightarrow> 'h \<Rightarrow> u32 option \<times> 'h" where
  "find_comp b P [] h = (None, h)"
| "find_comp b P (bp # bps) h =
     (case mmio_read b bp h of (v, h) \<Rightarrow> if P v then (Some bp, h) else find_comp b P bps h)"

definition comps :: "u32 list" where
  "comps = map FP_COMP [0..<NUMOFBKPTS]"

definition set_breakpoint :: "'h bus \<Rightarrow> u32 \<Rightarrow> 'h \<Rightarrow> 'h" where
  "set_breakpoint b a h =
     (case find_comp b (\<lambda>v. v AND 0x3FFFFFFC = bp_word a) comps h of
        (Some bp, h) \<Rightarrow> mmio_set b bp (1 OR push_bit 30 (bp_half a)) h
      | (None, h) \<Rightarrow>
          (case find_comp b (\<lambda>v. v AND 1 = 0) comps h of
             (Some bp, h) \<Rightarrow> mmio_write b bp (bp_word a OR (1 OR push_bit 30 (bp_half a))) h
           | (None, h) \<Rightarrow> h))"

definition clear_comp :: "'h bus \<Rightarrow> u32 \<Rightarrow> u32 \<Rightarrow> 'h \<Rightarrow> 'h" where
  "clear_comp b a bp h =
     (case mmio_read b bp h of (v, h) \<Rightarrow>
        if v AND 0x3FFFFFFC = bp_word a then
          case mmio_read b bp (mmio_clear b bp (push_bit 30 (bp_half a)) h) of (v, h) \<Rightarrow>
            if v AND 0xC0000000 = 0 then mmio_write b bp 0 h else h
        else h)"

definition clear_breakpoint :: "'h bus \<Rightarrow> u32 \<Rightarrow> 'h \<Rightarrow> 'h" where
  "clear_breakpoint b a = fold (clear_comp b a) comps"

text \<open>
  The count of the request is not checked: entries beyond the end of the frame are whatever
  the linker has put there (\<open>Crash\<close>).
\<close>

definition breakpointCommand :: "'h bus \<Rightarrow> u32 \<Rightarrow> u32 \<Rightarrow> 'h monitor \<Rightarrow> (u32 \<times> 'h monitor) result" where
  "breakpointCommand b inSize outSize m =
     (if \<not> dbgHeadValid 4 (usbCmdFrame m) inSize CBreakpoint then Inr (0, m)
      else
        let n = unat (cmd_u16 2 m);
            addresses = map (\<lambda>i. cmd_u32 (4 + 8 * i) m) [0..<n];
            set_them = (cmd_u8 1 m \<noteq> 0);
            m = put_ans 0 (breakpoint_head (cmd_u8 1 m) (cmd_u16 2 m)) m
        in if 4 + 8 * n > length (usbCmdFrame m) then Inl Crash
           else if set_them then
             Inr (4, on_hw (fold (set_breakpoint b) addresses) (on_hw (mmio_set b FP_CTRL 3) m))
           else Inr (4, on_hw (fold (clear_breakpoint b) addresses) m))"

section \<open>The USB callback\<close>

definition BULK_EP_MAXPACKET :: u32 where "BULK_EP_MAXPACKET = 64"

text \<open>
  \<open>usbDataOutCallback\<close>: the packet read from the endpoint is put into the command frame; the
  result is the packet handed to the other endpoint. An answer of size 0 ends in an endless
  loop in the interrupt handler.
\<close>

definition run_command :: "'h bus \<Rightarrow> u32 \<Rightarrow> 'h monitor \<Rightarrow> (u32 \<times> 'h monitor) result" where
  "run_command b rcvSize m =
     (let c = usbCmdFrame m ! 0
      in if c = 0 then memoryReadCommand b rcvSize BULK_EP_MAXPACKET m
         else if c = 1 then memoryWriteCommand b rcvSize BULK_EP_MAXPACKET m
         else if c = 2 then regsReadCommand b rcvSize BULK_EP_MAXPACKET m
         else if c = 3 then regsWriteCommand b rcvSize BULK_EP_MAXPACKET m
         else if c = 4 then resetHaltCommand b rcvSize BULK_EP_MAXPACKET m
         else if c = 5 then breakpointCommand b rcvSize BULK_EP_MAXPACKET m
         else if c = 6 then flashCommand b rcvSize BULK_EP_MAXPACKET m
         else if c = 7 then attachCommand b rcvSize BULK_EP_MAXPACKET m
         else Inr (0, m))"

definition usbDataOutCallback :: "'h bus \<Rightarrow> u8 list \<Rightarrow> 'h monitor \<Rightarrow> (u8 list option \<times> 'h monitor) result" where
  "usbDataOutCallback b packet m =
     (let m = m\<lparr>usbCmdFrame := blit 0 packet (usbCmdFrame m)\<rparr>
      in if packet = [] then Inr (None, m)
         else bindR (run_command b (of_nat (length packet)) (m\<lparr>usbInitialized := True\<rparr>)) (\<lambda>(retSize, m).
           if retSize = 0 then Inl Spinning
           else Inr (Some (take (unat retSize) (usbAnsFrame m)), m)))"

end
