(* ===== verification/Monitor_Total.thy ===== *)
theory Monitor_Total
  imports Monitor Debug_Machine
begin

text \<open>
  The command interpreter for every packet and every bus: which packets are answered, what
  an answer looks like, that the frames keep their sizes, and which packets hang the firmware.
  No assumption is made on the memory behind the bus; only commands that wait for the flash
  controller need one (\<open>Monitor_Memory\<close>).
\<close>

section \<open>Sizes\<close>

definition frames_ok :: "'h monitor \<Rightarrow> bool" where
  "frames_ok m \<longleftrightarrow> length (usbCmdFrame m) = 64 \<and> length (usbAnsFrame m) = 64 \<and> length (context_data m) = 19"

lemma frames_ok_hw [simp]: "frames_ok (m\<lparr>hw := h\<rparr>) = frames_ok m" "frames_ok (on_hw f m) = frames_ok m"
  by (simp_all add: frames_ok_def on_hw_def)

lemma frames_ok_put_ans [intro]:
  "frames_ok m \<Longrightarrow> k + length bs \<le> 64 \<Longrightarrow> frames_ok (put_ans k bs m)"
  by (simp add: frames_ok_def put_ans_def length_blit)

lemma frames_ok_enqueue [simp]: "frames_ok (snd (enqueue b c m)) = frames_ok m"
  by (simp add: enqueue_def frames_ok_def on_hw_def split: prod.splits)

lemma and_le: "x AND y \<le> (x :: u32)"
  by (rule word_and_le2)

lemma payloadSize_le: "unat (payloadSize headb maxb n al) \<le> unat maxb - unat headb"
proof (cases "headb > maxb")
  case False
  then have room: "unat (maxb - headb) = unat maxb - unat headb"
    by (simp add: unat_sub word_le_nat_alt not_less)
  let ?s = "if maxb - headb < n then maxb - headb else n"
  have "payloadSize headb maxb n al \<le> ?s"
    using False and_le [of ?s] by (simp add: payloadSize_def Let_def)
  moreover have "?s \<le> maxb - headb" by (simp add: not_less)
  ultimately have "payloadSize headb maxb n al \<le> maxb - headb" by (rule order_trans)
  then show ?thesis unfolding word_le_nat_alt room .
qed (simp add: payloadSize_def)

lemma align_mask:
  assumes "w = 2 \<or> w = 4"
  shows "w dvd unat (x AND NOT (of_nat w - 1) :: u32)"
proof -
  obtain k where k: "w = 2 ^ k" "(of_nat w - 1 :: u32) = mask k"
  proof (cases "w = 2")
    case True
    show thesis by (rule that [of 1]) (simp_all add: True mask_eq_exp_minus_1)
  next
    case False
    then have "w = 4" using assms by blast
    then show thesis by (intro that [of 2]) (simp_all add: mask_eq_exp_minus_1)
  qed
  have "unat (x AND NOT (of_nat w - 1)) = unat x div w * w"
    unfolding k(2) unat_and_not_mask by (simp add: k(1))
  then show ?thesis by simp
qed

text \<open>A payload is made of whole elements of the width that is copied.\<close>

lemma payloadSize_width: "copy_width al dvd unat (payloadSize headb maxb n al)"
proof -
  consider "al = 2 \<or> al = 4" | "copy_width al = 1" by (cases "al = 2 \<or> al = 4") (auto simp: copy_width_def)
  then show ?thesis
  proof cases
    case 1
    then have "getValidatedAlign al = al" "copy_width al = unat al" "of_nat (unat al) = al"
      "unat al = 2 \<or> unat al = 4"
      by (auto simp: getValidatedAlign_def copy_width_def)
    then show ?thesis
      using align_mask [of "unat al"] by (simp add: payloadSize_def Let_def)
  qed simp
qed

section \<open>The access check\<close>

text \<open>A range lies in one of the regions, in true arithmetic.\<close>

definition in_regions :: "u32 \<Rightarrow> nat \<Rightarrow> bool" where
  "in_regions a n \<longleftrightarrow> (\<exists>(rb, re, x)\<in>set memoryAccessRegions. unat rb \<le> unat a \<and> unat a + n \<le> unat re)"

lemma region_access_grants:
  "(\<forall>(rb, re, x)\<in>set rs. x = 3) \<Longrightarrow>
   region_access rs a z AND 1 \<noteq> 0 \<longleftrightarrow> (\<exists>(rb, re, x)\<in>set rs. rb \<le> a \<and> z \<le> re)"
  by (induction rs a z rule: region_access.induct) auto

lemma grants_iff:
  "checkMemRegionAccess a z AND 1 \<noteq> 0 \<longleftrightarrow> (\<exists>(rb, re, x)\<in>set memoryAccessRegions. rb \<le> a \<and> z \<le> re)"
  unfolding checkMemRegionAccess_def by (rule region_access_grants) (simp add: memoryAccessRegions_def)

section \<open>The copying loop ends\<close>

lemma copy_loop_total:
  assumes w: "0 < w" and n: "n < 2 ^ 32"
    and keep: "\<And>off s. P s \<Longrightarrow> off + w \<le> n \<Longrightarrow> P (st (of_nat off) (fst (ld (of_nat off) s)) (snd (ld (of_nat off) s)))"
  shows "P s \<Longrightarrow> off + k * w = n \<Longrightarrow> \<exists>s'. copy_loop w ld st (of_nat off) (of_nat (k * w)) s = Some s' \<and> P s'"
proof (induction k arbitrary: off s)
  case 0
  then show ?case by (subst copy_loop.simps) simp
next
  case (Suc k)
  obtain v s1 where ld: "ld (of_nat off) s = (v, s1)" by fastforce
  have "Suc k * w < 2 ^ 32" using Suc.prems(2) n by simp
  moreover have "0 < Suc k * w" using w by simp
  ultimately have nz: "of_nat (Suc k * w) \<noteq> (0 :: u32)"
    by (subst of_nat_u32_eq_0) simp_all
  have fit: "off + w \<le> n" "off + w + k * w = n" using Suc.prems(2) by simp_all
  have "P (st (of_nat off) v s1)" using keep [OF Suc.prems(1) fit(1)] ld by simp
  from Suc.IH [OF this fit(2)] obtain s' where
    "copy_loop w ld st (of_nat (off + w)) (of_nat (k * w)) (st (of_nat off) v s1) = Some s'" "P s'" by blast
  moreover have "of_nat (Suc k * w) - of_nat w = (of_nat (k * w) :: u32)" by simp
  ultimately show ?case
    using nz ld by (subst copy_loop.simps) simp
qed

lemma dbg_memcpy_total:
  assumes "w = copy_width al" "w dvd unat z"
    and keep: "\<And>off m. P m \<Longrightarrow> off + w \<le> unat z \<Longrightarrow>
      P (st w (of_nat off) (fst (ld w (of_nat off) m)) (snd (ld w (of_nat off) m)))"
    and hw: "\<And>f x m. P m \<Longrightarrow> P (on_hw f m) \<and> P (m\<lparr>faultmask := x\<rparr>)"
    and "P m"
  shows "\<exists>m'. dbg_memcpy b ld st z al m = Inr m' \<and> P m'"
proof -
  obtain k where k: "unat z = k * w" using assms(2) by (metis dvd_def mult.commute)
  have w: "0 < w" using assms(1) by (simp add: copy_width_def)
  let ?m = "on_hw (mmio_set b SCB_CCR SCB_CCR_BFHFNMIGN_Msk)
    ((on_hw (mmio_set b SCB_CFSR BFARVALID_MASK) m)\<lparr>faultmask := 1\<rparr>)"
  have "P ?m" using hw assms(5) by blast
  from copy_loop_total [OF w unat_u32_less [of z], of P "st w" "ld w", OF keep this, of 0 k]
  obtain m' where "copy_loop w (ld w) (st w) 0 z ?m = Some m'" "P m'"
    by (auto simp flip: k)
  then show ?thesis using hw assms(1) by (simp add: dbg_memcpy_def Let_def)
qed

section \<open>The commands\<close>

text \<open>A command that is answered: the size of its answer fits a packet and names the command.\<close>

definition answers :: "u8 \<Rightarrow> (u32 \<times> 'h monitor) result \<Rightarrow> bool" where
  "answers c r \<longleftrightarrow> (\<exists>n m'. r = Inr (n, m') \<and> frames_ok m' \<and> 4 \<le> unat n \<and> unat n \<le> 64 \<and> usbAnsFrame m' ! 0 = c)"

definition ans_ok :: "u8 \<Rightarrow> 'h monitor \<Rightarrow> bool" where
  "ans_ok c m \<longleftrightarrow> frames_ok m \<and> usbAnsFrame m ! 0 = c"

lemma ans_ok_simps [simp]:
  "ans_ok c (on_hw f m) = ans_ok c m" "ans_ok c (m\<lparr>hw := h\<rparr>) = ans_ok c m"
  "ans_ok c (m\<lparr>faultmask := x\<rparr>) = ans_ok c m" "ans_ok c (snd (enqueue b k m)) = ans_ok c m"
  by (simp_all add: ans_ok_def frames_ok_def on_hw_def enqueue_def split: prod.splits)

lemma ans_ok_head:
  "frames_ok m \<Longrightarrow> length bs < 64 \<Longrightarrow> ans_ok c (put_ans 0 (c # bs) m)"
  by (simp add: ans_ok_def frames_ok_def put_ans_def length_blit nth_blit)

lemma ans_ok_body:
  "ans_ok c m \<Longrightarrow> 0 < k \<Longrightarrow> k + length bs \<le> 64 \<Longrightarrow> ans_ok c (put_ans k bs m)"
  by (simp add: ans_ok_def frames_ok_def put_ans_def length_blit nth_blit)

lemma answersI: "ans_ok c m \<Longrightarrow> 4 \<le> unat n \<Longrightarrow> unat n \<le> 64 \<Longrightarrow> answers c (Inr (n, m))"
  by (auto simp: answers_def ans_ok_def)

lemma mem_head_Cons: "mem_head c w n a = command_code c # w # le16 n @ le32 a"
  by (simp add: mem_head_def)

lemma payload_64: "unat (payloadSize 8 BULK_EP_MAXPACKET n al) \<le> 56" "unat (payloadSize 4 BULK_EP_MAXPACKET n al) \<le> 60"
  using payloadSize_le [of 8 BULK_EP_MAXPACKET n al] payloadSize_le [of 4 BULK_EP_MAXPACKET n al]
  by (simp_all add: BULK_EP_MAXPACKET_def)

lemma store_frame_keeps:
  assumes "ans_ok c m" "8 + off + w \<le> 64" "w \<in> {1, 2, 4}"
  shows "ans_ok c (store_frame 8 w (of_nat off) v m)"
proof -
  have "unat (of_nat off :: u32) = off" using assms(2) by (intro unat_of_nat_u32) simp
  moreover have "length (bytes_le w v) = w" using assms(3) by auto
  ultimately show ?thesis
    using ans_ok_body [OF assms(1), of "8 + off" "bytes_le w v"] assms(2)
    by (simp add: store_frame_def put_ans_def)
qed

lemma copy_width_cases: "copy_width al \<in> {1, 2, 4}"
  by (simp add: copy_width_def)

lemma memoryRead_answers:
  assumes "frames_ok m" "dbgHeadValid 8 (usbCmdFrame m) inSize CMemoryRead"
  shows "answers 0 (memoryReadCommand b inSize BULK_EP_MAXPACKET m)"
proof -
  let ?al = "ucast (cmd_u8 1 m) :: u32" and ?a = "cmd_u32 4 m"
  let ?n = "payloadSize 8 BULK_EP_MAXPACKET (ucast (cmd_u16 2 m)) ?al"
  let ?m = "put_ans 0 (mem_head CMemoryRead (ucast ?al) (ucast ?n) ?a) m"
  have n: "unat ?n \<le> 56" by (rule payload_64)
  have n8: "unat (8 + ?n) = 8 + unat ?n" using n by (simp add: unat_word_ariths)
  have m: "ans_ok 0 ?m" using ans_ok_head [OF assms(1)] by (simp add: mem_head_Cons)
  have "\<exists>m'. dbg_memcpy b (load_mem b ?a) (store_frame 8) ?n ?al ?m = Inr m' \<and> ans_ok 0 m'"
  proof (rule dbg_memcpy_total [OF refl payloadSize_width])
    fix off and q :: "'a monitor" assume q: "ans_ok 0 q" "off + copy_width ?al \<le> unat ?n"
    have "ans_ok 0 (snd (load_mem b ?a (copy_width ?al) (of_nat off) q))"
      using q(1) by (simp add: load_mem_def read_hw_def split: prod.splits)
    then show "ans_ok 0 (store_frame 8 (copy_width ?al) (of_nat off)
        (fst (load_mem b ?a (copy_width ?al) (of_nat off) q)) (snd (load_mem b ?a (copy_width ?al) (of_nat off) q)))"
      using q(2) n by (intro store_frame_keeps copy_width_cases) simp_all
  qed (use m in simp_all)
  then obtain m' where m': "dbg_memcpy b (load_mem b ?a) (store_frame 8) ?n ?al ?m = Inr m'" "ans_ok 0 m'" by blast
  have "ans_ok 0 (put_ans 8 (replicate (unat ?n) 0xFF) ?m)" using n by (intro ans_ok_body [OF m]) simp_all
  then show ?thesis
    using assms(2) m' n n8 by (simp add: memoryReadCommand_def Let_def answersI)
qed

lemma memoryWrite_answers:
  assumes "frames_ok m" "dbgHeadValid 8 (usbCmdFrame m) inSize CMemoryWrite"
  shows "memoryWriteCommand b inSize BULK_EP_MAXPACKET m = Inl Spinning \<and> isFlashRegion (cmd_u32 4 m) \<or>
    answers 1 (memoryWriteCommand b inSize BULK_EP_MAXPACKET m)"
proof -
  let ?al = "getValidatedAlign (ucast (cmd_u8 1 m) :: u32)" and ?a = "cmd_u32 4 m"
  let ?n = "payloadSize 8 inSize (ucast (cmd_u16 2 m)) ?al"
  let ?head = "mem_head CMemoryWrite (ucast ?al) (ucast ?n) ?a"
  have head: "answers 1 (Inr (8, put_ans 0 ?head q))" if "frames_ok q" for q :: "'a monitor"
    using ans_ok_head [OF that] by (intro answersI) (simp_all add: mem_head_Cons)
  show ?thesis
  proof (cases "isFlashRegion ?a")
    case True
    then show ?thesis
      using assms head [of "m\<lparr>hw := h\<rparr>" for h]
      by (cases "flashWrite b ?a (drop 8 (usbCmdFrame m)) (unat ?n) (hw m)")
        (simp_all add: memoryWriteCommand_def Let_def)
  next
    case False
    have "copy_width ?al dvd unat ?n" by (rule payloadSize_width)
    then have "\<exists>m'. dbg_memcpy b (load_frame 8) (store_mem b ?a) ?n ?al m = Inr m' \<and> frames_ok m'"
      by (rule dbg_memcpy_total [OF refl])
        (use assms(1) in \<open>simp_all add: store_mem_def load_frame_def frames_ok_def on_hw_def\<close>)
    then obtain m' where "dbg_memcpy b (load_frame 8) (store_mem b ?a) ?n ?al m = Inr m'" "frames_ok m'" by blast
    with False assms(2) head [of m'] show ?thesis by (simp add: memoryWriteCommand_def Let_def)
  qed
qed

lemma regs_in_range_fits:
  assumes "\<not> off > 17"
  shows "unat off + unat (regs_in_range off n) \<le> 18" "unat (regs_in_range off n) \<le> unat n"
proof -
  have off: "unat off \<le> 17" using assms by (simp add: word_less_nat_alt not_less)
  then have "off \<le> 18" by (simp add: word_le_nat_alt)
  then have room: "unat (17 - off + 1) = 18 - unat off"
    using unat_sub [of off 18] by simp
  show "unat off + unat (regs_in_range off n) \<le> 18" "unat (regs_in_range off n) \<le> unat n"
    using room off by (auto simp: regs_in_range_def Let_def word_less_nat_alt not_less)
qed

lemma ans_ok_head_over:
  "ans_ok c m \<or> frames_ok m \<Longrightarrow> length bs < 64 \<Longrightarrow> ans_ok c (put_ans 0 (c # bs) m)"
  using ans_ok_head by (auto simp: ans_ok_def)

lemma regsRead_answers:
  assumes "frames_ok m" "dbgHeadValid 4 (usbCmdFrame m) inSize CRegsRead" "\<not> (ucast (cmd_u16 2 m) :: u32) > 17"
  shows "answers 2 (regsReadCommand b inSize BULK_EP_MAXPACKET m)"
proof -
  let ?n = "payloadSize 4 BULK_EP_MAXPACKET (ucast (cmd_u8 1 m) * 4) 4" and ?off = "ucast (cmd_u16 2 m) :: u32"
  let ?k = "regs_in_range ?off (?n div 4)"
  let ?words = "map (\<lambda>i. context_data m ! (i + unat ?off)) [0..<unat ?k]"
  have n: "unat ?n \<le> 60" by (rule payload_64)
  have k: "unat ?k \<le> unat ?n div 4"
    using regs_in_range_fits(2) [OF assms(3), of "?n div 4"] by (simp add: unat_div_distrib)
  have "frames_ok (put_ans 4 (concat (map le32 ?words)) m)"
    using n k by (intro frames_ok_put_ans assms(1)) (unfold length_concat_le32, simp)
  then have "ans_ok 2 (put_ans 0 (reg_head CRegsRead (ucast ?k) (ucast ?off)) (put_ans 4 (concat (map le32 ?words)) m))"
    using ans_ok_head [of _ "[ucast ?k] @ le16 (ucast ?off)" 2] by (simp add: reg_head_def)
  moreover have "unat (4 + ?n) = 4 + unat ?n" using n by (simp add: unat_word_ariths)
  ultimately show ?thesis
    using assms(2,3) n by (simp add: regsReadCommand_def Let_def answersI)
qed

lemma regsWrite_answers:
  assumes "frames_ok m" "dbgHeadValid 4 (usbCmdFrame m) inSize CRegsWrite" "\<not> (ucast (cmd_u16 2 m) :: u32) > 17"
  shows "answers 3 (regsWriteCommand b inSize BULK_EP_MAXPACKET m)"
proof -
  let ?n = "payloadSize 4 inSize (ucast (cmd_u8 1 m) * 4) 4" and ?off = "ucast (cmd_u16 2 m) :: u32"
  let ?k = "regs_in_range ?off (?n div 4)"
  let ?m = "m\<lparr>context_data := blit (unat ?off) (map (\<lambda>i. cmd_u32 (4 + 4 * i) m) [0..<unat ?k]) (context_data m)\<rparr>"
  have "frames_ok ?m"
    using assms(1) regs_in_range_fits(1) [OF assms(3), of "?n div 4"]
    by (simp add: frames_ok_def length_blit)
  then have "ans_ok 3 (put_ans 0 (reg_head CRegsWrite (ucast ?k) (ucast ?off)) ?m)"
    using ans_ok_head [of ?m "[ucast ?k] @ le16 (ucast ?off)" 3] by (simp add: reg_head_def)
  then show ?thesis
    using assms(2,3) by (simp add: regsWriteCommand_def Let_def answersI)
qed

lemma resetHalt_answers:
  assumes "frames_ok m" "dbgHeadValid 4 (usbCmdFrame m) inSize CResetHalt"
  shows "answers 4 (resetHaltCommand b inSize BULK_EP_MAXPACKET m)"
  unfolding resetHaltCommand_def using assms(2)
  by (simp add: Let_def debugHaltRequest_def debugResume_def ans_ok_body ans_ok_head [OF assms(1)] answersI)

lemma flash_answers:
  assumes "frames_ok m" "dbgHeadValid 12 (usbCmdFrame m) inSize CFlash"
  shows "answers 6 (flashCommand b inSize BULK_EP_MAXPACKET m)"
proof -
  have "ans_ok 6 (snd (debugStartEraseLoop b a z q))" if "ans_ok 6 q" for a z and q :: "'a monitor"
  proof -
    have "snd (debugStartEraseLoop b a z q) = snd (enqueue b HStartEraseLoop
        (q\<lparr>gEraseParams := snd (cb_put (a, z) (gEraseParams q))\<rparr>))"
      by (simp add: debugStartEraseLoop_def split: prod.splits)
    moreover have "ans_ok 6 (q\<lparr>gEraseParams := p\<rparr>)" for p using that by (simp add: ans_ok_def frames_ok_def)
    ultimately show ?thesis by simp
  qed
  then show ?thesis
    unfolding flashCommand_def using assms(2)
    by (simp add: Let_def debugStartFirmware_def debugStartLocalLoop_def ans_ok_body
        ans_ok_head [OF assms(1)] answersI)
qed

lemma attach_answers:
  assumes "frames_ok m" "dbgHeadValid 4 (usbCmdFrame m) inSize CAttach"
  shows "answers 7 (attachCommand b inSize BULK_EP_MAXPACKET m)"
proof -
  have "cmd_u8 0 m = 7" using assms(2) by (simp add: dbgHeadValid_def cmd_u8_def)
  then show ?thesis
    unfolding attachCommand_def using assms(2)
    by (simp add: Let_def debugHaltRequest_def debugResume_def debugStartFirmware_def
        ans_ok_head [OF assms(1)] answersI)
qed

lemma breakpoint_answers:
  assumes "frames_ok m" "dbgHeadValid 4 (usbCmdFrame m) inSize CBreakpoint"
  shows "if 4 + 8 * unat (cmd_u16 2 m) > 64 then breakpointCommand b inSize BULK_EP_MAXPACKET m = Inl Crash
    else answers 5 (breakpointCommand b inSize BULK_EP_MAXPACKET m)"
proof -
  have "ans_ok 5 (put_ans 0 (breakpoint_head x n) m)" for x n
    using ans_ok_head [OF assms(1), of "[x] @ le16 n" 5] by (simp add: breakpoint_head_def)
  moreover have "length (usbCmdFrame (put_ans 0 bs m)) = 64" for bs
    using assms(1) by (simp add: put_ans_def frames_ok_def)
  ultimately show ?thesis
    unfolding breakpointCommand_def using assms(2) by (simp add: Let_def answersI)
qed

section \<open>The callback\<close>

definition received :: "u8 list \<Rightarrow> 'h monitor \<Rightarrow> 'h monitor" where
  "received packet m = m\<lparr>usbCmdFrame := blit 0 packet (usbCmdFrame m), usbInitialized := True\<rparr>"

lemma received_ok: "frames_ok m \<Longrightarrow> length packet \<le> 64 \<Longrightarrow> frames_ok (received packet m)"
  by (simp add: frames_ok_def received_def length_blit)

lemma received_frame:
  assumes "frames_ok m" "length packet \<le> 64"
  shows "i < length packet \<Longrightarrow> usbCmdFrame (received packet m) ! i = packet ! i"
    "4 \<le> length packet \<Longrightarrow> cmd_u16 2 (received packet m) = rd16 (drop 2 packet)"
    "8 \<le> length packet \<Longrightarrow> cmd_u32 4 (received packet m) = rd32 (drop 4 packet)"
  using assms by (simp_all add: frames_ok_def received_def nth_blit cmd_u16_def cmd_u32_def rd16_def rd32_def length_blit)

lemma callback_run:
  assumes "packet \<noteq> []"
  shows "usbDataOutCallback b packet m = bindR (run_command b (of_nat (length packet)) (received packet m))
    (\<lambda>(n, m). if n = 0 then Inl Spinning else Inr (Some (take (unat n) (usbAnsFrame m)), m))"
  using assms by (simp add: usbDataOutCallback_def received_def)

lemma answers_run:
  assumes "answers c r"
  shows "\<exists>ans m'. bindR r (\<lambda>(n, m). if n = 0 then Inl Spinning else Inr (Some (take (unat n) (usbAnsFrame m)), m)) =
      Inr (Some ans, m') \<and> frames_ok m' \<and> ans \<noteq> [] \<and> hd ans = c \<and> length ans \<le> 64"
proof -
  obtain n m' where r: "r = Inr (n, m')" "frames_ok m'" "4 \<le> unat n" "unat n \<le> 64" "usbAnsFrame m' ! 0 = c"
    using assms by (auto simp: answers_def)
  then have "n \<noteq> 0" by auto
  moreover obtain y ys where "usbAnsFrame m' = y # ys"
    using r(2) by (cases "usbAnsFrame m'") (auto simp: frames_ok_def)
  ultimately show ?thesis using r by (cases "unat n") auto
qed

text \<open>Which command a packet is for, with the checks that its handler makes.\<close>

definition well_formed :: "u8 list \<Rightarrow> bool" where
  "well_formed packet \<longleftrightarrow> packet \<noteq> [] \<and>
     (let c = packet ! 0 in
        (c = 0 \<or> c = 1) \<and> 8 \<le> length packet \<or>
        (c = 2 \<or> c = 3) \<and> 4 \<le> length packet \<and> rd16 (drop 2 packet) \<le> 17 \<or>
        (c = 4 \<or> c = 7) \<and> 4 \<le> length packet \<or>
        c = 5 \<and> 4 \<le> length packet \<and> rd16 (drop 2 packet) \<le> 7 \<or>
        c = 6 \<and> 12 \<le> length packet)"

definition writes_flash :: "u8 list \<Rightarrow> bool" where
  "writes_flash packet \<longleftrightarrow> packet ! 0 = 1 \<and> isFlashRegion (rd32 (drop 4 packet))"

lemma small_of_nat: "n \<le> 64 \<Longrightarrow> k \<le> n \<Longrightarrow> \<not> (of_nat k :: u32) > of_nat n"
  by (simp add: word_less_nat_alt unat_of_nat_u32 not_less)

lemma head_valid:
  assumes "frames_ok m" "length packet \<le> 64" "k \<le> length packet" "packet \<noteq> []"
    and "packet ! 0 = command_code c"
  shows "dbgHeadValid (of_nat k) (usbCmdFrame (received packet m)) (of_nat (length packet)) c"
  using received_frame(1) [OF assms(1,2), of 0] small_of_nat [OF assms(2,3)] assms(4,5)
  by (simp add: dbgHeadValid_def)

lemma u16_le: "(x :: u16) \<le> 17 \<Longrightarrow> \<not> (ucast x :: u32) > 17"
  by (simp add: word_less_nat_alt word_le_nat_alt not_less)

lemma run_answers:
  assumes m: "frames_ok m" and p: "length packet \<le> 64" "well_formed packet"
  shows "answers (packet ! 0) (run_command b (of_nat (length packet)) (received packet m)) \<or>
    writes_flash packet \<and> run_command b (of_nat (length packet)) (received packet m) = Inl Spinning"
proof -
  let ?m = "received packet m" and ?n = "of_nat (length packet) :: u32"
  have ok: "frames_ok ?m" by (rule received_ok [OF m p(1)])
  have ne: "packet \<noteq> []" using p(2) by (simp add: well_formed_def)
  note hv = head_valid [OF m p(1) _ ne]
  note fr = received_frame [OF m p(1)]
  have c0: "usbCmdFrame ?m ! 0 = packet ! 0" using fr(1) [of 0] ne by simp
  consider (rd) "packet ! 0 = 0" "8 \<le> length packet" | (wr) "packet ! 0 = 1" "8 \<le> length packet"
    | (rr) "packet ! 0 = 2" "4 \<le> length packet" "rd16 (drop 2 packet) \<le> 17"
    | (rw) "packet ! 0 = 3" "4 \<le> length packet" "rd16 (drop 2 packet) \<le> 17"
    | (rh) "packet ! 0 = 4" "4 \<le> length packet" | (at) "packet ! 0 = 7" "4 \<le> length packet"
    | (bp) "packet ! 0 = 5" "4 \<le> length packet" "rd16 (drop 2 packet) \<le> 7"
    | (fl) "packet ! 0 = 6" "12 \<le> length packet"
    using p(2) by (auto simp: well_formed_def Let_def)
  then show ?thesis
  proof cases
    case rd
    with memoryRead_answers [OF ok] hv [of 8 CMemoryRead] show ?thesis by (simp add: run_command_def c0)
  next
    case wr
    with memoryWrite_answers [OF ok] hv [of 8 CMemoryWrite] fr(3) show ?thesis
      by (auto simp: run_command_def c0 writes_flash_def)
  next
    case rr
    with regsRead_answers [OF ok _ u16_le] hv [of 4 CRegsRead] fr(2) show ?thesis
      by (simp add: run_command_def c0)
  next
    case rw
    with regsWrite_answers [OF ok _ u16_le] hv [of 4 CRegsWrite] fr(2) show ?thesis
      by (simp add: run_command_def c0)
  next
    case rh
    with resetHalt_answers [OF ok] hv [of 4 CResetHalt] show ?thesis by (simp add: run_command_def c0)
  next
    case at
    with attach_answers [OF ok] hv [of 4 CAttach] show ?thesis by (simp add: run_command_def c0)
  next
    case bp
    from bp(3) have "4 + 8 * unat (rd16 (drop 2 packet)) \<le> 64" by (simp add: word_le_nat_alt)
    with bp breakpoint_answers [OF ok, of ?n b] hv [of 4 CBreakpoint] fr(2) show ?thesis
      by (simp add: run_command_def c0)
  next
    case fl
    with flash_answers [OF ok] hv [of 12 CFlash] show ?thesis by (simp add: run_command_def c0)
  qed
qed

lemma head_short: "length packet < k \<Longrightarrow> k \<le> 64 \<Longrightarrow> \<not> dbgHeadValid (of_nat k) frame (of_nat (length packet)) c"
  by (simp add: dbgHeadValid_def word_less_nat_alt unat_of_nat_u32)

lemma run_rejects:
  assumes m: "frames_ok m" and p: "length packet \<le> 64" "packet \<noteq> []" "\<not> well_formed packet"
  shows "run_command b (of_nat (length packet)) (received packet m) =
    (if packet ! 0 = 5 \<and> 4 \<le> length packet then Inl Crash else Inr (0, received packet m))"
proof -
  let ?m = "received packet m"
  have ok: "frames_ok ?m" by (rule received_ok [OF m p(1)])
  note fr = received_frame [OF m p(1)]
  have c0: "usbCmdFrame ?m ! 0 = packet ! 0" using fr(1) [of 0] p(2) by simp
  note hs = head_short [of packet 4 "usbCmdFrame ?m"] head_short [of packet 8 "usbCmdFrame ?m"]
    head_short [of packet 12 "usbCmdFrame ?m"]
  have regs: "(ucast (cmd_u16 2 ?m) :: u32) > 17" if "packet ! 0 = 2 \<or> packet ! 0 = 3" "4 \<le> length packet"
    using p(2,3) that fr(2)
    by (auto simp: well_formed_def Let_def word_less_nat_alt word_le_nat_alt not_le)
  consider (mem) "packet ! 0 = 0 \<or> packet ! 0 = 1" | (regs) "packet ! 0 = 2 \<or> packet ! 0 = 3"
    | (small) "packet ! 0 = 4 \<or> packet ! 0 = 7" | (bp) "packet ! 0 = 5" | (flash) "packet ! 0 = 6"
    | (unknown) "packet ! 0 \<notin> {0, 1, 2, 3, 4, 5, 6, 7}" by auto
  then show ?thesis
  proof cases
    case mem
    then have "length packet < 8" using p(2,3) by (auto simp: well_formed_def Let_def)
    with mem hs show ?thesis
      by (auto simp: run_command_def c0 memoryReadCommand_def memoryWriteCommand_def)
  next
    case regs
    with regs hs(1) \<open>_ \<Longrightarrow> _ \<Longrightarrow> (ucast (cmd_u16 2 ?m) :: u32) > 17\<close> show ?thesis
      by (cases "length packet < 4") (auto simp: run_command_def c0 regsReadCommand_def regsWriteCommand_def Let_def)
  next
    case small
    then have "length packet < 4" using p(2,3) by (auto simp: well_formed_def Let_def)
    with small hs(1) show ?thesis
      by (auto simp: run_command_def c0 resetHaltCommand_def attachCommand_def)
  next
    case bp
    show ?thesis
    proof (cases "length packet < 4")
      case True
      with bp hs(1) show ?thesis by (simp add: run_command_def c0 breakpointCommand_def)
    next
      case False
      then have "\<not> rd16 (drop 2 packet) \<le> 7" using bp p(2,3) by (auto simp: well_formed_def Let_def)
      then have "4 + 8 * unat (cmd_u16 2 ?m) > 64" using fr(2) False by (simp add: word_le_nat_alt)
      moreover have "dbgHeadValid 4 (usbCmdFrame ?m) (of_nat (length packet)) CBreakpoint"
        using head_valid [OF m p(1) _ p(2), of 4 CBreakpoint] bp False by simp
      ultimately show ?thesis
        using breakpoint_answers [OF ok, of "of_nat (length packet)" b] bp False
        by (simp add: run_command_def c0)
    qed
  next
    case flash
    then have "length packet < 12" using p(2,3) by (auto simp: well_formed_def Let_def)
    with flash hs(3) show ?thesis by (simp add: run_command_def c0 flashCommand_def)
  qed (auto simp: run_command_def c0)
qed

section \<open>Properties\<close>

text \<open>
  C4: the firmware answers. Every well-formed packet of at most 64 bytes, with any access
  width, byte count and address, is answered with a packet that names the same command,
  whatever is behind the bus: no loop of the interpreter runs for ever, \<open>dbg_memcpy\<close> included,
  whose counter has to hit 0 exactly. The exception are writes to the flash, which wait for
  the flash controller.
\<close>

theorem callback_answers:
  assumes "frames_ok m" "length packet \<le> 64" "well_formed packet" "\<not> writes_flash packet"
  shows "\<exists>ans m'. usbDataOutCallback b packet m = Inr (Some ans, m') \<and> hd ans = packet ! 0 \<and>
    0 < length ans \<and> length ans \<le> 64"
proof -
  have ne: "packet \<noteq> []" using assms(3) by (simp add: well_formed_def)
  have "answers (packet ! 0) (run_command b (of_nat (length packet)) (received packet m))"
    using run_answers [OF assms(1-3)] assms(4) by blast
  from answers_run [OF this] show ?thesis unfolding callback_run [OF ne] by auto
qed

lemma initial_frames: "frames_ok (initial h)"
  by (simp add: frames_ok_def initial_def)

theorem callback_answers_witness:
  "\<exists>ans m'. usbDataOutCallback f103_bus (mem_head CMemoryRead 3 0xFFFF 0xFFFFFFF9) (initial power_on) = Inr (Some ans, m') \<and>
    hd ans = 0 \<and> length ans \<le> 64"
proof -
  let ?packet = "mem_head CMemoryRead 3 0xFFFF 0xFFFFFFF9"
  have "length ?packet \<le> 64" "well_formed ?packet" "\<not> writes_flash ?packet"
    by (simp_all add: mem_head_def well_formed_def writes_flash_def)
  from callback_answers [OF initial_frames [of power_on] this, of f103_bus] show ?thesis
    by (auto simp: mem_head_def)
qed

text \<open>
  C19: the frames and the saved registers keep their sizes, 64, 64 and 19, over every packet
  that comes in, well-formed or not: no command writes behind one of them, whatever counts and
  offsets the packet has. And what is handed to the endpoint is empty only for an empty
  packet, has at most 64 bytes and starts with the command.
\<close>

theorem callback_keeps_types:
  assumes "frames_ok m" "length packet \<le> 64" "usbDataOutCallback b packet m = Inr (r, m')"
  shows "frames_ok m' \<and> (r = None \<longleftrightarrow> packet = []) \<and>
    (case r of None \<Rightarrow> True | Some ans \<Rightarrow> 0 < length ans \<and> length ans \<le> 64 \<and> hd ans = packet ! 0)"
proof (cases "packet = []")
  case True
  with assms show ?thesis
    by (auto simp: usbDataOutCallback_def frames_ok_def blit_def)
next
  case False
  note run = callback_run [OF False, of b m]
  show ?thesis
  proof (cases "well_formed packet")
    case True
    then consider (ok) "answers (packet ! 0) (run_command b (of_nat (length packet)) (received packet m))"
      | (wait) "run_command b (of_nat (length packet)) (received packet m) = Inl Spinning"
      using run_answers [OF assms(1,2)] by blast
    then show ?thesis
    proof cases
      case ok
      from answers_run [OF this] assms(3) False show ?thesis unfolding run by auto
    next
      case wait
      with assms(3) show ?thesis unfolding run by simp
    qed
  next
    case f: False
    from run_rejects [OF assms(1,2) False f] assms(3) show ?thesis
      unfolding run by (simp split: if_splits)
  qed
qed

theorem callback_keeps_types_witness:
  "\<exists>ans m'. usbDataOutCallback f103_bus (reg_head CRegsRead 0xFF 17) (initial power_on) = Inr (Some ans, m') \<and>
    frames_ok m' \<and> length ans \<le> 64"
proof -
  let ?packet = "reg_head CRegsRead 0xFF 17" and ?m = "initial power_on"
  have p: "length ?packet \<le> 64" "well_formed ?packet" "\<not> writes_flash ?packet" "?packet \<noteq> []"
    using rd16_le16 [of 17 "[]"] by (simp_all add: reg_head_def well_formed_def writes_flash_def)
  have "answers (?packet ! 0) (run_command f103_bus (of_nat (length ?packet)) (received ?packet ?m))"
    using run_answers [OF initial_frames [of power_on] p(1,2), of f103_bus] p(3) by blast
  from answers_run [OF this] obtain ans m' where
    "usbDataOutCallback f103_bus ?packet ?m = Inr (Some ans, m')" unfolding callback_run [OF p(4)] by blast
  with callback_keeps_types [OF initial_frames p(1) this] show ?thesis by auto
qed

text \<open>
  C36: a packet that is not well-formed stops the probe. An unknown command, a head that is
  too short or a register index above 17 leads to the size 0, and the interrupt handler spins
  for ever; a breakpoint request that announces more than 7 entries makes the handler read
  behind the command frame.
\<close>

theorem malformed_packet_hangs:
  assumes "frames_ok m" "length packet \<le> 64" "packet \<noteq> []" "\<not> well_formed packet"
  shows "usbDataOutCallback b packet m =
    Inl (if packet ! 0 = 5 \<and> 4 \<le> length packet then Crash else Spinning)"
  using run_rejects [OF assms] by (simp add: callback_run [OF assms(3)])

theorem malformed_packet_hangs_witness:
  "usbDataOutCallback f103_bus [8, 0, 0, 0] (initial power_on) = Inl Spinning \<and>
   usbDataOutCallback f103_bus (breakpoint_head 1 8) (initial power_on) = Inl Crash"
  using malformed_packet_hangs [OF initial_frames, of "[8, 0, 0, 0]" f103_bus power_on]
    malformed_packet_hangs [OF initial_frames, of "breakpoint_head 1 8" f103_bus power_on] rd16_le16 [of 8 "[]"]
  by (simp add: well_formed_def breakpoint_head_def)

text \<open>
  C26: what \<open>checkMemRegionAccess\<close> lets the memory commands read. For the sizes that fit into a
  packet, the check that \<open>memoryReadCommand\<close> makes accepts exactly the ranges that lie within
  one region of the table, and, because the end is computed in 32 bits, every range that
  crosses the end of the address space.
\<close>

theorem access_check_exact:
  assumes "n \<le> 56"
  shows "checkMemRegionAccess a (a + of_nat n) AND 1 \<noteq> 0 \<longleftrightarrow> in_regions a n \<or> 2 ^ 32 \<le> unat a + n"
proof (cases "2 ^ 32 \<le> unat a + n")
  case True
  have n: "unat (of_nat n :: u32) = n" using assms by (intro unat_of_nat_u32) simp
  have "unat (a + of_nat n) = unat a + n - 2 ^ 32"
    using True n assms unat_u32_less [of a] by (simp add: unat_word_ariths mod_if)
  then have "unat (a + of_nat n) \<le> 56" using assms unat_u32_less [of a] by linarith
  then have "0x08000000 \<le> a" "a + of_nat n \<le> 0x08020000"
    using True assms by (simp_all add: word_le_nat_alt)
  then have "checkMemRegionAccess a (a + of_nat n) AND 1 \<noteq> 0"
    unfolding grants_iff by (intro bexI [of _ "(0x08000000, 0x08020000, 3)"]) (simp_all add: memoryAccessRegions_def)
  with True show ?thesis by blast
next
  case False
  then have u: "unat (a + of_nat n) = unat a + n" by (intro unat_add_u32) simp
  have "(rb \<le> a \<and> a + of_nat n \<le> re) = (unat rb \<le> unat a \<and> unat a + n \<le> unat re)" for rb re :: u32
    by (simp add: word_le_nat_alt u)
  then show ?thesis using False unfolding grants_iff in_regions_def by simp
qed

theorem access_check_exact_witness:
  "checkMemRegionAccess 0x2000FFF0 (0x2000FFF0 + of_nat 16) AND 1 \<noteq> 0 \<and>
   checkMemRegionAccess 0x2000FFF0 (0x2000FFF0 + of_nat 17) AND 1 = 0 \<and>
   checkMemRegionAccess 0xFFFFFFF0 (0xFFFFFFF0 + of_nat 32) AND 1 \<noteq> 0"
proof -
  have "in_regions 0x2000FFF0 16" "\<not> in_regions 0x2000FFF0 17"
    by (simp_all add: in_regions_def memoryAccessRegions_def)
  then show ?thesis
    using access_check_exact [of 16 "0x2000FFF0"] access_check_exact [of 17 "0x2000FFF0"]
      access_check_exact [of 32 "0xFFFFFFF0"] by simp
qed

end
