(* ===== verification/Breakpoints.thy ===== *)
theory Breakpoints
  imports Monitor_Total
begin

text \<open>
  The breakpoint command of the firmware refines operations on a set. The eight comparators
  of the Flash Patch and Breakpoint unit hold words of code, each with a flag for its lower
  and its upper half word; what the user sees is the set of half words. The contract of such
  a set with a limited number of keys is the locale \<open>bounded_set\<close>, and the comparators are
  its instance.
\<close>

section \<open>The contract of a bounded set\<close>

text \<open>
  Elements are added and deleted by name; an element has a key, and at most \<open>capacity\<close>
  different keys fit.
\<close>

locale bounded_set =
  fixes add del :: "'a \<Rightarrow> 's \<Rightarrow> 's"
    and elem :: "'a \<Rightarrow> 'e"
    and members :: "'s \<Rightarrow> 'e set"
    and ok :: "'s \<Rightarrow> bool"
    and valid :: "'a \<Rightarrow> bool"
    and key :: "'e \<Rightarrow> 'k"
    and capacity :: nat
  assumes add_ok: "ok s \<Longrightarrow> valid a \<Longrightarrow> ok (add a s)"
    and del_ok: "ok s \<Longrightarrow> valid a \<Longrightarrow> ok (del a s)"
    and add_members: "ok s \<Longrightarrow> valid a \<Longrightarrow>
      members (add a s) = (if key (elem a) \<in> key ` members s \<or> card (key ` members s) < capacity
        then insert (elem a) (members s) else members s)"
    and del_members: "ok s \<Longrightarrow> valid a \<Longrightarrow> members (del a s) = members s - {elem a}"
    and members_finite: "ok s \<Longrightarrow> finite (members s)"
begin

lemma fold_del:
  "ok s \<Longrightarrow> (\<And>a. a \<in> set as \<Longrightarrow> valid a) \<Longrightarrow>
   ok (fold del as s) \<and> members (fold del as s) = members s - elem ` set as"
  by (induction as arbitrary: s) (auto simp: del_ok del_members)

lemma fold_add:
  "ok s \<Longrightarrow> (\<And>a. a \<in> set as \<Longrightarrow> valid a) \<Longrightarrow> card (key ` (members s \<union> elem ` set as)) \<le> capacity \<Longrightarrow>
   ok (fold add as s) \<and> members (fold add as s) = members s \<union> elem ` set as"
proof (induction as arbitrary: s)
  case Nil
  then show ?case by simp
next
  case (Cons a as)
  let ?all = "members s \<union> elem ` set (a # as)"
  have a: "valid a" using Cons.prems(2) by simp
  have fin: "finite ?all" using members_finite [OF Cons.prems(1)] by simp
  have "key (elem a) \<in> key ` members s \<or> card (key ` members s) < capacity"
  proof (cases "key (elem a) \<in> key ` members s")
    case False
    then have "key ` members s \<subset> key ` ?all" by auto
    then have "card (key ` members s) < card (key ` ?all)" using fin by (intro psubset_card_mono) simp_all
    with Cons.prems(3) show ?thesis by simp
  qed simp
  then have m: "members (add a s) = insert (elem a) (members s)"
    using add_members [OF Cons.prems(1) a] by simp
  have all: "members (add a s) \<union> elem ` set as = ?all" using m by auto
  have "ok (fold add as (add a s)) \<and> members (fold add as (add a s)) = members (add a s) \<union> elem ` set as"
    using Cons.prems add_ok [OF Cons.prems(1) a] unfolding all [symmetric] by (intro Cons.IH) simp_all
  then show ?case unfolding all by simp
qed

text \<open>When it fits, adding what was not there and deleting it again is the identity on the set.\<close>

lemma add_del:
  assumes "ok s" "\<And>a. a \<in> set as \<Longrightarrow> valid a" "card (key ` (members s \<union> elem ` set as)) \<le> capacity"
    and "elem ` set as \<inter> members s = {}"
  shows "members (fold del as (fold add as s)) = members s"
  using fold_add [OF assms(1-3)] fold_del [of "fold add as s" as] assms(2,4) by auto

end

section \<open>The comparators as a list\<close>

definition fpb :: "f103 \<Rightarrow> u32 list" where
  "fpb h = map (\<lambda>i. load_le 4 (FP_COMP i) (f_mem h)) [0..<NUMOFBKPTS]"

lemma length_fpb [simp]: "length (fpb h) = 8"
  by (simp add: fpb_def NUMOFBKPTS_def)

lemma comp_apart:
  assumes "i < 8" "j < 8" "i \<noteq> j"
  shows "4 \<le> unat (FP_COMP j - FP_COMP i)"
proof (cases "i < j")
  case True
  then have "FP_COMP j - FP_COMP i = of_nat (4 * (j - i))" by (simp add: FP_COMP_def of_nat_diff)
  moreover have "unat (of_nat (4 * (j - i)) :: u32) = 4 * (j - i)" using assms by (intro unat_of_nat_u32) simp
  ultimately show ?thesis using True by simp
next
  case False
  then have "FP_COMP j - FP_COMP i = - of_nat (4 * (i - j))" by (simp add: FP_COMP_def of_nat_diff)
  moreover have k: "unat (of_nat (4 * (i - j)) :: u32) = 4 * (i - j)" using assms by (intro unat_of_nat_u32) simp
  ultimately have "unat (FP_COMP j - FP_COMP i) = 2 ^ 32 - 4 * (i - j)"
    using assms False unat_minus_nat_wrap [of 0 "4 * (i - j)"] by simp
  then show ?thesis using assms by simp
qed

lemma comp_plain:
  assumes "i < 8"
  shows "FP_COMP i \<notin> {FLASH_KEYR, FLASH_SR, FLASH_CR, FLASH_AR}" "\<not> in_flash (FP_COMP i)" "\<not> status_register (FP_COMP i)"
proof -
  have "unat (FP_COMP i) = 0xE0002008 + 4 * i"
    using unat_add_u32 [of "0xE0002008" "4 * i"] assms by (simp add: FP_COMP_def)
  with assms show "FP_COMP i \<notin> {FLASH_KEYR, FLASH_SR, FLASH_CR, FLASH_AR}" "\<not> in_flash (FP_COMP i)"
    "\<not> status_register (FP_COMP i)"
    by (auto simp: word_unat_eq_iff flash_regs in_flash_def status_register_def word_less_nat_alt)
qed

lemma fpb_read: "i < 8 \<Longrightarrow> mmio_read f103_bus (FP_COMP i) h = (fpb h ! i, h)"
  using comp_plain(1) [of i] by (simp add: mmio_read_def f103_bus_def f103_read_def fpb_def NUMOFBKPTS_def)

lemma fpb_write:
  assumes "i < 8"
  shows "fpb (mmio_write f103_bus (FP_COMP i) v h) = (fpb h)[i := v]"
proof (rule nth_equalityI)
  fix j assume "j < length (fpb (mmio_write f103_bus (FP_COMP i) v h))"
  then have j: "j < 8" by simp
  have "f_mem (mmio_write f103_bus (FP_COMP i) v h) = store_le 4 (FP_COMP i) v (f_mem h)"
    using comp_plain [OF assms] by (simp add: mmio_write_def f103_bus_def f103_write_def)
  then show "fpb (mmio_write f103_bus (FP_COMP i) v h) ! j = (fpb h)[i := v] ! j"
    using j assms load_store_same load_store_other [of "FP_COMP j" "FP_COMP i"] comp_apart [of i j] comp_apart [of j i]
    by (cases "i = j") (simp_all add: fpb_def NUMOFBKPTS_def)
qed simp

lemma find_comp_f103:
  "set is \<subseteq> {0..<8} \<Longrightarrow>
   find_comp f103_bus P (map FP_COMP is) h = (map_option FP_COMP (find (\<lambda>i. P (fpb h ! i)) is), h)"
  by (induction "is") (auto simp: fpb_read)

section \<open>The set of half words\<close>

text \<open>
  A comparator \<open>v\<close> stops at the half word \<open>(w, up)\<close> when it is enabled, holds the word \<open>w\<close> and
  has the flag of that half.
\<close>

definition half_bit :: "bool \<Rightarrow> nat" where
  "half_bit up = (if up then 31 else 30)"

definition half_flag :: "bool \<Rightarrow> u32" where
  "half_flag up = push_bit (half_bit up) 1"

definition stops_at :: "u32 \<Rightarrow> u32 \<times> bool \<Rightarrow> bool" where
  "stops_at v = (\<lambda>(w, up). bit v 0 \<and> v AND 0x3FFFFFFC = w \<and> bit v (half_bit up))"

definition half_word :: "u32 \<Rightarrow> u32 \<times> bool" where
  "half_word a = (bp_word a, bit a 1)"

definition breaks :: "u32 list \<Rightarrow> (u32 \<times> bool) set" where
  "breaks vs = {x. \<exists>v\<in>set vs. stops_at v x}"

definition comp_ok :: "u32 \<Rightarrow> bool" where
  "comp_ok v \<longleftrightarrow> v = 0 \<or> bit v 0 \<and> v AND 0x3FFFFFFC \<noteq> 0 \<and> (bit v 30 \<or> bit v 31)"

definition fpb_ok :: "u32 list \<Rightarrow> bool" where
  "fpb_ok vs \<longleftrightarrow> length vs = 8 \<and> (\<forall>i<8. comp_ok (vs ! i)) \<and>
     (\<forall>i<8. \<forall>j<8. vs ! i \<noteq> 0 \<longrightarrow> vs ! i AND 0x3FFFFFFC = vs ! j AND 0x3FFFFFFC \<longrightarrow> i = j)"

lemma word_mask_bit: "bit (0x3FFFFFFC :: u32) n \<longleftrightarrow> 2 \<le> n \<and> n < 30"
proof -
  have m: "(0x3FFFFFFC :: u32) = push_bit 2 (mask 28)" by (simp add: mask_eq_exp_minus_1 push_bit_eq_mult)
  show ?thesis unfolding m by (auto simp: bit_push_bit_iff bit_mask_iff)
qed

lemma flags_bit: "bit (0xC0000000 :: u32) n \<longleftrightarrow> n = 30 \<or> n = 31"
proof -
  have m: "(0xC0000000 :: u32) = push_bit 30 (mask 2)" by (simp add: mask_eq_exp_minus_1 push_bit_eq_mult)
  show ?thesis unfolding m by (auto simp: bit_push_bit_iff bit_mask_iff)
qed

lemma half_bit_facts [simp]:
  "half_bit up < 32" "30 \<le> half_bit up" "half_bit up \<noteq> 0" "half_bit p = half_bit q \<longleftrightarrow> p = q"
  by (simp_all add: half_bit_def)

lemma half_flag_bit: "bit (half_flag up) n \<longleftrightarrow> n = half_bit up"
  using half_bit_facts(1) [of up] by (auto simp: half_flag_def bit_push_bit_iff bit_1_iff simp del: push_bit_of_1)

lemma bp_half_bit: "push_bit 30 (bp_half a) = half_flag (bit a 1)"
  using and_exp_eq_0_iff_not_bit [of a 1]
  by (simp add: half_flag_def bp_half_def half_bit_def push_bit_eq_mult)

lemma half_bits_mask: "v AND 0xC0000000 = 0 \<longleftrightarrow> \<not> bit v 30 \<and> \<not> bit (v :: u32) 31"
proof
  assume "v AND 0xC0000000 = 0"
  then have "\<not> bit (v AND 0xC0000000) n" for n by simp
  then show "\<not> bit v 30 \<and> \<not> bit v 31" by (metis bit_and_iff flags_bit)
next
  assume "\<not> bit v 30 \<and> \<not> bit v 31"
  then show "v AND 0xC0000000 = 0" by (intro bit_word_eqI) (auto simp: bit_and_iff flags_bit simp del: bit_numeral_word_iff)
qed

text \<open>The three new values a comparator can get.\<close>

lemma enabled_more:
  fixes v :: u32
  shows "(v OR (1 OR half_flag up)) AND 0x3FFFFFFC = v AND 0x3FFFFFFC"
    "bit (v OR (1 OR half_flag up)) 0"
    "bit (v OR (1 OR half_flag up)) (half_bit q) \<longleftrightarrow> bit v (half_bit q) \<or> q = up"
    "(v AND NOT (half_flag up)) AND 0x3FFFFFFC = v AND 0x3FFFFFFC"
    "bit (v AND NOT (half_flag up)) 0 \<longleftrightarrow> bit v 0"
    "bit (v AND NOT (half_flag up)) (half_bit q) \<longleftrightarrow> bit v (half_bit q) \<and> q \<noteq> up"
proof -
  have "bit (1 :: u32) n \<longleftrightarrow> n = 0" for n by (auto simp: bit_1_iff)
  note bits = bit_or_iff bit_and_iff bit_not_iff half_flag_bit word_mask_bit this
  have big: "n \<noteq> half_bit up" if "n < 30" for n using half_bit_facts(2) [of up] that by linarith
  show "(v OR (1 OR half_flag up)) AND 0x3FFFFFFC = v AND 0x3FFFFFFC"
    "(v AND NOT (half_flag up)) AND 0x3FFFFFFC = v AND 0x3FFFFFFC"
    using big by (intro bit_word_eqI; auto simp: bits simp del: bit_numeral_word_iff push_bit_of_1)+
  show "bit (v OR (1 OR half_flag up)) 0"
    "bit (v OR (1 OR half_flag up)) (half_bit q) \<longleftrightarrow> bit v (half_bit q) \<or> q = up"
    "bit (v AND NOT (half_flag up)) 0 \<longleftrightarrow> bit v 0"
    "bit (v AND NOT (half_flag up)) (half_bit q) \<longleftrightarrow> bit v (half_bit q) \<and> q \<noteq> up"
    unfolding bits using half_bit_facts(3) [of up] half_bit_facts(3) [of q] bit_imp_le_length [of v "half_bit q"]
    by (auto simp del: half_bit_facts(3))
qed

lemma bp_word_mask: "bp_word a AND 0x3FFFFFFC = bp_word a" "\<not> bit (bp_word a) (half_bit q)" "\<not> bit (bp_word a) 0"
  using leD [OF half_bit_facts(2) [of q]] by (auto simp: bp_word_def and.assoc bit_and_iff word_mask_bit simp del: bit_numeral_word_iff)

section \<open>The operations on the list\<close>

lemma find_index:
  "find P [0..<n] = Some i \<Longrightarrow> i < n \<and> P i" "find P [0..<n] = None \<Longrightarrow> i < n \<Longrightarrow> \<not> P i"
  by (auto simp: find_Some_iff find_None_iff)

lemma comps_eq: "comps = map FP_COMP [0..<8]"
  by (simp add: comps_def NUMOFBKPTS_def)

lemma find_comps: "find_comp f103_bus P comps h = (map_option FP_COMP (find (\<lambda>i. P (fpb h ! i)) [0..<8]), h)"
  unfolding comps_eq by (rule find_comp_f103) simp

lemma fpb_set_breakpoint:
  "fpb (set_breakpoint f103_bus a h) =
    (case find (\<lambda>i. fpb h ! i AND 0x3FFFFFFC = bp_word a) [0..<8] of
       Some i \<Rightarrow> (fpb h)[i := fpb h ! i OR (1 OR half_flag (bit a 1))]
     | None \<Rightarrow>
         (case find (\<lambda>i. fpb h ! i AND 1 = 0) [0..<8] of
            Some i \<Rightarrow> (fpb h)[i := bp_word a OR (1 OR half_flag (bit a 1))]
          | None \<Rightarrow> fpb h))"
  unfolding set_breakpoint_def find_comps bp_half_bit
  by (auto simp: mmio_set_def mmio_modify_def fpb_read fpb_write dest!: find_index(1) split: option.splits)

definition cleared :: "u32 \<Rightarrow> u32 \<Rightarrow> u32" where
  "cleared a v =
     (if v AND 0x3FFFFFFC = bp_word a
      then let v' = v AND NOT (half_flag (bit a 1)) in if v' AND 0xC0000000 = 0 then 0 else v'
      else v)"

lemma fpb_clear_comp: "i < 8 \<Longrightarrow> fpb (clear_comp f103_bus a (FP_COMP i) h) = (fpb h)[i := cleared a (fpb h ! i)]"
  unfolding clear_comp_def bp_half_bit
  by (auto simp: mmio_clear_def mmio_modify_def fpb_read fpb_write cleared_def Let_def)

lemma fpb_clear_fold:
  "n \<le> 8 \<Longrightarrow> fpb (fold (clear_comp f103_bus a) (map FP_COMP [0..<n]) h) =
     map (cleared a) (take n (fpb h)) @ drop n (fpb h)"
proof (induction n)
  case (Suc n)
  let ?h = "fold (clear_comp f103_bus a) (map FP_COMP [0..<n]) h" and ?xs = "map (cleared a) (take n (fpb h))"
  have IH: "fpb ?h = ?xs @ fpb h ! n # drop (Suc n) (fpb h)"
    using Suc by (simp add: Cons_nth_drop_Suc)
  then have "fpb ?h ! n = fpb h ! n" using Suc.prems by (simp add: nth_append)
  then have "fpb (clear_comp f103_bus a (FP_COMP n) ?h) = (?xs @ fpb h ! n # drop (Suc n) (fpb h))[n := cleared a (fpb h ! n)]"
    using Suc.prems fpb_clear_comp [of n a ?h] IH by simp
  also have "\<dots> = ?xs @ cleared a (fpb h ! n) # drop (Suc n) (fpb h)"
    using Suc.prems by (simp add: list_update_append)
  finally show ?case using Suc.prems by (simp add: take_Suc_conv_app_nth)
qed simp

lemma fpb_clear_breakpoint: "fpb (clear_breakpoint f103_bus a h) = map (cleared a) (fpb h)"
  using fpb_clear_fold [of 8 a h] by (simp add: clear_breakpoint_def comps_eq)

section \<open>They are operations on the set\<close>

lemma stops_enabled:
  "bit v 0 \<Longrightarrow> v AND 0x3FFFFFFC = bp_word a \<Longrightarrow>
   stops_at (v OR (1 OR half_flag (bit a 1))) x \<longleftrightarrow> stops_at v x \<or> x = half_word a"
  by (cases x) (auto simp: stops_at_def enabled_more half_word_def)

lemma stops_new: "stops_at (bp_word a OR (1 OR half_flag (bit a 1))) x \<longleftrightarrow> x = half_word a"
  by (cases x) (auto simp: stops_at_def enabled_more half_word_def bp_word_mask)

lemma stops_cleared:
  assumes "comp_ok v"
  shows "stops_at (cleared a v) x \<longleftrightarrow> stops_at v x \<and> x \<noteq> half_word a"
proof (cases "v AND 0x3FFFFFFC = bp_word a")
  case True
  let ?v = "v AND NOT (half_flag (bit a 1))"
  have "stops_at ?v x \<longleftrightarrow> stops_at v x \<and> x \<noteq> half_word a"
    using True by (cases x) (auto simp: stops_at_def enabled_more half_word_def)
  moreover have "\<not> stops_at ?v x" if "?v AND 0xC0000000 = 0"
    using that unfolding half_bits_mask by (cases x) (auto simp: stops_at_def half_bit_def)
  moreover have "\<not> stops_at 0 x" by (cases x) (simp add: stops_at_def)
  ultimately show ?thesis using True by (simp add: cleared_def Let_def)
next
  case False
  then show ?thesis by (cases x) (auto simp: cleared_def stops_at_def half_word_def)
qed

lemma breaks_update:
  assumes "i < length vs"
  shows "x \<in> breaks (vs[i := v]) \<longleftrightarrow> stops_at v x \<or> (\<exists>j<length vs. j \<noteq> i \<and> stops_at (vs ! j) x)"
  using assms by (auto simp: breaks_def set_conv_nth nth_list_update split: if_splits)

lemma breaks_iff: "x \<in> breaks vs \<longleftrightarrow> (\<exists>j<length vs. stops_at (vs ! j) x)"
  by (auto simp: breaks_def set_conv_nth)

lemma breaks_replace:
  assumes "i < length vs" "\<And>x. stops_at v x \<longleftrightarrow> stops_at (vs ! i) x \<or> x = y"
  shows "breaks (vs[i := v]) = insert y (breaks vs)"
proof (rule set_eqI)
  fix x
  show "x \<in> breaks (vs[i := v]) \<longleftrightarrow> x \<in> insert y (breaks vs)"
  proof -
    have s: "stops_at v x \<longleftrightarrow> stops_at (vs ! i) x \<or> x = y" by (rule assms(2))
    show ?thesis
      unfolding breaks_update [OF assms(1)] s breaks_iff [of x vs] insert_iff
      using assms(1) by (cases "stops_at (vs ! i) x") auto
  qed
qed

section \<open>The invariant\<close>

lemma half_flag_set: "bit v (half_bit up) \<Longrightarrow> bit v 30 \<or> bit v 31"
  by (auto simp: half_bit_def split: if_splits)

lemma fpb_okD:
  assumes "fpb_ok vs" "i < 8"
  shows "length vs = 8" "comp_ok (vs ! i)"
    "j < 8 \<Longrightarrow> vs ! i \<noteq> 0 \<Longrightarrow> vs ! i AND 0x3FFFFFFC = vs ! j AND 0x3FFFFFFC \<Longrightarrow> i = j"
  using assms by (simp_all add: fpb_ok_def)

lemma fpb_ok_update:
  assumes "fpb_ok vs" "i < 8" "comp_ok v" "v \<noteq> 0"
    and "\<And>j. j < 8 \<Longrightarrow> j \<noteq> i \<Longrightarrow> vs ! j AND 0x3FFFFFFC \<noteq> v AND 0x3FFFFFFC"
  shows "fpb_ok (vs[i := v])"
  unfolding fpb_ok_def
proof (intro conjI allI impI)
  show "length (vs[i := v]) = 8" using assms(1) by (simp add: fpb_ok_def)
  fix k :: nat assume k: "k < 8"
  then show "comp_ok (vs[i := v] ! k)" using assms(1-3) fpb_okD [OF assms(1) k] by (simp add: nth_list_update)
  fix j :: nat assume j: "j < 8" and e: "vs[i := v] ! k \<noteq> 0" "vs[i := v] ! k AND 0x3FFFFFFC = vs[i := v] ! j AND 0x3FFFFFFC"
  show "k = j"
    using e k j assms(2) assms(5) [of j] assms(5) [of k] fpb_okD(1) [OF assms(1) k] fpb_okD(3) [OF assms(1) k, of j]
    by (cases "k = i"; cases "j = i") (simp_all add: nth_list_update)
qed

lemma comp_ok_more:
  assumes "bit v 0" "v AND 0x3FFFFFFC = bp_word a" "bp_word a \<noteq> 0"
  shows "comp_ok (v OR (1 OR half_flag up))" "v OR (1 OR half_flag up) \<noteq> 0"
proof -
  let ?v = "v OR (1 OR half_flag up)"
  have b: "bit ?v 0" "?v AND 0x3FFFFFFC = bp_word a" "bit ?v (half_bit up)"
    using assms(2) by (simp_all only: enabled_more simp_thms)
  then show "comp_ok ?v" using assms(3) half_flag_set [OF b(3)] by (simp add: comp_ok_def)
  show "?v \<noteq> 0" using b(1) by (metis bit_0_eq bot_apply bot_bool_def)
qed

section \<open>The instance\<close>

lemma set_cases:
  assumes ok: "fpb_ok (fpb h)" and a: "bp_word a \<noteq> 0"
  shows "fpb_ok (fpb (set_breakpoint f103_bus a h)) \<and>
    breaks (fpb (set_breakpoint f103_bus a h)) =
      (if (\<exists>i<8. fpb h ! i AND 0x3FFFFFFC = bp_word a) \<or> (\<exists>i<8. fpb h ! i = 0)
       then insert (half_word a) (breaks (fpb h)) else breaks (fpb h))"
proof -
  let ?vs = "fpb h" and ?flag = "1 OR half_flag (bit a 1)"
  show ?thesis
  proof (cases "find (\<lambda>i. ?vs ! i AND 0x3FFFFFFC = bp_word a) [0..<8]")
    case (Some i)
    note i = find_index(1) [OF Some]
    then have nz: "?vs ! i \<noteq> 0" using a by auto
    then have b: "bit (?vs ! i) 0" using fpb_okD(2) [OF ok, of i] i by (simp add: comp_ok_def)
    let ?v = "?vs ! i OR ?flag"
    have "fpb_ok (?vs[i := ?v])"
    proof (rule fpb_ok_update [OF ok])
      show "i < 8" using i by blast
      show "comp_ok ?v" "?v \<noteq> 0" using comp_ok_more [OF b _ a] i by blast+
      fix j assume "j < 8" "j \<noteq> i"
      then show "?vs ! j AND 0x3FFFFFFC \<noteq> ?v AND 0x3FFFFFFC"
        using fpb_okD(3) [OF ok, of i j] nz i by (metis enabled_more(1))
    qed
    moreover have "breaks (?vs[i := ?v]) = insert (half_word a) (breaks ?vs)"
      using i stops_enabled [OF b] by (intro breaks_replace) simp_all
    ultimately show ?thesis unfolding fpb_set_breakpoint Some using i by auto
  next
    case None
    have none: "?vs ! j AND 0x3FFFFFFC \<noteq> bp_word a" if "j < 8" for j using find_index(2) [OF None that] .
    show ?thesis
    proof (cases "find (\<lambda>i. ?vs ! i AND 1 = 0) [0..<8]")
      case (Some i)
      note i = find_index(1) [OF Some]
      then have "\<not> bit (?vs ! i) 0" using and_exp_eq_0_iff_not_bit [of "?vs ! i" 0] by simp
      then have z: "?vs ! i = 0" using fpb_okD(2) [OF ok, of i] i by (simp add: comp_ok_def)
      let ?v = "bp_word a OR ?flag"
      have v: "?v AND 0x3FFFFFFC = bp_word a" "bit ?v 0" "bit ?v (half_bit (bit a 1))"
        using bp_word_mask(1) by (simp_all only: enabled_more simp_thms)
      have nz: "?v \<noteq> 0" using v(2) by (metis bit_0_eq bot_apply bot_bool_def)
      have "comp_ok ?v" using v half_flag_set [OF v(3)] a by (simp add: comp_ok_def)
      then have "fpb_ok (?vs[i := ?v])"
        using i none nz v(1) by (intro fpb_ok_update [OF ok]) auto
      moreover have "stops_at ?v x \<longleftrightarrow> stops_at (?vs ! i) x \<or> x = half_word a" for x
        unfolding z stops_new by (cases x) (simp add: stops_at_def)
      then have "breaks (?vs[i := ?v]) = insert (half_word a) (breaks ?vs)"
        using i by (intro breaks_replace) simp_all
      ultimately show ?thesis unfolding fpb_set_breakpoint None Some using i z by auto
    next
      case f: None
      have "?vs ! j \<noteq> 0" if "j < 8" for j using find_index(2) [OF f that] by auto
      then show ?thesis unfolding fpb_set_breakpoint None f using ok none by auto
    qed
  qed
qed

lemma cleared_mask: "cleared a v = 0 \<or> cleared a v AND 0x3FFFFFFC = v AND 0x3FFFFFFC"
  by (simp add: cleared_def Let_def enabled_more)

lemma cleared_ok:
  assumes "comp_ok v"
  shows "comp_ok (cleared a v)"
proof (cases "v AND 0x3FFFFFFC = bp_word a")
  case True
  let ?v = "v AND NOT (half_flag (bit a 1))"
  show ?thesis
  proof (cases "?v AND 0xC0000000 = 0")
    case False
    then have "bit ?v 30 \<or> bit ?v 31" unfolding half_bits_mask by blast
    moreover have "?v = 0 \<or> bit ?v 0 \<and> ?v AND 0x3FFFFFFC \<noteq> 0"
      using assms by (auto simp: comp_ok_def enabled_more)
    ultimately show ?thesis using True False by (auto simp: cleared_def Let_def comp_ok_def)
  qed (use True in \<open>simp add: cleared_def Let_def comp_ok_def\<close>)
qed (use assms in \<open>simp add: cleared_def\<close>)

lemma breaks_cleared:
  assumes "fpb_ok vs"
  shows "breaks (map (cleared a) vs) = breaks vs - {half_word a}"
proof (rule set_eqI)
  fix x
  have "stops_at (cleared a v) x \<longleftrightarrow> stops_at v x \<and> x \<noteq> half_word a" if v: "v \<in> set vs" for v
  proof -
    obtain j where "j < length vs" "vs ! j = v" using v unfolding in_set_conv_nth by blast
    then have "comp_ok v" using assms unfolding fpb_ok_def by metis
    then show ?thesis by (rule stops_cleared)
  qed
  then show "x \<in> breaks (map (cleared a) vs) \<longleftrightarrow> x \<in> breaks vs - {half_word a}"
    unfolding breaks_def set_map by blast
qed

lemma clear_cases:
  assumes ok: "fpb_ok (fpb h)"
  shows "fpb_ok (fpb (clear_breakpoint f103_bus a h)) \<and>
    breaks (fpb (clear_breakpoint f103_bus a h)) = breaks (fpb h) - {half_word a}"
proof -
  let ?vs = "fpb h"
  have "fpb_ok (map (cleared a) ?vs)"
    unfolding fpb_ok_def
  proof (intro conjI allI impI)
    fix i :: nat assume i: "i < 8"
    then show "comp_ok (map (cleared a) ?vs ! i)" using fpb_okD(2) [OF ok i] cleared_ok by simp
    fix j :: nat assume j: "j < 8" and e: "map (cleared a) ?vs ! i \<noteq> 0"
      "map (cleared a) ?vs ! i AND 0x3FFFFFFC = map (cleared a) ?vs ! j AND 0x3FFFFFFC"
    have ci: "cleared a (?vs ! i) \<noteq> 0" "cleared a (?vs ! i) AND 0x3FFFFFFC = cleared a (?vs ! j) AND 0x3FFFFFFC"
      using e i j by simp_all
    have "cleared a (?vs ! i) AND 0x3FFFFFFC \<noteq> 0"
      using cleared_ok [OF fpb_okD(2) [OF ok i], of a] ci(1) by (simp add: comp_ok_def)
    then have "cleared a (?vs ! j) \<noteq> 0" using ci(2) by auto
    then have "?vs ! i AND 0x3FFFFFFC = ?vs ! j AND 0x3FFFFFFC"
      using ci cleared_mask [of a "?vs ! i"] cleared_mask [of a "?vs ! j"] by simp
    moreover have "?vs ! i \<noteq> 0" using ci(1) by (auto simp: cleared_def Let_def split: if_splits)
    ultimately show "i = j" using fpb_okD(3) [OF ok i j] by blast
  qed simp
  moreover have "breaks (map (cleared a) ?vs) = breaks ?vs - {half_word a}"
    by (rule breaks_cleared [OF ok])
  ultimately show ?thesis unfolding fpb_clear_breakpoint by blast
qed

text \<open>The number of words in use is the number of comparators in use.\<close>

lemma breaks_keys:
  assumes "fpb_ok vs"
  shows "fst ` breaks vs = (\<lambda>i. vs ! i AND 0x3FFFFFFC) ` {i. i < 8 \<and> vs ! i \<noteq> 0}"
proof (rule set_eqI)
  fix w
  have "w \<in> fst ` breaks vs \<longleftrightarrow> (\<exists>up. (w, up) \<in> breaks vs)" by force
  also have "\<dots> \<longleftrightarrow> (\<exists>i<8. vs ! i \<noteq> 0 \<and> w = vs ! i AND 0x3FFFFFFC)"
  proof
    assume "\<exists>up. (w, up) \<in> breaks vs"
    then show "\<exists>i<8. vs ! i \<noteq> 0 \<and> w = vs ! i AND 0x3FFFFFFC"
      using assms by (force simp: breaks_iff stops_at_def fpb_ok_def)
  next
    assume "\<exists>i<8. vs ! i \<noteq> 0 \<and> w = vs ! i AND 0x3FFFFFFC"
    then obtain i where i: "i < 8" "vs ! i \<noteq> 0" "w = vs ! i AND 0x3FFFFFFC" by blast
    then have "bit (vs ! i) 0" "bit (vs ! i) (half_bit (bit (vs ! i) 31))"
      using fpb_okD(2) [OF assms i(1)] by (auto simp: comp_ok_def half_bit_def)
    then have "stops_at (vs ! i) (w, bit (vs ! i) 31)" using i(3) by (simp add: stops_at_def)
    then show "\<exists>up. (w, up) \<in> breaks vs" using i(1) assms by (auto simp: breaks_iff fpb_ok_def)
  qed
  finally show "w \<in> fst ` breaks vs \<longleftrightarrow> w \<in> (\<lambda>i. vs ! i AND 0x3FFFFFFC) ` {i. i < 8 \<and> vs ! i \<noteq> 0}"
    by blast
qed

lemma room_iff:
  assumes "fpb_ok vs"
  shows "card (fst ` breaks vs) < 8 \<longleftrightarrow> (\<exists>i<8. vs ! i = 0)"
proof -
  let ?used = "{i. i < 8 \<and> vs ! i \<noteq> 0}"
  have "inj_on (\<lambda>i. vs ! i AND 0x3FFFFFFC) ?used"
    by (rule inj_onI) (use fpb_okD(3) [OF assms] in auto)
  then have c: "card (fst ` breaks vs) = card ?used" unfolding breaks_keys [OF assms] by (rule card_image)
  have sub: "?used \<subseteq> {0..<8}" by auto
  have "card ?used < 8 \<longleftrightarrow> ?used \<noteq> {0..<8}"
  proof
    assume "?used \<noteq> {0..<8}"
    with sub have "?used \<subset> {0..<8}" by (rule psubsetI)
    then show "card ?used < 8" using psubset_card_mono [of "{0..<8}" ?used] by simp
  next
    assume less: "card ?used < 8"
    show "?used \<noteq> {0..<8}"
    proof
      assume "?used = {0..<8}"
      then have "card ?used = card {0..<(8::nat)}" by (rule arg_cong)
      then show False using less by simp
    qed
  qed
  also have "\<dots> \<longleftrightarrow> (\<exists>i<8. vs ! i = 0)"
    unfolding set_eq_iff mem_Collect_eq atLeastLessThan_iff by blast
  finally show ?thesis unfolding c .
qed

lemma used_iff:
  assumes "fpb_ok vs" "bp_word a \<noteq> 0"
  shows "bp_word a \<in> fst ` breaks vs \<longleftrightarrow> (\<exists>i<8. vs ! i AND 0x3FFFFFFC = bp_word a)"
  unfolding breaks_keys [OF assms(1)] using assms(2) by (auto simp: image_iff)

interpretation bps: bounded_set "set_breakpoint f103_bus" "clear_breakpoint f103_bus" half_word
  "\<lambda>h. breaks (fpb h)" "\<lambda>h. fpb_ok (fpb h)" "\<lambda>a. bp_word a \<noteq> 0" fst NUMOFBKPTS
proof
  fix h and a :: u32
  assume ok: "fpb_ok (fpb h)" and a: "bp_word a \<noteq> 0"
  show "fpb_ok (fpb (set_breakpoint f103_bus a h))" "fpb_ok (fpb (clear_breakpoint f103_bus a h))"
    "breaks (fpb (clear_breakpoint f103_bus a h)) = breaks (fpb h) - {half_word a}"
    using set_cases [OF ok a] clear_cases [OF ok] by blast+
  have "fst (half_word a) = bp_word a" by (simp add: half_word_def)
  then show "breaks (fpb (set_breakpoint f103_bus a h)) =
      (if fst (half_word a) \<in> fst ` breaks (fpb h) \<or> card (fst ` breaks (fpb h)) < NUMOFBKPTS
       then insert (half_word a) (breaks (fpb h)) else breaks (fpb h))"
    using set_cases [OF ok a] room_iff [OF ok] used_iff [OF ok a] by (simp add: NUMOFBKPTS_def)
next
  fix h :: f103
  show "finite (breaks (fpb h))"
  proof (rule finite_subset)
    show "breaks (fpb h) \<subseteq> (\<lambda>v. v AND 0x3FFFFFFC) ` set (fpb h) \<times> UNIV"
      by (auto simp: breaks_def stops_at_def)
  qed simp
qed

section \<open>A request\<close>

definition bp_packet :: "bool \<Rightarrow> usb_breakpoint list \<Rightarrow> u8 list" where
  "bp_packet on bps = breakpoint_head (of_bool on) (of_nat (length bps)) @ concat (map breakpoint_bytes bps)"

lemma length_bp_packet: "length (bp_packet on bps) = 4 + 8 * length bps"
proof -
  have "length (concat (map breakpoint_bytes bps)) = 8 * length bps" by (induction bps) simp_all
  then show ?thesis by (simp add: bp_packet_def)
qed

lemma rd32_nth: "rd32 (drop k bs) = rd32 (map (\<lambda>i. bs ! (k + i)) [0..<4])" if "k + 4 \<le> length bs"
  using that by (simp add: rd32_def upt_rec numeral_3_eq_3)

lemma bp_entry:
  "i < length bps \<Longrightarrow> rd32 (drop (8 * i) (concat (map breakpoint_bytes bps))) = ub_address (bps ! i)"
proof (induction bps arbitrary: i)
  case (Cons bp bps)
  show ?case
  proof (cases i)
    case 0
    then show ?thesis by (simp add: breakpoint_bytes_def rd32_le32)
  next
    case (Suc k)
    with Cons show ?thesis by simp
  qed
qed simp

lemma bp_addresses:
  assumes "frames_ok m" "length bps \<le> 7" "i < length bps"
  shows "cmd_u32 (4 + 8 * i) (received (bp_packet on bps) m) = ub_address (bps ! i)"
proof -
  let ?p = "bp_packet on bps" and ?k = "4 + 8 * i"
  have len: "length ?p \<le> 64" "?k + 4 \<le> length ?p" using assms(2,3) by (simp_all add: length_bp_packet)
  have fl: "length (usbCmdFrame (received ?p m)) = 64" using received_ok [OF assms(1) len(1)] by (simp add: frames_ok_def)
  have "cmd_u32 ?k (received ?p m) = rd32 (map (\<lambda>j. usbCmdFrame (received ?p m) ! (?k + j)) [0..<4])"
    unfolding cmd_u32_def using fl len by (intro rd32_nth) simp
  also have "\<dots> = rd32 (map (\<lambda>j. ?p ! (?k + j)) [0..<4])"
    using received_frame(1) [OF assms(1) len(1)] len(2) by (intro arg_cong [where f = rd32] map_cong) auto
  also have "\<dots> = rd32 (drop ?k ?p)" using len(2) by (rule rd32_nth [symmetric])
  also have "drop ?k ?p = drop (8 * i) (concat (map breakpoint_bytes bps))" by (simp add: bp_packet_def)
  finally show ?thesis using bp_entry [OF assms(3)] by simp
qed

lemma fpb_FP_CTRL: "fpb (mmio_set f103_bus FP_CTRL v h) = fpb h"
proof -
  have "4 \<le> unat (FP_COMP i - FP_CTRL) \<and> 4 \<le> unat (FP_CTRL - FP_COMP i)" if "i < 8" for i
  proof -
    have "unat (8 + 4 * of_nat i :: u32) = 8 + 4 * i"
      using unat_add_u32 [of 8 "4 * i"] that by simp
    moreover have "FP_COMP i - FP_CTRL = 8 + 4 * of_nat i" by (simp add: FP_COMP_def FP_CTRL_def)
    moreover have "FP_CTRL - FP_COMP i = 0 - of_nat (8 + 4 * i)" by (simp add: FP_COMP_def FP_CTRL_def)
    ultimately show ?thesis using that unat_minus_nat_wrap [of 0 "8 + 4 * i"] by simp
  qed
  then show ?thesis
    by (simp add: fpb_def NUMOFBKPTS_def mmio_set_def mmio_modify_def mmio_read_def mmio_write_def f103_bus_def
        f103_read_def f103_write_def load_store_other flash_regs FP_CTRL_def in_flash_def status_register_def)
qed

lemma run_bp_packet:
  assumes "frames_ok m" "length bps \<le> 7"
  shows "run_command b (of_nat (length (bp_packet on bps))) (received (bp_packet on bps) m) =
    Inr (4, on_hw (if on then fold (set_breakpoint b) (map ub_address bps) \<circ> mmio_set b FP_CTRL 3
        else fold (clear_breakpoint b) (map ub_address bps))
      (put_ans 0 (breakpoint_head (of_bool on) (of_nat (length bps))) (received (bp_packet on bps) m)))"
proof -
  let ?p = "bp_packet on bps" and ?m = "received (bp_packet on bps) m"
  have len: "length ?p \<le> 64" using assms(2) by (simp add: length_bp_packet)
  have ne: "?p \<noteq> []" using length_bp_packet [of on bps] by force
  have p: "?p ! 0 = 5" "?p ! 1 = of_bool on" "rd16 (drop 2 ?p) = of_nat (length bps)"
    by (simp_all add: bp_packet_def breakpoint_head_def rd16_le16)
  have n: "unat (of_nat (length bps) :: u16) = length bps" using assms(2) by (simp add: unat_of_nat)
  note fr = received_frame [OF assms(1) len]
  have c: "usbCmdFrame ?m ! 0 = 5" "cmd_u8 1 ?m = of_bool on" "cmd_u16 2 ?m = of_nat (length bps)"
    "length (usbCmdFrame ?m) = 64"
    using fr(1) [of 0] fr(1) [of 1] fr(2) p received_ok [OF assms(1) len]
    by (simp_all add: length_bp_packet cmd_u8_def frames_ok_def)
  have hv: "dbgHeadValid 4 (usbCmdFrame ?m) (of_nat (length ?p)) CBreakpoint"
    using head_valid [OF assms(1) len _ ne, of 4 CBreakpoint] p(1) by (simp add: length_bp_packet)
  have as: "map (\<lambda>i. cmd_u32 (4 + 8 * i) ?m) [0..<length bps] = map ub_address bps"
    using bp_addresses [OF assms] by (intro nth_equalityI) simp_all
  have "breakpointCommand b (of_nat (length ?p)) BULK_EP_MAXPACKET ?m =
    Inr (4, on_hw (if on then fold (set_breakpoint b) (map ub_address bps) \<circ> mmio_set b FP_CTRL 3
        else fold (clear_breakpoint b) (map ub_address bps))
      (put_ans 0 (breakpoint_head (of_bool on) (of_nat (length bps))) ?m))"
    using hv assms(2) unfolding breakpointCommand_def c(2,3) n Let_def as
    by (simp add: put_ans_def c(4) on_hw_def)
  then show ?thesis by (simp add: run_command_def c(1))
qed

lemma callback_bp_packet:
  assumes "frames_ok m" "length bps \<le> 7"
  shows "\<exists>m'. usbDataOutCallback b (bp_packet on bps) m =
      Inr (Some (breakpoint_head (of_bool on) (of_nat (length bps))), m') \<and> frames_ok m' \<and>
    hw m' = (if on then fold (set_breakpoint b) (map ub_address bps) (mmio_set b FP_CTRL 3 (hw m))
      else fold (clear_breakpoint b) (map ub_address bps) (hw m))"
proof -
  let ?p = "bp_packet on bps" and ?head = "breakpoint_head (of_bool on) (of_nat (length bps))"
  let ?m = "put_ans 0 ?head (received ?p m)"
  have len: "length ?p \<le> 64" using assms(2) by (simp add: length_bp_packet)
  have ne: "?p \<noteq> []" using length_bp_packet [of on bps] by force
  have ok: "frames_ok ?m" using received_ok [OF assms(1) len] by (rule frames_ok_put_ans) simp
  have "take 4 (usbAnsFrame ?m) = ?head"
    using received_ok [OF assms(1) len] by (simp add: put_ans_def blit_def frames_ok_def)
  then show ?thesis
    unfolding callback_run [OF ne] run_bp_packet [OF assms] using ok
    by (auto simp: on_hw_def put_ans_def received_def frames_ok_def)
qed


lemma fpb_blank: "fpb (power_on\<lparr>f_mem := \<lambda>_. 0\<rparr>) = replicate 8 0"
  by (intro nth_equalityI) (simp_all add: fpb_def NUMOFBKPTS_def load_le_def mem_load_def rd32_def)

lemma blank_comps: "fpb_ok (replicate 8 0)" "breaks (replicate 8 0) = {}"
  by (simp_all add: fpb_ok_def comp_ok_def breaks_def stops_at_def)


end
