(* ===== verification/Probe.thy ===== *)
theory Probe
  imports Usb_Protocol
begin

text \<open>
  \<^verbatim>\<open>GdbServer/Target/TargetSTM32F1.cpp\<close>: the PC's side of the USB protocol. The transport, the
  class \<open>TargetInterface\<close>, is an argument: functions on a state \<open>'d\<close> that write a packet
  (returning the number of bytes sent), read one of at most the given size, and read the
  serial channel; a failed transfer is a count of 0 or an empty packet. \<open>_out\<close> and \<open>_in\<close> are
  buffers of 64 bytes whose contents survive between commands, so an answer that did not
  arrive leaves the previous one in place. Accesses behind the end of a buffer or vector are
  \<open>Inl Crash\<close>; a loop that never ends is \<open>Inl Spinning\<close>.
\<close>

section \<open>State\<close>

record 'd iface =
  if_write :: "u8 list \<Rightarrow> 'd \<Rightarrow> nat \<times> 'd"
  if_read :: "nat \<Rightarrow> 'd \<Rightarrow> u8 list \<times> 'd"
  if_serial :: "nat \<Rightarrow> 'd \<Rightarrow> u8 list \<times> 'd"

record 'd probe =
  p_dev :: 'd
  p_out :: "u8 list"
  p_in :: "u8 list"
  p_fault :: "fault option"

definition maxPacketSize :: nat where "maxPacketSize = 64"

text \<open>The constructor; \<open>new\<close> leaves the buffers as they are, \<open>junk\<close>.\<close>

definition new_probe :: "u8 list \<Rightarrow> u8 list \<Rightarrow> 'd \<Rightarrow> 'd probe" where
  "new_probe junk_out junk_in d = \<lparr>p_dev = d, p_out = junk_out, p_in = junk_in, p_fault = None\<rparr>"

definition put_out :: "nat \<Rightarrow> u8 list \<Rightarrow> 'd probe \<Rightarrow> 'd probe" where
  "put_out k bs p = p\<lparr>p_out := blit k bs (p_out p)\<rparr>"

section \<open>Building requests (\<open>MakeHead\<close>)\<close>

text \<open>The size of the head, and the request in the buffer; 0 when there is nothing to ask for.\<close>

definition mem_cmd :: "debug_command \<Rightarrow> u32 \<Rightarrow> u32 \<Rightarrow> u32 \<Rightarrow> u8 list \<Rightarrow> nat \<times> u8 list" where
  "mem_cmd c address accessSize elementCount buf =
     (if elementCount = 0 \<or> accessSize = 0 then (0, buf)
      else if (accessSize - 1) AND accessSize \<noteq> 0 \<or> accessSize = 0 then (0, buf)
      else
        let required = elementCount * accessSize;
            room = of_nat maxPacketSize - 8;
            byteCount = (if room < required then room else required) AND NOT (accessSize - 1)
        in (8, blit 0 (mem_head c (ucast accessSize) (ucast byteCount) address) buf))"

definition memReadCmd :: "u32 \<Rightarrow> u32 \<Rightarrow> u32 \<Rightarrow> u8 list \<Rightarrow> nat \<times> u8 list" where
  "memReadCmd = mem_cmd CMemoryRead"

definition memWriteCmd :: "u32 \<Rightarrow> u32 \<Rightarrow> u32 \<Rightarrow> u8 list \<Rightarrow> nat \<times> u8 list" where
  "memWriteCmd = mem_cmd CMemoryWrite"

definition reg_count :: "u32 \<Rightarrow> u32" where
  "reg_count regCount =
     (let required = regCount * 4;
          room = of_nat maxPacketSize - 4;
          byteCount = (if room < required then room else required) AND NOT (4 - 1)
      in byteCount div 4)"

definition regsReadCmd :: "u32 \<Rightarrow> u32 \<Rightarrow> u8 list \<Rightarrow> nat \<times> u8 list" where
  "regsReadCmd regIndex regCount buf =
     (if regCount = 0 then (0, buf)
      else (4, blit 0 (reg_head CRegsRead (ucast (reg_count regCount)) (ucast regIndex)) buf))"

text \<open>The register index of a write request is cut to 8 bits.\<close>

definition regsWriteCmd :: "u32 \<Rightarrow> u32 list \<Rightarrow> u8 list \<Rightarrow> nat \<times> u8 list" where
  "regsWriteCmd regIndex regs buf =
     (if regs = [] then (0, buf)
      else (4, blit 0 (reg_head CRegsWrite (ucast (reg_count (of_nat (length regs))))
                  (ucast (ucast regIndex :: u8))) buf))"

definition breakpointSetClearCmd :: "usb_breakpoint list \<Rightarrow> bool \<Rightarrow> u8 list \<Rightarrow> nat \<times> u8 list" where
  "breakpointSetClearCmd bps st buf =
     (let room = (maxPacketSize - 8) div 4;
          n = (if room < length bps then room else length bps)
      in (4, blit 0 (breakpoint_head (if st then 1 else 0) (of_nat n)) buf))"

text \<open>The last two bytes of a reset or halt request are not set.\<close>

definition resetHaltCmd :: "reset_halt_command \<Rightarrow> u8 list \<Rightarrow> nat \<times> u8 list" where
  "resetHaltCmd c buf = (4, blit 0 [command_code CResetHalt, reset_halt_code c] buf)"

definition flashCmdHead :: "flash_command \<Rightarrow> u32 \<Rightarrow> u32 \<Rightarrow> u8 list \<Rightarrow> nat \<times> u8 list" where
  "flashCmdHead c address sz buf = (12, blit 0 (flash_head (flash_code c) address sz) buf)"

definition with_head :: "(u8 list \<Rightarrow> nat \<times> u8 list) \<Rightarrow> 'd probe \<Rightarrow> nat \<times> 'd probe" where
  "with_head f p = (case f (p_out p) of (n, out) \<Rightarrow> (n, p\<lparr>p_out := out\<rparr>))"

section \<open>Exchanging packets\<close>

definition sendAndReceive :: "'d iface \<Rightarrow> nat \<Rightarrow> 'd probe \<Rightarrow> nat \<times> 'd probe" where
  "sendAndReceive ifc sendSize p =
     (case if_write ifc (take sendSize (p_out p)) (p_dev p) of (txSize, d) \<Rightarrow>
        if txSize \<noteq> sendSize then (0, p\<lparr>p_dev := d\<rparr>)
        else case if_read ifc maxPacketSize d of (bs, d) \<Rightarrow>
          (length bs, p\<lparr>p_dev := d, p_in := blit 0 bs (p_in p)\<rparr>))"

text \<open>The tests on the head of the answer, with the bytes compared.\<close>

definition same_command :: "'d probe \<Rightarrow> bool" where
  "same_command p \<longleftrightarrow> p_out p ! 0 = p_in p ! 0"

definition same_second :: "'d probe \<Rightarrow> bool" where
  "same_second p \<longleftrightarrow> p_out p ! 1 = p_in p ! 1"

definition same_address :: "'d probe \<Rightarrow> bool" where
  "same_address p \<longleftrightarrow> rd32 (drop 4 (p_out p)) = rd32 (drop 4 (p_in p))"

definition in_u16 :: "'d probe \<Rightarrow> nat" where
  "in_u16 p = unat (rd16 (drop 2 (p_in p)))"

definition out_u16 :: "'d probe \<Rightarrow> nat" where
  "out_u16 p = unat (rd16 (drop 2 (p_out p)))"

definition attachDetach :: "'d iface \<Rightarrow> attach_command \<Rightarrow> 'd probe \<Rightarrow> bool \<times> 'd probe" where
  "attachDetach ifc c p =
     (case sendAndReceive ifc 4 (put_out 0 [command_code CAttach, attach_code c] p) of (rxSize, p) \<Rightarrow>
        if rxSize < 4 \<or> \<not> same_command p \<or> \<not> same_second p then (False, p)
        else (p_in p ! 2 \<noteq> 0, p))"

text \<open>Reading memory; the vector that is returned ends where the answers end.\<close>

function memRead_loop ::
    "'d iface \<Rightarrow> u32 \<Rightarrow> u32 \<Rightarrow> nat \<Rightarrow> u8 list \<Rightarrow> 'd probe \<Rightarrow> (u8 list \<times> 'd probe) result" where
  "memRead_loop ifc address accessSize offset data p =
     (if \<not> offset < length data then Inr (data, p)
      else
        let remain = length data - offset;
            (head, p) = with_head (memReadCmd (address + of_nat offset) accessSize
                                     (of_nat remain div accessSize)) p
        in if head = 0 then Inr (take offset data, p)
           else
             let (rxSize, p) = sendAndReceive ifc head p
             in if rxSize < 8 \<or> \<not> same_command p \<or> \<not> same_address p \<or> \<not> same_second p \<or> in_u16 p = 0
                then Inr (take offset data, p)
                else
                  let readCount = (if in_u16 p < remain then in_u16 p else remain)
                  in if 8 + readCount > length (p_in p) then Inl Crash
                     else memRead_loop ifc address accessSize (offset + in_u16 p)
                            (blit offset (take readCount (drop 8 (p_in p))) data) p)"
  by pat_completeness auto
termination
  by (relation "measure (\<lambda>(ifc, a, z, offset, data, p). length data - offset)")
    (auto simp: length_blit)

declare memRead_loop.simps [simp del]

definition memRead :: "'d iface \<Rightarrow> u32 \<Rightarrow> u32 \<Rightarrow> u32 \<Rightarrow> 'd probe \<Rightarrow> (u8 list \<times> 'd probe) result" where
  "memRead ifc address accessSize elementCount p =
     (if accessSize = 0 \<or> elementCount = 0 then Inr ([], p)
      else memRead_loop ifc address accessSize 0 (replicate (unat (elementCount * accessSize)) 0) p)"

text \<open>Writing memory: whether an answer arrived at all is not checked.\<close>

function memWrite_loop ::
    "'d iface \<Rightarrow> u32 \<Rightarrow> u32 \<Rightarrow> nat \<Rightarrow> u8 list \<Rightarrow> 'd probe \<Rightarrow> (nat \<times> 'd probe) result" where
  "memWrite_loop ifc address accessSize offset data p =
     (if \<not> offset < length data then Inr (offset, p)
      else
        let remain = length data - offset;
            (head, p) = with_head (memWriteCmd (address + of_nat offset) accessSize
                                     (of_nat remain div accessSize)) p
        in if head = 0 then Inr (offset, p)
           else if offset + out_u16 p > length data \<or> head + out_u16 p > length (p_out p) then Inl Crash
           else
             let p = put_out head (take (out_u16 p) (drop offset data)) p;
                 (rxSize, p) = sendAndReceive ifc (head + out_u16 p) p
             in if \<not> same_command p \<or> \<not> same_address p \<or> \<not> same_second p \<or> in_u16 p = 0 \<or>
                   in_u16 p > out_u16 p
                then Inr (offset, p)
                else memWrite_loop ifc address accessSize (offset + in_u16 p) data p)"
  by pat_completeness auto
termination
  by (relation "measure (\<lambda>(ifc, a, z, offset, data, p). length data - offset)") auto

declare memWrite_loop.simps [simp del]

definition memWrite :: "'d iface \<Rightarrow> u32 \<Rightarrow> u32 \<Rightarrow> u8 list \<Rightarrow> 'd probe \<Rightarrow> (nat \<times> 'd probe) result" where
  "memWrite ifc address accessSize data p =
     (if data = [] then Inr (0, p) else memWrite_loop ifc address accessSize 0 data p)"

text \<open>
  Reading registers. Each answer is copied to the start of the vector, and an answer without
  registers makes the loop ask again: it may never end.
\<close>

definition words_of :: "u8 list \<Rightarrow> u32 list" where
  "words_of bs = map (\<lambda>i. rd32 (drop (4 * i) bs)) [0..<length bs div 4]"

partial_function (option) regsRead_loop ::
    "'d iface \<Rightarrow> u16 \<Rightarrow> nat \<Rightarrow> u8 list \<Rightarrow> 'd probe \<Rightarrow> (u8 list \<times> 'd probe) option" where
  "regsRead_loop ifc regIndex offset data p =
     (if \<not> offset < length data then Some (data, p)
      else
        let remain = length data - offset;
            (head, p) = with_head (regsReadCmd (of_nat (offset div 4) + ucast regIndex)
                                     (of_nat (remain div 4))) p;
            (rxSize, p) = sendAndReceive ifc head p
        in if rxSize < 4 \<or> \<not> same_command p \<or> out_u16 p \<noteq> in_u16 p \<or> p_out p ! 1 < p_in p ! 1
           then Some (take offset data, p)
           else
             let n = 4 * unat (p_in p ! 1)
             in regsRead_loop ifc regIndex (offset + n) (blit 0 (take n (drop 4 (p_in p))) data) p)"

definition regsRead :: "'d iface \<Rightarrow> u16 \<Rightarrow> u16 \<Rightarrow> 'd probe \<Rightarrow> (u32 list \<times> 'd probe) result" where
  "regsRead ifc regIndex regCount p =
     (if regCount = 0 then Inr ([], p)
      else case regsRead_loop ifc regIndex 0 (replicate (4 * unat regCount) 0) p of
             None \<Rightarrow> Inl Spinning
           | Some (data, p) \<Rightarrow> Inr (words_of data, p))"

text \<open>Writing registers: each request announces as many registers as there are in all.\<close>

function regsWrite_loop ::
    "'d iface \<Rightarrow> u16 \<Rightarrow> nat \<Rightarrow> u32 list \<Rightarrow> 'd probe \<Rightarrow> (nat \<times> 'd probe) result" where
  "regsWrite_loop ifc regIndex offset regs p =
     (if \<not> offset < 4 * length regs then Inr (offset div 4, p)
      else
        let (head, p) = with_head (regsWriteCmd (of_nat (offset div 4) + ucast regIndex) regs) p;
            n = 4 * unat (p_out p ! 1)
        in if offset + n > 4 * length regs \<or> head + n > length (p_out p) then Inl Crash
           else
             let p = put_out head (take n (drop offset (concat (map le32 regs)))) p;
                 (rxSize, p) = sendAndReceive ifc (head + n) p
             in if rxSize < 4 \<or> \<not> same_command p \<or> out_u16 p \<noteq> in_u16 p \<or> p_in p ! 1 = 0 \<or>
                   p_out p ! 1 < p_in p ! 1
                then Inr (offset div 4, p)
                else regsWrite_loop ifc regIndex (offset + 4 * unat (p_in p ! 1)) regs p)"
  by pat_completeness auto
termination
proof (relation "measure (\<lambda>(ifc, r, offset, regs, p). 4 * length regs - offset)", goal_cases)
  case 1
  then show ?case by simp
next
  case (2 ifc regIndex offset regs p x head q n q' y rxSize r)
  then have "p_in r ! 1 \<noteq> 0" "offset < 4 * length regs" by auto
  then have "0 < unat (p_in r ! 1)" by (simp add: unat_gt_0)
  with \<open>offset < 4 * length regs\<close> show ?case by simp
qed

declare regsWrite_loop.simps [simp del]

definition regsWrite :: "'d iface \<Rightarrow> u16 \<Rightarrow> u32 list \<Rightarrow> 'd probe \<Rightarrow> (nat \<times> 'd probe) result" where
  "regsWrite ifc regIndex regs p =
     (if regs = [] then Inr (0, p) else regsWrite_loop ifc regIndex 0 regs p)"

text \<open>
  Breakpoints. The end of the copy is \<open>8 * count\<close> elements of 8 bytes behind its start, so
  64 bytes per breakpoint go into the buffer behind the head. The vector has room for
  \<open>capacity\<close> elements.
\<close>

partial_function (option) breakpoints_loop ::
    "'d iface \<Rightarrow> nat \<Rightarrow> bool \<Rightarrow> nat \<Rightarrow> usb_breakpoint list \<Rightarrow> 'd probe \<Rightarrow> (nat \<times> 'd probe) result option" where
  "breakpoints_loop ifc capacity st i bps p =
     (if \<not> i < length bps then Some (Inr (i, p))
      else
        let (head, p) = with_head (breakpointSetClearCmd bps st) p;
            n = 8 * out_u16 p;
            bytes = concat (map breakpoint_bytes (take n (drop i bps)))
        in if i + n > capacity \<or> head + 8 * n > length (p_out p) then Some (Inl Crash)
           else
             let p = put_out head bytes p;
                 (rxSize, p) = sendAndReceive ifc (head + n) p
             in if rxSize < 4 \<or> \<not> same_command p \<or> \<not> same_second p then Some (Inr (i, p))
                else breakpoints_loop ifc capacity st (i + in_u16 p) bps p)"

definition breakpointsSetClear ::
    "'d iface \<Rightarrow> nat \<Rightarrow> usb_breakpoint list \<Rightarrow> bool \<Rightarrow> 'd probe \<Rightarrow> (nat \<times> 'd probe) result" where
  "breakpointsSetClear ifc capacity bps st p =
     (case breakpoints_loop ifc capacity st 0 bps p of None \<Rightarrow> Inl Spinning | Some r \<Rightarrow> r)"

text \<open>The state of the core as the number the probe sent, 7 (\<open>Undefined\<close>) when it did not answer.\<close>

definition resetHaltResume :: "'d iface \<Rightarrow> reset_halt_command \<Rightarrow> 'd probe \<Rightarrow> u8 \<times> 'd probe" where
  "resetHaltResume ifc c p =
     (let (head, p) = with_head (resetHaltCmd c) p;
          (rxSize, p) = sendAndReceive ifc head p
      in if rxSize < 4 \<or> \<not> same_command p \<or> \<not> same_second p
         then (state_code HS_Undefined, p) else (p_in p ! 2, p))"

definition flashCmd :: "'d iface \<Rightarrow> flash_command \<Rightarrow> u32 \<Rightarrow> u32 \<Rightarrow> 'd probe \<Rightarrow> bool \<times> 'd probe" where
  "flashCmd ifc c address blockSizeBytes p =
     (let (head, p) = with_head (flashCmdHead c address blockSizeBytes) p;
          (rxSize, p) = sendAndReceive ifc head p
      in if rxSize < 4 \<or> \<not> same_command p \<or> \<not> same_second p then (False, p)
         else (p_in p ! 2 \<noteq> 0, p))"

definition getSerialData :: "'d iface \<Rightarrow> 'd probe \<Rightarrow> u8 list \<times> 'd probe" where
  "getSerialData ifc p =
     (case if_serial ifc maxPacketSize (p_dev p) of (bs, d) \<Rightarrow> (bs, p\<lparr>p_dev := d\<rparr>))"

section \<open>One exchange\<close>

text \<open>A packet is sent as a whole, and \<open>ans\<close> is what is read next.\<close>

definition exchanges :: "'d iface \<Rightarrow> u8 list \<Rightarrow> 'd \<Rightarrow> u8 list \<Rightarrow> 'd \<Rightarrow> bool" where
  "exchanges ifc pkt d ans d' \<longleftrightarrow>
     (\<exists>e. if_write ifc pkt d = (length pkt, e) \<and> if_read ifc maxPacketSize e = (ans, d'))"

lemma send_receive:
  assumes "exchanges ifc (take n (p_out p)) (p_dev p) ans d'" "n \<le> length (p_out p)"
  shows "sendAndReceive ifc n p = (length ans, p\<lparr>p_dev := d', p_in := blit 0 ans (p_in p)\<rparr>)"
  using assms by (auto simp: sendAndReceive_def exchanges_def)

end
