(* ===== verification/Cable.thy ===== *)
theory Cable
  imports Probe Monitor
begin

text \<open>
  The USB cable between the server and the firmware, as a device for \<open>Probe\<close>: a packet that is
  written runs \<open>usbDataOutCallback\<close>, and its answer is what is read next. A firmware that
  hangs takes no further packets. The controllers and drivers in between (WinUSB, the USB
  peripheral and libopencm3's stack) are taken to deliver packets in order; for the side of the
  device, \<open>Usb_Exchange\<close> shows it.
\<close>

section \<open>The connection\<close>

record 'h link =
  l_mon :: "'h monitor"
  l_ans :: "u8 list"
  l_hung :: bool

definition link_write :: "'h bus \<Rightarrow> u8 list \<Rightarrow> 'h link \<Rightarrow> nat \<times> 'h link" where
  "link_write b packet d =
     (if l_hung d then (0, d)
      else case usbDataOutCallback b packet (l_mon d) of
             Inl e \<Rightarrow> (length packet, d\<lparr>l_hung := True\<rparr>)
           | Inr (None, m) \<Rightarrow> (length packet, d\<lparr>l_mon := m\<rparr>)
           | Inr (Some ans, m) \<Rightarrow> (length packet, d\<lparr>l_mon := m, l_ans := ans\<rparr>))"

definition link_read :: "nat \<Rightarrow> 'h link \<Rightarrow> u8 list \<times> 'h link" where
  "link_read n d = (take n (l_ans d), d\<lparr>l_ans := []\<rparr>)"

definition link_iface :: "'h bus \<Rightarrow> 'h link iface" where
  "link_iface b = \<lparr>if_write = link_write b, if_read = link_read, if_serial = \<lambda>n d. ([], d)\<rparr>"

definition plugged :: "'h monitor \<Rightarrow> 'h link" where
  "plugged m = \<lparr>l_mon = m, l_ans = [], l_hung = False\<rparr>"

lemma exchange_answer:
  assumes "\<not> l_hung d" "usbDataOutCallback b packet (l_mon d) = Inr (Some ans, m)" "length ans \<le> 64"
  shows "exchanges (link_iface b) packet d ans (d\<lparr>l_mon := m, l_ans := []\<rparr>)"
  using assms by (simp add: exchanges_def link_iface_def link_write_def link_read_def maxPacketSize_def)

end
