(* ===== verification/Registers.thy ===== *)
theory Registers
  imports Cable Monitor_Total
begin

text \<open>
  The saved registers of the debugged program, from the server's side: the requests of
  \<open>Probe\<close> and the answers of \<open>Monitor\<close> put together over the cable, with any memory behind the
  bus. Up to 15 registers fit into one packet.
\<close>

section \<open>Registers as bytes\<close>

definition reg_bytes :: "u32 list \<Rightarrow> u8 list" where
  "reg_bytes ws = concat (map le32 ws)"

lemma length_reg_bytes [simp]: "length (reg_bytes ws) = 4 * length ws"
  by (simp add: reg_bytes_def length_concat_le32)

lemma reg_bytes_entry: "i < length ws \<Longrightarrow> rd32 (drop (4 * i) (reg_bytes ws @ bs)) = ws ! i"
proof (induction ws arbitrary: i)
  case (Cons w ws)
  show ?case
  proof (cases i)
    case 0
    then show ?thesis by (simp add: reg_bytes_def rd32_le32)
  next
    case (Suc k)
    with Cons show ?thesis by (simp add: reg_bytes_def)
  qed
qed simp

lemma words_of_reg_bytes: "words_of (reg_bytes ws) = ws"
  using reg_bytes_entry [of _ ws "[]"] by (intro nth_equalityI) (simp_all add: words_of_def)

lemma reg_bytes_append: "reg_bytes (xs @ ys) = reg_bytes xs @ reg_bytes ys"
  by (simp add: reg_bytes_def)

section \<open>The firmware's answers\<close>

lemma unat_small:
  "n \<le> 64 \<Longrightarrow> unat (of_nat n :: u8) = n" "n \<le> 64 \<Longrightarrow> unat (of_nat n :: u16) = n"
  "n \<le> 64 \<Longrightarrow> unat (of_nat n :: u32) = n"
  by (simp_all add: unat_of_nat)

lemma ucast_small:
  "n \<le> 64 \<Longrightarrow> ucast (of_nat n :: u8) = (of_nat n :: u32)" "n \<le> 64 \<Longrightarrow> ucast (of_nat n :: u16) = (of_nat n :: u32)"
  "n \<le> 64 \<Longrightarrow> ucast (of_nat n :: u32) = (of_nat n :: u8)" "n \<le> 64 \<Longrightarrow> ucast (of_nat n :: u32) = (of_nat n :: u16)"
  using unat_small [of n] by (simp_all add: word_unat_eq_iff unsigned_ucast_eq take_bit_nat_eq_self)

lemma times4: "of_nat n * 4 = (of_nat (4 * n) :: u32)"
  by simp

text \<open>The size of the payload for \<open>n\<close> registers, from a request or for a request.\<close>

lemma payload_regs:
  assumes "n \<le> 15" "4 * n + 4 \<le> k" "k \<le> 64"
  shows "payloadSize 4 (of_nat k) (ucast (of_nat n :: u8) * 4) 4 = of_nat (4 * n)"
proof -
  have n: "n \<le> 64" using assms(1) by simp
  have u: "unat (of_nat (4 * n) :: u32) = 4 * n" "unat (of_nat k :: u32) = k" "unat (of_nat (k - 4) :: u32) = k - 4"
    using assms by (intro unat_small; simp)+
  have room: "(of_nat k - 4 :: u32) = of_nat (k - 4)" using assms(2) by (simp add: of_nat_diff)
  have "\<not> of_nat (k - 4) < (of_nat (4 * n) :: u32)"
    unfolding word_less_nat_alt u using assms(2) by simp
  then have "(if of_nat (k - 4) < (of_nat (4 * n) :: u32) then of_nat (k - 4) else of_nat (4 * n)) = (of_nat (4 * n) :: u32)"
    by (rule if_not_P)
  moreover have "of_nat (4 * n) AND NOT (4 - 1 :: u32) = of_nat (4 * n)"
    using and_not_align [of 4 "of_nat (4 * n) :: u32"] u(1) by (simp del: of_nat_mult)
  moreover have "\<not> 4 > (of_nat k :: u32)" using assms(2) u(2) by (simp add: word_less_nat_alt)
  ultimately show ?thesis
    unfolding payloadSize_def ucast_small(1) [OF n] times4 room Let_def by (simp add: getValidatedAlign_def del: of_nat_mult)
qed

lemma regs_in_range_fit:
  assumes "r + n \<le> 18" "r \<le> 17"
  shows "regs_in_range (of_nat r) (of_nat (4 * n) div 4) = of_nat n"
proof -
  have u: "unat (of_nat n :: u32) = n" "unat (of_nat (18 - r) :: u32) = 18 - r"
    using assms by (intro unat_small; simp)+
  have u4: "unat (of_nat (4 * n) :: u32) = 4 * n" using assms(1) by (intro unat_of_nat_u32) simp
  have "unat (of_nat (4 * n) div 4 :: u32) = n" using u4 by (simp add: unat_div_distrib del: of_nat_mult)
  then have d: "of_nat (4 * n) div 4 = (of_nat n :: u32)" by (simp only: word_unat_eq_iff u(1))
  have "(17 - of_nat r + 1 :: u32) = of_nat (18 - r)" using assms(2) by (simp add: of_nat_diff)
  moreover have "of_nat n < (of_nat (18 - r) :: u32) \<or> n = 18 - r"
    unfolding word_less_nat_alt u using assms(1) by linarith
  ultimately show ?thesis unfolding regs_in_range_def d Let_def by auto
qed

lemma reg_request:
  fixes c :: debug_command
  assumes "frames_ok m" "r \<le> 17" "length bs \<le> 60" "n \<le> 15"
  defines "m' \<equiv> received (reg_head c (of_nat n) (of_nat r) @ bs) m"
  shows "usbCmdFrame m' ! 0 = command_code c" "cmd_u8 1 m' = of_nat n" "cmd_u16 2 m' = of_nat r"
    "\<And>k. k + 4 \<le> length bs \<Longrightarrow> cmd_u32 (4 + k) m' = rd32 (drop k bs)"
    "dbgHeadValid 4 (usbCmdFrame m') (of_nat (4 + length bs)) c" "frames_ok m'"
    "context_data m' = context_data m" "length (usbAnsFrame m') = 64"
proof -
  let ?head = "reg_head c (of_nat n) (of_nat r)" and ?p = "reg_head c (of_nat n) (of_nat r) @ bs"
  have len: "length ?p \<le> 64" using assms(3) by simp
  have f: "usbCmdFrame m' = ?p @ drop (length ?p) (usbCmdFrame m)"
    using assms(1) len by (simp add: m'_def received_def blit_front frames_ok_def)
  show "usbCmdFrame m' ! 0 = command_code c" "cmd_u8 1 m' = of_nat n" "cmd_u16 2 m' = of_nat r"
    using f by (simp_all add: cmd_u8_def cmd_u16_def le_simps)
  show "cmd_u32 (4 + k) m' = rd32 (drop k bs)" if "k + 4 \<le> length bs" for k
    using that f by (simp add: cmd_u32_def rd32_def nth_append)
  show "dbgHeadValid 4 (usbCmdFrame m') (of_nat (4 + length bs)) c"
    using head_valid [OF assms(1) len, of 4 c] by (simp add: m'_def le_simps reg_head_def)
  show ok: "frames_ok m'" using received_ok [OF assms(1) len] by (simp add: m'_def)
  then show "length (usbAnsFrame m') = 64" by (simp add: frames_ok_def)
  show "context_data m' = context_data m" by (simp add: m'_def received_def)
qed


lemma reads_take: "map (\<lambda>i. xs ! (i + r)) [0..<n] = take n (drop r xs)" if "r + n \<le> length xs"
  using that by (intro nth_equalityI) (simp_all add: ac_simps)

lemma answer_frame:
  "length (usbAnsFrame m) = 64 \<Longrightarrow> length bs + length cs \<le> 64 \<Longrightarrow>
   usbAnsFrame (put_ans 0 bs (put_ans (length bs) cs m)) = bs @ cs @ drop (length bs + length cs) (usbAnsFrame m)"
  by (simp add: put_ans_def blit_def)

lemma regsRead_packet:
  assumes "frames_ok m" "n \<le> 15" "r \<le> 17" "r + n \<le> 18"
  shows "\<exists>m'. usbDataOutCallback b (reg_head CRegsRead (of_nat n) (of_nat r)) m =
      Inr (Some (reg_head CRegsRead (of_nat n) (of_nat r) @ reg_bytes (take n (drop r (context_data m)))), m') \<and>
    frames_ok m' \<and> context_data m' = context_data m"
proof -
  let ?head = "reg_head CRegsRead (of_nat n) (of_nat r)" and ?ws = "take n (drop r (context_data m))"
  let ?m = "received ?head m"
  have n: "n \<le> 64" "r \<le> 64" using assms by simp_all
  note q = reg_request [OF assms(1,3) _ assms(2), where bs = "[]" and c = CRegsRead, unfolded append_Nil2 list.size(3) add_0_right, OF zero_le]
  have pay: "payloadSize 4 BULK_EP_MAXPACKET (ucast (cmd_u8 1 ?m) * 4) 4 = of_nat (4 * n)"
    using payload_regs [OF assms(2), of 64] assms(2) unfolding q(2) by (simp add: BULK_EP_MAXPACKET_def)
  have r: "ucast (cmd_u16 2 ?m) = (of_nat r :: u32)" "unat (of_nat r :: u32) = r" "\<not> (of_nat r :: u32) > 17"
    using ucast_small(2) [OF n(2)] unat_small(3) [OF n(2)] assms(3) unfolding q(3) by (simp_all add: word_less_nat_alt)
  have room: "r + n \<le> length (context_data m)" using assms(1,4) by (simp add: frames_ok_def)
  have ws: "length ?ws = n" using room by simp
  let ?m' = "put_ans 0 ?head (put_ans 4 (reg_bytes ?ws) ?m)"
  have run: "regsReadCommand b 4 BULK_EP_MAXPACKET ?m = Inr (4 + of_nat (4 * n), ?m')"
    using q(5) r(3) unfolding regsReadCommand_def pay r(1) Let_def regs_in_range_fit [OF assms(4,3)] unat_small(3) [OF n(1)]
      r(2) q(7) reads_take [OF room] ucast_small(3) [OF n(1)] ucast_small(4) [OF n(2)] reg_bytes_def by simp
  have a: "usbAnsFrame ?m' = ?head @ reg_bytes ?ws @ drop (4 + 4 * n) (usbAnsFrame ?m)"
    using answer_frame [of ?m ?head "reg_bytes ?ws"] q(8) assms(2) ws by simp
  have size: "unat (4 + of_nat (4 * n) :: u32) = 4 + 4 * n" "4 + of_nat (4 * n) \<noteq> (0 :: u32)"
    using unat_small(3) [of "4 + 4 * n"] assms(2) by (auto simp: unat_0_iff [symmetric])
  have "length (usbAnsFrame ?m') = 64" using q(8) a assms(2) ws by simp
  then have "frames_ok ?m'" using q(6) by (simp add: frames_ok_def put_ans_def)
  moreover have "context_data ?m' = context_data m" using q(7) by (simp add: put_ans_def)
  moreover have "?head \<noteq> []" by (simp add: reg_head_def)
  ultimately show ?thesis
    using callback_run [of ?head b m] run size q(1) a ws by (auto simp: run_command_def)
qed

lemma regsWrite_packet:
  assumes "frames_ok m" "0 < length ws" "length ws \<le> 15" "r \<le> 17" "r + length ws \<le> 18"
  shows "\<exists>m'. usbDataOutCallback b (reg_head CRegsWrite (of_nat (length ws)) (of_nat r) @ reg_bytes ws) m =
      Inr (Some (reg_head CRegsWrite (of_nat (length ws)) (of_nat r)), m') \<and>
    frames_ok m' \<and> context_data m' = blit r ws (context_data m)"
proof -
  let ?n = "length ws" and ?head = "reg_head CRegsWrite (of_nat (length ws)) (of_nat r)"
  let ?m = "received (?head @ reg_bytes ws) m"
  have n: "?n \<le> 64" "r \<le> 64" "length (reg_bytes ws) \<le> 60" using assms by simp_all
  note q = reg_request [OF assms(1,4) n(3) assms(3), where c = CRegsWrite]
  have pay: "payloadSize 4 (of_nat (4 + length (reg_bytes ws))) (ucast (cmd_u8 1 ?m) * 4) 4 = of_nat (4 * ?n)"
    using payload_regs [OF assms(3), of "4 + 4 * ?n"] assms(3) unfolding q(2) by simp
  have r: "ucast (cmd_u16 2 ?m) = (of_nat r :: u32)" "unat (of_nat r :: u32) = r" "\<not> (of_nat r :: u32) > 17"
    using ucast_small(2) [OF n(2)] unat_small(3) [OF n(2)] assms(4) unfolding q(3) by (simp_all add: word_less_nat_alt)
  have ws: "map (\<lambda>i. cmd_u32 (4 + 4 * i) ?m) [0..<?n] = ws"
    using q(4) [of "4 * _"] reg_bytes_entry [of _ ws "[]"] by (intro nth_equalityI) simp_all
  let ?m' = "put_ans 0 ?head (?m\<lparr>context_data := blit r ws (context_data m)\<rparr>)"
  have run: "regsWriteCommand b (of_nat (4 + length (reg_bytes ws))) BULK_EP_MAXPACKET ?m = Inr (4, ?m')"
    using q(5) r(3) unfolding regsWriteCommand_def pay r(1) Let_def regs_in_range_fit [OF assms(5,4)] unat_small(3) [OF n(1)]
      r(2) q(7) ws ucast_small(3) [OF n(1)] ucast_small(4) [OF n(2)] by simp
  have a: "usbAnsFrame ?m' = ?head @ drop 4 (usbAnsFrame ?m)"
    using q(8) by (simp add: put_ans_def blit_front)
  have "frames_ok ?m'" using q(6-8) a assms(5) by (simp add: frames_ok_def put_ans_def length_blit)
  moreover have "context_data ?m' = blit r ws (context_data m)" by (simp add: put_ans_def)
  moreover have "?head @ reg_bytes ws \<noteq> []" by (simp add: reg_head_def)
  ultimately show ?thesis
    using callback_run [of "?head @ reg_bytes ws" b m] run q(1) a by (auto simp: run_command_def)
qed


section \<open>The driver's loops\<close>

definition plugged_in :: "'h link probe \<Rightarrow> bool" where
  "plugged_in p \<longleftrightarrow> p_fault p = None \<and> length (p_out p) = 64 \<and> length (p_in p) = 64 \<and>
     \<not> l_hung (p_dev p) \<and> frames_ok (l_mon (p_dev p))"

abbreviation saved_regs :: "'h link probe \<Rightarrow> u32 list" where
  "saved_regs p \<equiv> context_data (l_mon (p_dev p))"

lemma reg_count_small:
  assumes "n \<le> 18"
  shows "ucast (reg_count (of_nat n)) = (of_nat (min 15 n) :: u8)"
proof -
  let ?k = "min 15 n"
  have u: "unat (of_nat (4 * ?k) :: u32) = 4 * ?k" "unat (of_nat (4 * n) :: u32) = 4 * n"
    using assms by (intro unat_of_nat_u32; simp)+
  have "(if 60 < (of_nat (4 * n) :: u32) then 60 else of_nat (4 * n)) = (of_nat (4 * ?k) :: u32)"
    using u(2) by (auto simp: word_less_nat_alt min_def simp del: of_nat_mult)
  moreover have "of_nat (4 * ?k) AND NOT (4 - 1 :: u32) = of_nat (4 * ?k)"
    using and_not_align [of 4 "of_nat (4 * ?k) :: u32"] u(1) by (simp del: of_nat_mult)
  moreover have "of_nat (4 * ?k) div 4 = (of_nat ?k :: u32)"
    using u(1) unat_small(3) [of ?k] by (simp add: word_unat_eq_iff unat_div_distrib del: of_nat_mult)
  moreover have "of_nat maxPacketSize - 4 = (60 :: u32)" by (simp add: maxPacketSize_def)
  ultimately have "reg_count (of_nat n) = of_nat ?k"
    unfolding reg_count_def times4 Let_def by (simp only:)
  then show ?thesis by (simp add: ucast_of_nat_u32_u8)
qed

lemma plugged_in_exchange:
  assumes "plugged_in p" "usbDataOutCallback b packet (l_mon (p_dev p)) = Inr (Some ans, m)" "frames_ok m"
    and "take k (p_out p) = packet" "k \<le> 64" "length ans \<le> 64"
  defines "p' \<equiv> p\<lparr>p_dev := p_dev p\<lparr>l_mon := m, l_ans := []\<rparr>, p_in := blit 0 ans (p_in p)\<rparr>"
  shows "sendAndReceive (link_iface b) k p = (length ans, p')" "plugged_in p'"
    "p_in p' = ans @ drop (length ans) (p_in p)" "p_out p' = p_out p" "saved_regs p' = context_data m"
proof -
  have "exchanges (link_iface b) (take k (p_out p)) (p_dev p) ans (p_dev p\<lparr>l_mon := m, l_ans := []\<rparr>)"
    unfolding assms(4) using assms(1,2,6) by (intro exchange_answer) (simp_all add: plugged_in_def)
  then show "sendAndReceive (link_iface b) k p = (length ans, p')"
    using assms(1,5) unfolding p'_def by (intro send_receive) (simp_all add: plugged_in_def)
  show "p_in p' = ans @ drop (length ans) (p_in p)" "p_out p' = p_out p" "saved_regs p' = context_data m"
    using assms(1,6) by (simp_all add: p'_def plugged_in_def blit_front)
  then show "plugged_in p'" using assms(1,3,6) by (simp add: p'_def plugged_in_def)
qed

text \<open>One request for what is left, and its answer, which goes to the start of the vector.\<close>

lemma regsRead_step:
  assumes p: "plugged_in p" and i: "i < n" and n: "r + n \<le> 18" and len: "length data = 4 * n"
  defines "k \<equiv> min 15 (n - i)"
  shows "\<exists>p'. regsRead_loop (link_iface b) (of_nat r) (4 * i) data p =
      regsRead_loop (link_iface b) (of_nat r) (4 * (i + k)) (blit 0 (reg_bytes (take k (drop (r + i) (saved_regs p)))) data) p' \<and>
    plugged_in p' \<and> saved_regs p' = saved_regs p"
proof -
  let ?head = "reg_head CRegsRead (of_nat k) (of_nat (r + i))" and ?ws = "take k (drop (r + i) (saved_regs p))"
  let ?ans = "?head @ reg_bytes ?ws"
  have k: "0 < k" "k \<le> 15" "r + i + k \<le> 18" "r + i \<le> 17" using i n by (auto simp: k_def)
  have fr: "frames_ok (l_mon (p_dev p))" and out: "length (p_out p) = 64" using p by (simp_all add: plugged_in_def)
  have ws: "length ?ws = k" using fr k(3) by (simp add: frames_ok_def)
  obtain m where m: "usbDataOutCallback b ?head (l_mon (p_dev p)) = Inr (Some ?ans, m)" "frames_ok m"
    "context_data m = saved_regs p"
    using regsRead_packet [OF fr k(2,4,3), of b] by blast
  let ?p1 = "p\<lparr>p_out := blit 0 ?head (p_out p)\<rparr>"
  have p1: "plugged_in ?p1" "take 4 (p_out ?p1) = ?head" "p_dev ?p1 = p_dev p"
    using p by (simp_all add: plugged_in_def blit_front)
  have sz: "(4::nat) \<le> 64" "length ?ans \<le> 64" using k(2) ws by simp_all
  have m1: "usbDataOutCallback b ?head (l_mon (p_dev ?p1)) = Inr (Some ?ans, m)" using m(1) by simp
  note x = plugged_in_exchange [OF p1(1) m1 m(2) p1(2) sz]
  have q: "(of_nat (4 * i div 4) + ucast (of_nat r :: u16) :: u32) = of_nat (r + i)"
    using ucast_small(2) [of r] n by simp
  have head: "with_head (regsReadCmd (of_nat (r + i)) (of_nat (n - i))) p = (4, ?p1)"
  proof -
    have "(of_nat (n - i) :: u32) \<noteq> 0" using of_nat_u32_eq_0 [of "n - i"] i n by simp
    then show ?thesis
      using reg_count_small [of "n - i"] n
      by (simp add: with_head_def regsReadCmd_def k_def ucast_of_nat_u32_u16 del: of_nat_add)
  qed
  let ?p2 = "?p1\<lparr>p_dev := p_dev ?p1\<lparr>l_mon := m, l_ans := []\<rparr>, p_in := blit 0 ?ans (p_in ?p1)\<rparr>"
  have o: "p_out ?p2 = ?head @ drop 4 (p_out p)" "p_in ?p2 = ?head @ reg_bytes ?ws @ drop (4 + 4 * k) (p_in p)"
    using x(3,4) out ws by (simp_all add: blit_front)
  have same: "same_command ?p2" "out_u16 ?p2 = in_u16 ?p2" "p_out ?p2 ! 1 = of_nat k" "p_in ?p2 ! 1 = of_nat k"
    using o by (simp_all add: same_command_def out_u16_def in_u16_def le_simps)
  have cnt: "4 * unat (p_in ?p2 ! 1) = 4 * k" using unat_small(1) [of k] k(2) unfolding same(4) by simp
  have tk: "take (4 * k) (drop 4 (p_in ?p2)) = reg_bytes ?ws" unfolding o(2) using ws by simp
  have rem: "(length data - 4 * i) div 4 = n - i" using len by simp
  have notdone: "4 * i < length data" using len i by simp
  have big: "\<not> length ?ans < 4" by simp
  have eq: "\<not> p_out ?p2 ! 1 < p_in ?p2 ! 1" unfolding same(3,4) by simp
  have "regsRead_loop (link_iface b) (of_nat r) (4 * i) data p =
      regsRead_loop (link_iface b) (of_nat r) (4 * i + 4 * k) (blit 0 (reg_bytes ?ws) data) ?p2"
    by (subst regsRead_loop.simps)
      (simp only: notdone not_not if_False Let_def rem q head prod.case x(1) same(1,2) big eq cnt tk simp_thms not_True_eq_False)
  then show ?thesis using x(2,5) m(3) by (metis add_mult_distrib2)
qed


lemma regsRead_packet_loop:
  assumes "plugged_in p" "0 < n" "n \<le> 15" "r + n \<le> 18"
  shows "\<exists>p'. regsRead (link_iface b) (of_nat r) (of_nat n) p = Inr (take n (drop r (saved_regs p)), p') \<and>
    plugged_in p' \<and> saved_regs p' = saved_regs p"
proof -
  let ?ws = "take n (drop r (saved_regs p))"
  have n: "unat (of_nat n :: u16) = n" "(of_nat n :: u16) \<noteq> 0"
    using unat_small(2) [of n] assms(2,3) by (auto simp: unat_0_iff [symmetric])
  have ws: "length ?ws = n" using assms(1,4) by (simp add: plugged_in_def frames_ok_def)
  have full: "blit 0 (reg_bytes ?ws) (replicate (4 * n) 0) = reg_bytes ?ws" using ws by (simp add: blit_front)
  obtain p' where p': "regsRead_loop (link_iface b) (of_nat r) 0 (replicate (4 * n) 0) p =
      regsRead_loop (link_iface b) (of_nat r) (4 * n) (reg_bytes ?ws) p'" "plugged_in p'" "saved_regs p' = saved_regs p"
    using regsRead_step [OF assms(1,2,4), of "replicate (4 * n) 0" b] assms(3) full by (auto simp: min_def)
  have "regsRead_loop (link_iface b) (of_nat r) (4 * n) (reg_bytes ?ws) p' = Some (reg_bytes ?ws, p')"
    using ws by (subst regsRead_loop.simps) simp
  then show ?thesis using n p' by (auto simp: regsRead_def words_of_reg_bytes)
qed

lemma regsWrite_packet_loop:
  assumes "plugged_in p" "0 < length ws" "length ws \<le> 15" "r + length ws \<le> 18"
  shows "\<exists>p'. regsWrite (link_iface b) (of_nat r) ws p = Inr (length ws, p') \<and>
    plugged_in p' \<and> saved_regs p' = blit r ws (saved_regs p)"
proof -
  let ?n = "length ws" and ?head = "reg_head CRegsWrite (of_nat (length ws)) (of_nat r)"
  have r: "r \<le> 17" "r \<le> 64" "?n \<le> 18" "?n \<le> 64" using assms(2-4) by linarith+
  have fr: "frames_ok (l_mon (p_dev p))" and out: "length (p_out p) = 64" using assms(1) by (simp_all add: plugged_in_def)
  obtain m where m: "usbDataOutCallback b (?head @ reg_bytes ws) (l_mon (p_dev p)) = Inr (Some ?head, m)" "frames_ok m"
    "context_data m = blit r ws (saved_regs p)"
    using regsWrite_packet [OF fr assms(2,3) r(1) assms(4), of b] by blast
  let ?p1 = "p\<lparr>p_out := blit 0 ?head (p_out p)\<rparr>"
  let ?p2 = "put_out 4 (reg_bytes ws) ?p1"
  have o1: "p_out ?p1 = ?head @ drop 4 (p_out p)" using out by (simp add: blit_front)
  have o2: "p_out ?p2 = ?head @ reg_bytes ws @ drop (4 + 4 * ?n) (p_out p)"
    using o1 by (simp add: put_out_def blit_def add.commute)
  have p2: "plugged_in ?p2" "take (4 + 4 * ?n) (p_out ?p2) = ?head @ reg_bytes ws" "p_dev ?p2 = p_dev p"
    using assms(1,3) out unfolding plugged_in_def o2 by (simp_all add: put_out_def)
  have m2: "usbDataOutCallback b (?head @ reg_bytes ws) (l_mon (p_dev ?p2)) = Inr (Some ?head, m)"
    using m(1) p2(3) by simp
  have sz: "4 + 4 * ?n \<le> 64" "length ?head \<le> 64" using assms(3) by simp_all
  note x = plugged_in_exchange [OF p2(1) m2 m(2) p2(2) sz]
  let ?p3 = "?p2\<lparr>p_dev := p_dev ?p2\<lparr>l_mon := m, l_ans := []\<rparr>, p_in := blit 0 ?head (p_in ?p2)\<rparr>"
  have "(ucast (of_nat r :: u8) :: u16) = of_nat r"
    using unat_small(1,2) [OF r(2)] r(2) by (simp add: word_unat_eq_iff unsigned_ucast_eq take_bit_nat_eq_self)
  then have head: "with_head (regsWriteCmd (of_nat (0 div 4) + ucast (of_nat r :: u16)) ws) p = (4, ?p1)"
    using reg_count_small [OF r(3)] assms(2,3) ucast_small(2) [OF r(2)] ucast_small(3) [OF r(2)]
    by (auto simp: with_head_def regsWriteCmd_def min_def)
  have cnt: "4 * unat (p_out ?p1 ! 1) = 4 * ?n" unfolding o1 using unat_small(1) [OF r(4)] by (simp add: le_simps)
  have same: "same_command ?p3" "out_u16 ?p3 = in_u16 ?p3" "p_out ?p3 ! 1 = of_nat ?n" "p_in ?p3 ! 1 = of_nat ?n"
    using x(3,4) o2 by (simp_all add: same_command_def out_u16_def in_u16_def le_simps)
  have nz: "(of_nat ?n :: u8) \<noteq> 0" using unat_small(1) [OF r(4)] assms(2) by (auto simp: unat_0_iff [symmetric])
  have "regsWrite_loop (link_iface b) (of_nat r) 0 ws p = regsWrite_loop (link_iface b) (of_nat r) (4 * ?n) ws ?p3"
    using assms(2,3) o1 out head cnt x(1) same nz unat_small(1) [OF r(4)]
    by (subst regsWrite_loop.simps) (simp add: reg_bytes_def [symmetric] Let_def)
  also have "\<dots> = Inr (?n, ?p3)" by (subst regsWrite_loop.simps) simp
  finally have "regsWrite (link_iface b) (of_nat r) ws p = Inr (?n, ?p3)"
    using assms(2) by (auto simp: regsWrite_def)
  then show ?thesis using x(2,5) m(3) by metis
qed

section \<open>Properties\<close>

text \<open>
  C11: registers survive the round trip. When the server writes up to 15 registers and then
  reads them back, over the cable, it gets what it wrote; the firmware's saved registers are
  the old ones with exactly these replaced. This holds for every index up to 17 and count that
  lie within the 18 registers that the two commands reach, whatever is behind the bus.
\<close>

theorem registers_round_trip:
  assumes "plugged_in p" "0 < length ws" "length ws \<le> 15" "r + length ws \<le> 18"
  shows "\<exists>p1 p2. regsWrite (link_iface b) (of_nat r) ws p = Inr (length ws, p1) \<and>
    regsRead (link_iface b) (of_nat r) (of_nat (length ws)) p1 = Inr (ws, p2) \<and>
    saved_regs p2 = blit r ws (saved_regs p)"
proof -
  obtain p1 where p1: "regsWrite (link_iface b) (of_nat r) ws p = Inr (length ws, p1)" "plugged_in p1"
    "saved_regs p1 = blit r ws (saved_regs p)"
    using regsWrite_packet_loop [OF assms] by blast
  have "length (saved_regs p) = 19" using assms(1) by (simp add: plugged_in_def frames_ok_def)
  then have "take (length ws) (drop r (saved_regs p1)) = ws" using p1(3) assms(4) by (simp add: blit_def)
  with regsRead_packet_loop [OF p1(2) assms(2,3,4), of b] p1 show ?thesis by metis
qed

lemma fresh_plugged_in: "plugged_in (new_probe (replicate 64 0) (replicate 64 0) (plugged (initial h)))"
  by (simp add: plugged_in_def new_probe_def plugged_def initial_frames)

theorem registers_round_trip_witness:
  "\<exists>p1 p2. regsWrite (link_iface f103_bus) 13 [0x20005000, 0x08004101, 0x08004200]
      (new_probe (replicate 64 0) (replicate 64 0) (plugged (initial power_on))) = Inr (3, p1) \<and>
    regsRead (link_iface f103_bus) 13 3 p1 = Inr ([0x20005000, 0x08004101, 0x08004200], p2)"
  using registers_round_trip [OF fresh_plugged_in [of power_on], of "[0x20005000, 0x08004101, 0x08004200]" 13 f103_bus]
  by auto

end
