(* ===== verification/Gdb_Hostio.thy ===== *)
theory Gdb_Hostio
  imports Gdb_Packet
begin

text \<open>
  \<^verbatim>\<open>GdbServer/Gdb/gdb_hostio.c\<close>: the File-I/O extension of the remote protocol. A semihosting
  call of the target becomes an \<open>F\<close> packet to GDB; then the main loop runs, nested, until
  GDB's reply arrives and is decoded by \<open>hostio_reply\<close>. The packet function and the nested
  loop (\<open>gdb_main_loop(tc, true)\<close>) are arguments here; the main loop's theory supplies them.
\<close>

section \<open>The reply\<close>

text \<open>
  The result is the return code, the error number and whether a break was requested. What
  the reply does not contain is left uninitialised: \<open>ret0\<close> and \<open>err0\<close> are the indeterminate
  values of the two local variables.
\<close>

definition hostio_reply :: "u32 \<Rightarrow> u32 \<Rightarrow> u8 list \<Rightarrow> u32 \<times> u32 \<times> bool" where
  "hostio_reply ret0 err0 pbuf =
     (let neg = (pbuf ! 1 = 0x2D);
          p = (if neg then drop 2 pbuf else drop 1 pbuf);
          items = sscanf p [Hex None, Lit 0x2C, Hex None, Lit 0x2C, Chr];
          retcode = (case items of Num r # _ \<Rightarrow> r | _ \<Rightarrow> ret0);
          errno = (case items of _ # Num e # _ \<Rightarrow> e | _ \<Rightarrow> err0);
          interrupted = (case items of [_, _, Char c] \<Rightarrow> c = 0x43 | _ \<Rightarrow> False)
      in (if neg then - retcode else retcode, errno, interrupted))"

section \<open>The requests\<close>

definition comma :: "u8 list" where "comma = [0x2C]"
definition slash :: "u8 list" where "slash = [0x2F]"

definition open_text :: "u32 \<Rightarrow> u32 \<Rightarrow> u32 \<Rightarrow> u32 \<Rightarrow> u8 list" where
  "open_text path path_len flags mode =
     str ''Fopen,'' @ fmt_08X path @ slash @ fmt_X path_len @ comma @ fmt_08X flags @ comma @ fmt_08X mode"

definition close_text :: "u32 \<Rightarrow> u8 list" where
  "close_text fd = str ''Fclose,'' @ fmt_08X fd"

definition read_text :: "u32 \<Rightarrow> u32 \<Rightarrow> u32 \<Rightarrow> u8 list" where
  "read_text fd buf count = str ''Fread,'' @ fmt_08X fd @ comma @ fmt_08X buf @ comma @ fmt_08X count"

definition write_text :: "u32 \<Rightarrow> u32 \<Rightarrow> u32 \<Rightarrow> u8 list" where
  "write_text fd buf count = str ''Fwrite,'' @ fmt_08X fd @ comma @ fmt_08X buf @ comma @ fmt_08X count"

definition lseek_text :: "u32 \<Rightarrow> u32 \<Rightarrow> u32 \<Rightarrow> u8 list" where
  "lseek_text fd offset flag = str ''Flseek,'' @ fmt_08X fd @ comma @ fmt_08X offset @ comma @ fmt_08X flag"

definition rename_text :: "u32 \<Rightarrow> u32 \<Rightarrow> u32 \<Rightarrow> u32 \<Rightarrow> u8 list" where
  "rename_text oldpath old_len newpath new_len =
     str ''Frename,'' @ fmt_08X oldpath @ slash @ fmt_X old_len @ comma @ fmt_08X newpath @ slash @ fmt_X new_len"

definition unlink_text :: "u32 \<Rightarrow> u32 \<Rightarrow> u8 list" where
  "unlink_text path path_len = str ''Funlink,'' @ fmt_08X path @ slash @ fmt_X path_len"

definition stat_text :: "u32 \<Rightarrow> u32 \<Rightarrow> u32 \<Rightarrow> u8 list" where
  "stat_text path path_len buf =
     str ''Fstat,'' @ fmt_08X path @ slash @ fmt_X path_len @ comma @ fmt_08X buf"

definition fstat_text :: "u32 \<Rightarrow> u32 \<Rightarrow> u8 list" where
  "fstat_text fd buf = str ''Ffstat,'' @ fmt_X fd @ comma @ fmt_08X buf"

definition gettimeofday_text :: "u32 \<Rightarrow> u32 \<Rightarrow> u8 list" where
  "gettimeofday_text tv tz = str ''Fgettimeofday,'' @ fmt_08X tv @ comma @ fmt_08X tz"

definition isatty_text :: "u32 \<Rightarrow> u8 list" where
  "isatty_text fd = str ''Fisatty,'' @ fmt_08X fd"

definition system_text :: "u32 \<Rightarrow> u32 \<Rightarrow> u8 list" where
  "system_text cmd cmd_len = str ''Fsystem,'' @ fmt_08X cmd @ slash @ fmt_X cmd_len"

section \<open>The calls\<close>

definition hostio_call ::
    "(u8 list \<Rightarrow> 's \<Rightarrow> 's result) \<Rightarrow> ('s \<Rightarrow> (u32 \<times> 's) result) \<Rightarrow> u8 list \<Rightarrow> 's \<Rightarrow> (u32 \<times> 's) result" where
  "hostio_call put main_loop request s = bindR (put request s) main_loop"

definition hostio_open where
  "hostio_open put main_loop path path_len flags mode =
     hostio_call put main_loop (open_text path path_len flags mode)"

definition hostio_close where
  "hostio_close put main_loop fd = hostio_call put main_loop (close_text fd)"

definition hostio_read where
  "hostio_read put main_loop fd buf count = hostio_call put main_loop (read_text fd buf count)"

definition hostio_write where
  "hostio_write put main_loop fd buf count = hostio_call put main_loop (write_text fd buf count)"

definition hostio_lseek where
  "hostio_lseek put main_loop fd offset flag = hostio_call put main_loop (lseek_text fd offset flag)"

definition hostio_rename where
  "hostio_rename put main_loop oldpath old_len newpath new_len =
     hostio_call put main_loop (rename_text oldpath old_len newpath new_len)"

definition hostio_unlink where
  "hostio_unlink put main_loop path path_len = hostio_call put main_loop (unlink_text path path_len)"

definition hostio_stat where
  "hostio_stat put main_loop path path_len buf = hostio_call put main_loop (stat_text path path_len buf)"

definition hostio_fstat where
  "hostio_fstat put main_loop fd buf = hostio_call put main_loop (fstat_text fd buf)"

definition hostio_gettimeofday where
  "hostio_gettimeofday put main_loop tv tz = hostio_call put main_loop (gettimeofday_text tv tz)"

definition hostio_isatty where
  "hostio_isatty put main_loop fd = hostio_call put main_loop (isatty_text fd)"

definition hostio_system where
  "hostio_system put main_loop cmd cmd_len = hostio_call put main_loop (system_text cmd cmd_len)"

section \<open>Decoding\<close>

text \<open>
  A request is a name followed by numbers, each with its separator; \<open>args_format\<close> is the
  format that reads it back.
\<close>

fun args_text :: "(u8 \<times> u8 list) list \<Rightarrow> u8 list" where
  "args_text [] = []"
| "args_text ((sep, digits) # as) = sep # digits @ args_text as"

fun args_format :: "(u8 \<times> u8 list) list \<Rightarrow> conv list" where
  "args_format [] = []"
| "args_format ((sep, digits) # as) = Lit sep # Hex None # args_format as"

definition prints :: "u8 list \<Rightarrow> u32 \<Rightarrow> bool" where
  "prints digits n \<longleftrightarrow> (\<forall>rest. rest = [] \<or> (\<not> isxdigit (hd rest) \<and> hd rest \<noteq> 0x78 \<and> hd rest \<noteq> 0x58) \<longrightarrow>
     scan_hex None (digits @ rest) = Some (n, length digits))"

lemma prints_fmt [simp]:
  "prints (fmt_x n) n" "prints (fmt_X n) n" "prints (fmt_08x n) n" "prints (fmt_08X n) n"
  unfolding prints_def by (intro allI impI, rule scan_fmt, assumption)+

definition separator :: "u8 \<Rightarrow> bool" where
  "separator c \<longleftrightarrow> \<not> isxdigit c \<and> c \<noteq> 0x78 \<and> c \<noteq> 0x58 \<and> c \<noteq> 0"

lemma scan_args:
  assumes "list_all2 (\<lambda>(sep, digits) n. separator sep \<and> prints digits n) as ns"
    and "rest = [] \<or> (\<not> isxdigit (hd rest) \<and> hd rest \<noteq> 0x78 \<and> hd rest \<noteq> 0x58)"
  shows "scan (args_format as @ fmt) pos (args_text as @ rest) =
    map Num ns @ scan fmt (pos + length (args_text as)) rest"
  using assms(1)
proof (induction as ns arbitrary: pos rule: list_all2_induct)
  case Nil
  then show ?case by simp
next
  case (Cons a as n ns)
  obtain sep digits where a: "a = (sep, digits)" by fastforce
  have next_ok: "args_text as @ rest = [] \<or> (\<not> isxdigit (hd (args_text as @ rest)) \<and>
      hd (args_text as @ rest) \<noteq> 0x78 \<and> hd (args_text as @ rest) \<noteq> 0x58)"
  proof (cases as)
    case Nil
    with assms(2) show ?thesis by simp
  next
    case (Cons b bs)
    obtain sep' digits' where b: "b = (sep', digits')" by fastforce
    have "separator sep'"
      using Cons.hyps(2) Cons b by (auto simp: list_all2_Cons1)
    then show ?thesis using Cons b by (simp add: separator_def)
  qed
  have "scan_hex None (digits @ args_text as @ rest) = Some (n, length digits)"
    using Cons.hyps(1) a next_ok by (auto simp: prints_def)
  with Cons.IH show ?case by (simp add: a add.assoc)
qed

text \<open>No zero byte inside a request, so it is its own C string.\<close>

definition plain :: "u8 list \<Rightarrow> bool" where
  "plain s \<longleftrightarrow> 0 \<notin> set s"

lemma plain_simps [simp]:
  "plain []" "plain (c # s) \<longleftrightarrow> c \<noteq> 0 \<and> plain s" "plain (s @ s') \<longleftrightarrow> plain s \<and> plain s'"
  by (auto simp: plain_def)

lemma plain_xdigits: "\<forall>c \<in> set s. isxdigit c \<Longrightarrow> plain s"
  using xdigit_plain by (auto simp: plain_def)

lemma plain_fmt [simp]: "plain (fmt_x n)" "plain (fmt_X n)" "plain (fmt_08x n)" "plain (fmt_08X n)"
  using hex_digits_value [OF hex_alphabets(1), of "unat n"] hex_digits_value [OF hex_alphabets(2), of "unat n"]
    pad0_value [OF hex_alphabets(1), of 8 "unat n"] pad0_value [OF hex_alphabets(2), of 8 "unat n"]
  by (simp_all add: plain_xdigits fmt_x_def fmt_X_def fmt_08x_def fmt_08X_def)

lemma c_string_plain: "plain s \<Longrightarrow> c_string s = s"
  by (auto simp: c_string_def plain_def intro!: takeWhile_eq_all_conv [THEN iffD2])

lemma c_string_zero: "plain s \<Longrightarrow> c_string (s @ 0 # rest) = s"
  by (simp add: c_string_def plain_def takeWhile_append)

lemma plain_args: "list_all (\<lambda>(sep, digits). sep \<noteq> 0 \<and> plain digits) as \<Longrightarrow> plain (args_text as)"
  by (induction as) auto

lemma scan_lits: "scan (lits s @ fmt) pos (str s @ rest) = scan fmt (pos + length s) rest"
  unfolding lits_def by (induction s arbitrary: pos) simp_all

lemma args_list_all:
  "list_all2 (\<lambda>(sep, digits) n. separator sep \<and> plain digits \<and> prints digits n) as ns \<Longrightarrow>
   list_all2 (\<lambda>(sep, digits) n. separator sep \<and> prints digits n) as ns \<and>
   list_all (\<lambda>(sep, digits). sep \<noteq> 0 \<and> plain digits) as"
  by (induction as ns rule: list_all2_induct) (auto simp: separator_def)

lemma sscanf_request:
  assumes "list_all2 (\<lambda>(sep, digits) n. separator sep \<and> plain digits \<and> prints digits n) as ns"
    and "plain (str name)"
  shows "sscanf (str name @ args_text as) (lits name @ args_format as) = map Num ns"
  using args_list_all [OF assms(1)] assms(2)
    scan_args [of as ns "[]" "[]" "length name"] scan_lits [of name "args_format as" 0 "args_text as"]
  by (simp add: sscanf_def c_string_plain plain_args)

lemma separators: "separator 0x2C" "separator 0x2F"
  by (simp_all add: separator_def isxdigit_def xdigits_def)

section \<open>Replies\<close>

lemma hostio_reply_items:
  assumes "plain flag" "flag = [] \<or> flag = [0x2C, 0x43]"
  shows "sscanf (fmt_x r @ 0x2C # fmt_x e @ flag @ 0 # rest) [Hex None, Lit 0x2C, Hex None, Lit 0x2C, Chr] =
    [Num r, Num e] @ (if flag = [] then [] else [Char 0x43])"
proof -
  have s: "c_string (fmt_x r @ 0x2C # fmt_x e @ flag @ 0 # rest) = fmt_x r @ 0x2C # fmt_x e @ flag"
    using c_string_zero [of "fmt_x r @ 0x2C # fmt_x e @ flag" rest] assms(1) by simp
  have r: "scan_hex None (fmt_x r @ 0x2C # fmt_x e @ flag) = Some (r, length (fmt_x r))"
    by (rule scan_fmt) (simp add: isxdigit_def xdigits_def)
  have e: "scan_hex None (fmt_x e @ flag) = Some (e, length (fmt_x e))"
    by (rule scan_fmt) (use assms(2) in \<open>auto simp: isxdigit_def xdigits_def\<close>)
  show ?thesis
    using assms(2) by (auto simp: sscanf_def s r e)
qed

lemma hostio_reply_fields:
  "hostio_reply ret0 err0 (0x46 # fmt_x r @ 0x2C # fmt_x e @ 0 # rest) = (r, e, False) \<and>
   hostio_reply ret0 err0 (0x46 # fmt_x r @ 0x2C # fmt_x e @ [0x2C, 0x43] @ 0 # rest) = (r, e, True) \<and>
   hostio_reply ret0 err0 (0x46 # 0x2D # fmt_x r @ 0x2C # fmt_x e @ 0 # rest) = (- r, e, False) \<and>
   hostio_reply ret0 err0 (0x46 # 0x2D # fmt_x r @ 0x2C # fmt_x e @ [0x2C, 0x43] @ 0 # rest) = (- r, e, True)"
proof -
  have "isxdigit (fmt_x r ! 0)" and ne: "fmt_x r \<noteq> []"
    using hex_digits_value [OF hex_alphabets(1), of "unat r"] by (simp_all add: fmt_x_def)
  then have "(fmt_x r @ s) ! 0 \<noteq> 0x2D" for s
    using xdigit_plain by (metis append_Cons neq_Nil_conv nth_Cons_0)
  then have sign: "(0x46 # fmt_x r @ s) ! 1 \<noteq> 0x2D" for s by simp
  note items = hostio_reply_items [of "[]" r e rest] hostio_reply_items [of "[0x2C, 0x43]" r e rest]
  show ?thesis
    using items sign by (simp add: hostio_reply_def Let_def)
qed

section \<open>Properties\<close>

text \<open>
  C30: GDB's answer to a host call is understood. A reply packet with a return code and an
  error number in hex, the code with or without a minus sign, and with or without the
  Ctrl-C flag, decodes to exactly these, whatever the uninitialised locals held.
\<close>

theorem hostio_reply_decodes:
  "hostio_reply ret0 err0 (0x46 # fmt_x r @ 0x2C # fmt_x e @ 0 # rest) = (r, e, False) \<and>
   hostio_reply ret0 err0 (0x46 # fmt_x r @ 0x2C # fmt_x e @ [0x2C, 0x43] @ 0 # rest) = (r, e, True) \<and>
   hostio_reply ret0 err0 (0x46 # 0x2D # fmt_x r @ 0x2C # fmt_x e @ 0 # rest) = (- r, e, False) \<and>
   hostio_reply ret0 err0 (0x46 # 0x2D # fmt_x r @ 0x2C # fmt_x e @ [0x2C, 0x43] @ 0 # rest) = (- r, e, True)"
  by (rule hostio_reply_fields)

text \<open>
  C31: the host call requests carry their arguments. Each of the twelve requests, read back
  with the name of the call and the separators of the protocol, gives exactly the arguments
  of the call, for all 32-bit values.
\<close>

theorem hostio_requests_decode:
  "sscanf (open_text a b c d) (lits ''Fopen'' @ args_format [(0x2C, []), (0x2F, []), (0x2C, []), (0x2C, [])])
     = [Num a, Num b, Num c, Num d] \<and>
   sscanf (close_text a) (lits ''Fclose'' @ args_format [(0x2C, [])]) = [Num a] \<and>
   sscanf (read_text a b c) (lits ''Fread'' @ args_format [(0x2C, []), (0x2C, []), (0x2C, [])])
     = [Num a, Num b, Num c] \<and>
   sscanf (write_text a b c) (lits ''Fwrite'' @ args_format [(0x2C, []), (0x2C, []), (0x2C, [])])
     = [Num a, Num b, Num c] \<and>
   sscanf (lseek_text a b c) (lits ''Flseek'' @ args_format [(0x2C, []), (0x2C, []), (0x2C, [])])
     = [Num a, Num b, Num c] \<and>
   sscanf (rename_text a b c d) (lits ''Frename'' @ args_format [(0x2C, []), (0x2F, []), (0x2C, []), (0x2F, [])])
     = [Num a, Num b, Num c, Num d] \<and>
   sscanf (unlink_text a b) (lits ''Funlink'' @ args_format [(0x2C, []), (0x2F, [])]) = [Num a, Num b] \<and>
   sscanf (stat_text a b c) (lits ''Fstat'' @ args_format [(0x2C, []), (0x2F, []), (0x2C, [])])
     = [Num a, Num b, Num c] \<and>
   sscanf (fstat_text a b) (lits ''Ffstat'' @ args_format [(0x2C, []), (0x2C, [])]) = [Num a, Num b] \<and>
   sscanf (gettimeofday_text a b) (lits ''Fgettimeofday'' @ args_format [(0x2C, []), (0x2C, [])]) = [Num a, Num b] \<and>
   sscanf (isatty_text a) (lits ''Fisatty'' @ args_format [(0x2C, [])]) = [Num a] \<and>
   sscanf (system_text a b) (lits ''Fsystem'' @ args_format [(0x2C, []), (0x2F, [])]) = [Num a, Num b]"
proof -
  note texts = open_text_def close_text_def read_text_def write_text_def lseek_text_def rename_text_def
    unlink_text_def stat_text_def fstat_text_def gettimeofday_text_def isatty_text_def system_text_def
    comma_def slash_def
  show ?thesis
    using sscanf_request [of "[(0x2C, fmt_08X a), (0x2F, fmt_X b), (0x2C, fmt_08X c), (0x2C, fmt_08X d)]" "[a, b, c, d]" "''Fopen''"]
      sscanf_request [of "[(0x2C, fmt_08X a), (0x2F, fmt_X b), (0x2C, fmt_08X c), (0x2F, fmt_X d)]" "[a, b, c, d]" "''Frename''"]
      sscanf_request [of "[(0x2C, fmt_08X a), (0x2C, fmt_08X b), (0x2C, fmt_08X c)]" "[a, b, c]" "''Fread''"]
      sscanf_request [of "[(0x2C, fmt_08X a), (0x2C, fmt_08X b), (0x2C, fmt_08X c)]" "[a, b, c]" "''Fwrite''"]
      sscanf_request [of "[(0x2C, fmt_08X a), (0x2C, fmt_08X b), (0x2C, fmt_08X c)]" "[a, b, c]" "''Flseek''"]
      sscanf_request [of "[(0x2C, fmt_08X a), (0x2F, fmt_X b), (0x2C, fmt_08X c)]" "[a, b, c]" "''Fstat''"]
      sscanf_request [of "[(0x2C, fmt_08X a), (0x2F, fmt_X b)]" "[a, b]" "''Funlink''"]
      sscanf_request [of "[(0x2C, fmt_08X a), (0x2F, fmt_X b)]" "[a, b]" "''Fsystem''"]
      sscanf_request [of "[(0x2C, fmt_X a), (0x2C, fmt_08X b)]" "[a, b]" "''Ffstat''"]
      sscanf_request [of "[(0x2C, fmt_08X a), (0x2C, fmt_08X b)]" "[a, b]" "''Fgettimeofday''"]
      sscanf_request [of "[(0x2C, fmt_08X a)]" "[a]" "''Fclose''"]
      sscanf_request [of "[(0x2C, fmt_08X a)]" "[a]" "''Fisatty''"]
    by (simp add: texts separators)
qed

end
