(* ===== verification/Gdb_Main.thy ===== *)
theory Gdb_Main
  imports Gdb_Packet Gdb_Hostio Command Crc32
begin

text \<open>
  \<^verbatim>\<open>GdbServer/Gdb/gdb_main.c\<close>: the server. The static variables of the file, the channel and the
  list of targets are one state; each packet has its handler, and \<open>gdb_main_loop\<close> receives
  packets and dispatches them until it has to return to the host call that started it.
  What the process gets from outside (heap, stack contents, indeterminate locals, and the
  fuel for the two polling loops) is the \<open>env\<close> argument. A scan that leaves a variable
  uninitialised which is then used is undefined behaviour (\<open>Crash\<close>).
\<close>

section \<open>State\<close>

definition BUF_SIZE :: nat where "BUF_SIZE = 1024"

definition GDB_SIGINT :: u8 where "GDB_SIGINT = 2"
definition GDB_SIGTRAP :: u8 where "GDB_SIGTRAP = 5"
definition GDB_SIGSEGV :: u8 where "GDB_SIGSEGV = 11"
definition GDB_SIGLOST :: u8 where "GDB_SIGLOST = 29"

record 'd server =
  chan :: gdbif
  pbuf :: "u8 list"
  targets :: "'d target list"
  cur_target :: "nat option"
  last_target :: "nat option"
  flash_mode :: bool
  tc_errno :: u32
  tc_interrupted :: bool

record env =
  env_malloc :: malloc
  env_malloc_ok :: bool
  env_junk :: "nat \<Rightarrow> u8 list"        \<comment> \<open>uninitialised memory of a given size\<close>
  env_stack :: nat                     \<comment> \<open>the bytes \<open>_alloca\<close> can take from the stack\<close>
  env_ret0 :: u32
  env_err0 :: u32
  env_fuel :: nat

definition alloca :: "env \<Rightarrow> nat \<Rightarrow> u8 list result" where
  "alloca env n = (if n \<le> env_stack env then Inr (env_junk env n) else Inl Crash)"

text \<open>Sending a packet, and working on the current target.\<close>

definition send_bytes :: "u8 list \<Rightarrow> 'd server \<Rightarrow> 'd server result" where
  "send_bytes bs s = bindR (gdb_putpacket bs (chan s)) (\<lambda>g. Inr (s\<lparr>chan := g\<rparr>))"

definition sendz :: "string \<Rightarrow> 'd server \<Rightarrow> 'd server result" where
  "sendz text s = bindR (gdb_putpacketz text (chan s)) (\<lambda>g. Inr (s\<lparr>chan := g\<rparr>))"

definition sendf :: "env \<Rightarrow> u8 list \<Rightarrow> 'd server \<Rightarrow> 'd server result" where
  "sendf env text s = bindR (gdb_putpacket_f (env_junk env) text (chan s)) (\<lambda>g. Inr (s\<lparr>chan := g\<rparr>))"

definition put_target :: "'d target \<Rightarrow> 'd server \<Rightarrow> 'd server" where
  "put_target t s = s\<lparr>targets := set_target t (targets s)\<rparr>"

text \<open>\<open>ERROR_IF_NO_TARGET\<close>: the packet is answered with an error unless there is a target.\<close>

definition if_target :: "'d server \<Rightarrow> ('d target \<Rightarrow> 'd server result) \<Rightarrow> 'd server result" where
  "if_target s k =
     (case cur_target s of
        None \<Rightarrow> sendz ''EFF'' s
      | Some i \<Rightarrow> with_target (Some i) (targets s) k)"

definition need :: "'a option \<Rightarrow> ('a \<Rightarrow> 'b result) \<Rightarrow> 'b result" where
  "need x k = (case x of None \<Rightarrow> Inl Crash | Some v \<Rightarrow> k v)"

fun num1 :: "scanned list \<Rightarrow> u32 option" where
  "num1 (Num a # xs) = Some a"
| "num1 xs = None"

fun num1_at :: "scanned list \<Rightarrow> (u32 \<times> nat) option" where
  "num1_at (Num a # At k # xs) = Some (a, k)"
| "num1_at xs = None"

fun num2 :: "scanned list \<Rightarrow> (u32 \<times> u32) option" where
  "num2 (Num a # Num b # xs) = Some (a, b)"
| "num2 xs = None"

fun num2_at :: "scanned list \<Rightarrow> (u32 \<times> u32 \<times> nat) option" where
  "num2_at (Num a # Num b # At k # xs) = Some (a, b, k)"
| "num2_at xs = None"

text \<open>
  \<open>hexify(pbuf, bytes, n)\<close> writes \<open>2 n\<close> digits and a zero into the packet buffer; more than
  the buffer holds is undefined.
\<close>

definition hexify_pbuf :: "u8 list \<Rightarrow> 'd server \<Rightarrow> 'd server result" where
  "hexify_pbuf bs s =
     (if 2 * length bs + 1 \<le> length (pbuf s)
      then Inr (s\<lparr>pbuf := blit 0 (hexify bs @ [0]) (pbuf s)\<rparr>) else Inl Crash)"

definition reply_hex :: "u8 list \<Rightarrow> 'd server \<Rightarrow> 'd server result" where
  "reply_hex bs s = bindR (hexify_pbuf bs s) (send_bytes (hexify bs))"

section \<open>The debugger as owner of targets\<close>

definition gdb_target_destroy_callback :: "nat \<Rightarrow> nat option \<times> nat option \<Rightarrow> nat option \<times> nat option" where
  "gdb_target_destroy_callback i = (\<lambda>(cur, last).
     (if cur = Some i then None else cur, if last = Some i then None else last))"

definition gdb_target_printf :: "env \<Rightarrow> u8 list \<Rightarrow> 'd server \<Rightarrow> 'd server result" where
  "gdb_target_printf env text s =
     bindR (gdb_voutf (env_junk env) text (chan s)) (\<lambda>g. Inr (s\<lparr>chan := g\<rparr>))"

definition set_current_target :: "nat option \<Rightarrow> 'd server \<Rightarrow> 'd server" where
  "set_current_target t s = s\<lparr>cur_target := t\<rparr>"

text \<open>\<open>cur_target = target_attach(last_target, &gdb_controller)\<close>, and the same by number.\<close>

definition attach_cur :: "nat \<Rightarrow> 'd server \<Rightarrow> 'd server result" where
  "attach_cur i s =
     bindR (target_attach gdb_target_destroy_callback i (targets s) (cur_target s, last_target s))
       (\<lambda>(p, ts, (cur, last)). Inr (s\<lparr>targets := ts, cur_target := p, last_target := last\<rparr>))"

definition attach_number :: "int \<Rightarrow> 'd server \<Rightarrow> 'd server result" where
  "attach_number n s =
     bindR (target_attach_n gdb_target_destroy_callback n (targets s) (cur_target s, last_target s))
       (\<lambda>(p, ts, (cur, last)). Inr (s\<lparr>targets := ts, cur_target := p, last_target := last\<rparr>))"

text \<open>A detached debugger attaches to the target it had before.\<close>

definition reattach :: "'d server \<Rightarrow> 'd server result" where
  "reattach s =
     (case (cur_target s, last_target s) of
        (None, Some i) \<Rightarrow> attach_cur i s
      | _ \<Rightarrow> Inr s)"

section \<open>Registers and memory\<close>

definition handle_g :: "env \<Rightarrow> 'd server \<Rightarrow> 'd server result" where
  "handle_g env s = if_target s (\<lambda>t.
     let armRegsSize = unat (target_regs_size t) in
     bindR (alloca env armRegsSize) (\<lambda>arm_regs.
     bindR (target_regs_read (env_fuel env) arm_regs t) (\<lambda>(arm_regs, t).
       reply_hex (take armRegsSize arm_regs) (put_target t s))))"

definition handle_m :: "env \<Rightarrow> 'd server \<Rightarrow> 'd server result" where
  "handle_m env s = if_target s (\<lambda>t.
     need (num2 (sscanf (pbuf s) [Lit 0x6D, Hex None, Lit 0x2C, Hex None])) (\<lambda>(addr, len).
     if unat len > (BUF_SIZE + 1) div 2 then sendz ''E02'' s
     else bindR (alloca env (unat len)) (\<lambda>mem.
       let (err, mem, t) = target_mem_read mem addr len t in
       if err then sendz ''E01'' (put_target t s)
       else reply_hex (take (unat len) mem) (put_target t s))))"

text \<open>
  \<open>uint8_t arm_regs = _alloca(...)\<close> keeps one byte of the pointer and writes the registers
  through it: undefined whenever there are registers to write.
\<close>

definition handle_G :: "env \<Rightarrow> 'd server \<Rightarrow> 'd server result" where
  "handle_G env s = if_target s (\<lambda>t.
     if target_regs_size t \<noteq> 0 then Inl Crash
     else bindR (target_regs_write (env_fuel env) [] t) (\<lambda>t. sendz ''OK'' (put_target t s)))"

definition handle_M :: "env \<Rightarrow> nat \<Rightarrow> 'd server \<Rightarrow> 'd server result" where
  "handle_M env n s = if_target s (\<lambda>t.
     need (num2_at (sscanf (pbuf s) [Lit 0x4D, Hex None, Lit 0x2C, Hex None, Lit 0x3A, Pos])) (\<lambda>(addr, len, hex).
     if len > (of_nat n - of_nat hex) div 2 then sendz ''E02'' s
     else bindR (alloca env (unat len)) (\<lambda>mem.
       let (err, t) = target_mem_write addr (unhexify (drop hex (pbuf s)) (unat len)) t in
       sendz (if err then ''E01'' else ''OK'') (put_target t s))))"

definition handle_X :: "nat \<Rightarrow> 'd server \<Rightarrow> 'd server result" where
  "handle_X n s = if_target s (\<lambda>t.
     need (num2_at (sscanf (pbuf s) [Lit 0x58, Hex None, Lit 0x2C, Hex None, Lit 0x3A, Pos])) (\<lambda>(addr, len, bin).
     if len > of_nat n - of_nat bin then sendz ''E02'' s
     else let (err, t) = target_mem_write addr (take (unat len) (drop bin (pbuf s))) t in
       sendz (if err then ''E01'' else ''OK'') (put_target t s)))"

definition handle_p :: "env \<Rightarrow> 'd server \<Rightarrow> 'd server result" where
  "handle_p env s = if_target s (\<lambda>t.
     need (num1 (sscanf (pbuf s) [Lit 0x70, Hex None])) (\<lambda>reg.
     let (n, val, t) = target_reg_read reg (env_junk env 8) t in
     if n > 0
     then if unat n \<le> length val then reply_hex (take (unat n) val) (put_target t s) else Inl Crash
     else sendz ''EFF'' (put_target t s)))"

text \<open>
  The buffer has half as many bytes as there are digits, but \<open>sizeof(val)\<close> is the size of the
  pointer, so always four bytes are decoded and written.
\<close>

definition handle_P :: "env \<Rightarrow> 'd server \<Rightarrow> 'd server result" where
  "handle_P env s = if_target s (\<lambda>t.
     need (num1_at (sscanf (pbuf s) [Lit 0x50, Hex None, Lit 0x3D, Pos])) (\<lambda>(reg, n).
     bindR (alloca env (length (c_string (drop n (pbuf s))) div 2)) (\<lambda>val.
     if length (c_string (drop n (pbuf s))) div 2 < 4 then Inl Crash
     else let (k, t) = target_reg_write reg (unhexify (drop n (pbuf s)) 4) t in
       sendz (if k > 0 then ''OK'' else ''EFF'') (put_target t s))))"

section \<open>Running\<close>

text \<open>Waiting for the target to halt; a Ctrl-C or an end of transmission asks it to.\<close>

fun halt_wait :: "nat \<Rightarrow> 'd target \<Rightarrow> gdbif \<Rightarrow> (halt_reason \<times> u32 \<times> 'd target \<times> gdbif) result" where
  "halt_wait fuel t g =
     (let (reason, watch, t) = target_halt_poll t in
      if reason \<noteq> HALT_RUNNING then Inr (reason, watch, t, g)
      else case fuel of
             0 \<Rightarrow> Inl Spinning
           | Suc fuel \<Rightarrow>
               bindR (gdb_if_getchar_to g) (\<lambda>(c, g).
                 halt_wait fuel (if c = 0x03 \<or> c = 0x04 then target_halt_request t else t) g))"

declare halt_wait.simps [simp del]

definition stop_reply :: "halt_reason \<Rightarrow> u32 \<Rightarrow> u8 list" where
  "stop_reply reason watch =
     (case reason of
        HALT_ERROR \<Rightarrow> str ''X'' @ fmt_02X GDB_SIGLOST
      | HALT_REQUEST \<Rightarrow> str ''T'' @ fmt_02X GDB_SIGINT
      | HALT_WATCHPOINT \<Rightarrow> str ''T'' @ fmt_02X GDB_SIGTRAP @ str ''watch:'' @ fmt_08X watch @ str '';''
      | HALT_FAULT \<Rightarrow> str ''T'' @ fmt_02X GDB_SIGSEGV
      | _ \<Rightarrow> str ''T'' @ fmt_02X GDB_SIGTRAP)"

definition handle_halt_reason :: "env \<Rightarrow> 'd server \<Rightarrow> 'd server result" where
  "handle_halt_reason env s =
     (case cur_target s of
        None \<Rightarrow> sendz ''W00'' s
      | Some i \<Rightarrow> with_target (Some i) (targets s) (\<lambda>t.
          bindR (halt_wait (env_fuel env) t (chan s)) (\<lambda>(reason, watch, t, g).
            sendf env (stop_reply reason watch) (put_target t (s\<lparr>chan := g\<rparr>)))))"

text \<open>The result says whether the variable \<open>single_step\<close> of the loop is still set.\<close>

definition handle_resume :: "env \<Rightarrow> bool \<Rightarrow> 'd server \<Rightarrow> (bool \<times> 'd server) result" where
  "handle_resume env single_step s =
     (case cur_target s of
        None \<Rightarrow> bindR (sendz ''X1D'' s) (\<lambda>s. Inr (single_step, s))
      | Some i \<Rightarrow> with_target (Some i) (targets s) (\<lambda>t.
          bindR (handle_halt_reason env (put_target (target_halt_resume single_step t) s))
            (\<lambda>s. Inr (False, s))))"

section \<open>Attaching, detaching, resetting\<close>

definition handle_D :: "'d server \<Rightarrow> 'd server result" where
  "handle_D s =
     bindR (case cur_target s of
              None \<Rightarrow> Inr s
            | Some i \<Rightarrow> with_target (Some i) (targets s) (\<lambda>t. Inr (put_target (target_detach t) s)))
       (\<lambda>s. sendz ''OK'' (s\<lparr>last_target := cur_target s, cur_target := None\<rparr>))"

definition handle_k :: "'d server \<Rightarrow> 'd server result" where
  "handle_k s =
     (case cur_target s of
        None \<Rightarrow> Inr s
      | Some i \<Rightarrow> with_target (Some i) (targets s) (\<lambda>t.
          let s = put_target (target_detach (target_reset t)) s in
          Inr (s\<lparr>last_target := cur_target s, cur_target := None\<rparr>)))"

definition reset_cur :: "'d server \<Rightarrow> 'd server result" where
  "reset_cur s = with_target (cur_target s) (targets s) (\<lambda>t. Inr (put_target (target_reset t) s))"

definition handle_R :: "'d server \<Rightarrow> 'd server result" where
  "handle_R s =
     (case cur_target s of
        Some i \<Rightarrow> reset_cur s
      | None \<Rightarrow>
          (case last_target s of
             None \<Rightarrow> Inr s
           | Some i \<Rightarrow> bindR (attach_cur i s) reset_cur))"

section \<open>Queries\<close>

definition handle_q_string_reply :: "env \<Rightarrow> u8 list \<Rightarrow> u8 list \<Rightarrow> 'd server \<Rightarrow> 'd server result" where
  "handle_q_string_reply env text param s =
     (case num2 (sscanf param [Hex (Some 8), Lit 0x2C, Hex (Some 8)]) of
        None \<Rightarrow> sendz ''E01'' s
      | Some (addr, len) \<Rightarrow>
          if unat addr < length text
          then bindR (alloca env (unat (len + 2))) (\<lambda>reply.
            if unat (len + 2) < unat len then Inl Crash
            else send_bytes (0x6D # take (unat len) (drop (unat addr) text)) s)
          else if unat addr = length text then sendz ''l'' s
          else sendz ''E01'' s)"

definition query_target ::
    "'d server \<Rightarrow> ('d target \<Rightarrow> 'd server \<Rightarrow> 'd server result) \<Rightarrow> 'd server result" where
  "query_target s k =
     (case cur_target s of
        None \<Rightarrow> sendz ''E01'' s
      | Some i \<Rightarrow> with_target (Some i) (targets s) (\<lambda>t. k t s))"

definition handle_qRcmd :: "env \<Rightarrow> nat \<Rightarrow> 'd server \<Rightarrow> 'd server result" where
  "handle_qRcmd env n s =
     (let datalen = (n - 6) div 2 in
      bindR (alloca env (datalen + 1)) (\<lambda>_.
      let data = unhexify (drop 6 (pbuf s)) datalen @ [0];
          reply = (\<lambda>c. if sint c < 0 then '''' else if c = 0 then ''OK'' else ''E'')
      in case cur_target s of
           None \<Rightarrow> bindR (command_process (None :: 'd target option) data) (\<lambda>(c, _). sendz (reply c) s)
         | Some i \<Rightarrow> with_target (Some i) (targets s) (\<lambda>t.
             bindR (command_process (Some t) data) (\<lambda>(c, t').
               sendz (reply c) (case t' of None \<Rightarrow> s | Some t' \<Rightarrow> put_target t' s)))))"

definition handle_q_packet :: "env \<Rightarrow> nat \<Rightarrow> 'd server \<Rightarrow> 'd server result" where
  "handle_q_packet env n s =
     (if starts_with (pbuf s) ''qRcmd,'' then handle_qRcmd env n s
      else if starts_with (pbuf s) ''qSupported''
      then sendf env (str ''PacketSize='' @ fmt_X (of_nat BUF_SIZE) @
             str '';qXfer:memory-map:read+;qXfer:features:read+'') s
      else if starts_with (pbuf s) ''qXfer:memory-map:read::''
      then bindR (reattach s) (\<lambda>s. query_target s (\<lambda>t s.
             bindR (target_mem_map t (env_junk env 1024) 1024) (\<lambda>(_, buf).
               handle_q_string_reply env (c_string buf) (drop 23 (pbuf s)) s)))
      else if starts_with (pbuf s) ''qXfer:features:read:target.xml:''
      then bindR (reattach s) (\<lambda>s. query_target s (\<lambda>t s.
             handle_q_string_reply env (c_string (target_tdesc t)) (drop 31 (pbuf s)) s))
      else case num2 (sscanf (pbuf s) (lits ''qCRC:'' @ [Hex None, Lit 0x2C, Hex None])) of
             Some (addr, alen) \<Rightarrow> query_target s (\<lambda>t s.
               let (crc, t) = generic_crc32 (env_junk env 128) addr alen t in
               sendf env (str ''C'' @ fmt_x crc) (put_target t s))
           | None \<Rightarrow> send_bytes [] s)"

section \<open>The v packets\<close>

text \<open>
  The command line of \<open>vRun\<close>, decoded into an array of 83 bytes. The loop stops when the
  string in the array has 80 characters, but the write position also advances over decoded
  zero bytes, which the string length does not count.
\<close>

definition CMDLINE_ROOM :: nat where "CMDLINE_ROOM = 83"

definition poke :: "nat \<Rightarrow> u8 list \<Rightarrow> u8 list \<Rightarrow> u8 list result" where
  "poke i bs buf = (if i + length bs \<le> length buf then Inr (blit i bs buf) else Inl Crash)"

fun vrun_parse :: "u8 list \<Rightarrow> nat \<Rightarrow> u8 list \<Rightarrow> u8 list result" where
  "vrun_parse buf i [] = Inr (c_string buf)"
| "vrun_parse buf i (c # tok) =
     (if length (c_string buf) + 3 \<ge> CMDLINE_ROOM then Inr (c_string buf)
      else if c = 0x3B then bindR (poke i [0x20, 0] buf) (\<lambda>buf. vrun_parse buf (Suc i) tok)
      else case tok of
             [] \<Rightarrow> Inr (c_string buf)
           | d # tok \<Rightarrow>
               if isxdigit c \<and> isxdigit d
               then let b = push_bit 4 (unhex_digit c) OR unhex_digit d in
                    if b = 0x20 \<or> b = 0x5C
                    then bindR (poke i [0x5C, b, 0] buf) (\<lambda>buf. vrun_parse buf (i + 2) tok)
                    else bindR (poke i [b, 0] buf) (\<lambda>buf. vrun_parse buf (Suc i) tok)
               else Inr (c_string buf))"

definition vrun_cmdline :: "env \<Rightarrow> u8 list \<Rightarrow> u8 list result" where
  "vrun_cmdline env packet =
     (let tok = drop 4 (c_string packet);
          tok = (case tok of c # cs \<Rightarrow> if c = 0x3B then cs else tok | [] \<Rightarrow> [])
      in bindR (poke 0 [0] (env_junk env CMDLINE_ROOM)) (\<lambda>buf. vrun_parse buf 0 tok))"

definition run_target :: "u8 list \<Rightarrow> 'd server \<Rightarrow> 'd server result" where
  "run_target cl s =
     (case cur_target s of
        None \<Rightarrow> sendz ''E01'' s
      | Some i \<Rightarrow> with_target (Some i) (targets s) (\<lambda>t.
          bindR (target_set_cmdline cl t) (\<lambda>t.
            sendz ''T05'' (put_target (target_reset t) s))))"

definition handle_vRun :: "env \<Rightarrow> 'd server \<Rightarrow> 'd server result" where
  "handle_vRun env s =
     bindR (vrun_cmdline env (pbuf s)) (\<lambda>cl. bindR (reattach s) (run_target cl))"

definition handle_vFlashErase :: "u32 \<Rightarrow> u32 \<Rightarrow> 'd server \<Rightarrow> 'd server result" where
  "handle_vFlashErase addr len s = if_target s (\<lambda>t.
     let t = (if flash_mode s then t else target_reset t);
         (ret, d) = target_flash_erase (flash t) addr len (t_dev t);
         s = put_target (t\<lparr>t_dev := d\<rparr>) (s\<lparr>flash_mode := True\<rparr>)
     in if ret = 0 then sendz ''OK'' s else sendz ''EFF'' (s\<lparr>flash_mode := False\<rparr>))"

definition handle_vFlashWrite :: "env \<Rightarrow> u32 \<Rightarrow> nat \<Rightarrow> nat \<Rightarrow> 'd server \<Rightarrow> 'd server result" where
  "handle_vFlashWrite env addr bin n s =
     (case cur_target s of
        None \<Rightarrow> sendz ''EFF'' (s\<lparr>flash_mode := False\<rparr>)
      | Some i \<Rightarrow> with_target (Some i) (targets s) (\<lambda>t.
          bindR (target_flash_write (env_malloc env) addr (take (n - bin) (drop bin (pbuf s))) (flash t) (t_dev t))
            (\<lambda>(ret, fl, d).
              let s = put_target (t\<lparr>flash := fl, t_dev := d\<rparr>) s in
              if ret = 0 then sendz ''OK'' s else sendz ''EFF'' (s\<lparr>flash_mode := False\<rparr>))))"

definition handle_vFlashDone :: "'d server \<Rightarrow> 'd server result" where
  "handle_vFlashDone s = with_target (cur_target s) (targets s) (\<lambda>t.
     let (ret, fl, d) = target_flash_done (flash t) (t_dev t);
         s = put_target (t\<lparr>flash := fl, t_dev := d\<rparr>) s
     in bindR (sendz (if ret \<noteq> 0 then ''EFF'' else ''OK'') s) (\<lambda>s. Inr (s\<lparr>flash_mode := False\<rparr>)))"

definition handle_v_packet :: "env \<Rightarrow> nat \<Rightarrow> 'd server \<Rightarrow> 'd server result" where
  "handle_v_packet env n s =
     (case num1 (sscanf (pbuf s) (lits ''vAttach;'' @ [Hex (Some 8)])) of
        Some addr \<Rightarrow> bindR (attach_number (sint addr) s) (\<lambda>s.
          sendz (if cur_target s \<noteq> None then ''T05'' else ''E01'') s)
      | None \<Rightarrow>
          if starts_with (pbuf s) ''vRun'' then handle_vRun env s
          else (case num2 (sscanf (pbuf s) (lits ''vFlashErase:'' @ [Hex (Some 8), Lit 0x2C, Hex (Some 8)])) of
                 Some (addr, len) \<Rightarrow> handle_vFlashErase addr len s
               | None \<Rightarrow>
                   let items = sscanf (pbuf s) (lits ''vFlashWrite:'' @ [Hex (Some 8), Lit 0x3A, Pos]) in
                   if num1 items \<noteq> None
                   then need (num1_at items) (\<lambda>(addr, bin). handle_vFlashWrite env addr bin n s)
                   else if equals (pbuf s) ''vFlashDone'' then handle_vFlashDone s
                   else send_bytes [] s))"

section \<open>Break- and watchpoints\<close>

definition handle_z_packet :: "env \<Rightarrow> 'd server \<Rightarrow> 'd server result" where
  "handle_z_packet env s = with_target (cur_target s) (targets s) (\<lambda>t.
     let set = (pbuf s ! 0 = 0x5A);
         ty = scast (pbuf s ! 1) - 0x30
     in need (num2 (sscanf (drop 2 (pbuf s)) [Lit 0x2C, Hex None, Lit 0x2C, Dec])) (\<lambda>(addr, len).
          let (ret, t) = (if set then target_breakwatch_set (env_malloc_ok env) ty addr len t
                          else target_breakwatch_clear ty addr len t)
          in sendz (if sint ret < 0 then ''E01'' else if sint ret > 0 then '''' else ''OK'')
               (put_target t s)))"

section \<open>The main loop\<close>

datatype outcome = Next bool | Return u32

definition handle_F :: "env \<Rightarrow> bool \<Rightarrow> bool \<Rightarrow> 'd server \<Rightarrow> (outcome \<times> 'd server) result" where
  "handle_F env in_syscall single_step s =
     (if in_syscall
      then let (ret, err, intr) = hostio_reply (env_ret0 env) (env_err0 env) (pbuf s) in
           Inr (Return ret, s\<lparr>tc_errno := err, tc_interrupted := intr\<rparr>)
      else bindR (sendz '''' s) (\<lambda>s. Inr (Next single_step, s)))"

text \<open>The packets that neither resume the target nor end the loop.\<close>

definition gdb_simple :: "env \<Rightarrow> nat \<Rightarrow> 'd server \<Rightarrow> 'd server result" where
  "gdb_simple env n s =
     (let c = pbuf s ! 0 in
      if c = 0x67 then handle_g env s
      else if c = 0x6D then handle_m env s
      else if c = 0x47 then handle_G env s
      else if c = 0x4D then handle_M env n s
      else if c = 0x3F then handle_halt_reason env s
      else if c = 0x70 then handle_p env s
      else if c = 0x50 then handle_P env s
      else if c = 0x21 then sendz ''OK'' s
      else if c = 0x04 \<or> c = 0x44 then handle_D s
      else if c = 0x6B then handle_k s
      else if c = 0x72 \<or> c = 0x52 then handle_R s
      else if c = 0x58 then handle_X n s
      else if c = 0x71 then handle_q_packet env n s
      else if c = 0x76 then handle_v_packet env n s
      else if c = 0x5A \<or> c = 0x7A then if_target s (\<lambda>_. handle_z_packet env s)
      else sendz '''' s)"

definition gdb_dispatch :: "env \<Rightarrow> bool \<Rightarrow> bool \<Rightarrow> nat \<Rightarrow> 'd server \<Rightarrow> (outcome \<times> 'd server) result" where
  "gdb_dispatch env in_syscall single_step n s =
     (let c = pbuf s ! 0 in
      if c = 0x73 \<or> c = 0x63
      then bindR (handle_resume env (c = 0x73 \<or> single_step) s) (\<lambda>(st, s). Inr (Next st, s))
      else if c = 0x46 then handle_F env in_syscall single_step s
      else bindR (gdb_simple env n s) (\<lambda>s. Inr (Next single_step, s)))"

text \<open>
  No handler puts anything back into the channel: after each packet there is less to receive
  than before, so the loop ends once the input is used up (then \<open>Blocked\<close>).
\<close>

definition pending :: "'d server \<Rightarrow> nat" where
  "pending s = length (recv_q (chan s))"

lemma pending_update [simp]:
  "pending (s\<lparr>targets := ts\<rparr>) = pending s" "pending (s\<lparr>cur_target := c\<rparr>) = pending s"
  "pending (s\<lparr>last_target := l\<rparr>) = pending s" "pending (s\<lparr>flash_mode := f\<rparr>) = pending s"
  "pending (s\<lparr>pbuf := b\<rparr>) = pending s" "pending (s\<lparr>tc_errno := e\<rparr>) = pending s"
  "pending (s\<lparr>tc_interrupted := i\<rparr>) = pending s" "pending (put_target t s) = pending s"
  "pending (s\<lparr>chan := g\<rparr>) = length (recv_q g)"
  by (simp_all add: pending_def put_target_def)

lemma chan_put_target [simp]: "chan (put_target t s) = chan s"
  by (simp add: put_target_def)

lemma put_frame_recv: "recv_q (put_frame packet g) = recv_q g"
  by (simp add: put_frame_def put_payload_fold Let_def)

lemma put_tries_recv: "put_tries n packet g = Inr g' \<Longrightarrow> length (recv_q g') \<le> length (recv_q g)"
proof (induction n packet g rule: put_tries.induct)
  case (1 n packet g)
  obtain c h where h: "gdb_if_getchar_to (put_frame packet g) = Inr (c, h)"
    using "1.prems" by (auto simp: bindR_Inr_iff)
  have le: "length (recv_q h) \<le> length (recv_q g)"
    using getchar_to_consumes [OF h] by (simp add: put_frame_recv)
  show ?case
  proof (cases "c \<noteq> 0x2B \<and> n \<noteq> 0")
    case True
    then obtain m where m: "n = Suc m" by (cases n) auto
    with "1.prems" h True have "put_tries m packet h = Inr g'" by simp
    with "1.IH" [OF h refl _ m] True le show ?thesis by fastforce
  next
    case False
    with "1.prems" h have "g' = h" by (auto split: nat.splits if_splits)
    with le show ?thesis by simp
  qed
qed

definition quiet :: "'d server \<Rightarrow> 'd server result \<Rightarrow> bool" where
  "quiet s r \<longleftrightarrow> (\<forall>s'. r = Inr s' \<longrightarrow> pending s' \<le> pending s)"

lemma quietD: "quiet s r \<Longrightarrow> r = Inr s' \<Longrightarrow> pending s' \<le> pending s"
  by (simp add: quiet_def)

lemma quiet_send:
  "pending s \<le> pending s0 \<Longrightarrow> quiet s0 (send_bytes bs s)"
  "pending s \<le> pending s0 \<Longrightarrow> quiet s0 (sendz z s)"
  "pending s \<le> pending s0 \<Longrightarrow> quiet s0 (sendf env bs s)"
  unfolding quiet_def send_bytes_def sendz_def sendf_def gdb_putpacketz_def gdb_putpacket_def
    gdb_putpacket_f_def
  by (auto simp: bindR_Inr_iff pending_def Let_def simp del: put_tries.simps
      dest!: put_tries_recv split: prod.splits if_splits)

lemma quiet_Inl: "quiet s0 (Inl e)"
  by (simp add: quiet_def)

lemma quiet_Inr: "pending s \<le> pending s0 \<Longrightarrow> quiet s0 (Inr s)"
  by (simp add: quiet_def)

lemma quiet_bind: "(\<And>x. m = Inr x \<Longrightarrow> quiet s0 (k x)) \<Longrightarrow> quiet s0 (bindR m k)"
  by (auto simp: quiet_def bindR_Inr_iff)

lemma quiet_seq:
  "quiet s0 m \<Longrightarrow> (\<And>s. pending s \<le> pending s0 \<Longrightarrow> quiet s0 (k s)) \<Longrightarrow> quiet s0 (bindR m k)"
  by (fastforce simp: quiet_def bindR_Inr_iff)

lemma quiet_need: "(\<And>x. quiet s0 (k x)) \<Longrightarrow> quiet s0 (need v k)"
  by (auto simp: quiet_def need_def split: option.splits)

lemma quiet_with_target: "(\<And>t. quiet s0 (k t)) \<Longrightarrow> quiet s0 (with_target p ts k)"
  by (auto simp: quiet_def with_target_def split: option.splits)

lemma quiet_if_target:
  "pending s \<le> pending s0 \<Longrightarrow> (\<And>t. quiet s0 (k t)) \<Longrightarrow> quiet s0 (if_target s k)"
  by (auto simp: if_target_def intro!: quiet_send quiet_with_target split: option.split)

lemma quiet_reply_hex: "pending s \<le> pending s0 \<Longrightarrow> quiet s0 (reply_hex bs s)"
  unfolding reply_hex_def hexify_pbuf_def
  by (rule quiet_bind) (auto intro!: quiet_send split: if_splits)

lemmas quiet_rules = quiet_bind quiet_need quiet_with_target quiet_if_target quiet_reply_hex
  quiet_send quiet_Inl quiet_Inr

lemma quiet_registers:
  "quiet s (handle_g env s)" "quiet s (handle_m env s)" "quiet s (handle_G env s)"
  "quiet s (handle_M env n s)" "quiet s (handle_X n s)" "quiet s (handle_p env s)" "quiet s (handle_P env s)"
  unfolding handle_g_def handle_m_def handle_G_def handle_M_def handle_X_def handle_p_def handle_P_def Let_def
  by (auto intro!: quiet_rules split: prod.split)

lemma halt_wait_recv:
  "halt_wait fuel t g = Inr (r, w, t', g') \<Longrightarrow> length (recv_q g') \<le> length (recv_q g)"
proof (induction fuel arbitrary: t g)
  case 0
  then show ?case by (subst (asm) halt_wait.simps) (auto split: prod.splits if_splits)
next
  case (Suc fuel)
  obtain reason watch u where p: "target_halt_poll t = (reason, watch, u)" by (metis prod_cases3)
  show ?case
  proof (cases "reason = HALT_RUNNING")
    case True
    with Suc.prems p obtain c h where "gdb_if_getchar_to g = Inr (c, h)"
      "halt_wait fuel (if c = 0x03 \<or> c = 0x04 then target_halt_request u else u) h = Inr (r, w, t', g')"
      by (subst (asm) halt_wait.simps) (auto simp: bindR_Inr_iff)
    with Suc.IH getchar_to_consumes show ?thesis by (meson le_trans)
  next
    case False
    with Suc.prems p show ?thesis by (subst (asm) halt_wait.simps) simp
  qed
qed

lemma quiet_halt_reason: "pending s \<le> pending s0 \<Longrightarrow> quiet s0 (handle_halt_reason env s)"
  unfolding handle_halt_reason_def
  by (auto intro!: quiet_rules dest!: halt_wait_recv simp: pending_def split: option.split prod.split)

lemma quiet_attach: "pending s \<le> pending s0 \<Longrightarrow> quiet s0 (attach_cur i s)"
  "pending s \<le> pending s0 \<Longrightarrow> quiet s0 (attach_number k s)"
  unfolding attach_cur_def attach_number_def by (auto intro!: quiet_rules split: prod.split)

lemma quiet_reattach: "pending s \<le> pending s0 \<Longrightarrow> quiet s0 (reattach s)"
  unfolding reattach_def by (auto intro!: quiet_attach quiet_Inr split: option.split)

lemma quiet_reset_cur: "pending s \<le> pending s0 \<Longrightarrow> quiet s0 (reset_cur s)"
  unfolding reset_cur_def by (auto intro!: quiet_rules)

lemma quiet_D_k_R: "quiet s (handle_D s)" "quiet s (handle_k s)" "quiet s (handle_R s)"
proof -
  show "quiet s (handle_D s)"
    unfolding handle_D_def by (rule quiet_seq) (auto intro!: quiet_rules split: option.split)
  show "quiet s (handle_k s)"
    unfolding handle_k_def by (auto intro!: quiet_rules simp: Let_def split: option.split)
  show "quiet s (handle_R s)"
    unfolding handle_R_def
    by (auto intro!: quiet_reset_cur quiet_seq quiet_attach quiet_Inr split: option.split)
qed

lemma quiet_string_reply: "pending s \<le> pending s0 \<Longrightarrow> quiet s0 (handle_q_string_reply env x y s)"
  unfolding handle_q_string_reply_def by (auto intro!: quiet_rules split: option.split)

lemma quiet_query_target:
  "pending s \<le> pending s0 \<Longrightarrow> (\<And>t. quiet s0 (k t s)) \<Longrightarrow> quiet s0 (query_target s k)"
  unfolding query_target_def by (auto intro!: quiet_rules split: option.split)

lemma quiet_qRcmd: "quiet s (handle_qRcmd env n s)"
  unfolding handle_qRcmd_def Let_def by (auto intro!: quiet_rules split: option.split prod.split)

lemma quiet_q: "quiet s (handle_q_packet env n s)"
  unfolding handle_q_packet_def Let_def
  by (auto intro!: quiet_send quiet_bind [where m = "target_mem_map t buf n" for t buf n] quiet_qRcmd
      quiet_seq [OF quiet_reattach] quiet_query_target quiet_string_reply split: option.split prod.split)

lemma quiet_run: "pending s \<le> pending s0 \<Longrightarrow> quiet s0 (run_target cl s)"
  unfolding run_target_def by (auto intro!: quiet_rules split: option.split)

lemma quiet_v_parts:
  "quiet s (handle_vRun env s)" "quiet s (handle_vFlashErase addr len s)"
  "quiet s (handle_vFlashWrite env addr bin n s)" "quiet s (handle_vFlashDone s)"
  "quiet s (bindR (attach_number k s) (\<lambda>s. sendz (z s) s))"
proof -
  show "quiet s (handle_vRun env s)"
    unfolding handle_vRun_def by (rule quiet_bind, rule quiet_seq [OF quiet_reattach]) (simp_all add: quiet_run)
  show "quiet s (handle_vFlashErase addr len s)"
    unfolding handle_vFlashErase_def Let_def by (auto intro!: quiet_rules split: prod.split)
  show "quiet s (handle_vFlashWrite env addr bin n s)"
    unfolding handle_vFlashWrite_def Let_def by (auto intro!: quiet_rules split: option.split prod.split)
  show "quiet s (handle_vFlashDone s)"
    unfolding handle_vFlashDone_def Let_def
    by (rule quiet_with_target) (auto intro!: quiet_seq quiet_send quiet_Inr split: prod.split)
  show "quiet s (bindR (attach_number k s) (\<lambda>s. sendz (z s) s))"
    by (rule quiet_seq [OF quiet_attach(2)]) (auto intro!: quiet_send)
qed

lemma quiet_v: "quiet s (handle_v_packet env n s)"
  unfolding handle_v_packet_def Let_def
  by (auto intro!: quiet_v_parts quiet_need quiet_send split: option.split)

lemma quiet_z: "quiet s (handle_z_packet env s)"
  unfolding handle_z_packet_def Let_def by (auto intro!: quiet_rules split: prod.split)

lemma quiet_simple: "quiet s (gdb_simple env n s)"
  unfolding gdb_simple_def Let_def
  by (simp add: quiet_registers quiet_halt_reason quiet_D_k_R quiet_q quiet_v quiet_send
      quiet_if_target [OF _ quiet_z])

lemma resume_pending:
  assumes "handle_resume env b s = Inr (st, s')"
  shows "pending s' \<le> pending s"
proof (cases "cur_target s")
  case None
  with assms show ?thesis
    using quietD [OF quiet_send(2) [of s s]] by (auto simp: handle_resume_def bindR_Inr_iff)
next
  case (Some i)
  with assms obtain t where
    "handle_halt_reason env (put_target (target_halt_resume b t) s) = Inr s'"
    by (auto simp: handle_resume_def bindR_Inr_iff with_target_def split: option.splits)
  then show ?thesis by (rule quietD [OF quiet_halt_reason, rotated]) simp
qed

lemma dispatch_pending:
  assumes "gdb_dispatch env in_syscall st n s = Inr (out, s')"
  shows "pending s' \<le> pending s"
  using assms resume_pending quietD [OF quiet_send(2) [of s s]] quietD [OF quiet_simple]
  by (auto simp: gdb_dispatch_def handle_F_def Let_def bindR_Inr_iff split: if_splits prod.splits)

lemma getpacket_consumes:
  "gdb_getpacket packet sz g = Inr (n, packet', g') \<Longrightarrow> length (recv_q g') < length (recv_q g)"
proof (induction packet sz g rule: gdb_getpacket.induct)
  case (1 packet sz g)
  from "1.prems" obtain e p1 g1 where ws: "gdb_wait_start packet g = Inr (e, p1, g1)"
    by (subst (asm) gdb_getpacket.simps) (auto simp: bindR_Inr_iff)
  note w = wait_start_consumes [OF ws]
  show ?case
  proof (cases e)
    case True
    with "1.prems" ws w show ?thesis by (subst (asm) gdb_getpacket.simps) auto
  next
    case False
    with "1.prems" ws obtain p2 i cs g2 c0 g3 c1 g4 where
      cap: "gdb_capture sz p1 0 0 g1 = Inr (p2, i, cs, g2)"
      and c0: "gdb_if_getchar g2 = Inr (c0, g3)" and c1: "gdb_if_getchar g3 = Inr (c1, g4)"
      and r: "(if int (unat cs) = strtol16 [c0, c1]
        then Inr (i, p2[i := 0], gdb_if_putchar 0x2B True g4)
        else gdb_getpacket p2 sz (gdb_if_putchar 0x2D True g4)) = Inr (n, packet', g')"
      by (subst (asm) gdb_getpacket.simps) (auto simp: bindR_Inr_iff)
    note IH = "1.IH" [OF ws refl refl False cap refl refl refl c0 refl c1 refl]
    show ?thesis
      using r w capture_consumes [OF cap] getchar_consumes [OF c0] getchar_consumes [OF c1] IH
      by (auto split: if_splits)
  qed
qed

function gdb_main_loop :: "env \<Rightarrow> bool \<Rightarrow> bool \<Rightarrow> 'd server \<Rightarrow> (u32 \<times> 'd server) result" where
  "gdb_main_loop env in_syscall single_step s =
     bindR (gdb_getpacket (pbuf s) BUF_SIZE (chan s)) (\<lambda>(n, buf, g).
     bindR (gdb_dispatch env in_syscall single_step n (s\<lparr>pbuf := buf, chan := g\<rparr>)) (\<lambda>(out, s).
       case out of
         Return r \<Rightarrow> Inr (r, s)
       | Next st \<Rightarrow> gdb_main_loop env in_syscall st s))"
  by pat_completeness auto
termination
proof (relation "measure (\<lambda>(env, sys, st, s). pending s)", goal_cases)
  case 1
  then show ?case by simp
next
  case (2 env in_syscall single_step s x n y buf g xa out s' st)
  then show ?case
    using dispatch_pending [of env in_syscall single_step n "s\<lparr>pbuf := buf, chan := g\<rparr>" out s']
      getpacket_consumes [of "pbuf s" BUF_SIZE "chan s" n buf g]
    by (simp add: pending_def)
qed

declare gdb_main_loop.simps [simp del]

text \<open>
  \<open>gdb_controller\<close>: the host calls, each a request packet followed by the nested main loop;
  and \<open>gdb_main\<close>, whose initialisation of the probes (\<open>gdbInit\<close>) is an argument.
\<close>

definition nested_loop :: "env \<Rightarrow> 'd server \<Rightarrow> (u32 \<times> 'd server) result" where
  "nested_loop env s = gdb_main_loop env True False s"

fun call1 where "call1 f [a] s = f a s" | "call1 f _ s = Inl Crash"
fun call2 where "call2 f [a, b] s = f a b s" | "call2 f _ s = Inl Crash"
fun call3 where "call3 f [a, b, c] s = f a b c s" | "call3 f _ s = Inl Crash"
fun call4 where "call4 f [a, b, c, d] s = f a b c d s" | "call4 f _ s = Inl Crash"

definition gdb_controller :: "env \<Rightarrow> 'd server target_controller" where
  "gdb_controller env =
     \<lparr>tc_set_errno = (\<lambda>e s. s\<lparr>tc_errno := e\<rparr>),
      open_fn = Some (call4 (hostio_open (sendf env) (nested_loop env))),
      close_fn = Some (call1 (hostio_close (sendf env) (nested_loop env))),
      read_fn = Some (call3 (hostio_read (sendf env) (nested_loop env))),
      write_fn = Some (call3 (hostio_write (sendf env) (nested_loop env))),
      lseek_fn = Some (call3 (hostio_lseek (sendf env) (nested_loop env))),
      rename_fn = Some (call4 (hostio_rename (sendf env) (nested_loop env))),
      unlink_fn = Some (call2 (hostio_unlink (sendf env) (nested_loop env))),
      stat_fn = Some (call3 (hostio_stat (sendf env) (nested_loop env))),
      fstat_fn = Some (call2 (hostio_fstat (sendf env) (nested_loop env))),
      gettimeofday_fn = Some (call2 (hostio_gettimeofday (sendf env) (nested_loop env))),
      isatty_fn = Some (call1 (hostio_isatty (sendf env) (nested_loop env))),
      system_fn = Some (call2 (hostio_system (sendf env) (nested_loop env)))\<rparr>"

definition gdb_main :: "env \<Rightarrow> ('d server \<Rightarrow> 'd server result) \<Rightarrow> 'd server \<Rightarrow> (u32 \<times> 'd server) result" where
  "gdb_main env gdbInit s =
     (let (ts, (cur, last)) =
            target_list_free gdb_target_destroy_callback (targets s) (cur_target s, last_target s)
      in bindR (gdbInit (s\<lparr>targets := ts, cur_target := cur, last_target := last\<rparr>))
           (gdb_main_loop env False False))"

section \<open>A packet from GDB\<close>

text \<open>What the buffer holds after the frame of \<open>data\<close> has arrived: the data, a zero, the rest.\<close>

lemma received_buffer:
  assumes "length data < length packet"
  shows "\<exists>rest. (blit 0 data (packet[0 := 0x24]))[length data := 0] = data @ 0 # rest"
proof -
  let ?p = "packet[0 := 0x24]"
  obtain x xs where d: "drop (length data) ?p = x # xs"
    using assms by (cases "drop (length data) ?p") auto
  have "(blit 0 data ?p)[length data := 0] = data @ 0 # xs"
    using assms d by (simp add: blit_def list_update_append)
  then show ?thesis by blast
qed

lemma loop_receives:
  assumes "conn (chan s) > 0" "length data \<le> BUF_SIZE" "length (pbuf s) = BUF_SIZE + 1"
    and "recv_q (chan s) = map Some (wire data) @ q"
  obtains rest where "gdb_main_loop env sys st s =
    bindR (gdb_dispatch env sys st (length data) (s\<lparr>pbuf := data @ 0 # rest,
        chan := gdb_if_putchar 0x2B True ((chan s)\<lparr>recv_q := q\<rparr>)\<rparr>)) (\<lambda>(out, s).
      case out of Return r \<Rightarrow> Inr (r, s) | Next st \<Rightarrow> gdb_main_loop env sys st s)"
proof -
  have room: "BUF_SIZE < length (pbuf s)" "length data < length (pbuf s)" using assms(2,3) by simp_all
  obtain rest where rest: "(blit 0 data ((pbuf s)[0 := 0x24]))[length data := 0] = data @ 0 # rest"
    using received_buffer [OF room(2)] by blast
  have "gdb_getpacket (pbuf s) BUF_SIZE (chan s) =
      Inr (length data, data @ 0 # rest, gdb_if_putchar 0x2B True ((chan s)\<lparr>recv_q := q\<rparr>))"
    using getpacket_wire [OF assms(1,2) room(1) assms(4)] rest by simp
  then show thesis
    by (intro that [of rest]) (subst gdb_main_loop.simps, simp)
qed

text \<open>A packet that is acknowledged at once is sent once.\<close>

lemma putpacket_acked:
  assumes "conn g > 0" "select_q g = True # sq" "recv_q g = Some 0x2B # q"
  shows "\<exists>g'. gdb_putpacket packet g = Inr g' \<and> conn g' = conn g \<and> recv_q g' = q \<and>
    select_q g' = sq \<and> written g' = written g @ wire packet"
proof -
  let ?h = "(put_frame packet g)\<lparr>select_q := sq, recv_q := q\<rparr>"
  have "gdb_if_getchar_to (put_frame packet g) = Inr (0x2B, ?h)"
    using assms put_frame_wire [OF assms(1), of packet]
    by (simp add: gdb_if_getchar_to_def getchar_connected)
  then have "gdb_putpacket packet g = Inr ?h"
    unfolding gdb_putpacket_def by (subst put_tries.simps) simp
  then show ?thesis
    using put_frame_wire [OF assms(1), of packet] by (intro exI [of _ ?h]) (simp add: written_def)
qed

lemma sendf_acked:
  assumes "conn (chan s) > 0" "select_q (chan s) = True # sq" "recv_q (chan s) = Some 0x2B # q"
    and "\<And>n. length (env_junk env n) = n" "length text \<le> 128"
  shows "\<exists>g. sendf env text s = Inr (s\<lparr>chan := g\<rparr>) \<and> conn g = conn (chan s) \<and> recv_q g = q \<and>
    select_q g = sq \<and> written g = written (chan s) @ wire text"
proof -
  obtain buf where v: "vasprintf (env_junk env) text = (buf, length text)" "length text \<le> length buf"
    "take (Suc (length text)) buf = text @ [0]"
    using vasprintf_fits [OF assms(4,5)] by blast
  have "take (length text) buf = take (length text) (take (Suc (length text)) buf)" by simp
  also have "\<dots> = text" unfolding v(3) by simp
  finally have "gdb_putpacket_f (env_junk env) text (chan s) = gdb_putpacket text (chan s)"
    using v(1,2) by (simp add: gdb_putpacket_f_def)
  with putpacket_acked [OF assms(1-3), of "text"] show ?thesis
    by (auto simp: sendf_def)
qed

text \<open>
  A host call from request to result: the request goes out, is acknowledged, and GDB's reply
  packet ends the nested main loop.
\<close>

lemma host_call_returns:
  assumes "conn (chan s) > 0" "select_q (chan s) = True # sq"
    and "recv_q (chan s) = Some 0x2B # map Some (wire (0x46 # fmt_x r @ 0x2C # fmt_x e)) @ q"
    and "length (pbuf s) = BUF_SIZE + 1" "\<And>n. length (env_junk env n) = n" "length text \<le> 128"
  shows "\<exists>s'. hostio_call (sendf env) (nested_loop env) text s = Inr (r, s') \<and> tc_errno s' = e \<and>
    \<not> tc_interrupted s' \<and> recv_q (chan s') = q \<and> targets s' = targets s \<and>
    written (chan s') = written (chan s) @ wire text @ [0x2B]"
proof -
  let ?data = "0x46 # fmt_x r @ 0x2C # fmt_x e"
  obtain g where g: "sendf env text s = Inr (s\<lparr>chan := g\<rparr>)" "conn g = conn (chan s)"
    "recv_q g = map Some (wire ?data) @ q" "written g = written (chan s) @ wire text"
    using sendf_acked [OF assms(1-3,5,6)] by blast
  have len: "length ?data \<le> BUF_SIZE"
    using length_fmt_x(1) [of r] length_fmt_x(1) [of e] by (simp add: BUF_SIZE_def)
  have up: "conn (chan (s\<lparr>chan := g\<rparr>)) > 0" and pb: "length (pbuf (s\<lparr>chan := g\<rparr>)) = BUF_SIZE + 1"
    and rq: "recv_q (chan (s\<lparr>chan := g\<rparr>)) = map Some (wire ?data) @ q"
    using g(2,3) assms(1,4) by simp_all
  obtain rest where l: "gdb_main_loop env True False (s\<lparr>chan := g\<rparr>) =
    bindR (gdb_dispatch env True False (length ?data) ((s\<lparr>chan := g\<rparr>)\<lparr>pbuf := ?data @ 0 # rest,
        chan := gdb_if_putchar 0x2B True ((chan (s\<lparr>chan := g\<rparr>))\<lparr>recv_q := q\<rparr>)\<rparr>)) (\<lambda>(out, s).
      case out of Return r \<Rightarrow> Inr (r, s) | Next st \<Rightarrow> gdb_main_loop env True st s)"
    by (rule loop_receives [OF up len pb rq, of env True False])
  have reply: "hostio_reply (env_ret0 env) (env_err0 env) (?data @ 0 # rest) = (r, e, False)"
    using hostio_reply_fields by simp
  show ?thesis
    using g l reply assms(1)
    by (simp add: hostio_call_def nested_loop_def gdb_dispatch_def handle_F_def)
qed

section \<open>The command line of vRun\<close>

text \<open>No two zero digits side by side, so that no byte decodes to zero.\<close>

fun zero_free :: "u8 list \<Rightarrow> bool" where
  "zero_free (c # d # tok) \<longleftrightarrow> \<not> (c = 0x30 \<and> d = 0x30) \<and> zero_free (d # tok)"
| "zero_free tok \<longleftrightarrow> True"

lemma zero_free_Cons: "zero_free (c # tok) \<Longrightarrow> zero_free tok"
  by (cases tok) auto

lemma decoded_nonzero:
  assumes "isxdigit c" "isxdigit d" "\<not> (c = 0x30 \<and> d = 0x30)"
  shows "push_bit 4 (unhex_digit c) OR unhex_digit d \<noteq> 0"
proof
  assume *: "push_bit 4 (unhex_digit c) OR unhex_digit d = 0"
  have less: "unat (unhex_digit c) < 16" "unat (unhex_digit d) < 16"
    using xdigit_facts [OF assms(1)] xdigit_facts [OF assms(2)] by (auto simp: unat_of_nat)
  have "unhex_digit c = 0" "unhex_digit d = 0"
    using join_nibbles [OF less] * by simp_all
  moreover have "x = 0x30" if "isxdigit x" "unhex_digit x = 0" for x
  proof -
    have "\<forall>x \<in> set xdigits. unhex_digit x = 0 \<longrightarrow> x = 0x30"
      by (simp add: xdigits_def unhex_digit_def)
    with that show ?thesis by (simp add: isxdigit_def)
  qed
  ultimately show False using assms by blast
qed

text \<open>The invariant of the loop: the write position is the length of the string so far.\<close>

definition line_at :: "u8 list \<Rightarrow> nat \<Rightarrow> bool" where
  "line_at buf i \<longleftrightarrow> length buf = CMDLINE_ROOM \<and> i < CMDLINE_ROOM \<and> buf ! i = 0 \<and> 0 \<notin> set (take i buf)"

lemma line_at_c_string:
  assumes "line_at buf i"
  shows "c_string buf = take i buf" "length (c_string buf) = i"
proof -
  have "buf = take i buf @ 0 # drop (Suc i) buf"
    using assms by (metis id_take_nth_drop line_at_def)
  then have "c_string buf = c_string (take i buf @ 0 # drop (Suc i) buf)" by simp
  also have "\<dots> = take i buf" using assms by (simp add: line_at_def c_string_def takeWhile_append)
  finally show "c_string buf = take i buf" .
  then show "length (c_string buf) = i" using assms by (simp add: line_at_def)
qed

lemma poke_line:
  assumes "line_at buf i" "0 \<notin> set bs" "i + length bs < CMDLINE_ROOM"
  shows "\<exists>buf'. poke i (bs @ [0]) buf = Inr buf' \<and> line_at buf' (i + length bs)"
proof -
  have len: "length buf = CMDLINE_ROOM" using assms(1) by (simp add: line_at_def)
  have "take (i + length bs) (blit i (bs @ [0]) buf) = take i buf @ bs"
    using len assms(3) by (simp add: blit_def)
  moreover have "blit i (bs @ [0]) buf ! (i + length bs) = 0"
    using len assms(3) by (simp add: nth_blit nth_append)
  ultimately show ?thesis
    using assms len by (simp add: poke_def line_at_def length_blit)
qed

lemma vrun_parse_safe:
  "line_at buf i \<Longrightarrow> zero_free tok \<Longrightarrow>
   \<exists>cl. vrun_parse buf i tok = Inr cl \<and> length cl < CMDLINE_ROOM"
proof (induction buf i tok rule: vrun_parse.induct)
  case (1 buf i)
  then show ?case using line_at_c_string(2) [OF "1.prems"(1)] by (simp add: line_at_def)
next
  case (2 buf i c tok)
  note len = line_at_c_string(2) [OF "2.prems"(1)]
  have i: "i < CMDLINE_ROOM" using "2.prems"(1) by (simp add: line_at_def)
  show ?case
  proof (cases "length (c_string buf) + 3 \<ge> CMDLINE_ROOM")
    case True
    with len i show ?thesis by simp
  next
    case room: False
    show ?thesis
    proof (cases "c = 0x3B")
      case True
      obtain buf' where "poke i [0x20, 0] buf = Inr buf'" "line_at buf' (Suc i)"
        using poke_line [OF "2.prems"(1), of "[0x20]"] room len by auto
      with "2.IH"(1) [OF room True, of buf'] zero_free_Cons [OF "2.prems"(2)] room True
      show ?thesis by simp
    next
      case plain: False
      show ?thesis
      proof (cases tok)
        case Nil
        with room plain len i show ?thesis by simp
      next
        case (Cons d tok')
        show ?thesis
        proof (cases "isxdigit c \<and> isxdigit d")
          case True
          let ?b = "push_bit 4 (unhex_digit c) OR unhex_digit d"
          have zf: "zero_free tok'" "\<not> (c = 0x30 \<and> d = 0x30)"
            using "2.prems"(2) Cons zero_free_Cons by auto
          have nz: "?b \<noteq> 0" using decoded_nonzero True zf(2) by blast
          show ?thesis
          proof (cases "?b = 0x20 \<or> ?b = 0x5C")
            case esc: True
            obtain buf' where "poke i [0x5C, ?b, 0] buf = Inr buf'" "line_at buf' (i + 2)"
              using poke_line [OF "2.prems"(1), of "[0x5C, ?b]"] room len nz by auto
            with "2.IH"(2) [OF room plain Cons True refl esc, of buf'] zf(1) room plain Cons True esc
            show ?thesis by simp
          next
            case no_esc: False
            obtain buf' where "poke i [?b, 0] buf = Inr buf'" "line_at buf' (Suc i)"
              using poke_line [OF "2.prems"(1), of "[?b]"] room len nz by auto
            with "2.IH"(3) [OF room plain Cons True refl no_esc, of buf'] zf(1) room plain Cons True no_esc
            show ?thesis by simp
          qed
        next
          case False
          have "vrun_parse buf i (c # tok) = Inr (c_string buf)"
            using room plain Cons False by auto
          with len i show ?thesis by simp
        qed
      qed
    qed
  qed
qed

lemma vrun_parse_zeros:
  "length buf = CMDLINE_ROOM \<Longrightarrow> buf ! 0 = 0 \<Longrightarrow> CMDLINE_ROOM \<le> i + n \<Longrightarrow> 0 < n \<Longrightarrow>
   vrun_parse buf i (concat (replicate n [0x30, 0x30])) = Inl Crash"
proof (induction n arbitrary: buf i)
  case 0
  then show ?case by simp
next
  case (Suc n)
  obtain x xs where "buf = x # xs" using Suc.prems(1) by (cases buf) (auto simp: CMDLINE_ROOM_def)
  with Suc.prems(2) have short: "c_string buf = []" by (simp add: c_string_def)
  have dig: "isxdigit 0x30" "push_bit 4 (unhex_digit 0x30) OR unhex_digit 0x30 = 0"
    by (simp_all add: isxdigit_def xdigits_def unhex_digit_def)
  show ?case
  proof (cases "i + 2 \<le> CMDLINE_ROOM")
    case True
    let ?buf = "blit i [0, 0] buf"
    have "length ?buf = CMDLINE_ROOM" using True Suc.prems(1) by (simp add: length_blit)
    moreover have "?buf ! 0 = 0" using True Suc.prems(1,2) by (simp add: nth_blit CMDLINE_ROOM_def)
    moreover have "CMDLINE_ROOM \<le> Suc i + n" "0 < n" using Suc.prems(3) True by simp_all
    ultimately have "vrun_parse ?buf (Suc i) (concat (replicate n [0x30, 0x30])) = Inl Crash"
      by (rule Suc.IH)
    then show ?thesis
      using short dig True Suc.prems(1) by (simp add: poke_def CMDLINE_ROOM_def)
  next
    case False
    then show ?thesis using short dig Suc.prems(1) by (simp add: poke_def CMDLINE_ROOM_def)
  qed
qed

section \<open>The loop outside host calls\<close>

lemma main_loop_no_return:
  "gdb_main_loop env False st s \<noteq> Inr (r, s')"
proof (induction env "False" st s rule: gdb_main_loop.induct)
  case (1 env st s)
  show ?case
  proof
    assume "gdb_main_loop env False st s = Inr (r, s')"
    then obtain n buf g out s1 where
      g: "gdb_getpacket (pbuf s) BUF_SIZE (chan s) = Inr (n, buf, g)" and
      d: "gdb_dispatch env False st n (s\<lparr>pbuf := buf, chan := g\<rparr>) = Inr (out, s1)" and
      r: "(case out of Return r \<Rightarrow> Inr (r, s1) | Next st \<Rightarrow> gdb_main_loop env False st s1) = Inr (r, s')"
      by (subst (asm) gdb_main_loop.simps) (auto simp: bindR_Inr_iff)
    show False
    proof (cases out)
      case (Next st')
      with "1" [OF g refl refl d refl Next] r show False by simp
    next
      case (Return x)
      with d show False
        by (auto simp: gdb_dispatch_def handle_F_def Let_def bindR_Inr_iff split: if_splits)
    qed
  qed
qed

section \<open>Properties\<close>

text \<open>
  C21: a semihosting write goes to GDB and its answer comes back. When the request packet is
  acknowledged and GDB then sends the reply \<open>Fr,e\<close>, \<open>tc_write\<close> of the GDB controller, which
  runs the main loop nested inside the call, returns \<open>r\<close>, records the error number \<open>e\<close>,
  acknowledges the reply, leaves the rest of the input for the outer loop, and has sent
  exactly the \<open>Fwrite\<close> request.
\<close>

theorem host_write_roundtrip:
  assumes "conn (chan s) > 0" "select_q (chan s) = True # sq"
    and "recv_q (chan s) = Some 0x2B # map Some (wire (0x46 # fmt_x r @ 0x2C # fmt_x e)) @ q"
    and "length (pbuf s) = BUF_SIZE + 1" "\<And>n. length (env_junk env n) = n"
  shows "\<exists>s'. tc_write (gdb_controller env) fd buf count s = Inr (r, s') \<and> tc_errno s' = e \<and>
    \<not> tc_interrupted s' \<and> recv_q (chan s') = q \<and> targets s' = targets s \<and>
    written (chan s') = written (chan s) @ wire (write_text fd buf count) @ [0x2B]"
proof -
  have "length (write_text fd buf count) \<le> 128"
    by (simp add: write_text_def comma_def length_fmt_08)
  from host_call_returns [OF assms this] show ?thesis
    by (simp add: tc_write_def gdb_controller_def host_or_def hostio_write_def)
qed

definition demo_env :: env where
  "demo_env = \<lparr>env_malloc = (\<lambda>n. Some (replicate (unat n) 0)), env_malloc_ok = True,
     env_junk = (\<lambda>n. replicate n 0), env_stack = 65536, env_ret0 = 0, env_err0 = 0, env_fuel = 100\<rparr>"

definition demo_server :: "gdbif \<Rightarrow> unit server" where
  "demo_server g = \<lparr>chan = g, pbuf = replicate 1025 0, targets = [], cur_target = None,
     last_target = None, flash_mode = False, tc_errno = 0, tc_interrupted = False\<rparr>"

theorem host_write_roundtrip_witness:
  "let s = demo_server ((idle (Some 0x2B # map Some (wire (0x46 # fmt_x 5 @ 0x2C # fmt_x 0))))
             \<lparr>select_q := [True]\<rparr>) in
   \<exists>s'. tc_write (gdb_controller demo_env) 1 0x20000000 5 s = Inr (5, s') \<and> tc_errno s' = 0 \<and>
     recv_q (chan s') = []"
proof -
  let ?s = "demo_server ((idle (Some 0x2B # map Some (wire (0x46 # fmt_x 5 @ 0x2C # fmt_x 0))))
             \<lparr>select_q := [True]\<rparr>)"
  have "conn (chan ?s) > 0" "select_q (chan ?s) = True # []" "length (pbuf ?s) = BUF_SIZE + 1"
    "recv_q (chan ?s) = Some 0x2B # map Some (wire (0x46 # fmt_x 5 @ 0x2C # fmt_x 0)) @ []"
    "\<And>n. length (env_junk demo_env n) = n"
    by (simp_all add: demo_server_def idle_def BUF_SIZE_def demo_env_def)
  from host_write_roundtrip [OF this(1,2,4,3,5), of 1 "0x20000000" 5] show ?thesis
    unfolding Let_def by blast
qed



text \<open>
  C22: the server never gives up by itself. Outside host calls \<open>gdb_main_loop\<close> does not return
  a result for any input: it consumes the packets one after the other, and ends only by
  waiting for input, by the end of the process, by undefined behaviour or in a polling loop.
\<close>

theorem main_loop_serves:
  "\<exists>fault. gdb_main_loop env False single_step s = Inl fault"
  using main_loop_no_return by (metis old.sum.exhaust surj_pair)

text \<open>
  A step without a target is not forgotten. \<open>s\<close> sets the variable \<open>single_step\<close> before it
  looks for a target; without one the packet is answered with \<open>X1D\<close> and the variable stays
  set, so the next \<open>c\<close> packet that finds a target resumes it for a single step.
\<close>

theorem step_without_target_sticks:
  assumes "cur_target s = None" "handle_resume env True s = Inr (st, s')"
    and "get_target i (targets s'') = Some t"
  shows "st = True \<and>
    handle_resume env (False \<or> st) (s''\<lparr>cur_target := Some i\<rparr>) =
      bindR (handle_halt_reason env (put_target (target_halt_resume True t) (s''\<lparr>cur_target := Some i\<rparr>)))
        (\<lambda>s. Inr (False, s))"
proof -
  have "st = True" using assms(1,2) by (auto simp: handle_resume_def bindR_Inr_iff)
  then show ?thesis using assms(3) by (simp add: handle_resume_def with_target_def)
qed

theorem step_without_target_sticks_witness:
  "\<exists>s'. handle_resume demo_env True (demo_server (idle [])) = Inr (True, s')"
proof -
  let ?s = "demo_server (idle [])"
  have up: "conn (idle []) > 0" by (simp add: idle_def)
  obtain g where g: "gdb_putpacketz ''X1D'' (chan ?s) = Inr g"
  proof -
    have sel: "gdb_if_getchar_to h = Inr (-1, h)" if "select_q h = []" for h
      using that by (simp add: gdb_if_getchar_to_def)
    have fr: "select_q (put_frame p h) = select_q h" for p h
      by (simp add: put_frame_def put_payload_fold Let_def)
    have "put_tries n p h \<noteq> Inl e" if "select_q h = []" for n p h e
      using that
      by (induction n arbitrary: h) (simp_all add: sel fr)
    moreover have "select_q (chan ?s) = []" by (simp add: demo_server_def idle_def)
    ultimately show thesis
      using that unfolding gdb_putpacketz_def gdb_putpacket_def by (meson old.sum.exhaust)
  qed
  then have r: "handle_resume demo_env True ?s = Inr (True, ?s\<lparr>chan := g\<rparr>)"
    by (simp add: handle_resume_def sendz_def demo_server_def)
  have n: "cur_target ?s = None" by (simp add: demo_server_def)
  have "get_target 7 (targets (?s\<lparr>targets := [nop_target 7 ()]\<rparr>)) = Some (nop_target 7 ())"
    by (simp add: get_target_def nop_target_def)
  from step_without_target_sticks [OF n r this] r show ?thesis by blast
qed

end
