(* ===== verification/Stm32_Driver.thy ===== *)
theory Stm32_Driver
  imports Probe Gdb_Main
begin

text \<open>
  The target that the server offers to GDB: \<^verbatim>\<open>GdbServer/TargetsInit.cpp\<close>, which connects the
  functions of a target to the probe, and \<^verbatim>\<open>GdbServer/Gdb/stm32f1.c\<close>, its memories. The
  driver state of a target is the probe object behind \<open>t->priv\<close>. A C function that runs into
  undefined behaviour or an endless loop cannot say so through the interface of a target; the
  fault is kept in \<open>p_fault\<close>, and from then on no function of the driver does anything: the
  states after a fault stand for a process that got no further. Debug output is not modelled.
\<close>

section \<open>Running a command of the probe\<close>

definition on_probe :: "('d probe \<Rightarrow> ('a \<times> 'd probe) result) \<Rightarrow> 'a \<Rightarrow> 'd probe \<Rightarrow> 'a \<times> 'd probe" where
  "on_probe f x p =
     (if p_fault p \<noteq> None then (x, p)
      else case f p of Inl e \<Rightarrow> (x, p\<lparr>p_fault := Some e\<rparr>) | Inr r \<Rightarrow> r)"

section \<open>Registers\<close>

definition REG_SP :: u16 where "REG_SP = 13"
definition REG_xPSR :: u32 where "REG_xPSR = 0x10"
definition REG_MSP :: u32 where "REG_MSP = 0x11"
definition REG_PSP :: u32 where "REG_PSP = 0x12"
definition REG_CPPSR :: u32 where "REG_CPPSR = 0x19"

text \<open>
  \<open>std::copy\<close> of a vector of 32-bit registers to a \<open>uint8_t*\<close> assigns element by element: of
  each register one byte arrives.
\<close>

definition copy_regs :: "u32 list \<Rightarrow> u8 list \<Rightarrow> u8 list" where
  "copy_regs regs data = blit 0 (map ucast regs) data"

definition stm32_regs_read :: "'d iface \<Rightarrow> u8 list \<Rightarrow> 'd probe \<Rightarrow> u8 list \<times> 'd probe" where
  "stm32_regs_read ifc data =
     on_probe (\<lambda>p. bindR (regsRead ifc 0 16 p) (\<lambda>(regs, p). Inr (copy_regs regs data, p))) data"

text \<open>\<open>reg\<close> is an \<open>int\<close>: the first test is signed.\<close>

definition stm32_reg_read :: "'d iface \<Rightarrow> u32 \<Rightarrow> u8 list \<Rightarrow> 'd probe \<Rightarrow> u32 \<times> u8 list \<times> 'd probe" where
  "stm32_reg_read ifc reg data p =
     (let one = (\<lambda>r. on_probe (\<lambda>p. bindR (regsRead ifc r 1 p) (\<lambda>(regs, p). Inr (copy_regs regs data, p))) data p);
          (data, p) =
            (if sint reg \<le> sint REG_xPSR then one (ucast reg)
             else if reg = REG_MSP \<or> reg = REG_PSP then one REG_SP
             else if reg = REG_CPPSR then one (ucast REG_xPSR)
             else (replicate (length data) 0, p))
      in (4, data, p))"

text \<open>
  The registers to write are taken from the address of the parameter \<open>data\<close>, not from where
  it points: \<open>stack\<close> are the words found there.
\<close>

definition stm32_reg_write :: "'d iface \<Rightarrow> u32 list \<Rightarrow> u32 \<Rightarrow> u8 list \<Rightarrow> 'd probe \<Rightarrow> u32 \<times> 'd probe" where
  "stm32_reg_write ifc stack reg data p =
     (let regs = take (length data div 4) stack;
          put = (\<lambda>r. snd (on_probe (regsWrite ifc r regs) 0 p));
          p = (if sint reg \<le> sint REG_xPSR then put (ucast reg)
               else if reg = REG_MSP \<or> reg = REG_PSP then put REG_SP
               else if reg = REG_CPPSR then put (ucast REG_xPSR)
               else p)
      in (4, p))"

section \<open>Memory\<close>

text \<open>The widest access that an address or a length allows.\<close>

definition access_size :: "u32 \<Rightarrow> u32" where
  "access_size x = (if x AND 1 \<noteq> 0 then 1 else if x AND 2 \<noteq> 0 then 2 else 4)"

definition stm32_access :: "u32 \<Rightarrow> u32 \<Rightarrow> u32" where
  "stm32_access addr len =
     (if access_size addr < access_size len then access_size addr else access_size len)"

definition stm32_mem_read ::
    "'d iface \<Rightarrow> u32 \<Rightarrow> u32 \<Rightarrow> u8 list \<Rightarrow> 'd probe \<Rightarrow> u8 list \<times> 'd probe" where
  "stm32_mem_read ifc src len dest =
     on_probe (\<lambda>p. bindR (memRead ifc src (stm32_access src len) (len div stm32_access src len) p)
       (\<lambda>(bs, p). Inr (blit 0 bs dest, p))) dest"

text \<open>
  The bytes to write are taken from the vector object itself (\<open>&data\<close>) instead of the buffer
  \<open>src\<close>: \<open>object n\<close> are the \<open>n\<close> bytes found there.
\<close>

definition stm32_mem_write ::
    "'d iface \<Rightarrow> (nat \<Rightarrow> u8 list) \<Rightarrow> u32 \<Rightarrow> u8 list \<Rightarrow> 'd probe \<Rightarrow> 'd probe" where
  "stm32_mem_write ifc obj dest src p =
     snd (on_probe (memWrite ifc dest (stm32_access dest (of_nat (length src))) (obj (length src))) 0 p)"

section \<open>Running and stopping\<close>

definition run_state :: "'d iface \<Rightarrow> reset_halt_command \<Rightarrow> 'd probe \<Rightarrow> u8 \<times> 'd probe" where
  "run_state ifc c = on_probe (\<lambda>p. Inr (resetHaltResume ifc c p)) 0"

definition stm32_halt_resume :: "'d iface \<Rightarrow> bool \<Rightarrow> 'd probe \<Rightarrow> 'd probe" where
  "stm32_halt_resume ifc step p =
     (if step then snd (run_state ifc RH_ResumeStep p) else snd (run_state ifc RH_Resume p))"

definition stm32_halt_request :: "'d iface \<Rightarrow> 'd probe \<Rightarrow> 'd probe" where
  "stm32_halt_request ifc p = snd (run_state ifc RH_HaltOnly p)"

definition stm32_reset :: "'d iface \<Rightarrow> 'd probe \<Rightarrow> 'd probe" where
  "stm32_reset ifc p = snd (run_state ifc RH_ResetAndHalt p)"

definition stm32_check_error :: "'d probe \<Rightarrow> bool \<times> 'd probe" where
  "stm32_check_error p = (False, p)"

text \<open>The state of the probe is taken as a halt reason of the server without translation.\<close>

definition halt_reason_of :: "u8 \<Rightarrow> halt_reason" where
  "halt_reason_of x =
     (if x = 0 then HALT_RUNNING else if x = 1 then HALT_ERROR else if x = 2 then HALT_REQUEST
      else if x = 3 then HALT_STEPPING else if x = 4 then HALT_BREAKPOINT
      else if x = 5 then HALT_WATCHPOINT else if x = 6 then HALT_FAULT else HALT_OTHER x)"

definition stm32_halt_poll :: "'d iface \<Rightarrow> 'd probe \<Rightarrow> halt_reason \<times> u32 \<times> 'd probe" where
  "stm32_halt_poll ifc p = (case run_state ifc RH_GetState p of (x, p) \<Rightarrow> (halt_reason_of x, 0, p))"

definition stm32_attach :: "'d iface \<Rightarrow> 'd probe \<Rightarrow> bool \<times> 'd probe" where
  "stm32_attach ifc p = (True, snd (on_probe (\<lambda>p. Inr (attachDetach ifc AC_Attach p)) False p))"

definition stm32_detach :: "'d iface \<Rightarrow> 'd probe \<Rightarrow> 'd probe" where
  "stm32_detach ifc p = snd (on_probe (\<lambda>p. Inr (attachDetach ifc AC_Detach p)) False p)"

section \<open>Breakpoints\<close>

definition usb_bp :: "breakwatch \<Rightarrow> usb_breakpoint" where
  "usb_bp bw = \<lparr>ub_address = bw_addr bw, ub_type = ucast (bw_type bw), ub_size = ucast (bw_size bw),
     ub_reserved = 0\<rparr>"

text \<open>
  Both functions walk along \<open>bw->next\<close> and fill a vector of fixed size; writing behind its
  end is undefined. They return -1 when there was no breakpoint.
\<close>

definition stm32_breakwatch ::
    "'d iface \<Rightarrow> nat \<Rightarrow> bool \<Rightarrow> breakwatch list \<Rightarrow> 'd probe \<Rightarrow> i32 \<times> 'd probe" where
  "stm32_breakwatch ifc capacity st bws =
     on_probe (\<lambda>p.
       if length bws > capacity then Inl Crash
       else bindR (breakpointsSetClear ifc capacity (map usb_bp bws) st p)
              (\<lambda>(n, p). Inr (if length bws > 0 then 0 else -1, p))) 0"

definition stm32_breakwatch_set :: "'d iface \<Rightarrow> breakwatch \<Rightarrow> 'd probe \<Rightarrow> i32 \<times> breakwatch \<times> 'd probe" where
  "stm32_breakwatch_set ifc bw p =
     (case stm32_breakwatch ifc 32 True [bw] p of (r, p) \<Rightarrow> (r, bw, p))"

definition stm32_breakwatch_clear :: "'d iface \<Rightarrow> breakwatch list \<Rightarrow> 'd probe \<Rightarrow> i32 \<times> 'd probe" where
  "stm32_breakwatch_clear ifc bws = stm32_breakwatch ifc 128 False bws"

section \<open>Flash\<close>

definition flash_cmd :: "'d iface \<Rightarrow> flash_command \<Rightarrow> u32 \<Rightarrow> u32 \<Rightarrow> 'd probe \<Rightarrow> 'd probe" where
  "flash_cmd ifc c address sz p = snd (on_probe (\<lambda>p. Inr (flashCmd ifc c address sz p)) False p)"

definition stm32_flash_unlock :: "'d iface \<Rightarrow> u32 \<Rightarrow> u32 \<Rightarrow> 'd probe \<Rightarrow> 'd probe" where
  "stm32_flash_unlock ifc = flash_cmd ifc FC_Unlock"

definition stm32_flash_erase :: "'d iface \<Rightarrow> u32 \<Rightarrow> u32 \<Rightarrow> 'd probe \<Rightarrow> 'd probe" where
  "stm32_flash_erase ifc = flash_cmd ifc FC_Erase"

definition stm32_flash_wrtie :: "'d iface \<Rightarrow> u32 \<Rightarrow> u8 list \<Rightarrow> 'd probe \<Rightarrow> 'd probe" where
  "stm32_flash_wrtie ifc address data p = snd (on_probe (memWrite ifc address 2 data) 0 p)"

definition stm32_flash_done :: "'d iface \<Rightarrow> 'd probe \<Rightarrow> 'd probe" where
  "stm32_flash_done ifc = flash_cmd ifc FC_Detach 0 0"

text \<open>The driver of the bank (\<^verbatim>\<open>stm32f1.c\<close>): every function reports success.\<close>

definition stm32f1_flash_unlock :: "'d iface \<Rightarrow> u32 \<Rightarrow> 'd probe \<Rightarrow> 'd probe" where
  "stm32f1_flash_unlock ifc bank_offset = stm32_flash_unlock ifc bank_offset 4"

definition stm32f1_flash_erase :: "'d iface \<Rightarrow> u32 \<Rightarrow> u32 \<Rightarrow> 'd probe \<Rightarrow> i32 \<times> 'd probe" where
  "stm32f1_flash_erase ifc addr len p = (0, stm32_flash_erase ifc addr len p)"

definition stm32f1_flash_write :: "'d iface \<Rightarrow> u32 \<Rightarrow> u8 list \<Rightarrow> 'd probe \<Rightarrow> i32 \<times> 'd probe" where
  "stm32f1_flash_write ifc dest src p = (0, stm32_flash_wrtie ifc dest src p)"

definition stm32f1_flash_done :: "'d iface \<Rightarrow> 'd probe \<Rightarrow> i32 \<times> 'd probe" where
  "stm32f1_flash_done ifc p = (0, stm32_flash_done ifc p)"

definition stm32f1_bank :: "'d iface \<Rightarrow> u32 \<Rightarrow> u32 \<Rightarrow> u32 \<Rightarrow> 'd probe target_flash" where
  "stm32f1_bank ifc addr len erasesize =
     \<lparr>tf_start = addr, tf_length = len, tf_blocksize = erasesize,
      tf_erase = stm32f1_flash_erase ifc, tf_write = stm32f1_flash_write ifc,
      tf_done = Some (stm32f1_flash_done ifc), tf_erased = 0xFF, tf_buf_size = erasesize,
      tf_buf_addr = 0, tf_buf = None\<rparr>"

definition stm32f1_add_flash ::
    "bool \<Rightarrow> 'd iface \<Rightarrow> u32 \<Rightarrow> u32 \<Rightarrow> u32 \<Rightarrow> 'd probe target \<Rightarrow> 'd probe target" where
  "stm32f1_add_flash calloc_ok ifc addr len erasesize t =
     (if calloc_ok then add_flash (stm32f1_bank ifc addr len erasesize) t else t)"

definition stm32f1_probe :: "bool \<Rightarrow> 'd iface \<Rightarrow> 'd probe target \<Rightarrow> bool \<times> 'd probe target" where
  "stm32f1_probe calloc_ok ifc t =
     (True,
      stm32f1_add_flash calloc_ok ifc 0x8000000 0x20000 0x400
        (target_add_ram calloc_ok 0x40001000 0x023400
          (target_add_ram calloc_ok 0x20000000 0x5000 t)))"

section \<open>Start-up\<close>

text \<open>What \<open>gdbInit\<close> puts into a new target; writing all registers keeps its default, which does nothing.\<close>

definition stm32_target ::
    "'d iface \<Rightarrow> u32 list \<Rightarrow> (nat \<Rightarrow> u8 list) \<Rightarrow> 'd probe target \<Rightarrow> 'd probe target" where
  "stm32_target ifc stack obj t =
     t\<lparr>regs_size := 16 * 4,
       halt_poll_fn := stm32_halt_poll ifc,
       regs_read_fn := Some (stm32_regs_read ifc),
       reg_read_fn := stm32_reg_read ifc,
       reg_write_fn := stm32_reg_write ifc stack,
       mem_read_fn := stm32_mem_read ifc,
       mem_write_fn := stm32_mem_write ifc obj,
       halt_resume_fn := stm32_halt_resume ifc,
       halt_request_fn := stm32_halt_request ifc,
       breakwatch_set_fn := Some (stm32_breakwatch_set ifc),
       breakwatch_clear_fn := Some (stm32_breakwatch_clear ifc),
       attach_fn := stm32_attach ifc,
       detach_fn := stm32_detach ifc,
       reset_fn := stm32_reset ifc,
       check_error_fn := stm32_check_error\<rparr>"

text \<open>
  One round for each probe that is connected: \<open>new\<close> is the address that \<open>calloc\<close> returned for
  the target; without one the code writes through a null pointer.
\<close>

definition init_target ::
    "env \<Rightarrow> 'd iface \<Rightarrow> u32 list \<Rightarrow> (nat \<Rightarrow> u8 list) \<Rightarrow> nat option \<times> 'd probe \<Rightarrow>
     'd probe server \<Rightarrow> 'd probe server result" where
  "init_target env ifc stack obj = (\<lambda>(new, p) s.
     (case target_new new p (targets s) of
        (None, ts) \<Rightarrow> Inl Crash
      | (Some i, ts) \<Rightarrow>
          let s = set_current_target (Some i) (s\<lparr>targets := ts\<rparr>)
          in with_target (Some i) ts (\<lambda>t.
               let t = snd (stm32f1_probe (env_malloc_ok env) ifc (stm32_target ifc stack obj t));
                   t = target_halt_request (target_halt_request t)
               in Inr (put_target t s))))"

definition gdbInit ::
    "env \<Rightarrow> 'd iface \<Rightarrow> u32 list \<Rightarrow> (nat \<Rightarrow> u8 list) \<Rightarrow> (nat option \<times> 'd probe) list \<Rightarrow>
     'd probe server \<Rightarrow> 'd probe server result" where
  "gdbInit env ifc stack obj probes s =
     (let (ts, (cur, last)) =
            target_list_free gdb_target_destroy_callback (targets s) (cur_target s, last_target s)
      in foldR (init_target env ifc stack obj) probes
           (s\<lparr>targets := ts, cur_target := cur, last_target := last\<rparr>))"

end
