(* ===== verification/Driver_Registers.thy ===== *)
theory Driver_Registers
  imports Registers Stm32_Driver
begin

text \<open>
  What reaches GDB through the driver (\<open>Stm32_Driver\<close>) when it reads all registers or sets a
  breakpoint over the cable. Both differ from what the packets of the protocol provide.
\<close>

section \<open>The 16 registers\<close>

text \<open>
  C37: what the driver makes of the registers that GDB asks for. It asks for 16; 15 arrive
  with the first packet and \<open>pc\<close> with the second, which is copied over \<open>r0\<close> at the start of the
  vector. Then of every register only the low byte is stored: the 64 bytes for GDB start with
  the low bytes of \<open>pc\<close>, \<open>r1\<close> to \<open>lr\<close> and a 0, and the other 48 are left as they were.
\<close>

theorem stm32_regs_read_scrambles:
  assumes "plugged_in p" "length data = 64"
  shows "\<exists>p'. stm32_regs_read (link_iface b) data p =
    (map ucast ([saved_regs p ! 15] @ take 14 (drop 1 (saved_regs p)) @ [0]) @ drop 16 data, p')"
proof -
  let ?c = "saved_regs p" and ?zero = "replicate 64 0 :: u8 list"
  have c: "length ?c = 19" using assms(1) by (simp add: plugged_in_def frames_ok_def)
  have first: "blit 0 (reg_bytes (take 15 ?c)) ?zero = reg_bytes (take 15 ?c @ [0])"
    using c by (simp add: blit_front reg_bytes_append) (simp add: reg_bytes_def le32_def eval_nat_numeral)
  obtain p1 where p1: "regsRead_loop (link_iface b) (of_nat 0) (4 * 0) ?zero p =
      regsRead_loop (link_iface b) (of_nat 0) (4 * 15) (reg_bytes (take 15 ?c @ [0])) p1"
    "plugged_in p1" "saved_regs p1 = ?c"
    using regsRead_step [OF assms(1), of 0 16 0 ?zero b] first by auto
  have last: "take 1 (drop 15 ?c) = [?c ! 15]" using c by (simp add: take_Suc_conv_app_nth Cons_nth_drop_Suc [symmetric])
  have second: "blit 0 (reg_bytes [?c ! 15]) (reg_bytes (take 15 ?c @ [0])) =
      reg_bytes ([?c ! 15] @ take 14 (drop 1 ?c) @ [0])"
  proof -
    have "take 15 ?c = ?c ! 0 # take 14 (drop 1 ?c)" using c by (cases ?c) simp_all
    then show ?thesis by (simp add: blit_def reg_bytes_def)
  qed
  obtain p2 where p2: "regsRead_loop (link_iface b) (of_nat 0) (4 * 15) (reg_bytes (take 15 ?c @ [0])) p1 =
      regsRead_loop (link_iface b) (of_nat 0) (4 * 16) (reg_bytes ([?c ! 15] @ take 14 (drop 1 ?c) @ [0])) p2"
    using regsRead_step [OF p1(2), of 15 16 0 "reg_bytes (take 15 ?c @ [0])" b] c p1(3) last second by auto
  have "regsRead_loop (link_iface b) (of_nat 0) (4 * 16) (reg_bytes ([?c ! 15] @ take 14 (drop 1 ?c) @ [0])) p2 =
      Some (reg_bytes ([?c ! 15] @ take 14 (drop 1 ?c) @ [0]), p2)"
    using c by (subst regsRead_loop.simps) simp
  then have "regsRead (link_iface b) 0 16 p = Inr ([?c ! 15] @ take 14 (drop 1 ?c) @ [0], p2)"
    using p1(1) p2 by (simp add: regsRead_def words_of_reg_bytes del: append.simps)
  then show ?thesis
    using assms c by (simp add: stm32_regs_read_def on_probe_def plugged_in_def copy_regs_def blit_front)
qed

theorem stm32_regs_read_scrambles_witness:
  "\<exists>p'. stm32_regs_read (link_iface f103_bus) (replicate 64 0xAA)
      (new_probe (replicate 64 0) (replicate 64 0)
        (plugged ((initial power_on)\<lparr>context_data := map of_nat [0x100..<0x113]\<rparr>))) =
    ([0x0F, 1, 2, 3, 4, 5, 6, 7, 8, 9, 10, 11, 12, 13, 14, 0] @ replicate 48 0xAA, p')"
proof -
  let ?m = "(initial power_on)\<lparr>context_data := map of_nat [0x100..<0x113]\<rparr>"
  let ?p = "new_probe (replicate 64 0) (replicate 64 0) (plugged ?m)"
  have "plugged_in ?p"
    using initial_frames [of power_on] by (simp add: plugged_in_def new_probe_def plugged_def frames_ok_def)
  note res = stm32_regs_read_scrambles [OF this, of "replicate 64 0xAA" f103_bus]
  have regs: "saved_regs ?p = map of_nat [0x100..<0x113]" by (simp add: new_probe_def plugged_def)
  have low: "map ucast ([(map of_nat [0x100..<0x113] :: u32 list) ! 15] @ take 14 (drop 1 (map of_nat [0x100..<0x113])) @ [0]) =
      [0x0F, 1, 2, 3, 4, 5, 6, 7, 8, 9, 10, 11, 12, 13, 14, 0 :: u8]"
    by (simp add: upt_conv_Cons)
  have rest: "drop 16 (replicate 64 (0xAA :: u8)) = replicate 48 0xAA" by simp
  show ?thesis using res [unfolded regs low rest] by simp
qed

section \<open>Breakpoints\<close>

text \<open>
  C38: the driver never gets to set a breakpoint: for the one breakpoint that the server
  hands to it, it copies 64 bytes behind the head into its packet buffer, which ends 4 bytes
  earlier, and reads as far behind the breakpoint in the vector, before anything is sent. This
  holds whatever the probe would answer.
\<close>

theorem stm32_breakwatch_set_faults:
  assumes "p_fault p = None" "length (p_out p) = 64"
  shows "stm32_breakwatch_set ifc bw p = (0, bw, p\<lparr>p_fault := Some Crash\<rparr>)"
proof -
  let ?head = "breakpoint_head 1 1"
  have "with_head (breakpointSetClearCmd [usb_bp bw] True) p = (4, p\<lparr>p_out := ?head @ drop 4 (p_out p)\<rparr>)"
    using assms(2) by (simp add: with_head_def breakpointSetClearCmd_def maxPacketSize_def blit_front)
  moreover have "out_u16 (p\<lparr>p_out := ?head @ drop 4 (p_out p)\<rparr>) = 1"
    by (simp add: out_u16_def breakpoint_head_def rd16_le16)
  ultimately have "breakpoints_loop ifc 32 True 0 [usb_bp bw] p = Some (Inl Crash)"
    using assms(2) by (subst breakpoints_loop.simps) simp
  then show ?thesis
    using assms(1) by (simp add: stm32_breakwatch_set_def stm32_breakwatch_def breakpointsSetClear_def on_probe_def)
qed

definition some_bp :: breakwatch where
  "some_bp = \<lparr>bw_type = 1, bw_addr = 0x08004000, bw_size = 2, bw_reserved = [0, 0, 0, 0]\<rparr>"

theorem stm32_breakwatch_set_faults_witness:
  "stm32_breakwatch_set (link_iface f103_bus) some_bp
      (new_probe (replicate 64 0) (replicate 64 0) (plugged (initial power_on))) =
    (0, some_bp, (new_probe (replicate 64 0) (replicate 64 0) (plugged (initial power_on)))\<lparr>p_fault := Some Crash\<rparr>)"
  by (rule stm32_breakwatch_set_faults) (simp_all add: new_probe_def)

end
