(* ===== verification/Flash_Buffer.thy ===== *)
theory Flash_Buffer
  imports Target_Flash
begin

text \<open>
  The contract between the sector buffer of \<^verbatim>\<open>GdbServer/Gdb/target.c\<close> and the driver of a flash
  bank. The locale \<open>flash_device\<close> states what the write function of a bank promises for the
  sectors of the bank: on a sector whose new contents can be programmed it reports success and
  programs it. What is concluded from it, that writes of any length at ascending addresses,
  split anywhere, end up in the flash once the buffer is flushed, is proved here once.
\<close>

section \<open>The contract\<close>

text \<open>\<open>malloc\<close> returns blocks of the size asked for, and a sector can be had.\<close>

definition malloc_ok :: "malloc \<Rightarrow> u32 \<Rightarrow> bool" where
  "malloc_ok malloc s \<longleftrightarrow> (\<forall>n b. malloc n = Some b \<longrightarrow> length b = unat n) \<and> malloc s \<noteq> None"

locale flash_device =
  fixes prog :: "u32 \<Rightarrow> u8 list \<Rightarrow> 'd \<Rightarrow> i32 \<times> 'd"
    and content :: "'d \<Rightarrow> memory"
    and ok :: "'d \<Rightarrow> bool"
    and sector :: u32
    and valid :: "u32 \<Rightarrow> bool"
  assumes sector_size: "sector \<noteq> 0" "even (unat sector)" "unat sector dvd 2 ^ 32"
    and write_ok: "ok d \<Longrightarrow> valid a \<Longrightarrow> a mod sector = 0 \<Longrightarrow> length bs = unat sector \<Longrightarrow>
      programmable a bs (content d) \<Longrightarrow>
      fst (prog a bs d) = 0 \<and> ok (snd (prog a bs d)) \<and>
      content (snd (prog a bs d)) = program a bs (content d)"
begin

abbreviation base :: "u32 \<Rightarrow> u32" where
  "base \<equiv> sector_base sector"

text \<open>
  The abstraction: what the flash will contain once the buffer is flushed. A buffered sector
  is seen through the buffer.
\<close>

definition open_at :: "'d target_flash \<Rightarrow> u32 option" where
  "open_at f = (if tf_buf f \<noteq> None \<and> tf_buf_addr f \<noteq> -1 then Some (tf_buf_addr f) else None)"

definition view :: "'d target_flash \<Rightarrow> 'd \<Rightarrow> memory" where
  "view f d =
     (case open_at f of
        Some a \<Rightarrow> program a (the (tf_buf f)) (content d)
      | None \<Rightarrow> content d)"

definition buffer_ok :: "'d target_flash \<Rightarrow> 'd \<Rightarrow> bool" where
  "buffer_ok f d \<longleftrightarrow> ok d \<and> tf_write f = prog \<and> tf_erased f = -1 \<and> tf_buf_size f = sector \<and>
     (\<forall>b. tf_buf f = Some b \<longrightarrow> length b = unat sector) \<and>
     (\<forall>a. open_at f = Some a \<longrightarrow>
        a mod sector = 0 \<and> valid a \<and> programmable a (the (tf_buf f)) (content d))"

text \<open>An address that can still be written, and a range of them ahead of the buffer.\<close>

definition blank :: "'d target_flash \<Rightarrow> 'd \<Rightarrow> u32 \<Rightarrow> bool" where
  "blank f d x \<longleftrightarrow> view f d x = -1 \<and> half_erased (half_of x) (content d)"

definition ready :: "'d target_flash \<Rightarrow> 'd \<Rightarrow> u32 \<Rightarrow> nat \<Rightarrow> bool" where
  "ready f d dest n \<longleftrightarrow> unat dest + n \<le> 2 ^ 32 \<and>
     (\<forall>i<n. blank f d (dest + of_nat i) \<and> valid (base (dest + of_nat i)) \<and>
        (open_at f = Some (base (dest + of_nat i)) \<longrightarrow> base (dest + of_nat i) = base dest))"

section \<open>One round of the loop\<close>

lemma base_mod: "base x mod sector = 0"
  unfolding sector_base_def by (rule sector_base_mod [OF sector_size(1)])

lemma base_not_ones: "base x \<noteq> -1"
proof
  assume a: "base x = -1"
  have "even (unat (base x))" using sector_size(2) by (simp add: unat_sector_base)
  moreover have "unat (-1 :: u32) = 2 ^ 32 - 1" by (simp add: unsigned_minus_1_eq_mask mask_eq_exp_minus_1)
  ultimately show False by (simp add: a)
qed

lemma flush_sector_view:
  assumes "buffer_ok f d" "tf_buf f = Some b" "flush_sector f d = (r, d')"
  shows "r = 0 \<and> ok d' \<and> content d' = view f d"
proof (cases "open_at f")
  case None
  with assms show ?thesis
    by (auto simp: flush_sector_def view_def open_at_def buffer_ok_def split: if_splits)
next
  case (Some a)
  then have a: "a = tf_buf_addr f" "a \<noteq> -1" by (auto simp: open_at_def split: if_splits)
  have v: "ok d" "valid a" "a mod sector = 0" "length b = unat sector" "programmable a b (content d)"
    using assms(1,2) Some by (auto simp: buffer_ok_def)
  have "prog a b d = (r, d')"
    using assms a by (simp add: flush_sector_def buffer_ok_def)
  with write_ok [OF v] assms(2) Some show ?thesis by (simp add: view_def)
qed

lemma open_sector_view:
  assumes "buffer_ok f d" "tf_buf f = Some b" "open_sector (base y) ret f d = (ret', f', d')"
    and "valid (base y)"
  shows "ret' = ret \<and> buffer_ok f' d' \<and> view f' d' = view f d \<and> open_at f' = Some (base y) \<and>
    (\<forall>x. (open_at f = Some (base x) \<longrightarrow> base x = base y) \<longrightarrow>
       half_erased (half_of x) (content d') = half_erased (half_of x) (content d))"
proof (cases "base y = tf_buf_addr f")
  case True
  with assms base_not_ones [of y] show ?thesis by (simp add: open_sector_def open_at_def)
next
  case False
  obtain r e where e: "flush_sector f d = (r, e)" by fastforce
  note fl = flush_sector_view [OF assms(1,2) e]
  let ?b = "replicate (unat sector) (-1)"
  have f': "f' = f\<lparr>tf_buf_addr := base y, tf_buf := Some ?b\<rparr>" "d' = e" "ret' = ret"
    using assms(1,3) False e fl by (auto simp: open_sector_def buffer_ok_def)
  have op: "open_at f' = Some (base y)" using base_not_ones [of y] by (simp add: f' open_at_def)
  have "buffer_ok f' d'"
    using assms(1,4) fl op base_mod [of y] programmable_erased
    by (simp add: f'(1,2) buffer_ok_def)
  moreover have "view f' d' = view f d"
  proof -
    have "view f' d' = program (base y) ?b (content e)" using op f'(2) by (simp add: view_def) (simp add: f'(1))
    then show ?thesis using fl program_erased by simp
  qed
  moreover have "half_erased (half_of x) (content d') = half_erased (half_of x) (content d)"
    if x: "open_at f = Some (base x) \<longrightarrow> base x = base y" for x
  proof (cases "open_at f")
    case None
    then show ?thesis using fl f'(2) by (simp add: view_def)
  next
    case (Some a)
    then have a: "a = tf_buf_addr f" by (auto simp: open_at_def split: if_splits)
    have l: "a mod sector = 0" "length b = unat sector" using assms(1,2) Some by (auto simp: buffer_ok_def)
    have ne: "base x \<noteq> a" using x Some False a by auto
    show ?thesis
      using half_erased_program [OF sector_size(3,2,1) l ne, of "content d"] fl f'(2) Some assms(2)
      by (simp add: view_def)
  qed
  ultimately show ?thesis using f'(3) op by blast
qed

lemma copy_chunk_view:
  assumes "buffer_ok f d" "open_at f = Some (base dest)"
    and "unat (dest mod sector) + length src \<le> unat sector"
    and blank: "\<And>i. i < length src \<Longrightarrow> blank f d (dest + of_nat i)"
  defines "f' \<equiv> f\<lparr>tf_buf := map_option (blit (unat (dest mod sector)) src) (tf_buf f)\<rparr>"
  shows "buffer_ok f' d \<and> view f' d = overlay dest src (view f d) \<and> open_at f' = Some (base dest)"
proof -
  let ?o = "unat (dest mod sector)"
  obtain b where b: "tf_buf f = Some b" and addr: "tf_buf_addr f = base dest" "tf_buf_addr f \<noteq> -1"
    using assms(2) by (auto simp: open_at_def split: if_splits)
  have len: "length b = unat sector" using assms(1) b by (simp add: buffer_ok_def)
  have len': "length (blit ?o src b) = unat sector" using len assms(3) by (simp add: length_blit)
  have dest: "base dest + of_nat ?o = dest" by (simp add: sector_base_def)
  have op: "open_at f' = Some (base dest)" using b addr by (simp add: f'_def open_at_def)
  have "programmable (base dest) (blit ?o src b) (content d)"
  proof (rule programmable_blit)
    show "programmable (base dest) b (content d)" using assms(1,2) b by (simp add: buffer_ok_def)
    show "?o + length src \<le> length b" using assms(3) len by simp
    fix i assume "i < length src"
    then have "half_erased (half_of (dest + of_nat i)) (content d)" using blank by (simp add: blank_def)
    then show "half_erased (half_of (base dest + of_nat (?o + i))) (content d)"
      by (simp only: of_nat_add add.assoc [symmetric] dest)
  qed
  then have ok: "buffer_ok f' d"
    using assms(1,2) b len' op by (simp add: buffer_ok_def) (simp add: f'_def)
  have "view f' d = overlay dest src (view f d)"
  proof
    fix x
    have view: "view f d x = (if unat (x - base dest) < length b
        then content d x AND b ! unat (x - base dest) else content d x)"
      using assms(2) b by (simp add: view_def program_def)
    have view': "view f' d x = (if unat (x - base dest) < length b
        then content d x AND blit ?o src b ! unat (x - base dest) else content d x)"
      using op b len len' by (simp add: view_def program_def) (simp add: f'_def)
    show "view f' d x = overlay dest src (view f d) x"
    proof (cases "unat (x - dest) < length src")
      case True
      have "x - base dest = (x - dest) + dest mod sector" by (simp add: sector_base_def)
      moreover have "unat (x - dest) + ?o < 2 ^ LENGTH(32)"
        using True assms(3) unat_u32_less [of sector] by simp
      ultimately have u: "unat (x - base dest) = unat (x - dest) + ?o" by (metis unat_add_lem)
      have "blank f d x" using blank [OF True] by simp
      then have "content d x = -1" by (simp add: blank_def half_erased_byte)
      with view' u True len assms(3) show ?thesis by (simp add: nth_blit overlay_def)
    next
      case False
      have "unat (x - base dest) < ?o \<or> ?o + length src \<le> unat (x - base dest)"
        using False unat_sub_offset [of ?o x "base dest"] unfolding dest by linarith
      with view view' False len assms(3) show ?thesis by (auto simp: nth_blit overlay_def)
    qed
  qed
  with ok op show ?thesis by simp
qed

lemma base_between:
  assumes "unat dest + (k + j) < 2 ^ 32" "base (dest + of_nat (k + j)) = base dest"
  shows "base (dest + of_nat (k + j)) = base (dest + of_nat k)"
proof -
  let ?s = "unat sector"
  have u: "unat (dest + of_nat (k + j)) = unat dest + (k + j)" "unat (dest + of_nat k) = unat dest + k"
    using assms(1) unat_add_u32 [of dest "k + j"] unat_add_u32 [of dest k] by simp_all
  have "(unat dest + (k + j)) div ?s = unat dest div ?s"
    using assms(2) u(1) sector_base_eq [OF sector_size(1)] by metis
  moreover have "unat dest div ?s \<le> (unat dest + k) div ?s"
    "(unat dest + k) div ?s \<le> (unat dest + (k + j)) div ?s" by (simp_all add: div_le_mono)
  ultimately have "(unat dest + (k + j)) div ?s = (unat dest + k) div ?s" by linarith
  then show ?thesis using u sector_base_eq [OF sector_size(1)] by metis
qed

text \<open>Writing a chunk keeps the rest of the range ahead writable.\<close>

lemma ready_rest:
  assumes r: "ready f d dest n" and k: "k \<le> n" "length src = k"
    and view: "view g e = overlay dest src (view f d)"
    and op: "open_at g = Some (base dest)"
    and same: "\<And>x. (open_at f = Some (base x) \<longrightarrow> base x = base dest) \<Longrightarrow>
      half_erased (half_of x) (content e) = half_erased (half_of x) (content d)"
  shows "ready g e (dest + of_nat k) (n - k)"
proof (cases "n = k")
  case True
  then show ?thesis using unat_u32_less [of "dest + of_nat k"] by (simp add: ready_def)
next
  case False
  have n: "unat dest + n \<le> 2 ^ 32" using r by (simp add: ready_def)
  have "unat (dest + of_nat k) = unat dest + k" using n False k by (intro unat_add_u32) simp
  then have fit: "unat (dest + of_nat k) + (n - k) \<le> 2 ^ 32" using n k by simp
  have "blank g e (dest + of_nat (k + j)) \<and> valid (base (dest + of_nat (k + j))) \<and>
      (open_at g = Some (base (dest + of_nat (k + j))) \<longrightarrow>
        base (dest + of_nat (k + j)) = base (dest + of_nat k))" if j: "k + j < n" for j
  proof -
    let ?x = "dest + of_nat (k + j)"
    have b: "blank f d ?x" "valid (base ?x)" "open_at f = Some (base ?x) \<longrightarrow> base ?x = base dest"
      using r j by (simp_all add: ready_def del: of_nat_add)
    have "unat (?x - dest) = k + j" using n j by (simp add: unat_of_nat del: of_nat_add)
    then have "view g e ?x = view f d ?x" using view k(2) by (simp add: overlay_def del: of_nat_add)
    then have "blank g e ?x" using b(1) same [OF b(3)] by (simp add: blank_def)
    moreover have "base ?x = base (dest + of_nat k)" if "base ?x = base dest"
      using base_between [OF _ that] n j by simp
    ultimately show ?thesis using b(2) op by auto
  qed
  note each = this
  have "dest + of_nat k + of_nat j = dest + of_nat (k + j)" for j by (simp add: add.assoc)
  with fit each show ?thesis unfolding ready_def by (metis less_diff_conv add.commute)
qed

lemma chunk_step:
  assumes "buffer_ok f d" "tf_buf f \<noteq> None" "src \<noteq> []" "length src \<le> n" "ready f d dest n"
    and "length src < 2 ^ 32"
  obtains g e k where "0 < k" "k \<le> length src"
    "write_buffered_loop dest src ret f d =
       write_buffered_loop (dest + of_nat k) (drop k src) ret g e"
    "buffer_ok g e" "tf_buf g \<noteq> None" "view g e = overlay dest (take k src) (view f d)"
    "ready g e (dest + of_nat k) (n - k)"
proof -
  let ?len = "of_nat (length src) :: u32"
  let ?k = "unat (sector_part sector dest ?len)" and ?o = "unat (dest mod sector)"
  have len: "?len \<noteq> 0" using assms(3,6) by (simp add: of_nat_u32_eq_0)
  note part = sector_part_bounds [OF sector_size(1) assms(6), of dest]
  have pos: "0 < ?k" using sector_part_pos [OF sector_size(1) len] by (simp add: unat_gt_0)
  have size: "tf_buf_size f = sector" using assms(1) by (simp add: buffer_ok_def)
  have valid: "valid (base dest)" using assms(3-5) by (cases src) (force simp: ready_def)+
  obtain b where b: "tf_buf f = Some b" using assms(2) by blast
  obtain ret' g e where op: "open_sector (base dest) ret f d = (ret', g, e)" by (metis prod_cases3)
  note o = open_sector_view [OF assms(1) b op valid]
  then have g: "ret' = ret" "buffer_ok g e" "view g e = view f d" "open_at g = Some (base dest)"
    and same: "\<And>x. (open_at f = Some (base x) \<longrightarrow> base x = base dest) \<Longrightarrow>
       half_erased (half_of x) (content e) = half_erased (half_of x) (content d)" by blast+
  let ?src = "take ?k src"
  let ?g = "g\<lparr>tf_buf := map_option (blit ?o ?src) (tf_buf g)\<rparr>"
  have chunk: "?o + length ?src \<le> unat sector" using part by simp
  have blank: "blank g e (dest + of_nat i)" if "i < length ?src" for i
    using assms(4,5) that g(3) same [of "dest + of_nat i"] by (simp add: blank_def ready_def)
  note c = copy_chunk_view [OF g(2,4) chunk blank]
  have step: "write_buffered_loop dest src ret f d =
      write_buffered_loop (dest + of_nat ?k) (drop ?k src) ret ?g e"
    using len sector_size(1) op g(1) size
    by (subst write_buffered_loop.simps) (simp add: Let_def sector_base_def)
  have v: "view ?g e = overlay dest ?src (view f d)" using c g(3) by simp
  have rest: "ready ?g e (dest + of_nat ?k) (n - ?k)"
    using ready_rest [OF assms(5) _ _ v _ same, of ?k] part(1) assms(4) c by simp
  have "tf_buf ?g \<noteq> None" using g(4) by (auto simp: open_at_def split: if_splits)
  with that [OF pos part(1) step _ _ v rest] c show thesis by simp
qed

lemma write_buffered_view:
  "buffer_ok f d \<Longrightarrow> tf_buf f \<noteq> None \<Longrightarrow> length src < 2 ^ 32 \<Longrightarrow> length src \<le> n \<Longrightarrow> ready f d dest n \<Longrightarrow>
   \<exists>f' d'. write_buffered_loop dest src ret f d = Inr (ret, f', d') \<and> buffer_ok f' d' \<and>
     view f' d' = overlay dest src (view f d) \<and> ready f' d' (dest + of_nat (length src)) (n - length src)"
proof (induction "length src" arbitrary: dest src f d n rule: less_induct)
  case less
  show ?case
  proof (cases "src = []")
    case True
    with less.prems show ?thesis by (subst write_buffered_loop.simps) simp
  next
    case False
    obtain g e k where k: "0 < k" "k \<le> length src"
      and step: "write_buffered_loop dest src ret f d =
        write_buffered_loop (dest + of_nat k) (drop k src) ret g e"
      and g: "buffer_ok g e" "tf_buf g \<noteq> None" "view g e = overlay dest (take k src) (view f d)"
        "ready g e (dest + of_nat k) (n - k)"
      by (rule chunk_step [OF less.prems(1,2) False less.prems(4,5,3)])
    have "length (drop k src) < length src" "length (drop k src) < 2 ^ 32" "length (drop k src) \<le> n - k"
      using k less.prems(3,4) by simp_all
    from less.hyps [OF this(1) g(1,2) this(2,3) g(4)]
    obtain f' d' where r: "write_buffered_loop (dest + of_nat k) (drop k src) ret g e = Inr (ret, f', d')"
      "buffer_ok f' d'" "view f' d' = overlay (dest + of_nat k) (drop k src) (view g e)"
      "ready f' d' (dest + of_nat k + of_nat (length (drop k src))) (n - k - length (drop k src))" by blast
    have "overlay (dest + of_nat k) (drop k src) (overlay dest (take k src) (view f d)) =
        overlay dest src (view f d)"
      using overlay_append [of "take k src" "drop k src" dest] k less.prems(3) by simp
    moreover have "of_nat k + of_nat (length (drop k src)) = (of_nat (length src) :: u32)"
      using k by (simp flip: of_nat_add)
    then have "dest + of_nat k + of_nat (length (drop k src)) = dest + of_nat (length src)"
      by (simp only: add.assoc)
    moreover have "n - k - length (drop k src) = n - length src" using k by simp
    ultimately show ?thesis using r step g(3) by metis
  qed
qed

text \<open>Flushing leaves in the flash what the view showed.\<close>

lemma done_buffered_content:
  assumes "buffer_ok f d" "target_flash_done_buffered f d = (r, f', d')"
  shows "r = 0 \<and> content d' = view f d \<and> ok d' \<and> tf_done f' = tf_done f"
proof (cases "open_at f")
  case None
  with assms show ?thesis
    by (auto simp: target_flash_done_buffered_def view_def open_at_def buffer_ok_def
        split: option.splits if_splits)
next
  case (Some a)
  then obtain b where b: "tf_buf f = Some b" "tf_buf_addr f \<noteq> -1"
    by (auto simp: open_at_def split: if_splits)
  then have "flush_sector f d = (r, d')" and f': "f' = f\<lparr>tf_buf_addr := -1, tf_buf := None\<rparr>"
    using assms by (auto simp: target_flash_done_buffered_def flush_sector_def split: prod.splits)
  from flush_sector_view [OF assms(1) b(1) this(1)] show ?thesis by (simp add: f')
qed

section \<open>Whole writes on a target with one bank\<close>

definition in_bank :: "'d target_flash \<Rightarrow> u32 \<Rightarrow> nat \<Rightarrow> bool" where
  "in_bank f dest n \<longleftrightarrow> tf_start f \<le> dest \<and> unat dest + n \<le> unat (tf_start f + tf_length f)"

lemma bank_part_inside:
  assumes "in_bank f dest n" "0 < n"
  shows "bank_part f dest (of_nat n) = of_nat n" "flash_for_addr [f] dest = Some 0" "n < 2 ^ 32"
proof -
  let ?top = "tf_start f + tf_length f"
  have le: "unat dest + n \<le> unat ?top" using assms(1) by (simp add: in_bank_def)
  then show small: "n < 2 ^ 32"
    using unat_u32_less [of ?top] unat_u32_less [of dest] assms by linarith
  have n: "unat (of_nat n :: u32) = n" using small by (rule unat_of_nat_u32)
  have sum: "unat (dest + of_nat n) = unat dest + n"
    using le n unat_u32_less [of ?top] by (subst unat_add_lem [THEN iffD1]) simp_all
  with le have "dest + of_nat n \<le> ?top" by (simp add: word_le_nat_alt)
  then show "bank_part f dest (of_nat n) = of_nat n" by (simp add: bank_part_def min_def)
  have "dest < ?top" using le assms(2) by (simp add: word_less_nat_alt)
  then show "flash_for_addr [f] dest = Some 0" using assms(1) by (simp add: in_bank_def)
qed

definition same_bank :: "'d target_flash \<Rightarrow> 'd target_flash \<Rightarrow> bool" where
  "same_bank f g \<longleftrightarrow> tf_start g = tf_start f \<and> tf_length g = tf_length f \<and> tf_done g = tf_done f"

lemma open_sector_bank: "open_sector a ret f d = (ret', f', d') \<Longrightarrow> same_bank f f'"
  by (auto simp: open_sector_def same_bank_def split: prod.splits if_splits)

lemma write_buffered_bank: "write_buffered_loop dest src ret f d = Inr (ret', f', d') \<Longrightarrow> same_bank f f'"
proof (induction dest src ret f d rule: write_buffered_loop.induct)
  case (1 dest src ret f d)
  show ?case
  proof (cases "of_nat (length src) = (0 :: u32) \<or> tf_buf_size f = 0")
    case True
    with "1.prems" show ?thesis
      by (subst (asm) write_buffered_loop.simps) (auto simp: same_bank_def Let_def split: if_splits)
  next
    case False
    obtain r g e where o: "open_sector (dest - dest mod tf_buf_size f) ret f d = (r, g, e)"
      by (metis prod_cases3)
    have "same_bank f g" by (rule open_sector_bank [OF o])
    with "1.IH" [OF refl _ _ refl refl o [symmetric] refl refl refl] False "1.prems" o show ?thesis
      by (subst (asm) (2) write_buffered_loop.simps) (auto simp: Let_def same_bank_def)
  qed
qed

lemma flash_write_view:
  assumes "buffer_ok f d" "malloc_ok malloc sector" "in_bank f dest n" "length src \<le> n" "ready f d dest n"
  shows "\<exists>f' d'. target_flash_write malloc dest src [f] d = Inr (0, [f'], d') \<and> buffer_ok f' d' \<and>
    view f' d' = overlay dest src (view f d) \<and> same_bank f f' \<and>
    ready f' d' (dest + of_nat (length src)) (n - length src)"
proof (cases "src = []")
  case True
  with assms(1,5) show ?thesis
    by (simp add: target_flash_write_def target_flash_write_loop.simps same_bank_def)
next
  case False
  then have pos: "0 < length src" by simp
  have "in_bank f dest (length src)" using assms(3,4) by (simp add: in_bank_def)
  note part = bank_part_inside [OF this pos]
  have size: "tf_buf_size f = sector" using assms(1) by (simp add: buffer_ok_def)
  have "\<exists>g. target_flash_write_buffered malloc dest src f d = write_buffered_loop dest src 0 g d \<and>
      buffer_ok g d \<and> tf_buf g \<noteq> None \<and> view g d = view f d \<and> ready g d dest n \<and> same_bank f g"
  proof (cases "tf_buf f")
    case None
    obtain b where b: "malloc sector = Some b" "length b = unat sector"
      using assms(2) by (auto simp: malloc_ok_def)
    let ?f = "f\<lparr>tf_buf := Some b, tf_buf_addr := -1\<rparr>"
    have o: "open_at ?f = None" "open_at f = None" using None by (simp_all add: open_at_def)
    then have "buffer_ok ?f d" using assms(1) b by (simp add: buffer_ok_def)
    moreover have v: "view ?f d = view f d" using o by (simp add: view_def)
    moreover have "ready ?f d dest n" using assms(5) o v by (simp add: ready_def blank_def)
    ultimately show ?thesis
      using None size b(1) by (intro exI [of _ ?f]) (simp add: target_flash_write_buffered_def same_bank_def)
  next
    case (Some b)
    then show ?thesis
      using assms(1,5) by (intro exI [of _ f]) (simp add: target_flash_write_buffered_def same_bank_def)
  qed
  then obtain g where g: "target_flash_write_buffered malloc dest src f d = write_buffered_loop dest src 0 g d"
    "buffer_ok g d" "tf_buf g \<noteq> None" "view g d = view f d" "ready g d dest n" "same_bank f g" by blast
  from write_buffered_view [OF g(2,3) part(3) assms(4) g(5), of 0]
  obtain f' d' where w: "write_buffered_loop dest src 0 g d = Inr (0, f', d')" "buffer_ok f' d'"
    "view f' d' = overlay dest src (view g d)"
    "ready f' d' (dest + of_nat (length src)) (n - length src)" by blast
  have "target_flash_write malloc dest src [f] d = Inr (0, [f'], d')"
    using part(1,2) g(1) w(1) unat_of_nat_u32 [OF part(3)] of_nat_u32_eq_0 [OF part(3)] False
    unfolding target_flash_write_def
    by (subst target_flash_write_loop.simps)
      (simp add: Let_def target_flash_write_loop.simps [of _ _ "[]"])
  moreover have "same_bank f f'" using g(6) write_buffered_bank [OF w(1)] by (simp add: same_bank_def)
  ultimately show ?thesis using w g(4) by auto
qed

end

section \<open>A download\<close>

text \<open>Consecutive writes, as the \<open>vFlashWrite\<close> packets of a download make them.\<close>

fun write_all ::
    "malloc \<Rightarrow> u32 \<Rightarrow> u8 list list \<Rightarrow> 'd target_flash list \<Rightarrow> 'd \<Rightarrow>
     (i32 \<times> 'd target_flash list \<times> 'd) result" where
  "write_all malloc dest [] fl d = Inr (0, fl, d)"
| "write_all malloc dest (bs # bss) fl d =
     bindR (target_flash_write malloc dest bs fl d) (\<lambda>(r, fl, d).
       if r \<noteq> 0 then Inr (r, fl, d) else write_all malloc (dest + of_nat (length bs)) bss fl d)"

context flash_device
begin

lemma write_all_view:
  assumes "malloc_ok malloc sector"
  shows "buffer_ok f d \<Longrightarrow> in_bank f dest (length (concat bss)) \<Longrightarrow> ready f d dest (length (concat bss)) \<Longrightarrow>
    \<exists>f' d'. write_all malloc dest bss [f] d = Inr (0, [f'], d') \<and> buffer_ok f' d' \<and>
      view f' d' = overlay dest (concat bss) (view f d) \<and> same_bank f f'"
proof (induction bss arbitrary: dest f d)
  case Nil
  then show ?case by (simp add: same_bank_def)
next
  case (Cons bs bss)
  let ?n = "length (concat (bs # bss))" and ?d = "dest + of_nat (length bs)"
  have "length bs \<le> ?n" by simp
  from flash_write_view [OF Cons.prems(1) assms Cons.prems(2) this Cons.prems(3)]
  obtain g e where g: "target_flash_write malloc dest bs [f] d = Inr (0, [g], e)" "buffer_ok g e"
    "view g e = overlay dest bs (view f d)" "same_bank f g" "ready g e ?d (length (concat bss))"
    by (auto simp: Let_def)
  have fit: "unat dest + ?n \<le> unat (tf_start f + tf_length f)" "tf_start f \<le> dest"
    using Cons.prems(2) by (simp_all add: in_bank_def)
  then have "unat dest + length bs < 2 ^ 32"
    using unat_u32_less [of "tf_start f + tf_length f"] by simp
  then have u: "unat ?d = unat dest + length bs" by (rule unat_add_u32)
  then have "in_bank g ?d (length (concat bss))"
    using fit g(4) by (simp add: in_bank_def same_bank_def word_le_nat_alt)
  from Cons.IH [OF g(2) this g(5)]
  obtain f' d' where r: "write_all malloc ?d bss [g] e = Inr (0, [f'], d')" "buffer_ok f' d'"
    "view f' d' = overlay ?d (concat bss) (view g e)" "same_bank g f'" by blast
  have "?n \<le> 2 ^ 32" using Cons.prems(3) by (simp add: ready_def)
  then have "view f' d' = overlay dest (concat (bs # bss)) (view f d)"
    using r(3) g(3) overlay_append [of bs "concat bss" dest "view f d"] by simp
  moreover have "same_bank f f'" using g(4) r(4) by (simp add: same_bank_def)
  ultimately show ?case using g(1) r(1,2) by auto
qed

text \<open>The end of the download: the buffer is flushed and the driver's \<open>done\<close> function called.\<close>

lemma download_content:
  assumes "malloc_ok malloc sector" "buffer_ok f d" "in_bank f dest (length (concat bss))" "ready f d dest (length (concat bss))"
    and "\<And>fn d. tf_done f = Some fn \<Longrightarrow> ok d \<Longrightarrow> fst (fn d) = 0 \<and> content (snd (fn d)) = content d"
  shows "\<exists>fl d' fl' d''. write_all malloc dest bss [f] d = Inr (0, fl, d') \<and>
    target_flash_done fl d' = (0, fl', d'') \<and> content d'' = overlay dest (concat bss) (view f d)"
proof -
  from write_all_view [OF assms(1-4)] obtain f' d' where
    w: "write_all malloc dest bss [f] d = Inr (0, [f'], d')" "buffer_ok f' d'"
      "view f' d' = overlay dest (concat bss) (view f d)" "same_bank f f'" by blast
  obtain r g e where g: "target_flash_done_buffered f' d' = (r, g, e)" by (metis prod_cases3)
  note c = done_buffered_content [OF w(2) g]
  have "\<exists>fl' d''. target_flash_done [f'] d' = (0, fl', d'') \<and> content d'' = content e"
  proof (cases "tf_done g")
    case None
    with g c show ?thesis by simp
  next
    case (Some fn)
    then have fn: "tf_done f = Some fn" "tf_done f' = Some fn" using c w(4) by (simp_all add: same_bank_def)
    from assms(5) [OF fn(1), of e] c g fn(2) show ?thesis by (cases "fn e") simp
  qed
  with w(1,3) c show ?thesis by auto
qed

end

end
