(* ===== verification/Usb_Memory.thy ===== *)
theory Usb_Memory
  imports Stm32_Driver Flash_Buffer
begin

text \<open>
  What the server's driver makes of a probe that answers its packets. The locale \<open>usb_probe\<close> is
  the contract of the USB connection, request by request; from it follow the contracts that
  the users of the driver rely on: \<open>memory_reader\<close> for the read function of the target and
  \<open>flash_device\<close> for the write function of the flash bank.
\<close>

section \<open>The contract of the connection\<close>

locale usb_probe =
  fixes ifc :: "'d iface"
    and mem :: "'d \<Rightarrow> memory"
    and up :: "'d \<Rightarrow> bool"
    and readable :: "u32 \<Rightarrow> bool"
    and flashable :: "u32 \<Rightarrow> bool"
  assumes read_cmd: "up d \<Longrightarrow> w \<in> {1, 2, 4} \<Longrightarrow> w dvd n \<Longrightarrow> 0 < n \<Longrightarrow> n \<le> 56 \<Longrightarrow>
      (\<And>i. i < n \<Longrightarrow> readable (a + of_nat i)) \<Longrightarrow>
      \<exists>d'. exchanges ifc (mem_head CMemoryRead (of_nat w) (of_nat n) a) d
             (mem_head CMemoryRead (of_nat w) (of_nat n) a @ mem_load (mem d) a n) d' \<and>
           up d' \<and> mem d' = mem d"
    and write_cmd: "up d \<Longrightarrow> 0 < length bs \<Longrightarrow> length bs \<le> 56 \<Longrightarrow> even (length bs) \<Longrightarrow> even (unat a) \<Longrightarrow>
      (\<And>i. i < length bs \<Longrightarrow> flashable (a + of_nat i)) \<Longrightarrow> programmable a bs (mem d) \<Longrightarrow>
      \<exists>d'. exchanges ifc (mem_head CMemoryWrite 2 (of_nat (length bs)) a @ bs) d
             (mem_head CMemoryWrite 2 (of_nat (length bs)) a) d' \<and>
           up d' \<and> mem d' = program a bs (mem d)"
    and flash_cmd: "up d \<Longrightarrow> c = FC_Erase \<or> c = FC_Detach \<Longrightarrow>
      \<exists>x d'. exchanges ifc (flash_head (flash_code c) a z) d
               [command_code CFlash, flash_code c, 1, x] d' \<and>
             up d' \<and> mem d' = mem d"
begin

definition ready_probe :: "'d probe \<Rightarrow> bool" where
  "ready_probe p \<longleftrightarrow> p_fault p = None \<and> length (p_out p) = 64 \<and> length (p_in p) = 64 \<and> up (p_dev p)"

end

section \<open>Requests\<close>

lemma mem_cmd_head:
  assumes "w \<in> {1, 2, 4}" "w dvd r" "0 < r" "r < 2 ^ 32"
  shows "mem_cmd c x (of_nat w) (of_nat r div of_nat w) buf =
    (8, blit 0 (mem_head c (of_nat w) (of_nat (min 56 r)) x) buf)"
proof -
  have w: "unat (of_nat w :: u32) = w" "0 < w" using assms(1) by auto
  obtain k where k: "r = k * w" using assms(2) by (metis dvd_def mult.commute)
  have r: "unat (of_nat r :: u32) = r" by (rule unat_of_nat_u32 [OF assms(4)])
  have q: "of_nat r div of_nat w = (of_nat k :: u32)"
  proof -
    have "k < 2 ^ 32" using assms(4) w(2) unfolding k by (cases w) auto
    then have "unat (of_nat k :: u32) = k" by (rule unat_of_nat_u32)
    moreover have "unat (of_nat r div of_nat w :: u32) = k" using r w k by (simp add: unat_div_distrib)
    ultimately show ?thesis by (simp only: word_unat_eq_iff)
  qed
  have "0 < k" "k < 2 ^ 32" using assms(3,4) w(2) unfolding k by (cases w; auto)+
  then have nz: "(of_nat k :: u32) \<noteq> 0" using of_nat_u32_eq_0 by auto
  have wnz: "(of_nat w :: u32) \<noteq> 0" "(of_nat w - 1) AND of_nat w = (0 :: u32)" using assms(1) by auto
  have prod: "of_nat k * of_nat w = (of_nat r :: u32)" using k by simp
  have m: "(if 56 < (of_nat r :: u32) then 56 else of_nat r) = (of_nat (min 56 r) :: u32)"
    using r by (auto simp: word_less_nat_alt min_def)
  have "w dvd min 56 r" using assms(1,2) by (auto simp: min_def)
  moreover have "unat (of_nat (min 56 r) :: u32) = min 56 r" by (intro unat_of_nat_u32) auto
  ultimately have "of_nat (min 56 r) AND NOT (of_nat w - 1) = (of_nat (min 56 r) :: u32)"
    using and_not_align [OF assms(1), of "of_nat (min 56 r)"] by simp
  then show ?thesis
    unfolding mem_cmd_def q
    using nz wnz prod m by (simp add: maxPacketSize_def Let_def ucast_of_nat_u32_u8 ucast_of_nat_u32_u16)
qed

section \<open>Reading\<close>

context usb_probe
begin

text \<open>One request of the loop and its answer.\<close>

lemma read_exchange:
  assumes "ready_probe p" "w \<in> {1, 2, 4}" "w dvd r" "0 < r" "r < 2 ^ 32"
    and "\<And>i. i < r \<Longrightarrow> readable (a + of_nat i)"
  obtains n p1 p2 where
    "0 < n" "n \<le> r" "w dvd r - n" "8 + n \<le> length (p_in p2)"
    "with_head (memReadCmd a (of_nat w) (of_nat r div of_nat w)) p = (8, p1)"
    "sendAndReceive ifc 8 p1 = (8 + n, p2)" "ready_probe p2" "mem (p_dev p2) = mem (p_dev p)"
    "same_command p2" "same_address p2" "same_second p2" "in_u16 p2 = n"
    "take n (drop 8 (p_in p2)) = mem_load (mem (p_dev p)) a n"
proof -
  define n where "n = min 56 r"
  let ?head = "mem_head CMemoryRead (of_nat w) (of_nat n) a" and ?bs = "mem_load (mem (p_dev p)) a n"
  have p: "p_fault p = None" "length (p_out p) = 64" "length (p_in p) = 64" "up (p_dev p)"
    using assms(1) by (simp_all add: ready_probe_def)
  have n: "0 < n" "n \<le> 56" "w dvd n" "n \<le> r" "w dvd r - n"
    using assms(2-4) by (auto simp: n_def min_def)
  let ?p1 = "p\<lparr>p_out := blit 0 ?head (p_out p)\<rparr>"
  have w1: "with_head (memReadCmd a (of_nat w) (of_nat r div of_nat w)) p = (8, ?p1)"
    using mem_cmd_head [OF assms(2-5)] by (simp add: with_head_def memReadCmd_def n_def)
  obtain d' where d': "exchanges ifc ?head (p_dev p) (?head @ ?bs) d'" "up d'" "mem d' = mem (p_dev p)"
    using read_cmd [OF p(4) assms(2) n(3,1,2), of a] assms(6) by (auto simp: n_def)
  have out: "blit 0 ?head (p_out p) = ?head @ drop 8 (p_out p)" using p(2) by (simp add: blit_front)
  let ?p2 = "?p1\<lparr>p_dev := d', p_in := blit 0 (?head @ ?bs) (p_in p)\<rparr>"
  have s: "sendAndReceive ifc 8 ?p1 = (8 + n, ?p2)"
    using send_receive [of ifc 8 ?p1 "?head @ ?bs" d'] d'(1) p(2) by (simp add: out)
  have inb: "p_in ?p2 = ?head @ ?bs @ drop (8 + n) (p_in p)"
    using p(3) n(2) by (simp add: blit_front)
  have rdy: "ready_probe ?p2" using p d'(2) n(2) by (simp add: ready_probe_def length_blit)
  have u16: "unat (of_nat n :: u16) = n" using n(2) by (simp add: unat_of_nat)
  have "same_command ?p2" "same_address ?p2" "same_second ?p2" "in_u16 ?p2 = n"
    "take n (drop 8 (p_in ?p2)) = ?bs"
    using inb out u16
    by (simp_all add: same_command_def same_address_def same_second_def in_u16_def le_simps)
  with that [OF n(1,4,5) _ w1 s rdy _ this] d'(3) inb n(2) p(3) show thesis by simp
qed

lemma memRead_loop_bytes:
  assumes w: "w \<in> {1, 2, 4}"
  shows "ready_probe p \<Longrightarrow> offset \<le> length data \<Longrightarrow> w dvd (length data - offset) \<Longrightarrow> length data < 2 ^ 32 \<Longrightarrow>
    (\<And>i. i < length data - offset \<Longrightarrow> readable (a + of_nat (offset + i))) \<Longrightarrow>
    \<exists>p'. memRead_loop ifc a (of_nat w) offset data p =
        Inr (take offset data @ mem_load (mem (p_dev p)) (a + of_nat offset) (length data - offset), p') \<and>
      ready_probe p' \<and> mem (p_dev p') = mem (p_dev p)"
proof (induction "length data - offset" arbitrary: offset data p rule: less_induct)
  case less
  show ?case
  proof (cases "offset < length data")
    case False
    with less.prems(1,2) show ?thesis by (subst memRead_loop.simps) simp
  next
    case True
    let ?r = "length data - offset" and ?a = "a + of_nat offset"
    have r: "w dvd ?r" "0 < ?r" "?r < 2 ^ 32" using less.prems(3,4) True by simp_all
    have rd: "readable (?a + of_nat i)" if "i < ?r" for i
      using less.prems(5) [OF that] by (simp add: add.assoc)
    obtain n p1 p2 where n: "0 < n" "n \<le> ?r" "w dvd ?r - n" "8 + n \<le> length (p_in p2)" and x:
      "with_head (memReadCmd ?a (of_nat w) (of_nat ?r div of_nat w)) p = (8, p1)"
      "sendAndReceive ifc 8 p1 = (8 + n, p2)" "ready_probe p2" "mem (p_dev p2) = mem (p_dev p)"
      "same_command p2" "same_address p2" "same_second p2" "in_u16 p2 = n"
      "take n (drop 8 (p_in p2)) = mem_load (mem (p_dev p)) ?a n"
      by (rule read_exchange [OF less.prems(1) w r rd])
    let ?data = "blit offset (mem_load (mem (p_dev p)) ?a n) data"
    have len: "length ?data = length data" using n(2) True by (simp add: length_blit)
    have count: "(if n < ?r then n else ?r) = n" using n(2) by simp
    have step: "memRead_loop ifc a (of_nat w) offset data p =
        memRead_loop ifc a (of_nat w) (offset + n) ?data p2"
      using True x n(1,4) n(2) [unfolded le_less] count
      by (subst memRead_loop.simps) (auto simp: Let_def)
    have rest: "length ?data - (offset + n) = ?r - n" using len by simp
    have shorter: "length ?data - (offset + n) < ?r" using rest n(1) r(2) by linarith
    have fits: "offset + n \<le> length ?data" "w dvd length ?data - (offset + n)" "length ?data < 2 ^ 32"
      using len rest n(2,3) True less.prems(4) by simp_all
    have rd': "readable (a + of_nat (offset + n + i))" if "i < length ?data - (offset + n)" for i
      using less.prems(5) [of "n + i"] that rest by (simp add: add.assoc)
    from less.hyps [OF shorter x(3) fits rd'] obtain p' where p':
      "memRead_loop ifc a (of_nat w) (offset + n) ?data p2 =
        Inr (take (offset + n) ?data @ mem_load (mem (p_dev p2)) (a + of_nat (offset + n)) (?r - n), p')"
      "ready_probe p'" "mem (p_dev p') = mem (p_dev p2)"
      unfolding rest by blast
    have "take (offset + n) ?data = take offset data @ mem_load (mem (p_dev p)) ?a n"
      using True n(2) by (simp add: blit_def)
    moreover have "mem_load (mem (p_dev p)) ?a ?r =
        mem_load (mem (p_dev p)) ?a n @ mem_load (mem (p_dev p)) (?a + of_nat n) (?r - n)"
      using mem_load_add [of "mem (p_dev p)" ?a n "?r - n"] le_add_diff_inverse [OF n(2)] by (simp only:)
    ultimately show ?thesis using step p' x(4) by (simp only: of_nat_add add.assoc append_assoc) blast
  qed
qed


end

text \<open>The driver picks an access width that divides the length.\<close>

lemma access_size_dvd:
  obtains w where "access_size x = of_nat w" "w \<in> {1, 2, 4}" "w dvd unat x"
proof -
  have bits: "x AND 1 = 0 \<longleftrightarrow> even (unat x)" "x AND 2 = 0 \<longleftrightarrow> even (unat x div 2)"
    using and_exp_eq_0_iff_not_bit [of x 0] and_exp_eq_0_iff_not_bit [of x 1] bit_unsigned_iff [of x 1, where 'a = nat]
      bit_unsigned_iff [of x 0, where 'a = nat]
    by (simp_all add: bit_0 bit_Suc)
  show thesis
  proof (cases "odd (unat x)")
    case True
    with that [of 1] bits show thesis by (simp add: access_size_def)
  next
    case False
    show thesis
    proof (cases "x AND 2 = 0")
      case True
      then have "4 dvd unat x" using bits(2) False by presburger
      with that [of 4] bits False True show thesis by (simp add: access_size_def)
    next
      case f: False
      with that [of 2] bits False show thesis by (simp add: access_size_def)
    qed
  qed
qed

lemma stm32_access_dvd:
  obtains w where "stm32_access a n = of_nat w" "w \<in> {1, 2, 4}" "w dvd unat n"
proof -
  obtain v where v: "access_size a = of_nat v" "v \<in> {1, 2, 4}" by (rule access_size_dvd)
  obtain w where w: "access_size n = of_nat w" "w \<in> {1, 2, 4}" "w dvd unat n" by (rule access_size_dvd)
  show thesis
  proof (cases "access_size a < access_size n")
    case True
    then have "v dvd w" using v w(1,2) by auto
    then have "v dvd unat n" using w(3) by (rule dvd_trans)
    with that [of v] v True show thesis by (simp add: stm32_access_def)
  next
    case False
    with that [of w] w show thesis by (simp add: stm32_access_def)
  qed
qed

lemma div_mult_width:
  assumes "w \<in> {1, 2, 4}" "w dvd unat (n :: u32)"
  shows "n div of_nat w * of_nat w = n" "n div of_nat w = 0 \<longleftrightarrow> n = 0" "(of_nat w :: u32) \<noteq> 0"
proof -
  have w: "unat (of_nat w :: u32) = w" "0 < w" using assms(1) by auto
  then show nz: "(of_nat w :: u32) \<noteq> 0" by (metis unat_0 less_not_refl)
  have "n mod of_nat w = 0" using assms(2) w by (simp add: word_unat_eq_iff unat_mod_distrib)
  then show eq: "n div of_nat w * of_nat w = n" by (metis add.right_neutral div_mult_mod_eq)
  show "n div of_nat w = 0 \<longleftrightarrow> n = 0" using eq by (metis mult_zero_left div_0)
qed

context usb_probe
begin

lemma stm32_mem_read_bytes:
  assumes "ready_probe p" "\<And>i. i < unat n \<Longrightarrow> readable (a + of_nat i)" "unat n \<le> length buf"
  shows "\<exists>p'. stm32_mem_read ifc a n buf p = (mem_load (mem (p_dev p)) a (unat n) @ drop (unat n) buf, p') \<and>
    ready_probe p' \<and> mem (p_dev p') = mem (p_dev p)"
proof -
  obtain w where w: "stm32_access a n = of_nat w" "w \<in> {1, 2, 4}" "w dvd unat n"
    by (rule stm32_access_dvd)
  note d = div_mult_width [OF w(2,3)]
  have nofault: "p_fault p = None" using assms(1) by (simp add: ready_probe_def)
  show ?thesis
  proof (cases "n = 0")
    case True
    with nofault w(1) assms(1) show ?thesis by (simp add: stm32_mem_read_def on_probe_def memRead_def)
  next
    case False
    have n: "unat n < 2 ^ 32" by (rule unat_u32_less)
    obtain p' where p': "memRead_loop ifc a (of_nat w) 0 (replicate (unat n) 0) p =
        Inr (mem_load (mem (p_dev p)) a (unat n), p')" "ready_probe p'" "mem (p_dev p') = mem (p_dev p)"
      using memRead_loop_bytes [OF w(2) assms(1), of 0 "replicate (unat n) 0" a] w(3) n assms(2) by auto
    have "memRead ifc a (of_nat w) (n div of_nat w) p = Inr (mem_load (mem (p_dev p)) a (unat n), p')"
      using p'(1) d False by (simp add: memRead_def)
    then show ?thesis
      using w(1) p'(2,3) nofault assms(3) by (simp add: stm32_mem_read_def on_probe_def blit_front)
  qed
qed

end

sublocale usb_probe \<subseteq> reader: memory_reader "stm32_mem_read ifc" stm32_check_error "\<lambda>p. mem (p_dev p)" ready_probe readable
proof
  fix p :: "'d probe" and n a :: u32 and buf :: "u8 list"
  assume p: "ready_probe p" and r: "\<And>i. i < unat n \<Longrightarrow> readable (a + of_nat i)" and l: "unat n \<le> length buf"
  from stm32_mem_read_bytes [OF p r l] show
    "fst (stm32_mem_read ifc a n buf p) = mem_load (mem (p_dev p)) a (unat n) @ drop (unat n) buf \<and>
     mem (p_dev (snd (stm32_mem_read ifc a n buf p))) = mem (p_dev p) \<and>
     ready_probe (snd (stm32_mem_read ifc a n buf p))" by fastforce
qed (simp add: stm32_check_error_def)

section \<open>Writing\<close>

context usb_probe
begin

text \<open>A part of the data that the probe can program, and one request of the loop.\<close>

lemma write_exchange:
  assumes "ready_probe p" "even r" "0 < r" "r < 2 ^ 32" "even (unat a)" "length bs = r"
    and "\<And>i. i < r \<Longrightarrow> flashable (a + of_nat i)" "programmable a bs (mem (p_dev p))"
  obtains n p1 p2 where
    "0 < n" "n \<le> r" "even n" "n \<le> 56"
    "with_head (memWriteCmd a 2 (of_nat r div 2)) p = (8, p1)" "out_u16 p1 = n" "length (p_out p1) = 64"
    "sendAndReceive ifc (8 + n) (put_out 8 (take n bs) p1) = (8, p2)" "ready_probe p2"
    "mem (p_dev p2) = program a (take n bs) (mem (p_dev p))"
    "same_command p2" "same_address p2" "same_second p2" "in_u16 p2 = n" "out_u16 p2 = n"
proof -
  define n where "n = min 56 r"
  let ?head = "mem_head CMemoryWrite 2 (of_nat n) a" and ?bs = "take n bs"
  have p: "p_fault p = None" "length (p_out p) = 64" "length (p_in p) = 64" "up (p_dev p)"
    using assms(1) by (simp_all add: ready_probe_def)
  have n: "0 < n" "n \<le> 56" "even n" "n \<le> r" using assms(2,3) by (auto simp: n_def min_def)
  have len: "length ?bs = n" using n(4) assms(6) by simp
  let ?p1 = "p\<lparr>p_out := blit 0 ?head (p_out p)\<rparr>"
  have w1: "with_head (memWriteCmd a 2 (of_nat r div 2)) p = (8, ?p1)"
    using mem_cmd_head [of 2 r CMemoryWrite a "p_out p"] assms(2-4)
    by (simp add: with_head_def memWriteCmd_def n_def)
  have fl: "flashable (a + of_nat i)" if "i < length ?bs" for i using assms(7) that len n(4) by simp
  have "programmable a (?bs @ drop n bs) (mem (p_dev p))" using assms(8) by simp
  then have prog: "programmable a ?bs (mem (p_dev p))" by (rule programmable_prefix)
  have lens: "0 < length ?bs" "length ?bs \<le> 56" "even (length ?bs)" unfolding len using n by simp_all
  note w = write_cmd [OF p(4) lens assms(5) _ prog, simplified len]
  obtain d' where d':
    "exchanges ifc (?head @ ?bs) (p_dev p) ?head d'" "up d'" "mem d' = program a ?bs (mem (p_dev p))"
    using w fl len by metis
  have out1: "p_out ?p1 = ?head @ drop 8 (p_out p)" using p(2) by (simp add: blit_front)
  let ?q = "put_out 8 ?bs ?p1"
  have out: "p_out ?q = ?head @ ?bs @ drop (8 + n) (p_out p)"
    using p(2) n(2) len by (simp add: put_out_def out1 blit_def add.commute)
  let ?p2 = "?q\<lparr>p_dev := d', p_in := blit 0 ?head (p_in p)\<rparr>"
  have s: "sendAndReceive ifc (8 + n) ?q = (8, ?p2)"
  proof -
    have "take (8 + n) (p_out ?q) = ?head @ ?bs" "8 + n \<le> length (p_out ?q)"
      using p(2) n(2) len unfolding out by simp_all
    then show ?thesis using send_receive [of ifc "8 + n" ?q ?head d'] d'(1) by (simp add: put_out_def)
  qed
  have inb: "p_in ?p2 = ?head @ drop 8 (p_in p)" using p(3) by (simp add: blit_front)
  have outlen: "length (p_out ?q) = 64" using out p(2) n(2) len by simp
  have rdy: "ready_probe ?p2" using p d'(2) n(2) outlen by (simp add: ready_probe_def length_blit put_out_def)
  have u16: "unat (of_nat n :: u16) = n" using n(2) by (simp add: unat_of_nat)
  have "same_command ?p2" "same_address ?p2" "same_second ?p2" "in_u16 ?p2 = n" "out_u16 ?p2 = n"
    using inb out u16
    by (simp_all add: same_command_def same_address_def same_second_def in_u16_def out_u16_def le_simps)
  moreover have "out_u16 ?p1 = n" "length (p_out ?p1) = 64"
    using out1 u16 p(2) by (simp_all add: out_u16_def le_simps length_blit)
  ultimately show thesis using that [OF n(1,4,3,2) w1 _ _ s rdy] d'(3) by simp
qed

end

lemma programmable_after:
  "programmable a (xs @ ys) m \<Longrightarrow> even (length xs) \<Longrightarrow> even (unat a) \<Longrightarrow> length xs + length ys < 2 ^ 32 \<Longrightarrow>
   programmable (a + of_nat (length xs)) ys (program a xs m)"
proof (induction xs arbitrary: a m rule: induct_list012)
  case 1
  then show ?case by (simp add: program_def)
next
  case (3 x y xs)
  have p: "programmable a ([x, y] @ (xs @ ys)) m" using "3.prems"(1) by simp
  have small: "length (xs @ ys) + 2 < 2 ^ 32" using "3.prems"(4) by simp
  have "programmable (a + 2) (xs @ ys) (program a [x, y] m)"
    by (rule programmable_rest [OF p _ "3.prems"(3) small]) simp
  moreover have "even (unat (a + 2))" using even_offset [OF "3.prems"(3), of 2] by simp
  ultimately have "programmable (a + 2 + of_nat (length xs)) ys (program (a + 2) xs (program a [x, y] m))"
    using "3.prems"(2,4) by (intro "3.IH") simp_all
  moreover have "program (a + 2) xs (program a [x, y] m) = program a (x # y # xs) m"
    using program_append [of "[x, y]" xs a m] "3.prems"(4) by simp
  moreover have "a + 2 + of_nat (length xs) = a + of_nat (length (x # y # xs))" by simp
  ultimately show ?case by (simp only:)
qed simp

context usb_probe
begin

lemma memWrite_loop_programs:
  assumes a: "even (unat a)" and data: "even (length data)" "length data < 2 ^ 32"
    and fl: "\<And>i. i < length data \<Longrightarrow> flashable (a + of_nat i)"
  shows "ready_probe p \<Longrightarrow> offset \<le> length data \<Longrightarrow> even offset \<Longrightarrow>
    programmable (a + of_nat offset) (drop offset data) (mem (p_dev p)) \<Longrightarrow>
    \<exists>p'. memWrite_loop ifc a 2 offset data p = Inr (length data, p') \<and> ready_probe p' \<and>
      mem (p_dev p') = program (a + of_nat offset) (drop offset data) (mem (p_dev p))"
proof (induction "length data - offset" arbitrary: offset p rule: less_induct)
  case less
  show ?case
  proof (cases "offset < length data")
    case False
    with less.prems(1,2) show ?thesis by (subst memWrite_loop.simps) (simp add: program_def)
  next
    case True
    let ?r = "length data - offset" and ?a = "a + of_nat offset" and ?bs = "drop offset data"
    have r: "even ?r" "0 < ?r" "?r < 2 ^ 32" using less.prems(3) data True by simp_all
    have ev: "even (unat ?a)" by (rule even_offset [OF a less.prems(3)])
    have fl': "flashable (?a + of_nat i)" if "i < ?r" for i
      using fl [of "offset + i"] that by (simp add: add.assoc)
    obtain n p1 p2 where n: "0 < n" "n \<le> ?r" "even n" "n \<le> 56" and x:
      "with_head (memWriteCmd ?a 2 (of_nat ?r div 2)) p = (8, p1)" "out_u16 p1 = n" "length (p_out p1) = 64"
      "sendAndReceive ifc (8 + n) (put_out 8 (take n ?bs) p1) = (8, p2)" "ready_probe p2"
      "mem (p_dev p2) = program ?a (take n ?bs) (mem (p_dev p))"
      "same_command p2" "same_address p2" "same_second p2" "in_u16 p2 = n" "out_u16 p2 = n"
      by (rule write_exchange [OF less.prems(1) r ev _ fl' less.prems(4)]) simp
    have fit: "offset + n \<le> length data" using n(2) True by simp
    have "out_u16 (put_out 8 (take n ?bs) p1) = n" using x(2,3)
      by (simp add: out_u16_def put_out_def blit_def drop_take rd16_def nth_append)
    then have step: "memWrite_loop ifc a 2 offset data p = memWrite_loop ifc a 2 (offset + n) data p2"
      using True x n(1,4) fit by (subst memWrite_loop.simps) (simp add: Let_def)
    have split: "take n ?bs @ drop (offset + n) data = ?bs"
      by (metis append_take_drop_id drop_drop add.commute)
    have len: "length (take n ?bs) = n" using n(2) by simp
    have next_a: "?a + of_nat n = a + of_nat (offset + n)" by simp
    have "programmable (?a + of_nat (length (take n ?bs))) (drop (offset + n) data)
        (program ?a (take n ?bs) (mem (p_dev p)))"
      using less.prems(4) ev n(3) len data(2) fit by (intro programmable_after) (simp_all only: split, simp_all)
    then have "programmable (a + of_nat (offset + n)) (drop (offset + n) data) (mem (p_dev p2))"
      unfolding len next_a x(6) .
    moreover have "length data - (offset + n) < ?r" "even (offset + n)"
      using n(1,3) True less.prems(3) by simp_all
    ultimately obtain p' where p':
      "memWrite_loop ifc a 2 (offset + n) data p2 = Inr (length data, p')" "ready_probe p'"
      "mem (p_dev p') = program (a + of_nat (offset + n)) (drop (offset + n) data) (mem (p_dev p2))"
      using less.hyps [OF _ x(5) fit] by blast
    have "program (?a + of_nat (length (take n ?bs))) (drop (offset + n) data) (program ?a (take n ?bs) (mem (p_dev p)))
        = program ?a ?bs (mem (p_dev p))"
      by (subst program_append) (use data(2) len fit in \<open>simp_all add: split\<close>)
    with p' step x(6) show ?thesis by (simp only: len next_a) blast
  qed
qed

text \<open>The two functions of the flash bank.\<close>

lemma flash_wrtie_programs:
  assumes "ready_probe p" "even (unat a)" "even (length bs)" "length bs < 2 ^ 32"
    and "\<And>i. i < length bs \<Longrightarrow> flashable (a + of_nat i)" "programmable a bs (mem (p_dev p))"
  shows "ready_probe (stm32_flash_wrtie ifc a bs p) \<and>
    mem (p_dev (stm32_flash_wrtie ifc a bs p)) = program a bs (mem (p_dev p))"
proof (cases "bs = []")
  case True
  with assms(1) show ?thesis
    by (simp add: stm32_flash_wrtie_def on_probe_def memWrite_def program_def)
next
  case False
  from memWrite_loop_programs [OF assms(2-5,1), of 0] assms(6) obtain p' where
    "memWrite_loop ifc a 2 0 bs p = Inr (length bs, p')" "ready_probe p'"
    "mem (p_dev p') = program a bs (mem (p_dev p))" by auto
  with assms(1) False show ?thesis
    by (simp add: stm32_flash_wrtie_def on_probe_def memWrite_def ready_probe_def)
qed

lemma flash_cmd_exchange:
  assumes "ready_probe p" "up d'"
    and "exchanges ifc (flash_head (flash_code c) a z) (p_dev p) [command_code CFlash, flash_code c, 1, x] d'"
  shows "ready_probe (flash_cmd ifc c a z p) \<and> p_dev (flash_cmd ifc c a z p) = d'"
proof -
  have p: "p_fault p = None" "length (p_out p) = 64" "length (p_in p) = 64"
    using assms(1) by (simp_all add: ready_probe_def)
  let ?p1 = "p\<lparr>p_out := blit 0 (flash_head (flash_code c) a z) (p_out p)\<rparr>"
  have "take 12 (p_out ?p1) = flash_head (flash_code c) a z" using p(2) by (simp add: blit_front)
  then have "sendAndReceive ifc 12 ?p1 = (4, ?p1\<lparr>p_dev := d',
      p_in := blit 0 [command_code CFlash, flash_code c, 1, x] (p_in p)\<rparr>)"
    using send_receive [of ifc 12 ?p1 "[command_code CFlash, flash_code c, 1, x]" d'] assms(3) p(2)
    by (simp add: length_blit)
  then show ?thesis
    using p assms(2)
    by (simp add: flash_cmd_def on_probe_def flashCmd_def with_head_def flashCmdHead_def Let_def
        ready_probe_def length_blit split: prod.splits)
qed

lemma flash_cmd_ok:
  assumes "ready_probe p" "c = FC_Erase \<or> c = FC_Detach"
  shows "ready_probe (flash_cmd ifc c a z p) \<and> mem (p_dev (flash_cmd ifc c a z p)) = mem (p_dev p)"
proof -
  have "up (p_dev p)" using assms(1) by (simp add: ready_probe_def)
  from flash_cmd [OF this assms(2), of a z] obtain x d' where
    "exchanges ifc (flash_head (flash_code c) a z) (p_dev p) [command_code CFlash, flash_code c, 1, x] d'"
    "up d'" "mem d' = mem (p_dev p)" by blast
  with flash_cmd_exchange [OF assms(1)] show ?thesis by metis
qed

end

sublocale usb_probe \<subseteq> bank: flash_device "stm32f1_flash_write ifc" "\<lambda>p. mem (p_dev p)" ready_probe "0x400"
  "\<lambda>a. \<forall>i<1024. flashable (a + of_nat i)"
proof
  fix p :: "'d probe" and a :: u32 and bs :: "u8 list"
  assume p: "ready_probe p" and v: "\<forall>i<1024. flashable (a + of_nat i)" and a: "a mod 0x400 = 0"
    and len: "length bs = unat (0x400 :: u32)" and prog: "programmable a bs (mem (p_dev p))"
  have "unat a mod 1024 = 0" using a unat_mod_sector [of a "0x400"] by simp
  then have "1024 dvd unat a" by (rule mod_0_imp_dvd)
  moreover have "(2 :: nat) dvd 1024" by simp
  ultimately have ev: "even (unat a)" by (rule dvd_trans [rotated])
  have l: "length bs = 1024" using len by simp
  have f: "flashable (a + of_nat i)" if "i < length bs" for i using v that unfolding l by blast
  have "even (length bs)" "length bs < 2 ^ 32" unfolding l by simp_all
  note w = flash_wrtie_programs [OF p ev this f prog]
  show "fst (stm32f1_flash_write ifc a bs p) = 0 \<and> ready_probe (snd (stm32f1_flash_write ifc a bs p)) \<and>
      mem (p_dev (snd (stm32f1_flash_write ifc a bs p))) = program a bs (mem (p_dev p))"
    unfolding stm32f1_flash_write_def using w by simp
qed simp_all

end
