(* ===== verification/Monitor_Memory.thy ===== *)
theory Monitor_Memory
  imports Monitor Debug_Erase
begin

text \<open>
  What the memory commands of the probe do on the microcontroller: a read of the flash or the
  RAM is answered with the bytes that are there, a write to the flash programs it. The words
  of the System Control Space (\<open>0xE000E000\<close> to \<open>0xE000EFFF\<close>), which the monitor itself uses,
  are left out of the memory that the properties speak about.
\<close>

section \<open>The memory of the user\<close>

definition core_register :: "u32 \<Rightarrow> bool" where
  "core_register x \<longleftrightarrow> 0xE000E000 \<le> x \<and> x < 0xE000F000"

definition user_mem :: "f103 \<Rightarrow> memory" where
  "user_mem h = (\<lambda>x. if core_register x then 0 else f_mem h x)"

text \<open>Two states that differ in core registers only.\<close>

definition same_user :: "f103 \<Rightarrow> f103 \<Rightarrow> bool" where
  "same_user h h' \<longleftrightarrow> user_mem h' = user_mem h \<and> h' = h\<lparr>f_mem := f_mem h'\<rparr>"

lemma same_user_refl [simp]: "same_user h h"
  by (simp add: same_user_def)

lemma same_user_trans: "same_user h h' \<Longrightarrow> same_user h' h'' \<Longrightarrow> same_user h h''"
  by (cases h; cases h'; cases h'') (simp add: same_user_def)

lemma same_user_rest: "same_user h h' \<Longrightarrow> at_rest h' = at_rest h \<and> f_locked h' = f_locked h"
  by (cases h; cases h') (simp add: same_user_def at_rest_def)

lemma core_word:
  assumes "0xE000E000 \<le> a" "a < 0xE000EFFC" "\<not> core_register x"
  shows "4 \<le> unat (x - a)"
proof (rule ccontr)
  assume "\<not> 4 \<le> unat (x - a)"
  then have l: "unat (x - a) < 4" by simp
  have a: "0xE000E000 \<le> unat a" "unat a < 0xE000EFFC"
    using assms(1,2) by (simp_all add: word_le_nat_alt word_less_nat_alt)
  have "unat (a + of_nat (unat (x - a))) = unat a + unat (x - a)"
    using a l by (intro unat_add_u32) simp
  then have "unat x = unat a + unat (x - a)" by simp
  with a l assms(3) show False by (simp add: core_register_def word_le_nat_alt word_less_nat_alt)
qed

lemma same_user_modify:
  assumes "0xE000E000 \<le> a" "a < 0xE000EFFC"
  shows "same_user h (mmio_modify f103_bus a f h)"
proof -
  have r: "a \<noteq> FLASH_KEYR" "a \<noteq> FLASH_SR" "a \<noteq> FLASH_CR" "a \<noteq> FLASH_AR" "\<not> in_flash a"
    using assms by (auto simp: flash_regs in_flash_def word_le_nat_alt word_less_nat_alt)
  have "\<exists>v. mmio_modify f103_bus a f h = h\<lparr>f_mem := store_le 4 a v (f_mem h)\<rparr>"
    using r by (auto simp: mmio_modify_def mmio_read_def mmio_write_def f103_bus_def f103_read_def f103_write_def)
  then obtain v where v: "mmio_modify f103_bus a f h = h\<lparr>f_mem := store_le 4 a v (f_mem h)\<rparr>" ..
  have "store_le 4 a v (f_mem h) x = f_mem h x" if "\<not> core_register x" for x
    using core_word [OF assms that] by (simp add: store_le_def overlay_def)
  then show ?thesis unfolding v same_user_def by (auto simp: user_mem_def)
qed

section \<open>Copying memory into the answer\<close>

definition plain :: "u32 \<Rightarrow> bool" where
  "plain x \<longleftrightarrow> x \<noteq> FLASH_SR \<and> x \<noteq> FLASH_CR"

lemma f103_load: "plain a \<Longrightarrow> bus_read f103_bus w a h = (load_le w a (f_mem h), h)"
  by (simp add: plain_def f103_bus_def f103_read_def)

lemma copy_loop_read:
  assumes "w \<in> {1, 2, 4}"
  shows "8 + off + k * w \<le> length (usbAnsFrame m) \<Longrightarrow> off + k * w < 2 ^ 32 \<Longrightarrow>
    (\<And>i. i < k * w \<Longrightarrow> plain (address + of_nat (off + i))) \<Longrightarrow>
    copy_loop w (load_mem f103_bus address w) (store_frame 8 w) (of_nat off) (of_nat (k * w)) m =
      Some (m\<lparr>usbAnsFrame :=
        blit (8 + off) (mem_load (f_mem (hw m)) (address + of_nat off) (k * w)) (usbAnsFrame m)\<rparr>)"
proof (induction k arbitrary: off m)
  case 0
  then show ?case by (subst copy_loop.simps) simp
next
  case (Suc k)
  let ?a = "address + of_nat off" and ?mem = "f_mem (hw m)"
  let ?m = "m\<lparr>usbAnsFrame := blit (8 + off) (mem_load ?mem ?a w) (usbAnsFrame m)\<rparr>"
  have w: "0 < w" "w \<le> Suc k * w" using assms by auto
  have nz: "of_nat (Suc k * w) \<noteq> (0 :: u32)" using Suc.prems(2) w by (subst of_nat_u32_eq_0) auto
  have "plain ?a" using Suc.prems(3) [of 0] w(1) by simp
  then have ld: "load_mem f103_bus address w (of_nat off) m = (load_le w ?a ?mem, m)"
    by (simp add: load_mem_def read_hw_def f103_load)
  have off: "unat (of_nat off :: u32) = off" using Suc.prems(2) by (intro unat_of_nat_u32) simp
  have st: "store_frame 8 w (of_nat off) (load_le w ?a ?mem) m = ?m"
    using assms off by (simp add: store_frame_def bytes_load_le)
  have "of_nat (Suc k * w) - of_nat w = (of_nat (k * w) :: u32)" by simp
  with nz ld st have step: "copy_loop w (load_mem f103_bus address w) (store_frame 8 w) (of_nat off) (of_nat (Suc k * w)) m =
      copy_loop w (load_mem f103_bus address w) (store_frame 8 w) (of_nat (off + w)) (of_nat (k * w)) ?m"
    by (subst copy_loop.simps) simp
  have len: "length (usbAnsFrame ?m) = length (usbAnsFrame m)"
    using Suc.prems(1) by (simp add: length_blit)
  have pl: "plain (address + of_nat (off + w + i))" if "i < k * w" for i
    using Suc.prems(3) [of "w + i"] that by (simp add: ac_simps)
  have "copy_loop w (load_mem f103_bus address w) (store_frame 8 w) (of_nat (off + w)) (of_nat (k * w)) ?m =
      Some (?m\<lparr>usbAnsFrame := blit (8 + (off + w))
        (mem_load (f_mem (hw ?m)) (address + of_nat (off + w)) (k * w)) (usbAnsFrame ?m)\<rparr>)"
    using Suc.prems(1,2) len pl by (intro Suc.IH) (simp_all del: of_nat_add of_nat_mult)
  moreover have "blit (8 + (off + w)) (mem_load ?mem (address + of_nat (off + w)) (k * w))
      (blit (8 + off) (mem_load ?mem ?a w) (usbAnsFrame m)) =
      blit (8 + off) (mem_load ?mem ?a (Suc k * w)) (usbAnsFrame m)"
    using blit_append [of "8 + off" "mem_load ?mem ?a w" "mem_load ?mem (?a + of_nat w) (k * w)" "usbAnsFrame m"]
      Suc.prems(1) mem_load_add [of ?mem ?a w "k * w"] by (simp add: ac_simps)
  ultimately show ?case using step by simp
qed

text \<open>\<open>dbg_memcpy\<close> around the loop.\<close>

lemma dbg_memcpy_read:
  assumes "w \<in> {1, 2, 4}" "w dvd n" "8 + n \<le> length (usbAnsFrame m)" "n < 2 ^ 32"
    and "\<And>i. i < n \<Longrightarrow> plain (address + of_nat i) \<and> \<not> core_register (address + of_nat i)"
  shows "\<exists>h. dbg_memcpy f103_bus (load_mem f103_bus address) (store_frame 8) (of_nat n) (of_nat w) m =
    Inr (m\<lparr>hw := h, usbAnsFrame := blit 8 (mem_load (user_mem (hw m)) address n) (usbAnsFrame m)\<rparr>) \<and>
    same_user (hw m) h"
proof -
  let ?h1 = "mmio_set f103_bus SCB_CCR SCB_CCR_BFHFNMIGN_Msk (mmio_set f103_bus SCB_CFSR BFARVALID_MASK (hw m))"
  let ?h2 = "mmio_clear f103_bus SCB_CCR SCB_CCR_BFHFNMIGN_Msk ?h1"
  let ?m = "m\<lparr>faultmask := 1, hw := ?h1\<rparr>"
  have s1: "same_user (hw m) ?h1"
    unfolding mmio_set_def
    by (rule same_user_trans [OF same_user_modify same_user_modify])
      (simp_all add: SCB_CFSR_def SCB_CCR_def)
  have s2: "same_user (hw m) ?h2"
    unfolding mmio_clear_def
    by (rule same_user_trans [OF s1 same_user_modify]) (simp_all add: SCB_CCR_def)
  obtain k where k: "n = k * w" using assms(2) by (metis dvd_def mult.commute)
  have cw: "copy_width (of_nat w) = w" using assms(1) by (auto simp: copy_width_def)
  have mem: "mem_load (f_mem ?h1) address n = mem_load (user_mem (hw m)) address n"
  proof (rule nth_equalityI)
    fix i assume "i < length (mem_load (f_mem ?h1) address n)"
    then have "i < n" by simp
    moreover have "user_mem ?h1 = user_mem (hw m)" using s1 by (simp add: same_user_def)
    then have "user_mem ?h1 (address + of_nat i) = user_mem (hw m) (address + of_nat i)" by simp
    ultimately show "mem_load (f_mem ?h1) address n ! i = mem_load (user_mem (hw m)) address n ! i"
      using assms(5) by (simp add: user_mem_def)
  qed simp
  have "copy_loop w (load_mem f103_bus address w) (store_frame 8 w) (of_nat 0) (of_nat (k * w)) ?m =
      Some (?m\<lparr>usbAnsFrame := blit (8 + 0) (mem_load (f_mem (hw ?m)) (address + of_nat 0) (k * w)) (usbAnsFrame ?m)\<rparr>)"
    using assms(3-5) k by (intro copy_loop_read [OF assms(1)]) simp_all
  then have "dbg_memcpy f103_bus (load_mem f103_bus address) (store_frame 8) (of_nat n) (of_nat w) m =
      Inr (m\<lparr>hw := ?h2, usbAnsFrame := blit 8 (mem_load (user_mem (hw m)) address n) (usbAnsFrame m)\<rparr>)"
    using mem cw k by (cases m) (simp add: dbg_memcpy_def Let_def on_hw_def)
  with s2 show ?thesis by blast
qed

section \<open>The read command\<close>

text \<open>The flash and the RAM.\<close>

definition readable :: "u32 \<Rightarrow> bool" where
  "readable x \<longleftrightarrow> in_flash x \<or> (0x20000000 \<le> x \<and> x < 0x20010000)"

lemma readable_plain: "readable x \<Longrightarrow> plain x \<and> \<not> core_register x"
  by (auto simp: readable_def plain_def core_register_def in_flash_def flash_regs word_le_nat_alt
      word_less_nat_alt)

lemma range_below:
  assumes "unat (a :: u32) < z" "z < 2 ^ 32" "\<And>i. i < n \<Longrightarrow> a + of_nat i \<noteq> of_nat z"
  shows "unat a + n \<le> z"
proof (rule ccontr)
  assume "\<not> unat a + n \<le> z"
  then have "z - unat a < n" using assms(1) by simp
  moreover have "a + of_nat (z - unat a) = of_nat z"
    using assms(1,2) unat_add_u32 [of a "z - unat a"] by (simp add: word_unat_eq_iff unat_of_nat_u32)
  ultimately show False using assms(3) by blast
qed

lemma readable_region:
  assumes "0 < n" "\<And>i. i < n \<Longrightarrow> readable (a + of_nat i)"
  shows "checkMemRegionAccess a (a + of_nat n) = 3"
proof -
  have "readable a" using assms(2) [OF assms(1)] by simp
  then consider (flash) "in_flash a" | (ram) "0x20000000 \<le> a" "a < 0x20010000"
    by (auto simp: readable_def)
  then show ?thesis
  proof cases
    case flash
    have "unat a + n \<le> 0x08020000"
      using flash assms(2)
      by (intro range_below) (force simp: readable_def in_flash_def word_less_nat_alt word_le_nat_alt)+
    moreover from this have "unat (a + of_nat n) = unat a + n" by (intro unat_add_u32) simp
    ultimately show ?thesis
      using flash by (simp add: checkMemRegionAccess_def memoryAccessRegions_def in_flash_def word_le_nat_alt)
  next
    case ram
    have "unat a + n \<le> 0x20010000"
      using ram assms(2)
      by (intro range_below) (force simp: readable_def in_flash_def word_less_nat_alt word_le_nat_alt)+
    moreover from this have "unat (a + of_nat n) = unat a + n" by (intro unat_add_u32) simp
    ultimately show ?thesis
      using ram by (simp add: checkMemRegionAccess_def memoryAccessRegions_def word_le_nat_alt)
  qed
qed

lemma valid_align: "w \<in> {1, 2, 4} \<Longrightarrow> getValidatedAlign (of_nat w) = of_nat w"
  by (auto simp: getValidatedAlign_def)

lemma payloadSize_fits:
  assumes "w \<in> {1, 2, 4}" "w dvd n" "n \<le> unat maxb - unat headb" "headb \<le> maxb"
  shows "payloadSize headb maxb (of_nat n) (of_nat w) = of_nat n"
proof -
  have room: "unat (maxb - headb) = unat maxb - unat headb"
    using assms(4) by (simp add: unat_sub word_le_nat_alt)
  then have small: "n < 2 ^ 32" using assms(3) unat_u32_less [of "maxb - headb"] by simp
  then have n: "unat (of_nat n :: u32) = n" by (rule unat_of_nat_u32)
  have "\<not> maxb - headb < of_nat n" using room n assms(3) by (simp add: word_less_nat_alt)
  moreover have "of_nat n AND NOT (of_nat w - 1) = (of_nat n :: u32)"
    using and_not_align [OF assms(1), of "of_nat n"] n assms(2) by simp
  ultimately show ?thesis using assms(4) valid_align [OF assms(1)]
    by (auto simp: payloadSize_def Let_def dest: leD)
qed

text \<open>The interpreter is able to answer: its frames are whole and the flash controller is at rest.\<close>

definition link_ok :: "f103 monitor \<Rightarrow> bool" where
  "link_ok m \<longleftrightarrow> length (usbCmdFrame m) = 64 \<and> length (usbAnsFrame m) = 64 \<and> at_rest (hw m)"

lemma memoryRead_command:
  assumes m: "length (usbAnsFrame m) = 64" "at_rest (hw m)"
    and frame: "usbCmdFrame m = mem_head CMemoryRead (of_nat w) (of_nat n) a @ rest" "length (usbCmdFrame m) = 64"
    and w: "w \<in> {1, 2, 4}" "w dvd n" and n: "0 < n" "n \<le> 56"
    and r: "\<And>i. i < n \<Longrightarrow> readable (a + of_nat i)"
  shows "\<exists>m'. memoryReadCommand f103_bus 8 BULK_EP_MAXPACKET m = Inr (8 + of_nat n, m') \<and> link_ok m' \<and>
    same_user (hw m) (hw m') \<and>
    take (8 + n) (usbAnsFrame m') =
      mem_head CMemoryRead (of_nat w) (of_nat n) a @ mem_load (user_mem (hw m)) a n"
proof -
  let ?head = "mem_head CMemoryRead (of_nat w) (of_nat n) a" and ?bs = "mem_load (user_mem (hw m)) a n"
  let ?m = "m\<lparr>usbAnsFrame := blit 0 ?head (usbAnsFrame m)\<rparr>"
  have w8: "ucast (of_nat w :: u8) = (of_nat w :: u32)" using w(1) by (intro ucast_of_nat_u8) auto
  have n16: "ucast (of_nat n :: u16) = (of_nat n :: u32)" using n(2) by (intro ucast_of_nat_u16) simp
  have fields: "cmd_u32 4 m = a" "cmd_u16 2 m = of_nat n" "cmd_u8 (Suc 0) m = of_nat w"
    "usbCmdFrame m ! 0 = command_code CMemoryRead"
    by (simp_all add: cmd_u32_def cmd_u16_def cmd_u8_def frame(1) le_simps)
  have payload: "payloadSize 8 BULK_EP_MAXPACKET (of_nat n) (of_nat w) = of_nat n"
    using n(2) by (intro payloadSize_fits [OF w]) (simp_all add: BULK_EP_MAXPACKET_def)
  have head: "ucast (of_nat w :: u32) = (of_nat w :: u8)" "ucast (of_nat n :: u32) = (of_nat n :: u16)"
    by (rule ucast_of_nat_u32_u8) (rule bit_word_eqI; simp add: bit_simps bit_of_nat_iff)
  have len: "length (usbAnsFrame ?m) = 64" using m(1) by (simp add: length_blit)
  from dbg_memcpy_read [OF w, of ?m a] r readable_plain n(2) len
  obtain h where h: "dbg_memcpy f103_bus (load_mem f103_bus a) (store_frame 8) (of_nat n) (of_nat w) ?m =
      Inr (?m\<lparr>hw := h, usbAnsFrame := blit 8 ?bs (usbAnsFrame ?m)\<rparr>)" "same_user (hw m) h"
    by auto
  have "memoryReadCommand f103_bus 8 BULK_EP_MAXPACKET m =
      Inr (8 + of_nat n, ?m\<lparr>hw := h, usbAnsFrame := blit 8 ?bs (usbAnsFrame ?m)\<rparr>)"
    using h(1) readable_region [OF n(1) r]
    by (simp add: memoryReadCommand_def dbgHeadValid_def fields w8 n16 payload head put_ans_def Let_def)
  moreover have "take (8 + n) (blit 8 ?bs (usbAnsFrame ?m)) = ?head @ ?bs"
    using m(1) n(2) by (simp add: blit_def)
  moreover have "link_ok (?m\<lparr>hw := h, usbAnsFrame := blit 8 ?bs (usbAnsFrame ?m)\<rparr>)"
    using frame(2) len n(2) m(2) same_user_rest [OF h(2)] by (simp add: link_ok_def length_blit)
  ultimately show ?thesis using h(2) by fastforce
qed

text \<open>A request that is received, from the packet to the answer.\<close>

lemma callback_answer:
  assumes "0 < length packet" "length packet \<le> 64"
    and "run_command b (of_nat (length packet)) (m\<lparr>usbCmdFrame := blit 0 packet (usbCmdFrame m), usbInitialized := True\<rparr>) =
      Inr (of_nat k, m')" "0 < k" "k < 2 ^ 32"
  shows "usbDataOutCallback b packet m = Inr (Some (take k (usbAnsFrame m')), m')"
  using assms of_nat_u32_eq_0 [OF assms(5)]
  by (auto simp: usbDataOutCallback_def Let_def unat_of_nat_u32)

lemma memoryRead_answer:
  assumes "link_ok m" and w: "w \<in> {1, 2, 4}" "w dvd n" and n: "0 < n" "n \<le> 56"
    and r: "\<And>i. i < n \<Longrightarrow> readable (a + of_nat i)"
  defines "head \<equiv> mem_head CMemoryRead (of_nat w) (of_nat n) a"
  shows "\<exists>m'. usbDataOutCallback f103_bus head m = Inr (Some (head @ mem_load (user_mem (hw m)) a n), m') \<and>
    link_ok m' \<and> same_user (hw m) (hw m')"
proof -
  let ?m = "m\<lparr>usbCmdFrame := blit 0 head (usbCmdFrame m), usbInitialized := True\<rparr>"
  have lens: "length (usbCmdFrame m) = 64" "length (usbAnsFrame m) = 64" "at_rest (hw m)"
    using assms(1) by (simp_all add: link_ok_def)
  have frame: "usbCmdFrame ?m = head @ drop 8 (usbCmdFrame m)"
    using lens(1) by (simp add: blit_front head_def)
  have "\<exists>m'. memoryReadCommand f103_bus 8 BULK_EP_MAXPACKET ?m = Inr (8 + of_nat n, m') \<and> link_ok m' \<and>
      same_user (hw ?m) (hw m') \<and>
      take (8 + n) (usbAnsFrame m') = head @ mem_load (user_mem (hw ?m)) a n"
    unfolding head_def
    by (rule memoryRead_command [OF _ _ _ _ w n r])
      (use lens frame in \<open>simp_all add: head_def length_blit\<close>)
  then obtain m' where m': "memoryReadCommand f103_bus 8 BULK_EP_MAXPACKET ?m = Inr (8 + of_nat n, m')"
    "link_ok m'" "same_user (hw m) (hw m')"
    "take (8 + n) (usbAnsFrame m') = head @ mem_load (user_mem (hw m)) a n" by auto
  have "run_command f103_bus (of_nat (length head)) ?m = Inr (of_nat (8 + n), m')"
    using m'(1) frame by (simp add: run_command_def head_def le_simps)
  from callback_answer [OF _ _ this] have "usbDataOutCallback f103_bus head m =
      Inr (Some (take (8 + n) (usbAnsFrame m')), m')"
    using n(2) by (simp add: head_def)
  with m' show ?thesis by auto
qed

section \<open>The write command on the flash\<close>

lemma programmed_pair:
  assumes "even (unat a)" "programmable a [x, y] m"
  shows "programmed a (ucast x OR push_bit 8 (ucast y)) m = program a [x, y] m"
proof -
  have v: "ucast x OR push_bit 8 (ucast y) = rd16 [x, y]" by (simp add: rd16_def)
  have h0: "half_of a = a" by (rule half_of_even [OF assms(1)])
  have "unat (a + 1) = unat a + 1" using unat_half_of_1 [of a] assms(1) unfolding h0 by simp
  then have h: "half_of a = a" "half_of (a + 1) = a"
    using h0 unat_half_of [of "a + 1"] assms(1) by (simp_all add: word_unat_eq_iff)
  have le: "le16 (rd16 [x, y]) = [x, y]" by (rule le16_rd16) simp
  have erased: "overlay a [x, y] m = program a [x, y] m" if "half_erased a m"
  proof
    fix z
    show "overlay a [x, y] m z = program a [x, y] m z"
    proof (cases "unat (z - a) < 2")
      case True
      then have "z - a = 0 \<or> z - a = 1" by (auto simp: word_unat_eq_iff less_2_cases_iff)
      then have "z = a \<or> z = a + 1" by (auto simp: algebra_simps)
      then have "m z = -1" using that by (auto simp: half_erased_def)
      with True show ?thesis by (simp add: overlay_def program_def)
    qed (simp add: overlay_def program_def)
  qed
  show ?thesis
  proof (cases "half_erased a m")
    case True
    then show ?thesis using erased le by (simp add: v programmed_def)
  next
    case False
    then have "x = -1" "y = -1"
      using assms(2) h by (auto simp: programmable_def less_Suc_eq)
    moreover have "rd16 [-1, -1] = -1"
      by (rule bit_word_eqI) (auto simp: rd16_def bit_simps)
    ultimately have "rd16 [x, y] = -1" "[x, y] = replicate 2 (-1)"
      by (simp_all add: numeral_2_eq_2)
    with False show ?thesis using program_erased [of a 2 m] by (simp add: v programmed_def)
  qed
qed

lemma flashWrite_loop_f103:
  assumes "even (unat a)" "n \<le> length data" "n < 2 ^ 31"
    and "\<And>j. j < n \<Longrightarrow> in_flash (a + of_nat j)"
  shows "at_rest h \<Longrightarrow> \<not> f_locked h \<Longrightarrow> n = i + 2 * k \<Longrightarrow> even i \<Longrightarrow>
    programmable (a + of_nat i) (take (2 * k) (drop i data)) (f_mem h) \<Longrightarrow>
    \<exists>h'. flashWrite_loop f103_bus a data i n h = Some h' \<and> at_rest h' \<and>
      f_mem h' = program (a + of_nat i) (take (2 * k) (drop i data)) (f_mem h)"
proof (induction k arbitrary: h i)
  case 0
  then show ?case by (intro exI [of _ h]) (simp add: flashWrite_loop.simps program_def)
next
  case (Suc k)
  let ?a = "a + of_nat i"
  have i: "i + 1 < length data" "i < n" using Suc.prems(3) assms(2) by simp_all
  have bs: "take (2 * Suc k) (drop i data) = [data ! i, data ! (i + 1)] @ take (2 * k) (drop (i + 2) data)"
    using i by (simp add: Cons_nth_drop_Suc [symmetric] take_Cons')
  have ev: "even (unat ?a)" by (rule even_offset [OF assms(1) Suc.prems(4)])
  note p = Suc.prems(5) [unfolded bs]
  let ?h = "settled h\<lparr>f_mem := program ?a [data ! i, data ! (i + 1)] (f_mem h)\<rparr>"
  have "flash_program_half_word f103_bus ?a (ucast (data ! i) OR push_bit 8 (ucast (data ! (i + 1)))) h = Some ?h"
    unfolding program_half_word_f103 [OF Suc.prems(1,2) assms(4) [OF i(2)]]
    using programmed_pair [OF ev programmable_prefix [OF p]] by simp
  then have step: "flashWrite_loop f103_bus a data i n h = flashWrite_loop f103_bus a data (i + 2) n ?h"
    using i(2) by (subst flashWrite_loop.simps) (simp add: Let_def)
  have small: "length (take (2 * k) (drop (i + 2) data)) + 2 < 2 ^ 32"
    using assms(3) Suc.prems(3) by simp
  have shift: "?a + 2 = a + of_nat (i + 2)" by simp
  have "programmable (a + of_nat (i + 2)) (take (2 * k) (drop (i + 2) data)) (f_mem ?h)"
    using programmable_rest [OF p _ ev small] unfolding shift by simp
  from Suc.IH [OF _ _ _ _ this] Suc.prems(1-4) obtain h' where h':
    "flashWrite_loop f103_bus a data (i + 2) n ?h = Some h'" "at_rest h'"
    "f_mem h' = program (a + of_nat (i + 2)) (take (2 * k) (drop (i + 2) data)) (f_mem ?h)"
    by (auto simp: at_rest_def)
  have "program (?a + of_nat (length [data ! i, data ! (i + 1)])) (take (2 * k) (drop (i + 2) data))
      (program ?a [data ! i, data ! (i + 1)] (f_mem h)) =
      program ?a (take (2 * Suc k) (drop i data)) (f_mem h)"
    unfolding bs using small by (intro program_append) simp
  then have "f_mem h' = program ?a (take (2 * Suc k) (drop i data)) (f_mem h)"
    using h'(3) shift by simp
  with step h' show ?case by simp
qed

text \<open>The part of the flash that holds the user program; the rest is the firmware of the probe.\<close>

definition user_flash :: "u32 \<Rightarrow> bool" where
  "user_flash x \<longleftrightarrow> 0x08004000 \<le> x \<and> x < 0x08020000"

lemma user_flash_in_flash: "user_flash x \<Longrightarrow> in_flash x"
  by (simp add: user_flash_def in_flash_def word_le_nat_alt)

lemma user_flash_region: "user_flash x = isFlashRegion x"
  by (auto simp: user_flash_def isFlashRegion_def)

lemma user_mem_program: "f_mem h' = program a bs (f_mem h) \<Longrightarrow> user_mem h' = program a bs (user_mem h)"
  by (auto simp: user_mem_def program_def)

lemma programmable_user_mem: "programmable a bs (user_mem h) \<Longrightarrow> programmable a bs (f_mem h)"
  by (auto simp: programmable_def half_erased_def user_mem_def split: if_splits)

lemma memoryWrite_command:
  assumes m: "length (usbAnsFrame m) = 64" "at_rest (hw m)"
    and frame: "usbCmdFrame m = mem_head CMemoryWrite 2 (of_nat (length data)) a @ data @ rest"
      "length (usbCmdFrame m) = 64"
    and d: "0 < length data" "length data \<le> 56" "even (length data)" "even (unat a)"
    and r: "\<And>j. j < length data \<Longrightarrow> user_flash (a + of_nat j)"
    and p: "programmable a data (user_mem (hw m))"
  shows "\<exists>m'. memoryWriteCommand f103_bus (of_nat (8 + length data)) BULK_EP_MAXPACKET m = Inr (8, m') \<and>
    link_ok m' \<and> user_mem (hw m') = program a data (user_mem (hw m)) \<and>
    take 8 (usbAnsFrame m') = mem_head CMemoryWrite 2 (of_nat (length data)) a"
proof -
  let ?n = "length data" and ?h = "hw m\<lparr>f_locked := False\<rparr>"
  let ?head = "mem_head CMemoryWrite 2 (of_nat ?n) a"
  have n16: "ucast (of_nat ?n :: u16) = (of_nat ?n :: u32)" using d(2) by (intro ucast_of_nat_u16) simp
  have n32: "unat (of_nat ?n :: u32) = ?n" "unat (8 + of_nat ?n :: u32) = 8 + ?n"
    using d(2) unat_add_u32 [of 8 ?n] by (simp_all add: unat_of_nat_u32)
  have fields: "cmd_u32 4 m = a" "cmd_u16 2 m = of_nat ?n" "cmd_u8 (Suc 0) m = 2"
    "usbCmdFrame m ! 0 = command_code CMemoryWrite" "drop 8 (usbCmdFrame m) = data @ rest"
    by (simp_all add: cmd_u32_def cmd_u16_def cmd_u8_def frame(1) le_simps)
  have payload: "payloadSize 8 (8 + of_nat ?n) (of_nat ?n) 2 = of_nat ?n"
    using payloadSize_fits [of 2 ?n "8 + of_nat ?n" 8] d(3) n32 by (simp add: word_le_nat_alt)
  have align: "getValidatedAlign (ucast (2 :: u8)) = 2" by (simp add: getValidatedAlign_def)
  have "at_rest ?h" using m(2) by (simp add: at_rest_def)
  moreover obtain k where k: "?n = 2 * k" using d(3) by blast
  moreover have "programmable (a + of_nat 0) (take (2 * k) (drop 0 (data @ rest))) (f_mem ?h)"
    using programmable_user_mem [OF p] k by simp
  moreover have "in_flash (a + of_nat j)" if "j < ?n" for j using r [OF that] by (rule user_flash_in_flash)
  moreover have "?n < 2 ^ 31" using d(2) by simp
  ultimately obtain h' where h': "flashWrite_loop f103_bus a (data @ rest) 0 ?n ?h = Some h'" "at_rest h'"
    "f_mem h' = program a data (f_mem (hw m))"
    using flashWrite_loop_f103 [OF d(4), where n = ?n and data = "data @ rest" and h = ?h and i = 0 and k = k]
    by auto
  have w: "flashWrite f103_bus a (data @ rest) (unat (of_nat ?n :: u32)) (hw m) = Some h'"
    using h'(1) flash_unlock_f103 [OF m(2)] n32(1) by (simp add: flashWrite_def)
  have fl: "isFlashRegion a" using r [of 0] d(1) by (simp add: user_flash_region)
  have head: "ucast (of_nat ?n :: u32) = (of_nat ?n :: u16)"
    by (rule bit_word_eqI) (simp add: bit_simps bit_of_nat_iff)
  have nle: "\<not> (8 + of_nat ?n :: u32) < 8" using n32(2) by (simp add: word_less_nat_alt)
  have "memoryWriteCommand f103_bus (of_nat (8 + ?n)) BULK_EP_MAXPACKET m =
      Inr (8, put_ans 0 ?head (m\<lparr>hw := h'\<rparr>))"
    using fl w payload n16 align nle
    by (simp add: memoryWriteCommand_def dbgHeadValid_def fields head Let_def del: of_nat_add)
      (simp add: fields head)
  moreover have "user_mem h' = program a data (user_mem (hw m))"
    by (rule user_mem_program [OF h'(3)])
  moreover have "take 8 (blit 0 ?head (usbAnsFrame m)) = ?head" by (simp add: blit_def)
  ultimately show ?thesis
    using m(1) frame(2) h'(2) by (simp add: put_ans_def link_ok_def length_blit)
qed

lemma memoryWrite_answer:
  assumes "link_ok m" and d: "0 < length data" "length data \<le> 56" "even (length data)" "even (unat a)"
    and r: "\<And>j. j < length data \<Longrightarrow> user_flash (a + of_nat j)"
    and p: "programmable a data (user_mem (hw m))"
  defines "head \<equiv> mem_head CMemoryWrite 2 (of_nat (length data)) a"
  shows "\<exists>m'. usbDataOutCallback f103_bus (head @ data) m = Inr (Some head, m') \<and> link_ok m' \<and>
    user_mem (hw m') = program a data (user_mem (hw m))"
proof -
  let ?m = "m\<lparr>usbCmdFrame := blit 0 (head @ data) (usbCmdFrame m), usbInitialized := True\<rparr>"
  have lens: "length (usbCmdFrame m) = 64" "length (usbAnsFrame m) = 64" "at_rest (hw m)"
    using assms(1) by (simp_all add: link_ok_def)
  have frame: "usbCmdFrame ?m = head @ data @ drop (8 + length data) (usbCmdFrame m)"
    using lens(1) d(2) by (simp add: blit_front head_def)
  have "\<exists>m'. memoryWriteCommand f103_bus (of_nat (8 + length data)) BULK_EP_MAXPACKET ?m = Inr (8, m') \<and>
      link_ok m' \<and> user_mem (hw m') = program a data (user_mem (hw ?m)) \<and> take 8 (usbAnsFrame m') = head"
    unfolding head_def
    by (rule memoryWrite_command [OF _ _ _ _ d r])
      (use lens frame d(2) p in \<open>simp_all add: head_def length_blit\<close>)
  then obtain m' where m': "memoryWriteCommand f103_bus (of_nat (8 + length data)) BULK_EP_MAXPACKET ?m = Inr (8, m')"
    "link_ok m'" "user_mem (hw m') = program a data (user_mem (hw m))" "take 8 (usbAnsFrame m') = head" by auto
  have "run_command f103_bus (of_nat (length (head @ data))) ?m = Inr (of_nat 8, m')"
    using m'(1) frame by (simp add: run_command_def head_def le_simps)
  from callback_answer [OF _ _ this] have "usbDataOutCallback f103_bus (head @ data) m =
      Inr (Some (take 8 (usbAnsFrame m')), m')"
    using d(2) by (simp add: head_def)
  with m' show ?thesis by auto
qed

section \<open>Requests to the debug handler\<close>

text \<open>Queueing a command changes the queue and a core register.\<close>

lemma enqueue_frames:
  "usbCmdFrame (snd (enqueue b c m)) = usbCmdFrame m" "usbAnsFrame (snd (enqueue b c m)) = usbAnsFrame m"
  by (simp_all add: enqueue_def on_hw_def split: prod.splits)

lemma enqueue_same_user: "same_user (hw m) (hw (snd (enqueue f103_bus c m)))"
  using same_user_modify [of DEMCR "hw m"]
  by (simp add: enqueue_def on_hw_def mmio_set_def DEMCR_def split: prod.splits)

lemma debugStartEraseLoop_frames:
  "usbCmdFrame (snd (debugStartEraseLoop b a z m)) = usbCmdFrame m"
  "usbAnsFrame (snd (debugStartEraseLoop b a z m)) = usbAnsFrame m"
  using enqueue_frames [of b HStartEraseLoop "m\<lparr>gEraseParams := snd (cb_put (a, z) (gEraseParams m))\<rparr>"]
  by (auto simp: debugStartEraseLoop_def split: prod.splits)

lemma debugStartEraseLoop_same_user: "same_user (hw m) (hw (snd (debugStartEraseLoop f103_bus a z m)))"
  using enqueue_same_user [of "m\<lparr>gEraseParams := snd (cb_put (a, z) (gEraseParams m))\<rparr>" HStartEraseLoop]
  by (auto simp: debugStartEraseLoop_def split: prod.splits)

lemma four_elements: "4 \<le> length xs \<Longrightarrow> \<exists>a b c d ys. xs = a # b # c # d # ys"
  by (auto simp: numeral_eq_Suc Suc_le_length_iff)

lemma flash_answer:
  assumes "link_ok m" "c = FC_Erase \<or> c = FC_Detach"
  shows "\<exists>m' x. usbDataOutCallback f103_bus (flash_head (flash_code c) a z) m =
      Inr (Some [command_code CFlash, flash_code c, 1, x], m') \<and>
    link_ok m' \<and> user_mem (hw m') = user_mem (hw m) \<and>
    (c = FC_Erase \<longrightarrow> gEraseParams m' = snd (cb_put (a, z) (gEraseParams m)))"
proof -
  let ?head = "flash_head (flash_code c) a z"
  let ?m = "m\<lparr>usbCmdFrame := blit 0 ?head (usbCmdFrame m), usbInitialized := True\<rparr>"
  have lens: "length (usbCmdFrame m) = 64" "length (usbAnsFrame m) = 64" "at_rest (hw m)"
    using assms(1) by (simp_all add: link_ok_def)
  have frame: "usbCmdFrame ?m = ?head @ drop 12 (usbCmdFrame m)"
    using lens(1) by (simp add: blit_front)
  have fields: "usbCmdFrame ?m ! 0 = 6" "usbCmdFrame ?m ! Suc 0 = flash_code c"
    unfolding frame by (simp_all add: flash_head_def)
  let ?p = "put_ans 0 [6, flash_code c, 0] ?m"
  define q where "q = (if c = FC_Erase
    then snd (debugStartEraseLoop f103_bus (cmd_u32 4 ?p) (cmd_u32 8 ?p) ?p)
    else snd (debugStartFirmware f103_bus ?p))"
  have q: "usbCmdFrame q = usbCmdFrame ?m" "usbAnsFrame q = usbAnsFrame ?p" "same_user (hw m) (hw q)"
    using debugStartEraseLoop_frames [of f103_bus "cmd_u32 4 ?p" "cmd_u32 8 ?p" ?p]
      debugStartEraseLoop_same_user [of ?p "cmd_u32 4 ?p" "cmd_u32 8 ?p"]
      enqueue_frames [of f103_bus HStartFirmware ?p] enqueue_same_user [of ?p HStartFirmware]
    by (cases "c = FC_Erase"; simp add: q_def debugStartFirmware_def put_ans_def)+
  have "flashCommand f103_bus (of_nat 12) BULK_EP_MAXPACKET ?m = Inr (4, put_ans 2 [1] q)"
  proof (cases "c = FC_Erase")
    case True
    then show ?thesis
      using fields by (simp add: flashCommand_def dbgHeadValid_def cmd_u8_def q_def Let_def)
  next
    case False
    then have "c = FC_Detach" using assms(2) by blast
    then show ?thesis
      using fields by (simp add: flashCommand_def dbgHeadValid_def cmd_u8_def q_def Let_def)
  qed
  then have "run_command f103_bus (of_nat (length ?head)) ?m = Inr (of_nat 4, put_ans 2 [1] q)"
    using fields(1) by (simp add: run_command_def)
  from callback_answer [OF _ _ this] have "usbDataOutCallback f103_bus ?head m =
      Inr (Some (take 4 (usbAnsFrame (put_ans 2 [1] q))), put_ans 2 [1] q)" by simp
  moreover have "\<exists>x. take 4 (usbAnsFrame (put_ans 2 [1] q)) = [command_code CFlash, flash_code c, 1, x]"
    using four_elements [of "usbAnsFrame m"] q(2) lens(2) by (auto simp: put_ans_def blit_def)
  moreover have "link_ok (put_ans 2 [1] q)"
    using q lens frame same_user_rest [OF q(3)] by (simp add: link_ok_def put_ans_def length_blit)
  moreover have "user_mem (hw (put_ans 2 [1] q)) = user_mem (hw m)"
    using q(3) by (simp add: put_ans_def same_user_def)
  moreover have "gEraseParams (put_ans 2 [1] q) = snd (cb_put (a, z) (gEraseParams m))" if "c = FC_Erase"
  proof -
    have "cmd_u32 4 ?p = a" "cmd_u32 8 ?p = z"
      by (simp_all add: put_ans_def cmd_u32_def blit_front lens(1) flash_head_def le_simps)
    with that show ?thesis
      by (simp add: q_def put_ans_def debugStartEraseLoop_def enqueue_def on_hw_def split: prod.splits)
  qed
  ultimately show ?thesis by metis
qed

end
