(* ===== verification/Link.thy ===== *)
theory Link
  imports Usb_Memory Monitor_Memory Cable
begin

text \<open>
  The server and the probe at the two ends of the USB cable. The device of the transport is
  the firmware of \<open>Monitor\<close>: a packet written by the server runs \<open>usbDataOutCallback\<close>, and
  the answer is what the server reads next. A firmware that hangs takes no further packets.
  The properties follow what the server asks for down to the flash controller of the
  microcontroller. The controllers and drivers in between (WinUSB, the USB peripheral and
  libopencm3's stack) are taken to deliver packets in order; \<open>Usb_Exchange\<close> shows it for the
  side of the device.
\<close>

section \<open>The contract of the cable\<close>

abbreviation usb :: "f103 link iface" where
  "usb \<equiv> link_iface f103_bus"

abbreviation mcu_mem :: "f103 link \<Rightarrow> memory" where
  "mcu_mem d \<equiv> user_mem (hw (l_mon d))"

definition link_up :: "f103 link \<Rightarrow> bool" where
  "link_up d \<longleftrightarrow> \<not> l_hung d \<and> link_ok (l_mon d)"

text \<open>The firmware keeps the contract that the driver relies on.\<close>

interpretation cable: usb_probe usb mcu_mem link_up readable user_flash
proof
  fix d w n and a :: u32
  assume d: "link_up d" and w: "w \<in> {1, 2, 4}" "w dvd n" and n: "0 < n" "n \<le> 56"
    and r: "\<And>i. i < n \<Longrightarrow> readable (a + of_nat i)"
  let ?head = "mem_head CMemoryRead (of_nat w) (of_nat n) a"
  from memoryRead_answer [OF _ w n r] d obtain m where m:
    "usbDataOutCallback f103_bus ?head (l_mon d) = Inr (Some (?head @ mem_load (mcu_mem d) a n), m)"
    "link_ok m" "same_user (hw (l_mon d)) (hw m)"
    unfolding link_up_def by blast
  have "length (?head @ mem_load (mcu_mem d) a n) \<le> 64" using n(2) by simp
  with exchange_answer [OF _ m(1)] d m(2,3) show "\<exists>d'. exchanges usb ?head d (?head @ mem_load (mcu_mem d) a n) d' \<and>
      link_up d' \<and> mcu_mem d' = mcu_mem d"
    by (intro exI [of _ "d\<lparr>l_mon := m, l_ans := []\<rparr>"]) (simp add: link_up_def same_user_def)
next
  fix d and bs :: "u8 list" and a :: u32
  assume d: "link_up d" and bs: "0 < length bs" "length bs \<le> 56" "even (length bs)" "even (unat a)"
    and f: "\<And>i. i < length bs \<Longrightarrow> user_flash (a + of_nat i)" and p: "programmable a bs (mcu_mem d)"
  let ?head = "mem_head CMemoryWrite 2 (of_nat (length bs)) a"
  from memoryWrite_answer [OF _ bs f p] d obtain m where
    "usbDataOutCallback f103_bus (?head @ bs) (l_mon d) = Inr (Some ?head, m)"
    "link_ok m" "user_mem (hw m) = program a bs (mcu_mem d)"
    unfolding link_up_def by blast
  with exchange_answer [of d f103_bus "?head @ bs" ?head m] d
  show "\<exists>d'. exchanges usb (?head @ bs) d ?head d' \<and> link_up d' \<and> mcu_mem d' = program a bs (mcu_mem d)"
    by (intro exI [of _ "d\<lparr>l_mon := m, l_ans := []\<rparr>"]) (simp add: link_up_def)
next
  fix d c and a z :: u32
  assume d: "link_up d" and c: "c = FC_Erase \<or> c = FC_Detach"
  from flash_answer [OF _ c, of "l_mon d" a z] d obtain m x where
    "usbDataOutCallback f103_bus (flash_head (flash_code c) a z) (l_mon d) =
      Inr (Some [command_code CFlash, flash_code c, 1, x], m)" "link_ok m" "user_mem (hw m) = mcu_mem d"
    unfolding link_up_def by blast
  with exchange_answer [of d f103_bus "flash_head (flash_code c) a z" _ m] d
  show "\<exists>x d'. exchanges usb (flash_head (flash_code c) a z) d [command_code CFlash, flash_code c, 1, x] d' \<and>
      link_up d' \<and> mcu_mem d' = mcu_mem d"
    by (intro exI [of _ x] exI [of _ "d\<lparr>l_mon := m, l_ans := []\<rparr>"]) (simp add: link_up_def)
qed

section \<open>A target behind the cable\<close>

definition probe_ready :: "f103 link probe \<Rightarrow> bool" where
  "probe_ready p \<longleftrightarrow> p_fault p = None \<and> length (p_out p) = 64 \<and> length (p_in p) = 64 \<and> link_up (p_dev p)"

definition on_cable :: "f103 link probe target \<Rightarrow> bool" where
  "on_cable t \<longleftrightarrow> mem_read_fn t = stm32_mem_read usb \<and> check_error_fn t = stm32_check_error \<and> probe_ready (t_dev t)"

abbreviation probe_mem :: "f103 link probe \<Rightarrow> memory" where
  "probe_mem p \<equiv> mcu_mem (p_dev p)"

lemma probe_ready_iff: "probe_ready p \<longleftrightarrow> cable.ready_probe p"
  by (simp add: probe_ready_def cable.ready_probe_def)

lemma on_cable_iff: "on_cable t \<longleftrightarrow> cable.reader.works t"
  by (simp add: on_cable_def cable.reader.works_def probe_ready_iff)

text \<open>A probe that is plugged in, after power-on.\<close>

definition fresh_probe :: "f103 \<Rightarrow> f103 link probe" where
  "fresh_probe h = new_probe (replicate 64 0) (replicate 64 0) (plugged (initial h))"

lemma fresh_probe_ready: "at_rest h \<Longrightarrow> probe_ready (fresh_probe h)"
  by (simp add: probe_ready_def fresh_probe_def new_probe_def plugged_def link_up_def link_ok_def initial_def)

lemma fresh_probe_mem: "probe_mem (fresh_probe h) = user_mem h"
  by (simp add: fresh_probe_def new_probe_def plugged_def initial_def)

section \<open>Reading memory\<close>

lemma flash_readable:
  assumes "0x08000000 \<le> unat addr" "unat addr + n \<le> 0x08020000"
  shows "\<forall>k<n. readable (addr + of_nat k)"
proof (intro allI impI)
  fix k assume "k < n"
  then have "unat (addr + of_nat k) = unat addr + k" using assms(2) by (intro unat_add_u32) simp
  with assms \<open>k < n\<close> show "readable (addr + of_nat k)"
    by (simp add: readable_def in_flash_def word_le_nat_alt word_less_nat_alt)
qed

lemma scan_m:
  assumes "c_string buf = 0x6D # fmt_x addr @ 0x2C # fmt_x len"
  shows "num2 (sscanf buf [Lit 0x6D, Hex None, Lit 0x2C, Hex None]) = Some (addr, len)"
  using scan_fmt(1) [of "0x2C # fmt_x len" addr] scan_fmt(1) [of "[]" len]
  by (simp add: sscanf_def assms isxdigit_def xdigits_def)

text \<open>
  C3: GDB's \<open>m\<close> packet, end to end: for an address range in the flash or RAM of the
  microcontroller of up to 512 bytes, the server answers with the hex digits of the bytes that
  the microcontroller's memory holds there. The packet passes \<open>target_mem_read\<close>, the driver,
  which cuts it into USB packets of at most 56 bytes, the command interpreter of the firmware
  and \<open>dbg_memcpy\<close>; the memory is not changed.
\<close>

theorem memory_packet_end_to_end:
  assumes "c_string (pbuf s) = 0x6D # fmt_x addr @ 0x2C # fmt_x len"
    and "cur_target s = Some i" "get_target i (targets s) = Some t" "on_cable t"
    and "unat len \<le> 512" "unat len \<le> env_stack env" "length (env_junk env (unat len)) = unat len"
    and "\<forall>k<unat len. readable (addr + of_nat k)"
  shows "\<exists>p. handle_m env s = reply_hex (mem_load (probe_mem (t_dev t)) addr (unat len)) (put_target (t\<lparr>t_dev := p\<rparr>) s) \<and>
    probe_mem p = probe_mem (t_dev t)"
proof -
  have w: "cable.reader.works t" using assms(4) by (simp add: on_cable_iff)
  have fit: "unat len \<le> length (env_junk env (unat len))" using assms(7) by simp
  have r: "readable (addr + of_nat k)" if "k < unat len" for k using assms(8) that by blast
  obtain p where p: "target_mem_read (env_junk env (unat len)) addr len t =
      (False, mem_load (probe_mem (t_dev t)) addr (unat len) @ drop (unat len) (env_junk env (unat len)), t\<lparr>t_dev := p\<rparr>)"
    "probe_mem p = probe_mem (t_dev t)"
    by (rule cable.reader.target_mem_read_bytes [OF w fit r])
  have "\<not> unat len > (BUF_SIZE + 1) div 2" using assms(5) by (simp add: BUF_SIZE_def)
  then have "handle_m env s = reply_hex (mem_load (probe_mem (t_dev t)) addr (unat len)) (put_target (t\<lparr>t_dev := p\<rparr>) s)"
    using assms(2,3,6,7) scan_m [OF assms(1)] p(1)
    by (simp add: handle_m_def if_target_def with_target_def need_def alloca_def)
  with p(2) show ?thesis by blast
qed

text \<open>A server with one target on the cable, to try the packets on.\<close>

definition demo_cable :: "f103 \<Rightarrow> f103 link probe target" where
  "demo_cable h = stm32_target usb [] (\<lambda>n. replicate n 0) (nop_target 0 (fresh_probe h))"

definition cable_server :: "f103 link probe target \<Rightarrow> u8 list \<Rightarrow> f103 link probe server" where
  "cable_server t packet = \<lparr>chan = idle [], pbuf = packet @ 0 # replicate 1000 0, targets = [t],
     cur_target = Some (t_id t), last_target = None, flash_mode = False, tc_errno = 0, tc_interrupted = False\<rparr>"

lemma demo_cable_facts:
  assumes "at_rest h"
  shows "on_cable (demo_cable h)" "probe_mem (t_dev (demo_cable h)) = user_mem h"
  using fresh_probe_ready [OF assms] fresh_probe_mem [of h]
  by (simp_all add: on_cable_def demo_cable_def stm32_target_def nop_target_def)

lemma cable_server_facts:
  "cur_target (cable_server t packet) = Some (t_id t)"
  "get_target (t_id t) (targets (cable_server t packet)) = Some t"
  "0 \<notin> set packet \<Longrightarrow> c_string (pbuf (cable_server t packet)) = packet"
  by (auto simp: cable_server_def get_target_def c_string_def takeWhile_append)

lemma fmt_x_nonzero: "0 \<notin> set (fmt_x n)"
  using hex_digits_value [OF hex_alphabets(1), of "unat n"] xdigit_plain by (auto simp: fmt_x_def)

lemma power_on_rest: "at_rest (power_on\<lparr>f_mem := m\<rparr>)"
  by (simp add: at_rest_def power_on_def)

theorem memory_packet_end_to_end_witness:
  "\<exists>p. handle_m demo_env (cable_server (demo_cable (power_on\<lparr>f_mem := \<lambda>x. ucast x\<rparr>))
        (0x6D # fmt_x 0x08004010 @ 0x2C # fmt_x 3)) =
      reply_hex [0x10, 0x11, 0x12] (put_target ((demo_cable (power_on\<lparr>f_mem := \<lambda>x. ucast x\<rparr>))\<lparr>t_dev := p\<rparr>)
        (cable_server (demo_cable (power_on\<lparr>f_mem := \<lambda>x. ucast x\<rparr>)) (0x6D # fmt_x 0x08004010 @ 0x2C # fmt_x 3)))"
proof -
  let ?h = "power_on\<lparr>f_mem := \<lambda>x. ucast x\<rparr>" and ?packet = "0x6D # fmt_x 0x08004010 @ 0x2C # fmt_x 3"
  let ?t = "demo_cable ?h"
  have zero: "0 \<notin> set ?packet" using fmt_x_nonzero by simp
  have r: "\<forall>k<unat (3 :: u32). readable (0x08004010 + of_nat k)"
    by (rule flash_readable) simp_all
  note d = demo_cable_facts [OF power_on_rest [of "\<lambda>x. ucast x"]]
  have e: "unat (3 :: u32) \<le> 512" "unat (3 :: u32) \<le> env_stack demo_env"
    "length (env_junk demo_env (unat (3 :: u32))) = unat (3 :: u32)" by (simp_all add: demo_env_def)
  have m: "mem_load (probe_mem (t_dev ?t)) 0x08004010 (unat (3 :: u32)) = [0x10, 0x11, 0x12]"
    unfolding d(2) by (simp add: mem_load_def upt_conv_Cons user_mem_def core_register_def)
  show ?thesis
    using memory_packet_end_to_end [OF cable_server_facts(3) [OF zero] cable_server_facts(1,2) d(1) e r]
    unfolding m by blast
qed

text \<open>
  C10: GDB's \<open>qCRC\<close> packet (\<open>compare-sections\<close>), end to end: for a range in the flash or RAM of
  the microcontroller, of any length, the answer is \<open>C\<close> and the bitwise CRC-32 of the bytes
  that the microcontroller's memory holds.
\<close>

theorem crc_packet_end_to_end:
  assumes "c_string (pbuf s) = str ''qCRC:'' @ fmt_x addr @ 0x2C # fmt_x len"
    and "cur_target s = Some i" "get_target i (targets s) = Some t" "on_cable t"
    and "length (env_junk env 128) = 128" "\<forall>k<unat len. readable (addr + of_nat k)"
  shows "\<exists>t'. handle_q_packet env n s =
    sendf env (str ''C'' @ fmt_x (crc_bytes (mem_load (probe_mem (t_dev t)) addr (unat len)))) (put_target t' s)"
proof -
  have w: "cable.reader.works t" using assms(4) by (simp add: on_cable_iff)
  have r: "readable (addr + of_nat k)" if "k < unat len" for k using assms(6) that by blast
  have crc: "fst (generic_crc32 (env_junk env 128) addr len t) = crc_bytes (mem_load (probe_mem (t_dev t)) addr (unat len))"
    by (rule cable.reader.crc32_memory [OF w assms(5) r])
  have scan: "num2 (sscanf (pbuf s) (lits ''qCRC:'' @ [Hex None, Lit 0x2C, Hex None])) = Some (addr, len)"
    using scan_fmt(1) [of "0x2C # fmt_x len" addr] scan_fmt(1) [of "[]" len]
    by (simp add: sscanf_def lits_def assms(1) isxdigit_def xdigits_def)
  have other: "\<not> starts_with (pbuf s) ''qRcmd,''" "\<not> starts_with (pbuf s) ''qSupported''"
    "\<not> starts_with (pbuf s) ''qXfer:memory-map:read::''" "\<not> starts_with (pbuf s) ''qXfer:features:read:target.xml:''"
    by (simp_all add: starts_with_def assms(1))
  obtain t' where "generic_crc32 (env_junk env 128) addr len t =
      (crc_bytes (mem_load (probe_mem (t_dev t)) addr (unat len)), t')"
    using crc by (metis prod.collapse)
  then have "handle_q_packet env n s =
      sendf env (str ''C'' @ fmt_x (crc_bytes (mem_load (probe_mem (t_dev t)) addr (unat len)))) (put_target t' s)"
    using other scan assms(2,3) by (simp add: handle_q_packet_def query_target_def with_target_def)
  then show ?thesis by blast
qed

theorem crc_packet_end_to_end_witness:
  "\<exists>t'. handle_q_packet demo_env 22
      (cable_server (demo_cable power_on) (str ''qCRC:'' @ fmt_x 0x08004000 @ 0x2C # fmt_x 0x10000)) =
    sendf demo_env (str ''C'' @ fmt_x (crc_bytes (mem_load (user_mem power_on) 0x08004000 0x10000)))
      (put_target t' (cable_server (demo_cable power_on) (str ''qCRC:'' @ fmt_x 0x08004000 @ 0x2C # fmt_x 0x10000)))"
proof -
  let ?packet = "str ''qCRC:'' @ fmt_x 0x08004000 @ 0x2C # fmt_x 0x10000" and ?t = "demo_cable power_on"
  have "power_on = power_on\<lparr>f_mem := f_mem power_on\<rparr>" by simp
  then have rest: "at_rest power_on" by (metis power_on_rest)
  have zero: "0 \<notin> set ?packet" using fmt_x_nonzero by simp
  have r: "\<forall>k<unat (0x10000 :: u32). readable (0x08004000 + of_nat k)" by (rule flash_readable) simp_all
  have u: "unat (0x10000 :: u32) = 0x10000" by simp
  have e: "length (env_junk demo_env 128) = 128" by (simp add: demo_env_def)
  show ?thesis
    using crc_packet_end_to_end [OF cable_server_facts(3) [OF zero] cable_server_facts(1,2) demo_cable_facts(1) [OF rest] e r]
    unfolding demo_cable_facts(2) [OF rest] u .
qed

section \<open>Downloading a program\<close>

abbreviation user_bank :: "f103 link probe target_flash" where
  "user_bank \<equiv> stm32f1_bank usb 0x8000000 0x20000 0x400"

lemma user_sector:
  assumes "0x08004000 \<le> unat x" "unat x < 0x08020000"
  shows "\<forall>i<1024. user_flash (sector_base 0x400 x + of_nat i)"
proof (intro allI impI)
  fix i :: nat assume i: "i < 1024"
  have b: "unat (sector_base 0x400 x) = unat x div 1024 * 1024" by (simp add: unat_sector_base)
  have "(0x08004000 :: nat) div 1024 \<le> unat x div 1024" using assms(1) by (rule div_le_mono)
  moreover have "unat x div 1024 < (0x08020000 :: nat) div 1024"
    using assms(2) by (simp add: less_mult_imp_div_less)
  ultimately have r: "0x20010 \<le> unat x div 1024" "unat x div 1024 < 0x20080" by simp_all
  then have s: "unat x div 1024 * 1024 + i < 0x08020000" "0x08004000 \<le> unat x div 1024 * 1024 + i"
    using i by linarith+
  then have "unat (sector_base 0x400 x + of_nat i) = unat x div 1024 * 1024 + i"
    unfolding b [symmetric] by (intro unat_add_u32) simp
  with s show "user_flash (sector_base 0x400 x + of_nat i)"
    by (simp add: user_flash_def word_le_nat_alt word_less_nat_alt)
qed

lemma flash_download:
  assumes "probe_ready p" "malloc_ok malloc 0x400"
    and "0x08004000 \<le> unat dest" "unat dest + length (concat bss) \<le> 0x08020000"
    and "\<forall>i<length (concat bss). half_erased (half_of (dest + of_nat i)) (probe_mem p)"
  shows "\<exists>fl p' fl' p''. write_all malloc dest bss [user_bank] p = Inr (0, fl, p') \<and>
    target_flash_done fl p' = (0, fl', p'') \<and>
    probe_mem p'' = overlay dest (concat bss) (probe_mem p)"
proof -
  let ?n = "length (concat bss)"
  have f: "tf_write user_bank = stm32f1_flash_write usb" "tf_erased user_bank = -1"
    "tf_buf_size user_bank = 0x400" "tf_buf user_bank = None"
    "tf_start user_bank = 0x8000000" "tf_length user_bank = 0x20000" "tf_done user_bank = Some (stm32f1_flash_done usb)"
    by (simp_all add: stm32f1_bank_def)
  have rdy: "cable.ready_probe p" using assms(1) by (simp add: probe_ready_iff)
  have op: "cable.bank.open_at user_bank = None" by (simp add: cable.bank.open_at_def f)
  have ok: "cable.bank.buffer_ok user_bank p"
    using rdy op by (simp add: cable.bank.buffer_ok_def f)
  have view: "cable.bank.view user_bank p = probe_mem p" using op by (simp add: cable.bank.view_def)
  have bank: "cable.bank.in_bank user_bank dest ?n"
    using assms(3,4) by (simp add: cable.bank.in_bank_def f word_le_nat_alt)
  have "cable.bank.ready user_bank p dest ?n"
    unfolding cable.bank.ready_def
  proof (intro conjI allI impI)
    show "unat dest + ?n \<le> 2 ^ 32" using assms(4) by simp
    fix i assume i: "i < ?n"
    have e: "half_erased (half_of (dest + of_nat i)) (probe_mem p)" using assms(5) i by blast
    then show "cable.bank.blank user_bank p (dest + of_nat i)"
      using half_erased_byte [OF e] by (simp add: cable.bank.blank_def view)
    have "unat (dest + of_nat i) = unat dest + i" using assms(4) i by (intro unat_add_u32) simp
    then have "\<forall>j<1024. user_flash (sector_base 0x400 (dest + of_nat i) + of_nat j)"
      using assms(3,4) i by (intro user_sector) simp_all
    then show "user_flash (sector_base 0x400 (dest + of_nat i) + of_nat j)" if "j < 1024" for j
      using that by blast
  qed (simp add: op)
  moreover have "fst (fn q) = 0 \<and> probe_mem (snd (fn q)) = probe_mem q"
    if "tf_done user_bank = Some fn" "cable.ready_probe q" for fn and q :: "f103 link probe"
    using that cable.flash_cmd_ok [of q FC_Detach 0 0] by (auto simp: f stm32f1_flash_done_def stm32_flash_done_def)
  ultimately show ?thesis
    using cable.bank.download_content [OF assms(2) ok bank] unfolding view by blast
qed

text \<open>
  C9: a download, end to end. Writes of any sizes at ascending addresses (the \<open>vFlashWrite\<close>
  packets of GDB's \<open>load\<close>) into erased flash of the user program, followed by the final
  \<open>target_flash_done\<close>, all succeed, and then the flash of the microcontroller holds exactly the
  data at \<open>dest\<close> and is unchanged everywhere else. On the way the data passes the server's
  sector buffer, the driver, packets of at most 56 bytes, the firmware's \<open>flashWrite\<close> and the
  flash controller, half word by half word.
\<close>

theorem flash_download_end_to_end:
  assumes "probe_ready p" "malloc_ok malloc 0x400"
    and "0x08004000 \<le> unat dest" "unat dest + length (concat bss) \<le> 0x08020000"
    and "\<forall>i<length (concat bss). half_erased (half_of (dest + of_nat i)) (probe_mem p)"
  shows "\<exists>fl p' fl' p''. write_all malloc dest bss [user_bank] p = Inr (0, fl, p') \<and>
    target_flash_done fl p' = (0, fl', p'') \<and>
    probe_mem p'' = overlay dest (concat bss) (probe_mem p)"
  by (rule flash_download [OF assms])

theorem flash_download_end_to_end_witness:
  "\<exists>fl p' fl' p''. write_all (env_malloc demo_env) 0x08004001 [[1, 2], [3]] [user_bank] (fresh_probe power_on) = Inr (0, fl, p') \<and>
    target_flash_done fl p' = (0, fl', p'') \<and>
    probe_mem p'' = overlay 0x08004001 [1, 2, 3] (user_mem power_on)"
proof -
  have "power_on = power_on\<lparr>f_mem := f_mem power_on\<rparr>" by simp
  then have rest: "at_rest power_on" by (metis power_on_rest)
  have m: "malloc_ok (env_malloc demo_env) 0x400" by (simp add: malloc_ok_def demo_env_def)
  have e: "\<forall>i<length (concat [[1, 2], [3 :: u8]]). half_erased (half_of (0x08004001 + of_nat i)) (probe_mem (fresh_probe power_on))"
    unfolding fresh_probe_mem
    by (simp add: half_erased_def half_of_def user_mem_def core_register_def power_on_def less_Suc_eq numeral_3_eq_3)
  show ?thesis
    using flash_download_end_to_end [OF fresh_probe_ready [OF rest] m _ _ e] unfolding fresh_probe_mem by simp
qed

section \<open>Erasing first\<close>

lemma erase_bank:
  assumes "stm32f1_flash_erase usb a len p = (0, q)" "0x8000000 \<le> unat a" "unat a + unat len \<le> 0x8020000" "len \<noteq> 0"
  shows "target_flash_erase [user_bank] a len p = (0, q)"
proof -
  have f: "tf_erase user_bank = stm32f1_flash_erase usb" "tf_start user_bank = 0x8000000" "tf_length user_bank = 0x20000"
    by (simp_all add: stm32f1_bank_def)
  have "cable.bank.in_bank user_bank a (unat len)"
    using assms(2,3) by (simp add: cable.bank.in_bank_def f word_le_nat_alt)
  moreover have "0 < unat len" using assms(4) by (simp add: unat_gt_0)
  ultimately have "bank_part user_bank a len = len" "flash_for_addr [user_bank] a = Some 0"
    using cable.bank.bank_part_inside [of user_bank a "unat len"] by simp_all
  then show ?thesis
    using assms(1,4) f(1) unfolding target_flash_erase_def
    by (subst target_flash_erase_loop.simps) (simp add: Let_def target_flash_erase_loop.simps)
qed

lemma erase_request_sent:
  assumes "probe_ready p"
  obtains q where "stm32f1_flash_erase usb a z p = (0, q)" "probe_ready q" "probe_mem q = probe_mem p"
    "gEraseParams (l_mon (p_dev q)) = snd (cb_put (a, z) (gEraseParams (l_mon (p_dev p))))"
proof -
  let ?d = "p_dev p" and ?head = "flash_head (flash_code FC_Erase) a z"
  have d: "link_ok (l_mon ?d)" "\<not> l_hung ?d" using assms by (simp_all add: probe_ready_def link_up_def)
  from flash_answer [OF d(1), of FC_Erase a z] obtain m x where m:
    "usbDataOutCallback f103_bus ?head (l_mon ?d) = Inr (Some [command_code CFlash, flash_code FC_Erase, 1, x], m)"
    "link_ok m" "user_mem (hw m) = mcu_mem ?d" "gEraseParams m = snd (cb_put (a, z) (gEraseParams (l_mon ?d)))"
    by blast
  let ?d' = "?d\<lparr>l_mon := m, l_ans := []\<rparr>" and ?q = "flash_cmd usb FC_Erase a z p"
  have "exchanges usb ?head ?d [command_code CFlash, flash_code FC_Erase, 1, x] ?d'"
    by (rule exchange_answer [OF d(2) m(1)]) simp
  moreover have "link_up ?d'" using d(2) m(2) by (simp add: link_up_def)
  moreover have "cable.ready_probe p" using assms by (simp add: probe_ready_iff)
  ultimately have "cable.ready_probe ?q" "p_dev ?q = ?d'"
    using cable.flash_cmd_exchange by blast+
  then show thesis
    using that [of ?q] m(3,4) by (simp add: stm32f1_flash_erase_def stm32_flash_erase_def probe_ready_iff)
qed

lemma in_flash_user_mem: "in_flash x \<Longrightarrow> user_mem h x = flash_part h x"
  by (auto simp: user_mem_def flash_part_def core_register_def in_flash_def word_le_nat_alt word_less_nat_alt)

lemma erased_range_blank:
  assumes mem: "\<And>x. in_flash x \<Longrightarrow> m x = (if a \<le> x \<and> x < e then -1 else m' x)"
    and a: "even (unat a)" "0x08000000 \<le> unat a" and e: "even (unat e)" "unat e \<le> 0x08020000"
    and x: "a \<le> x" "x < e"
  shows "half_erased (half_of x) m"
proof -
  have u: "unat (half_of x) = unat x div 2 * 2" "unat (half_of x + 1) = unat x div 2 * 2 + 1"
    by (rule unat_half_of, rule unat_half_of_1)
  have le: "unat a \<le> unat x" "unat x < unat e" using x by (simp_all add: word_le_nat_alt word_less_nat_alt)
  then have "unat a div 2 * 2 \<le> unat x div 2 * 2" by (simp add: div_le_mono)
  then have low: "unat a \<le> unat x div 2 * 2" using a(1) by simp
  have "unat x div 2 < unat e div 2" using le(2) e(1) by presburger
  then have "unat x div 2 * 2 + 1 < unat e div 2 * 2" by linarith
  then have high: "unat x div 2 * 2 + 1 < unat e" using e(1) by simp
  have range: "a \<le> half_of x" "half_of x < e" "a \<le> half_of x + 1" "half_of x + 1 < e"
    using low high by (simp_all add: word_le_nat_alt word_less_nat_alt u)
  have "in_flash (half_of x)" "in_flash (half_of x + 1)"
    using low high a(2) e(2) by (simp_all add: in_flash_def word_le_nat_alt word_less_nat_alt u)
  with range mem show ?thesis by (simp add: half_erased_def)
qed

text \<open>
  C2: GDB's \<open>load\<close>, from the erase request to the finished program. \<open>target_flash_erase\<close> on whole
  pages of the user flash hands the range to the firmware and succeeds; the firmware's
  \<open>flashEraseLoop\<close>, which the debug handler starts, takes the request and ends; then the writes
  of the download and \<open>target_flash_done\<close> succeed, whatever was in the flash before and however
  GDB cuts the data. Afterwards the flash holds the data at \<open>dest\<close>, \<open>0xFF\<close> in the rest of the
  erased pages, and what it held before everywhere else.
\<close>

theorem erase_and_download_end_to_end:
  assumes "probe_ready p" "malloc_ok malloc 0x400"
    and "cb_ok (gEraseParams (l_mon (p_dev p)))" "cb_items (gEraseParams (l_mon (p_dev p))) = []"
    and "0 < cb_capacity (gEraseParams (l_mon (p_dev p)))"
    and "page_of a = a" "0x08004000 \<le> a" "unat a + n * 1024 \<le> 0x8020000" "0 < n"
    and "unat a \<le> unat dest" "unat dest + length (concat bss) \<le> unat a + n * 1024"
  shows "\<exists>p1 m fl p2 fl' p3. target_flash_erase [user_bank] a (of_nat n * 0x400) p = (0, p1) \<and>
    flashEraseLoop f103_bus (l_mon (p_dev p1)) = Some m \<and>
    write_all malloc dest bss [user_bank] (p1\<lparr>p_dev := (p_dev p1)\<lparr>l_mon := m\<rparr>\<rparr>) = Inr (0, fl, p2) \<and>
    target_flash_done fl p2 = (0, fl', p3) \<and>
    (\<forall>x. in_flash x \<longrightarrow> probe_mem p3 x = overlay dest (concat bss)
       (\<lambda>x. if a \<le> x \<and> x < a + of_nat n * 0x400 then -1 else probe_mem p x) x)"
proof -
  let ?len = "of_nat n * 0x400 :: u32" and ?q = "gEraseParams (l_mon (p_dev p))"
  have "n * 1024 < 2 ^ 32" using assms(8) by simp
  then have "unat (of_nat (n * 1024) :: u32) = n * 1024" by (rule unat_of_nat_u32)
  then have len: "unat ?len = n * 1024" by simp
  have top: "unat (a + ?len) = unat a + n * 1024"
    using assms(8) len by (subst unat_add_lem [THEN iffD1]) simp_all
  obtain p1 where p1: "stm32f1_flash_erase usb a ?len p = (0, p1)" "probe_ready p1" "probe_mem p1 = probe_mem p"
    "gEraseParams (l_mon (p_dev p1)) = snd (cb_put (a, ?len) ?q)"
    by (rule erase_request_sent [OF assms(1)])
  have a: "0x08004000 \<le> unat a" using assms(7) by (simp add: word_le_nat_alt)
  have "?len \<noteq> 0" using len assms(9) by (metis unat_0 mult_eq_0_iff zero_neq_numeral not_gr0)
  then have erase: "target_flash_erase [user_bank] a ?len p = (0, p1)"
    using erase_bank [OF p1(1)] a assms(8) len by simp
  let ?m1 = "l_mon (p_dev p1)"
  have q: "cb_ok (gEraseParams ?m1)" "cb_items (gEraseParams ?m1) = [(a, ?len)]"
    using cb.put_ok [OF assms(3)] cb.put_items [OF assms(3)] assms(4,5) by (simp_all add: p1(4))
  have ok: "link_ok ?m1" "\<not> l_hung (p_dev p1)" using p1(2) by (simp_all add: probe_ready_def link_up_def)
  then have "at_rest (hw ?m1)" by (simp add: link_ok_def)
  from erase_request_full [OF this q assms(6,7,8)] obtain m where m: "flashEraseLoop f103_bus ?m1 = Some m"
    "flash_part (hw m) = (\<lambda>x. if in_flash x \<and> a \<le> x \<and> x < a + ?len then -1 else flash_part (hw ?m1) x)"
    "at_rest (hw m)" "usbCmdFrame m = usbCmdFrame ?m1" "usbAnsFrame m = usbAnsFrame ?m1" by blast
  let ?p = "p1\<lparr>p_dev := (p_dev p1)\<lparr>l_mon := m\<rparr>\<rparr>"
  have rdy: "probe_ready ?p" using p1(2) m(3-5) by (simp add: probe_ready_def link_up_def link_ok_def)
  have mem: "probe_mem ?p x = (if a \<le> x \<and> x < a + ?len then -1 else probe_mem p x)" if "in_flash x" for x
    using that p1(3) by (simp add: in_flash_user_mem m(2) flip: in_flash_user_mem [of x "hw ?m1"])
  have "1024 dvd unat a" using assms(6) page_of_div [of a] by (metis dvd_triv_right)
  then have ev: "even (unat a)" by (rule dvd_trans [rotated]) simp
  then have ev': "even (unat (a + ?len))" unfolding top by simp
  have "half_erased (half_of (dest + of_nat i)) (probe_mem ?p)" if i: "i < length (concat bss)" for i
  proof (rule erased_range_blank [OF mem])
    have u: "unat (dest + of_nat i) = unat dest + i" using i assms(8,11) by (intro unat_add_u32) simp
    show "a \<le> dest + of_nat i" "dest + of_nat i < a + ?len"
      using u i assms(10,11) top by (simp_all add: word_le_nat_alt word_less_nat_alt)
  qed (use ev ev' a top assms(8) in simp_all)
  then have blank: "\<forall>i<length (concat bss). half_erased (half_of (dest + of_nat i)) (probe_mem ?p)" by blast
  have range: "0x08004000 \<le> unat dest" "unat dest + length (concat bss) \<le> 0x08020000"
    using a assms(8,10,11) by simp_all
  from flash_download [OF rdy assms(2) range blank] obtain fl p2 fl' p3 where
    "write_all malloc dest bss [user_bank] ?p = Inr (0, fl, p2)" "target_flash_done fl p2 = (0, fl', p3)"
    "probe_mem p3 = overlay dest (concat bss) (probe_mem ?p)" by blast
  moreover have "probe_mem p3 x = overlay dest (concat bss)
      (\<lambda>x. if a \<le> x \<and> x < a + ?len then -1 else probe_mem p x) x" if "in_flash x" for x
    using calculation(3) mem [OF that] by (simp add: overlay_def)
  ultimately show ?thesis using erase m(1) by blast
qed

lemma fresh_queue:
  "cb_ok (gEraseParams (l_mon (p_dev (fresh_probe h))))"
  "cb_items (gEraseParams (l_mon (p_dev (fresh_probe h)))) = []"
  "0 < cb_capacity (gEraseParams (l_mon (p_dev (fresh_probe h))))"
  using cb_new_ok [of 4 "(0, 0) :: u32 \<times> u32"]
  by (simp_all add: fresh_probe_def new_probe_def plugged_def initial_def)

theorem erase_and_download_end_to_end_witness:
  "\<exists>p1 m fl p2 fl' p3.
    target_flash_erase [user_bank] 0x08004000 0x800 (fresh_probe (power_on\<lparr>f_mem := \<lambda>_. 0\<rparr>)) = (0, p1) \<and>
    flashEraseLoop f103_bus (l_mon (p_dev p1)) = Some m \<and>
    write_all (env_malloc demo_env) 0x080043FF [[1, 2], [3]] [user_bank] (p1\<lparr>p_dev := (p_dev p1)\<lparr>l_mon := m\<rparr>\<rparr>) = Inr (0, fl, p2) \<and>
    target_flash_done fl p2 = (0, fl', p3) \<and>
    mem_load (probe_mem p3) 0x080043FF 4 = [1, 2, 3, 0xFF] \<and> probe_mem p3 0x08004800 = 0"
proof -
  let ?h = "power_on\<lparr>f_mem := \<lambda>_. 0\<rparr>"
  have m: "malloc_ok (env_malloc demo_env) 0x400" by (simp add: malloc_ok_def demo_env_def)
  have a: "page_of 0x08004000 = 0x08004000" "unat (0x08004000 :: u32) + 2 * 1024 \<le> 0x8020000"
    "unat (0x08004000 :: u32) \<le> unat (0x080043FF :: u32)"
    "unat (0x080043FF :: u32) + length (concat [[1, 2], [3 :: u8]]) \<le> unat (0x08004000 :: u32) + 2 * 1024"
    by (simp_all add: page_of_def)
  from erase_and_download_end_to_end [OF fresh_probe_ready [OF power_on_rest [of "\<lambda>_. 0"]] m fresh_queue a(1) _ a(2) _ a(3,4)]
  obtain p1 m' fl p2 fl' p3 where r:
    "target_flash_erase [user_bank] 0x08004000 0x800 (fresh_probe ?h) = (0, p1)"
    "flashEraseLoop f103_bus (l_mon (p_dev p1)) = Some m'"
    "write_all (env_malloc demo_env) 0x080043FF [[1, 2], [3]] [user_bank] (p1\<lparr>p_dev := (p_dev p1)\<lparr>l_mon := m'\<rparr>\<rparr>) = Inr (0, fl, p2)"
    "target_flash_done fl p2 = (0, fl', p3)"
    and mem: "\<And>x. in_flash x \<Longrightarrow> probe_mem p3 x = overlay 0x080043FF [1, 2, 3]
       (\<lambda>x. if 0x08004000 \<le> x \<and> x < 0x08004000 + 0x800 then -1 else user_mem ?h x) x"
    unfolding fresh_probe_mem by auto
  have "probe_mem p3 0x080043FF = 1" "probe_mem p3 0x08004400 = 2"
    "probe_mem p3 0x08004401 = 3" "probe_mem p3 0x08004402 = 0xFF" "probe_mem p3 0x08004800 = 0"
    using mem [of "0x080043FF"] mem [of "0x08004400"] mem [of "0x08004401"] mem [of "0x08004402"] mem [of "0x08004800"]
    by (simp_all add: in_flash_def overlay_def user_mem_def core_register_def)
  then have "mem_load (probe_mem p3) 0x080043FF 4 = [1, 2, 3, 0xFF] \<and> probe_mem p3 0x08004800 = 0"
    by (simp add: mem_load_def upt_conv_Cons)
  with r show ?thesis by blast
qed

lemma erase_loop_refuses:
  assumes "cb_ok (gEraseParams m)" "cb_items (gEraseParams m) = (a, z) # rest" "\<not> range_accepted a z"
  shows "\<exists>m'. flashEraseLoop f103_bus m = Some m' \<and> flash_part (hw m') = flash_part (hw m)"
proof -
  let ?m = "on_hw (enableDisableDebugCommandHandler f103_bus False) m"
  obtain q where "cb_pull (gEraseParams m) = (Some (a, z), q)"
    using cb.pull_result [OF assms(1)] cb.get_items [OF assms(1)] assms(2)
    by (cases "cb_pull (gEraseParams m)") simp
  then have "erase_requests f103_bus ?m = Some (?m\<lparr>gEraseParams := q\<rparr>)"
    using assms(3) by (subst erase_requests.simps) simp
  then show ?thesis
    by (simp add: flashEraseLoop_def debugStartLocalLoop_def request_part usb_interrupts)
qed

text \<open>
  C27: the firmware does not erase itself, but the server does not learn of it. An erase of a
  range that starts below \<open>0x08004000\<close>, where the probe's own firmware lies, is inside the bank
  that \<open>stm32f1_probe\<close> announces to GDB: \<open>target_flash_erase\<close> reports success. The firmware's
  erase loop refuses the range: the flash keeps its contents, also in the pages above
  \<open>0x08004000\<close> that the range covers.
\<close>

theorem firmware_area_erase_ignored:
  assumes "probe_ready p"
    and "cb_ok (gEraseParams (l_mon (p_dev p)))" "cb_items (gEraseParams (l_mon (p_dev p))) = []"
    and "0 < cb_capacity (gEraseParams (l_mon (p_dev p)))"
    and "0x8000000 \<le> unat a" "unat a < 0x8004000" "unat a + unat len \<le> 0x8020000" "len \<noteq> 0"
  shows "\<exists>p1 m. target_flash_erase [user_bank] a len p = (0, p1) \<and>
    flashEraseLoop f103_bus (l_mon (p_dev p1)) = Some m \<and>
    (\<forall>x. in_flash x \<longrightarrow> user_mem (hw m) x = probe_mem p x)"
proof -
  obtain p1 where p1: "stm32f1_flash_erase usb a len p = (0, p1)" "probe_mem p1 = probe_mem p"
    "gEraseParams (l_mon (p_dev p1)) = snd (cb_put (a, len) (gEraseParams (l_mon (p_dev p))))"
    by (rule erase_request_sent [OF assms(1)])
  have "cb_ok (gEraseParams (l_mon (p_dev p1)))" "cb_items (gEraseParams (l_mon (p_dev p1))) = [(a, len)]"
    using cb.put_ok [OF assms(2)] cb.put_items [OF assms(2)] assms(3,4) by (simp_all add: p1(3))
  moreover have "\<not> range_accepted a len" using assms(6) by (simp add: range_accepted_def word_less_nat_alt)
  ultimately obtain m where m: "flashEraseLoop f103_bus (l_mon (p_dev p1)) = Some m"
    "flash_part (hw m) = flash_part (hw (l_mon (p_dev p1)))"
    using erase_loop_refuses by blast
  have "user_mem (hw m) x = probe_mem p x" if "in_flash x" for x
    using m(2) p1(2) that by (metis in_flash_user_mem)
  with erase_bank [OF p1(1) assms(5,7,8)] m(1) show ?thesis by blast
qed

theorem firmware_area_erase_ignored_witness:
  "\<exists>p1 m. target_flash_erase [user_bank] 0x08000000 0x20000 (fresh_probe (power_on\<lparr>f_mem := \<lambda>_. 0\<rparr>)) = (0, p1) \<and>
    flashEraseLoop f103_bus (l_mon (p_dev p1)) = Some m \<and> user_mem (hw m) 0x08010000 = 0"
proof -
  have b: "0x8000000 \<le> unat (0x08000000 :: u32)" "unat (0x08000000 :: u32) < 0x8004000"
    "unat (0x08000000 :: u32) + unat (0x20000 :: u32) \<le> 0x8020000" "(0x20000 :: u32) \<noteq> 0" by simp_all
  from firmware_area_erase_ignored [OF fresh_probe_ready [OF power_on_rest [of "\<lambda>_. 0"]] fresh_queue b]
  obtain p1 m where r: "target_flash_erase [user_bank] 0x08000000 0x20000 (fresh_probe (power_on\<lparr>f_mem := \<lambda>_. 0\<rparr>)) = (0, p1)"
    "flashEraseLoop f103_bus (l_mon (p_dev p1)) = Some m"
    and m: "\<And>x. in_flash x \<Longrightarrow> user_mem (hw m) x = user_mem (power_on\<lparr>f_mem := \<lambda>_. 0\<rparr>) x"
    unfolding fresh_probe_mem by blast
  have "user_mem (hw m) 0x08010000 = user_mem (power_on\<lparr>f_mem := \<lambda>_. 0\<rparr>) 0x08010000"
    by (rule m) (simp add: in_flash_def)
  also have "\<dots> = 0" by (simp add: user_mem_def core_register_def)
  finally have "user_mem (hw m) 0x08010000 = 0" .
  with r show ?thesis by blast
qed

end
