(* ===== verification/Usb_Fs.thy ===== *)
theory Usb_Fs
  imports Mmio
begin

text \<open>
  The USB peripheral of the probe: \<^verbatim>\<open>Bootloader/libopencm3/lib/stm32/common/st_usbfs_core.c\<close>
  and \<^verbatim>\<open>stm32/st_usbfs_v1.c\<close>, the driver of the full-speed device controller, and the state
  of a device that the three parts of the stack share (\<^verbatim>\<open>lib/usb/usb_private.h\<close>). The registers
  are 16 bits wide and are accessed as 32-bit words; the packet memory has 16 bits in every
  32-bit word.
\<close>

section \<open>The state of a device\<close>

text \<open>
  The functions of the firmware whose addresses are stored in the device. The callbacks for
  reset, suspend, resume, start of frame and alternate settings are never registered, and
  no control callback sets \<open>complete\<close>: these pointers are null throughout and have no field.
\<close>

datatype usb_fn =
    F_control_setup | F_control_out | F_control_in
  | F_usbControlCallback | F_usbSetConfigCallback
  | F_usbDataOutCallback | F_usbDataInCallback | F_usbSerialDataInCallback

datatype usb_transaction = USB_TRANSACTION_IN | USB_TRANSACTION_OUT | USB_TRANSACTION_SETUP

datatype control_phase =
    IDLE | STALLED | DATA_IN | LAST_DATA_IN | STATUS_IN | DATA_OUT | LAST_DATA_OUT | STATUS_OUT

text \<open>
  Descriptors. The bytes are the \<open>bLength\<close> bytes of the packed structure; an array and its
  length in the structure are one list. \<open>ui_cur\<close> is the variable with the current alternate
  setting, if there is one.
\<close>

record usb_endpoint_descriptor =
  ed_bytes :: "u8 list"
  ed_extra :: "u8 list"

record usb_interface_descriptor =
  id_bytes :: "u8 list"
  id_extra :: "u8 list"
  id_endpoint :: "usb_endpoint_descriptor list"

record usb_interface =
  ui_assoc :: "u8 list"
  ui_altsetting :: "usb_interface_descriptor list"
  ui_cur :: "nat option"

record usb_config =
  cf_bytes :: "u8 list"
  cf_interface :: "usb_interface list"

definition bConfigurationValue :: "usb_config \<Rightarrow> u8" where
  "bConfigurationValue c = cf_bytes c ! 5"

text \<open>
  The pointer \<open>ctrl_buf\<close> of a transfer: null, an offset into the control buffer of the device,
  or constant data that is still to be sent.
\<close>

datatype data_ptr = NullPtr | CtrlPtr nat | ConstPtr "u8 list"

text \<open>
  \<open>struct _usbd_device\<close>, with the array \<open>st_usbfs_force_nak\<close> of the driver, the hardware and
  the state of the application behind the callbacks.
\<close>

record ('h, 'a) usbd =
  u_desc :: "u8 list"
  u_config :: "usb_config list"
  u_strings :: "u8 list list option"
  u_ctrl_buf :: "u8 list"
  current_address :: u8
  current_config :: u8
  pm_top :: u16
  cs_state :: control_phase
  cs_req :: "u8 list"
  cs_buf :: data_ptr
  cs_len :: u16
  cs_needs_zlp :: bool
  user_control_callback :: "(usb_fn \<times> u8 \<times> u8) option list"
  user_callback_ctr :: "nat \<Rightarrow> usb_transaction \<Rightarrow> usb_fn option"
  user_callback_set_config :: "usb_fn option list"
  alt_vars :: "nat \<Rightarrow> u8"
  extra_string_idx :: nat
  extra_string :: "u8 list"
  force_nak :: "bool list"
  usb_hw :: 'h
  usb_app :: 'a

definition bMaxPacketSize0 :: "('h, 'a) usbd \<Rightarrow> u8" where
  "bMaxPacketSize0 dev = u_desc dev ! 7"

definition bNumConfigurations :: "('h, 'a) usbd \<Rightarrow> u8" where
  "bNumConfigurations dev = u_desc dev ! 17"

abbreviation upd_hw :: "('h \<Rightarrow> 'h) \<Rightarrow> ('h, 'a) usbd \<Rightarrow> ('h, 'a) usbd" where
  "upd_hw f dev \<equiv> dev\<lparr>usb_hw := f (usb_hw dev)\<rparr>"

section \<open>Registers\<close>

definition USB_DEV_FS_BASE :: u32 where "USB_DEV_FS_BASE = 0x40005C00"
definition USB_PMA_BASE :: u32 where "USB_PMA_BASE = 0x40006000"
definition USB_CNTR_REG :: u32 where "USB_CNTR_REG = USB_DEV_FS_BASE + 0x40"
definition USB_ISTR_REG :: u32 where "USB_ISTR_REG = USB_DEV_FS_BASE + 0x44"
definition USB_DADDR_REG :: u32 where "USB_DADDR_REG = USB_DEV_FS_BASE + 0x4C"
definition USB_BTABLE_REG :: u32 where "USB_BTABLE_REG = USB_DEV_FS_BASE + 0x50"

definition USB_EP_REG :: "u8 \<Rightarrow> u32" where
  "USB_EP_REG ep = USB_DEV_FS_BASE + 4 * ucast ep"

definition USB_EP_RX_CTR :: u16 where "USB_EP_RX_CTR = 0x8000"
definition USB_EP_RX_DTOG :: u16 where "USB_EP_RX_DTOG = 0x4000"
definition USB_EP_RX_STAT :: u16 where "USB_EP_RX_STAT = 0x3000"
definition USB_EP_SETUP :: u16 where "USB_EP_SETUP = 0x0800"
definition USB_EP_TYPE :: u16 where "USB_EP_TYPE = 0x0600"
definition USB_EP_KIND :: u16 where "USB_EP_KIND = 0x0100"
definition USB_EP_TX_CTR :: u16 where "USB_EP_TX_CTR = 0x0080"
definition USB_EP_TX_DTOG :: u16 where "USB_EP_TX_DTOG = 0x0040"
definition USB_EP_TX_STAT :: u16 where "USB_EP_TX_STAT = 0x0030"
definition USB_EP_ADDR :: u16 where "USB_EP_ADDR = 0x000F"

definition USB_EP_NTOGGLE_MSK :: u16 where
  "USB_EP_NTOGGLE_MSK = USB_EP_RX_CTR OR USB_EP_SETUP OR USB_EP_TYPE OR USB_EP_KIND OR USB_EP_TX_CTR OR USB_EP_ADDR"

definition USB_EP_RX_STAT_TOG_MSK :: u16 where "USB_EP_RX_STAT_TOG_MSK = USB_EP_RX_STAT OR USB_EP_NTOGGLE_MSK"
definition USB_EP_TX_STAT_TOG_MSK :: u16 where "USB_EP_TX_STAT_TOG_MSK = USB_EP_TX_STAT OR USB_EP_NTOGGLE_MSK"

definition EP_DISABLED :: u16 where "EP_DISABLED = 0"
definition RX_STALL :: u16 where "RX_STALL = 0x1000"
definition RX_NAK :: u16 where "RX_NAK = 0x2000"
definition RX_VALID :: u16 where "RX_VALID = 0x3000"
definition TX_STALL :: u16 where "TX_STALL = 0x0010"
definition TX_NAK :: u16 where "TX_NAK = 0x0020"
definition TX_VALID :: u16 where "TX_VALID = 0x0030"

definition USB_ISTR_CTR :: u16 where "USB_ISTR_CTR = 0x8000"
definition USB_ISTR_WKUP :: u16 where "USB_ISTR_WKUP = 0x1000"
definition USB_ISTR_SUSP :: u16 where "USB_ISTR_SUSP = 0x0800"
definition USB_ISTR_RESET :: u16 where "USB_ISTR_RESET = 0x0400"
definition USB_ISTR_SOF :: u16 where "USB_ISTR_SOF = 0x0200"
definition USB_ISTR_DIR :: u16 where "USB_ISTR_DIR = 0x0010"
definition USB_ISTR_EP_ID :: u16 where "USB_ISTR_EP_ID = 0x000F"

text \<open>\<open>GET_REG\<close>, \<open>SET_REG\<close> and the read-modify-write macros of \<^verbatim>\<open>tools.h\<close>.\<close>

definition GET_REG :: "'h bus \<Rightarrow> u32 \<Rightarrow> 'h \<Rightarrow> u16 \<times> 'h" where
  "GET_REG b a h = (case mmio_read b a h of (x, h) \<Rightarrow> (ucast x, h))"

definition SET_REG :: "'h bus \<Rightarrow> u32 \<Rightarrow> u16 \<Rightarrow> 'h \<Rightarrow> 'h" where
  "SET_REG b a v = mmio_write b a (ucast v)"

definition MOD_REG :: "'h bus \<Rightarrow> u32 \<Rightarrow> (u16 \<Rightarrow> u16) \<Rightarrow> 'h \<Rightarrow> 'h" where
  "MOD_REG b a f h = (case GET_REG b a h of (x, h) \<Rightarrow> SET_REG b a (f x) h)"

definition CLR_REG_BIT :: "'h bus \<Rightarrow> u32 \<Rightarrow> u16 \<Rightarrow> 'h \<Rightarrow> 'h" where
  "CLR_REG_BIT b a v = SET_REG b a (NOT v)"

definition CLR_REG_BIT_MSK_AND_SET :: "'h bus \<Rightarrow> u32 \<Rightarrow> u16 \<Rightarrow> u16 \<Rightarrow> u16 \<Rightarrow> 'h \<Rightarrow> 'h" where
  "CLR_REG_BIT_MSK_AND_SET b a msk v extra = MOD_REG b a (\<lambda>x. (x AND msk AND NOT v) OR extra)"

definition TOG_SET_REG_BIT_MSK_AND_SET :: "'h bus \<Rightarrow> u32 \<Rightarrow> u16 \<Rightarrow> u16 \<Rightarrow> u16 \<Rightarrow> 'h \<Rightarrow> 'h" where
  "TOG_SET_REG_BIT_MSK_AND_SET b a msk v extra = MOD_REG b a (\<lambda>x. ((x AND msk) XOR v) OR extra)"

text \<open>The endpoint registers.\<close>

definition USB_SET_EP_RX_STAT :: "'h bus \<Rightarrow> u8 \<Rightarrow> u16 \<Rightarrow> 'h \<Rightarrow> 'h" where
  "USB_SET_EP_RX_STAT b ep st =
     TOG_SET_REG_BIT_MSK_AND_SET b (USB_EP_REG ep) USB_EP_RX_STAT_TOG_MSK st (USB_EP_RX_CTR OR USB_EP_TX_CTR)"

definition USB_SET_EP_TX_STAT :: "'h bus \<Rightarrow> u8 \<Rightarrow> u16 \<Rightarrow> 'h \<Rightarrow> 'h" where
  "USB_SET_EP_TX_STAT b ep st =
     TOG_SET_REG_BIT_MSK_AND_SET b (USB_EP_REG ep) USB_EP_TX_STAT_TOG_MSK st (USB_EP_RX_CTR OR USB_EP_TX_CTR)"

definition USB_CLR_EP_RX_CTR :: "'h bus \<Rightarrow> u8 \<Rightarrow> 'h \<Rightarrow> 'h" where
  "USB_CLR_EP_RX_CTR b ep =
     CLR_REG_BIT_MSK_AND_SET b (USB_EP_REG ep) USB_EP_NTOGGLE_MSK USB_EP_RX_CTR USB_EP_TX_CTR"

definition USB_CLR_EP_TX_CTR :: "'h bus \<Rightarrow> u8 \<Rightarrow> 'h \<Rightarrow> 'h" where
  "USB_CLR_EP_TX_CTR b ep =
     CLR_REG_BIT_MSK_AND_SET b (USB_EP_REG ep) USB_EP_NTOGGLE_MSK USB_EP_TX_CTR USB_EP_RX_CTR"

definition USB_SET_EP_TYPE :: "'h bus \<Rightarrow> u8 \<Rightarrow> u16 \<Rightarrow> 'h \<Rightarrow> 'h" where
  "USB_SET_EP_TYPE b ep ty = MOD_REG b (USB_EP_REG ep) (\<lambda>x. (x AND (USB_EP_NTOGGLE_MSK AND NOT USB_EP_TYPE)) OR ty)"

definition USB_SET_EP_ADDR :: "'h bus \<Rightarrow> u8 \<Rightarrow> u8 \<Rightarrow> 'h \<Rightarrow> 'h" where
  "USB_SET_EP_ADDR b ep addr =
     MOD_REG b (USB_EP_REG ep) (\<lambda>x. (x AND (USB_EP_NTOGGLE_MSK AND NOT USB_EP_ADDR)) OR ucast addr)"

definition USB_CLR_EP_TX_DTOG :: "'h bus \<Rightarrow> u8 \<Rightarrow> 'h \<Rightarrow> 'h" where
  "USB_CLR_EP_TX_DTOG b ep = MOD_REG b (USB_EP_REG ep) (\<lambda>x. x AND (USB_EP_NTOGGLE_MSK OR USB_EP_TX_DTOG))"

definition USB_CLR_EP_RX_DTOG :: "'h bus \<Rightarrow> u8 \<Rightarrow> 'h \<Rightarrow> 'h" where
  "USB_CLR_EP_RX_DTOG b ep = MOD_REG b (USB_EP_REG ep) (\<lambda>x. x AND (USB_EP_NTOGGLE_MSK OR USB_EP_RX_DTOG))"

text \<open>The table of buffers in the packet memory: four words for each endpoint.\<close>

definition btable_word :: "'h bus \<Rightarrow> u8 \<Rightarrow> u32 \<Rightarrow> 'h \<Rightarrow> u32 \<times> 'h" where
  "btable_word b ep k h =
     (case GET_REG b USB_BTABLE_REG h of (t, h) \<Rightarrow> (USB_PMA_BASE + (ucast t + ucast ep * 8 + k) * 2, h))"

definition get_btable :: "'h bus \<Rightarrow> u8 \<Rightarrow> u32 \<Rightarrow> 'h \<Rightarrow> u16 \<times> 'h" where
  "get_btable b ep k h = (case btable_word b ep k h of (a, h) \<Rightarrow> GET_REG b a h)"

definition set_btable :: "'h bus \<Rightarrow> u8 \<Rightarrow> u32 \<Rightarrow> u16 \<Rightarrow> 'h \<Rightarrow> 'h" where
  "set_btable b ep k v h = (case btable_word b ep k h of (a, h) \<Rightarrow> SET_REG b a v h)"

definition USB_SET_EP_TX_ADDR :: "'h bus \<Rightarrow> u8 \<Rightarrow> u16 \<Rightarrow> 'h \<Rightarrow> 'h" where
  "USB_SET_EP_TX_ADDR b ep = set_btable b ep 0"

definition USB_SET_EP_TX_COUNT :: "'h bus \<Rightarrow> u8 \<Rightarrow> u16 \<Rightarrow> 'h \<Rightarrow> 'h" where
  "USB_SET_EP_TX_COUNT b ep = set_btable b ep 2"

definition USB_SET_EP_RX_ADDR :: "'h bus \<Rightarrow> u8 \<Rightarrow> u16 \<Rightarrow> 'h \<Rightarrow> 'h" where
  "USB_SET_EP_RX_ADDR b ep = set_btable b ep 4"

definition USB_SET_EP_RX_COUNT :: "'h bus \<Rightarrow> u8 \<Rightarrow> u16 \<Rightarrow> 'h \<Rightarrow> 'h" where
  "USB_SET_EP_RX_COUNT b ep = set_btable b ep 6"

definition USB_GET_EP_RX_COUNT :: "'h bus \<Rightarrow> u8 \<Rightarrow> 'h \<Rightarrow> u16 \<times> 'h" where
  "USB_GET_EP_RX_COUNT b ep = get_btable b ep 6"

definition USB_GET_EP_TX_BUFF :: "'h bus \<Rightarrow> u8 \<Rightarrow> 'h \<Rightarrow> u32 \<times> 'h" where
  "USB_GET_EP_TX_BUFF b ep h = (case get_btable b ep 0 h of (x, h) \<Rightarrow> (USB_PMA_BASE + ucast x * 2, h))"

definition USB_GET_EP_RX_BUFF :: "'h bus \<Rightarrow> u8 \<Rightarrow> 'h \<Rightarrow> u32 \<times> 'h" where
  "USB_GET_EP_RX_BUFF b ep h = (case get_btable b ep 4 h of (x, h) \<Rightarrow> (USB_PMA_BASE + ucast x * 2, h))"

end
