(* ===== verification/Usb_Driver.thy ===== *)
theory Usb_Driver
  imports Usb_Fs
begin

text \<open>
  The functions of \<^verbatim>\<open>st_usbfs_core.c\<close> and \<^verbatim>\<open>st_usbfs_v1.c\<close> that the stack calls through
  \<open>usbd_driver\<close>, and the wrappers of \<^verbatim>\<open>lib/usb/usb.c\<close>. A packet to send is a list of bytes, a
  packet that was read is returned. The polling function is in \<open>Usb_App\<close>, since it calls
  everything else.
\<close>

section \<open>Packet memory\<close>

text \<open>
  Copying is by half words. Behind a packet of odd length, one more byte is written that
  does not belong to the packet; here it is 0.
\<close>

fun st_usbfs_copy_to_pm :: "'h bus \<Rightarrow> u32 \<Rightarrow> u8 list \<Rightarrow> 'h \<Rightarrow> 'h" where
  "st_usbfs_copy_to_pm b pm [] h = h"
| "st_usbfs_copy_to_pm b pm [x] h = mmio_write b pm (ucast x) h"
| "st_usbfs_copy_to_pm b pm (x # y # bs) h =
     st_usbfs_copy_to_pm b (pm + 4) bs (mmio_write b pm (ucast (rd16 [x, y])) h)"

fun st_usbfs_copy_from_pm :: "'h bus \<Rightarrow> u32 \<Rightarrow> nat \<Rightarrow> 'h \<Rightarrow> u8 list \<times> 'h" where
  "st_usbfs_copy_from_pm b pm 0 h = ([], h)"
| "st_usbfs_copy_from_pm b pm (Suc 0) h = (case bus_read b 1 pm h of (x, h) \<Rightarrow> ([ucast x], h))"
| "st_usbfs_copy_from_pm b pm (Suc (Suc n)) h =
     (case bus_read b 2 pm h of (x, h) \<Rightarrow>
        case st_usbfs_copy_from_pm b (pm + 4) n h of (bs, h) \<Rightarrow> (le16 (ucast x) @ bs, h))"

section \<open>The driver\<close>

definition st_usbfs_set_address :: "'h bus \<Rightarrow> u8 \<Rightarrow> ('h, 'a) usbd \<Rightarrow> ('h, 'a) usbd" where
  "st_usbfs_set_address b addr = upd_hw (SET_REG b USB_DADDR_REG (ucast ((addr AND 0x7F) OR 0x80)))"

text \<open>The size is rounded up to one that the hardware can have; that size is returned.\<close>

definition rx_bufsize :: "u32 \<Rightarrow> u16 \<times> u32" where
  "rx_bufsize sz =
     (if sz > 62 then
        let n = drop_bit 5 (sz - 1) AND 0x1F in (ucast (push_bit 5 (n + 1)), n OR 0x20)
      else
        let n = drop_bit 1 (sz + 1) in (ucast (push_bit 1 n), n))"

definition st_usbfs_set_ep_rx_bufsize :: "'h bus \<Rightarrow> u8 \<Rightarrow> u32 \<Rightarrow> ('h, 'a) usbd \<Rightarrow> u16 \<times> ('h, 'a) usbd" where
  "st_usbfs_set_ep_rx_bufsize b ep sz dev =
     (case rx_bufsize sz of (realsize, sz) \<Rightarrow>
        (realsize, upd_hw (USB_SET_EP_RX_COUNT b ep (ucast (push_bit 10 sz))) dev))"

definition set_callback :: "u8 \<Rightarrow> usb_transaction \<Rightarrow> usb_fn option \<Rightarrow> ('h, 'a) usbd \<Rightarrow> ('h, 'a) usbd" where
  "set_callback ep tr cb dev =
     (case cb of None \<Rightarrow> dev
      | Some f \<Rightarrow> dev\<lparr>user_callback_ctr :=
          (user_callback_ctr dev)(unat ep := (user_callback_ctr dev (unat ep))(tr := Some f))\<rparr>)"

text \<open>\<open>typelookup\<close>\<close>

definition ep_type :: "u8 \<Rightarrow> u16" where
  "ep_type ty = [0x0200, 0x0400, 0x0000, 0x0600] ! unat ty"

definition st_usbfs_ep_setup ::
    "'h bus \<Rightarrow> u8 \<Rightarrow> u8 \<Rightarrow> u16 \<Rightarrow> usb_fn option \<Rightarrow> ('h, 'a) usbd \<Rightarrow> ('h, 'a) usbd" where
  "st_usbfs_ep_setup b addr ty max_size cb dev =
     (let dir_in = (addr AND 0x80 \<noteq> 0);
          addr = addr AND 0x7F;
          dev = upd_hw (USB_SET_EP_TYPE b addr (ep_type ty) \<circ> USB_SET_EP_ADDR b addr addr) dev;
          dev =
            (if dir_in \<or> addr = 0 then
               let dev = set_callback addr USB_TRANSACTION_IN cb
                     (upd_hw (USB_SET_EP_TX_ADDR b addr (pm_top dev)) dev);
                   dev = upd_hw (USB_SET_EP_TX_STAT b addr TX_NAK \<circ> USB_CLR_EP_TX_DTOG b addr) dev
               in dev\<lparr>pm_top := pm_top dev + max_size\<rparr>
             else dev)
      in if \<not> dir_in then
           (case st_usbfs_set_ep_rx_bufsize b addr (ucast max_size)
                   (upd_hw (USB_SET_EP_RX_ADDR b addr (pm_top dev)) dev) of (realsize, dev) \<Rightarrow>
              let dev = upd_hw (USB_SET_EP_RX_STAT b addr RX_VALID \<circ> USB_CLR_EP_RX_DTOG b addr)
                    (set_callback addr USB_TRANSACTION_OUT cb dev)
              in dev\<lparr>pm_top := pm_top dev + realsize\<rparr>)
         else dev)"

definition USBD_PM_TOP :: u16 where "USBD_PM_TOP = 0x40"

definition st_usbfs_endpoints_reset :: "'h bus \<Rightarrow> ('h, 'a) usbd \<Rightarrow> ('h, 'a) usbd" where
  "st_usbfs_endpoints_reset b dev =
     (upd_hw (fold (\<lambda>i. USB_SET_EP_RX_STAT b i EP_DISABLED \<circ> USB_SET_EP_TX_STAT b i EP_DISABLED)
                [1, 2, 3, 4, 5, 6, 7]) dev)
       \<lparr>pm_top := USBD_PM_TOP + 2 * ucast (bMaxPacketSize0 dev)\<rparr>"

definition st_usbfs_ep_stall_set :: "'h bus \<Rightarrow> u8 \<Rightarrow> bool \<Rightarrow> ('h, 'a) usbd \<Rightarrow> ('h, 'a) usbd" where
  "st_usbfs_ep_stall_set b addr stall dev =
     (let tx = (\<lambda>ep. USB_SET_EP_TX_STAT b ep (if stall then TX_STALL else TX_NAK));
          dev = (if addr = 0 then upd_hw (tx addr) dev else dev)
      in if addr AND 0x80 \<noteq> 0 then
           let ep = addr AND 0x7F; dev = upd_hw (tx ep) dev
           in if \<not> stall then upd_hw (USB_CLR_EP_TX_DTOG b ep) dev else dev
         else
           upd_hw (USB_SET_EP_RX_STAT b addr (if stall then RX_STALL else RX_VALID))
             (if \<not> stall then upd_hw (USB_CLR_EP_RX_DTOG b addr) dev else dev))"

definition read_stat :: "'h bus \<Rightarrow> u8 \<Rightarrow> u16 \<Rightarrow> ('h, 'a) usbd \<Rightarrow> u32 \<times> ('h, 'a) usbd" where
  "read_stat b ep msk dev =
     (case mmio_read b (USB_EP_REG ep) (usb_hw dev) of (x, h) \<Rightarrow> (x AND ucast msk, dev\<lparr>usb_hw := h\<rparr>))"

definition st_usbfs_ep_stall_get :: "'h bus \<Rightarrow> u8 \<Rightarrow> ('h, 'a) usbd \<Rightarrow> bool \<times> ('h, 'a) usbd" where
  "st_usbfs_ep_stall_get b addr dev =
     (if addr AND 0x80 \<noteq> 0
      then case read_stat b (addr AND 0x7F) USB_EP_TX_STAT dev of (x, dev) \<Rightarrow> (x = ucast TX_STALL, dev)
      else case read_stat b addr USB_EP_RX_STAT dev of (x, dev) \<Rightarrow> (x = ucast RX_STALL, dev))"

definition st_usbfs_ep_nak_set :: "'h bus \<Rightarrow> u8 \<Rightarrow> bool \<Rightarrow> ('h, 'a) usbd \<Rightarrow> ('h, 'a) usbd" where
  "st_usbfs_ep_nak_set b addr nak dev =
     (if addr AND 0x80 \<noteq> 0 then dev
      else upd_hw (USB_SET_EP_RX_STAT b addr (if nak then RX_NAK else RX_VALID))
             (dev\<lparr>force_nak := (force_nak dev)[unat addr := nak]\<rparr>))"

text \<open>The number of bytes accepted: none while the previous packet is waiting to be sent.\<close>

definition st_usbfs_ep_write_packet :: "'h bus \<Rightarrow> u8 \<Rightarrow> u8 list \<Rightarrow> ('h, 'a) usbd \<Rightarrow> u16 \<times> ('h, 'a) usbd" where
  "st_usbfs_ep_write_packet b addr bs dev =
     (let ep = addr AND 0x7F
      in case read_stat b ep USB_EP_TX_STAT dev of (x, dev) \<Rightarrow>
           if x = ucast TX_VALID then (0, dev)
           else case USB_GET_EP_TX_BUFF b ep (usb_hw dev) of (pm, h) \<Rightarrow>
             (of_nat (length bs),
              dev\<lparr>usb_hw := USB_SET_EP_TX_STAT b ep TX_VALID
                (USB_SET_EP_TX_COUNT b ep (of_nat (length bs)) (st_usbfs_copy_to_pm b pm bs h))\<rparr>))"

definition st_usbfs_ep_read_packet :: "'h bus \<Rightarrow> u8 \<Rightarrow> u16 \<Rightarrow> ('h, 'a) usbd \<Rightarrow> u8 list \<times> ('h, 'a) usbd" where
  "st_usbfs_ep_read_packet b addr len dev =
     (case read_stat b addr USB_EP_RX_STAT dev of (x, dev) \<Rightarrow>
        if x = ucast RX_VALID then ([], dev)
        else case USB_GET_EP_RX_COUNT b addr (usb_hw dev) of (n, h) \<Rightarrow>
          case USB_GET_EP_RX_BUFF b addr h of (pm, h) \<Rightarrow>
            case st_usbfs_copy_from_pm b pm (unat (min (n AND 0x3FF) len)) h of (bs, h) \<Rightarrow>
              let h = USB_CLR_EP_RX_CTR b addr h
              in (bs, dev\<lparr>usb_hw :=
                   (if \<not> force_nak dev ! unat addr then USB_SET_EP_RX_STAT b addr RX_VALID h else h)\<rparr>))"

section \<open>Registering callbacks\<close>

text \<open>\<open>usb.c\<close> calls the driver through its table; these two fill the arrays of the device.\<close>

fun first_free :: "'b option list \<Rightarrow> nat option" where
  "first_free [] = None"
| "first_free (None # cs) = Some 0"
| "first_free (Some c # cs) = map_option Suc (first_free cs)"

definition usbd_register_control_callback ::
    "u8 \<Rightarrow> u8 \<Rightarrow> usb_fn \<Rightarrow> ('h, 'a) usbd \<Rightarrow> int \<times> ('h, 'a) usbd" where
  "usbd_register_control_callback ty type_mask cb dev =
     (case first_free (user_control_callback dev) of
        None \<Rightarrow> (-1, dev)
      | Some i \<Rightarrow> (0, dev\<lparr>user_control_callback := (user_control_callback dev)[i := Some (cb, ty, type_mask)]\<rparr>))"

fun register_config :: "usb_fn \<Rightarrow> usb_fn option list \<Rightarrow> (usb_fn option list) option" where
  "register_config cb [] = None"
| "register_config cb (None # cs) = Some (Some cb # cs)"
| "register_config cb (Some c # cs) =
     (if c = cb then Some (Some c # cs) else map_option (\<lambda>cs. Some c # cs) (register_config cb cs))"

definition usbd_register_set_config_callback :: "usb_fn \<Rightarrow> ('h, 'a) usbd \<Rightarrow> int \<times> ('h, 'a) usbd" where
  "usbd_register_set_config_callback cb dev =
     (case register_config cb (user_callback_set_config dev) of
        None \<Rightarrow> (-1, dev)
      | Some cs \<Rightarrow> (0, dev\<lparr>user_callback_set_config := cs\<rparr>))"

definition usbd_register_extra_string :: "int \<Rightarrow> u8 list option \<Rightarrow> ('h, 'a) usbd \<Rightarrow> ('h, 'a) usbd" where
  "usbd_register_extra_string index s dev =
     (case s of
        Some s \<Rightarrow>
          if index > 0 then dev\<lparr>extra_string_idx := nat index, extra_string := s\<rparr>
          else dev\<lparr>extra_string_idx := 0\<rparr>
      | None \<Rightarrow> dev\<lparr>extra_string_idx := 0\<rparr>)"

end
