(* ===== verification/Usb_Control.thy ===== *)
theory Usb_Control
  imports Usb_Driver
begin

text \<open>
  Control transfers: the descriptors and the control callback of the firmware
  (\<^verbatim>\<open>Bootloader/App/Usb.cpp\<close>), the standard requests (\<^verbatim>\<open>libopencm3/lib/usb/usb_standard.c\<close>) and
  the state machine of endpoint 0 (\<^verbatim>\<open>usb_control.c\<close>). Reading or writing behind the control
  buffer, a constant descriptor or an array of the configuration is \<open>Inl Crash\<close>.
\<close>

section \<open>Requests\<close>

definition bmRequestType :: "u8 list \<Rightarrow> u8" where "bmRequestType req = req ! 0"
definition bRequest :: "u8 list \<Rightarrow> u8" where "bRequest req = req ! 1"
definition wValue :: "u8 list \<Rightarrow> u16" where "wValue req = rd16 (drop 2 req)"
definition wIndex :: "u8 list \<Rightarrow> u16" where "wIndex req = rd16 (drop 4 req)"
definition wLength :: "u8 list \<Rightarrow> u16" where "wLength req = rd16 (drop 6 req)"

definition usb_descriptor_type :: "u16 \<Rightarrow> u16" where "usb_descriptor_type v = drop_bit 8 v"
definition usb_descriptor_index :: "u16 \<Rightarrow> u16" where "usb_descriptor_index v = v AND 0xFF"

datatype req_result = USBD_REQ_NOTSUPP | USBD_REQ_HANDLED | USBD_REQ_NEXT_CALLBACK

section \<open>The descriptors of the firmware\<close>

definition usbDeviceDescriptor :: "u8 list" where
  "usbDeviceDescriptor =
     [18, 1] @ le16 0x0200 @ [0xFF, 0, 0, 64] @ le16 0x1111 @ le16 0x001A @ le16 0x0200 @ [1, 2, 3, 1]"

definition usbDeviceQulifier :: "u8 list" where
  "usbDeviceQulifier = [10, 6] @ le16 0x0200 @ [0xFF, 0, 0, 64, 1, 0]"

definition bulk_endpoint :: "u8 \<Rightarrow> usb_endpoint_descriptor" where
  "bulk_endpoint addr = \<lparr>ed_bytes = [7, 5, addr, 2] @ le16 64 @ [1], ed_extra = []\<rparr>"

definition usbEndpointDescr :: "usb_endpoint_descriptor list" where
  "usbEndpointDescr = [bulk_endpoint 0x01, bulk_endpoint 0x81, bulk_endpoint 0x82]"

definition usbIfaceDescr :: usb_interface_descriptor where
  "usbIfaceDescr = \<lparr>id_bytes = [9, 4, 0, 0, 3, 0xFF, 0, 0, 5], id_extra = [], id_endpoint = usbEndpointDescr\<rparr>"

definition usbIfaces :: "usb_interface list" where
  "usbIfaces = [\<lparr>ui_assoc = [], ui_altsetting = [usbIfaceDescr], ui_cur = None\<rparr>]"

definition usbConfigDescriptor :: usb_config where
  "usbConfigDescriptor = \<lparr>cf_bytes = [9, 2] @ le16 0 @ [1, 0, 4, 0x80, 0x32], cf_interface = usbIfaces\<rparr>"

definition usbMsftSigStr :: "u8 list" where
  "usbMsftSigStr = [0x12, 3] @ [0x4D, 0, 0x53, 0, 0x46, 0, 0x54, 0, 0x31, 0, 0x30, 0, 0x30, 0] @ [0x40, 0]"

definition usbMsftWinUsb :: "u8 list" where
  "usbMsftWinUsb =
     le32 0x28 @ le16 0x0100 @ le16 0x0004 @ [1] @ replicate 7 0 @ [0, 1] @
     [0x57, 0x49, 0x4E, 0x55, 0x53, 0x42, 0, 0] @ replicate 8 0 @ replicate 6 0"

definition usbStrings :: "u8 list list" where
  "usbStrings = map str [''hwswdevelop@gmail.com'', ''STM32F103'', ''evgeny@vrnnet.ru'',
     ''hwswdevelop@gmail.com'', ''evgeny@vrnnet.ru'', ''hwswdevelop@gmail.com'', ''evgeny@vrnnet.ru'']"

text \<open>
  The callback: where the data is and how much of it, if it is one of the three requests that
  Windows makes. Only the last one looks at the length that was asked for.
\<close>

definition usbControlCallback :: "u8 list \<Rightarrow> (data_ptr \<times> u16) option" where
  "usbControlCallback req =
     (if bmRequestType req = 0x80 then
        if bRequest req = 6 then
          let ty = ucast (drop_bit 8 (wValue req) AND 0xFF) :: u8; ix = ucast (wValue req AND 0xFF) :: u8
          in if ty = 6 \<and> ix = 0 then Some (ConstPtr usbDeviceQulifier, 10)
             else if ty = 3 \<and> ix = 0xEE then Some (ConstPtr usbMsftSigStr, 18)
             else None
        else None
      else if bmRequestType req = 0xC0 then
        if bRequest req = usbMsftSigStr ! 16 \<and> wIndex req = 4
        then Some (ConstPtr usbMsftWinUsb, if wLength req < 40 then wLength req else 40)
        else None
      else None)"

definition usbSetConfigCallback :: "'h bus \<Rightarrow> u16 \<Rightarrow> ('h, 'a) usbd \<Rightarrow> ('h, 'a) usbd" where
  "usbSetConfigCallback b v dev =
     st_usbfs_ep_setup b 0x82 2 64 (Some F_usbSerialDataInCallback)
       (st_usbfs_ep_setup b 0x81 2 64 (Some F_usbDataInCallback)
         (st_usbfs_ep_setup b 0x01 2 64 (Some F_usbDataOutCallback) dev))"

section \<open>Data\<close>

text \<open>Reading \<open>n\<close> bytes through a pointer, and moving it.\<close>

definition read_ptr :: "data_ptr \<Rightarrow> nat \<Rightarrow> ('h, 'a) usbd \<Rightarrow> u8 list result" where
  "read_ptr p n dev =
     (case p of
        NullPtr \<Rightarrow> if n = 0 then Inr [] else Inl Crash
      | CtrlPtr k \<Rightarrow> if k + n \<le> length (u_ctrl_buf dev) then Inr (take n (drop k (u_ctrl_buf dev))) else Inl Crash
      | ConstPtr bs \<Rightarrow> if n \<le> length bs then Inr (take n bs) else Inl Crash)"

fun move_ptr :: "nat \<Rightarrow> data_ptr \<Rightarrow> data_ptr" where
  "move_ptr n NullPtr = NullPtr"
| "move_ptr n (CtrlPtr k) = CtrlPtr (k + n)"
| "move_ptr n (ConstPtr bs) = ConstPtr (drop n bs)"

text \<open>Writing to the control buffer at an offset.\<close>

definition write_ctrl :: "nat \<Rightarrow> u8 list \<Rightarrow> ('h, 'a) usbd \<Rightarrow> ('h, 'a) usbd result" where
  "write_ctrl k bs dev =
     (if k + length bs \<le> length (u_ctrl_buf dev) then Inr (dev\<lparr>u_ctrl_buf := blit k bs (u_ctrl_buf dev)\<rparr>)
      else Inl Crash)"

section \<open>Standard requests\<close>

text \<open>
  Each returns its result, the device, and the pointer and length of the data. \<open>buf\<close> points to
  the control buffer when a request gets here.
\<close>

type_synonym ('h, 'a) req_outcome = "(req_result \<times> data_ptr \<times> u16 \<times> ('h, 'a) usbd) result"

text \<open>\<open>build_config_descriptor\<close> copies one descriptor after the other, each cut to what is left.\<close>

definition endpoint_chunks :: "usb_endpoint_descriptor \<Rightarrow> u8 list list" where
  "endpoint_chunks ep = [ed_bytes ep, ed_extra ep]"

definition interface_chunks :: "usb_interface_descriptor \<Rightarrow> u8 list list" where
  "interface_chunks i = [id_bytes i, id_extra i] @ concat (map endpoint_chunks (id_endpoint i))"

definition config_chunks :: "usb_config \<Rightarrow> u8 list list" where
  "config_chunks c =
     [cf_bytes c] @ concat (map (\<lambda>i. [ui_assoc i] @ concat (map interface_chunks (ui_altsetting i))) (cf_interface c))"

fun put_chunks :: "u8 list list \<Rightarrow> u16 \<Rightarrow> u16 \<Rightarrow> u16 \<Rightarrow> ('h, 'a) usbd \<Rightarrow> (u16 \<times> u16 \<times> ('h, 'a) usbd) result" where
  "put_chunks [] len sent totallen dev = Inr (sent, totallen, dev)"
| "put_chunks (c # cs) len sent totallen dev =
     (let count = min len (of_nat (length c))
      in bindR (write_ctrl (unat sent) (take (unat count) c) dev) (\<lambda>dev.
           put_chunks cs (len - count) (sent + count) (totallen + of_nat (length c)) dev))"

definition build_config_descriptor :: "nat \<Rightarrow> u16 \<Rightarrow> ('h, 'a) usbd \<Rightarrow> (u16 \<times> ('h, 'a) usbd) result" where
  "build_config_descriptor index len dev =
     (if \<not> index < length (u_config dev) then Inl Crash
      else bindR (put_chunks (config_chunks (u_config dev ! index)) len 0 0 dev) (\<lambda>(sent, totallen, dev).
             bindR (write_ctrl 2 (le16 totallen) dev) (\<lambda>dev. Inr (sent, dev))))"

text \<open>A string descriptor in the control buffer: as many characters as are asked for.\<close>

definition put_string :: "u8 list \<Rightarrow> u16 \<Rightarrow> ('h, 'a) usbd \<Rightarrow> ('h, 'a) req_outcome" where
  "put_string s len dev =
     (let bLength = of_nat (length s * 2 + 2) :: u8;
          len = min len (ucast bLength);
          chars = take (unat len div 2 - 1) s
      in bindR (write_ctrl 0 ([bLength, 3] @ concat (map (\<lambda>c. le16 (ucast c)) chars)) dev) (\<lambda>dev.
           Inr (USBD_REQ_HANDLED, CtrlPtr 0, len, dev)))"

definition usb_standard_get_descriptor :: "u8 list \<Rightarrow> u16 \<Rightarrow> ('h, 'a) usbd \<Rightarrow> ('h, 'a) req_outcome" where
  "usb_standard_get_descriptor req len dev =
     (let ty = usb_descriptor_type (wValue req); ix = unat (usb_descriptor_index (wValue req))
      in if ty = 1 then
           Inr (USBD_REQ_HANDLED, ConstPtr (u_desc dev), min len (ucast (u_desc dev ! 0)), dev)
         else if ty = 2 then
           bindR (build_config_descriptor ix len dev) (\<lambda>(n, dev). Inr (USBD_REQ_HANDLED, CtrlPtr 0, n, dev))
         else if ty = 3 then
           if ix = 0 then
             bindR (write_ctrl 0 ([4, 3] @ le16 0x409) dev) (\<lambda>dev. Inr (USBD_REQ_HANDLED, CtrlPtr 0, min len 4, dev))
           else if ix = extra_string_idx dev then put_string (extra_string dev) len dev
           else
             (case u_strings dev of
                None \<Rightarrow> Inr (USBD_REQ_NOTSUPP, CtrlPtr 0, len, dev)
              | Some ss \<Rightarrow>
                  if \<not> ix - 1 < length ss \<or> wIndex req \<noteq> 0x409 then Inr (USBD_REQ_NOTSUPP, CtrlPtr 0, len, dev)
                  else put_string (ss ! (ix - 1)) len dev)
         else Inr (USBD_REQ_NOTSUPP, CtrlPtr 0, len, dev))"

definition usb_standard_set_address :: "u8 list \<Rightarrow> u16 \<Rightarrow> ('h, 'a) usbd \<Rightarrow> ('h, 'a) req_outcome" where
  "usb_standard_set_address req len dev =
     (if bmRequestType req \<noteq> 0 \<or> wValue req \<ge> 128 then Inr (USBD_REQ_NOTSUPP, CtrlPtr 0, len, dev)
      else Inr (USBD_REQ_HANDLED, CtrlPtr 0, len, dev\<lparr>current_address := ucast (wValue req)\<rparr>))"

text \<open>The configuration with the value asked for; 0 stands for none.\<close>

definition find_config :: "u16 \<Rightarrow> ('h, 'a) usbd \<Rightarrow> nat option" where
  "find_config v dev =
     find (\<lambda>i. v = ucast (bConfigurationValue (u_config dev ! i))) [0..<unat (bNumConfigurations dev)]"

fun call_set_config :: "'h bus \<Rightarrow> u16 \<Rightarrow> usb_fn option list \<Rightarrow> ('h, 'a) usbd \<Rightarrow> ('h, 'a) usbd" where
  "call_set_config b v [] dev = dev"
| "call_set_config b v (f # fs) dev =
     call_set_config b v fs (if f = Some F_usbSetConfigCallback then usbSetConfigCallback b v dev else dev)"

definition usb_standard_set_configuration ::
    "'h bus \<Rightarrow> u8 list \<Rightarrow> u16 \<Rightarrow> ('h, 'a) usbd \<Rightarrow> ('h, 'a) req_outcome" where
  "usb_standard_set_configuration b req len dev =
     (let v = wValue req; found = (if v > 0 then find_config v dev else None)
      in if v > 0 \<and> found = None then Inr (USBD_REQ_NOTSUPP, CtrlPtr 0, len, dev)
         else
           let dev = dev\<lparr>current_config := (case found of None \<Rightarrow> 0 | Some i \<Rightarrow> of_nat i + 1)\<rparr>;
               curs = (case found of None \<Rightarrow> []
                       | Some i \<Rightarrow> map ui_cur (cf_interface (u_config dev ! i)));
               dev = dev\<lparr>alt_vars := fold (\<lambda>c vs. case c of None \<Rightarrow> vs | Some x \<Rightarrow> vs(x := 0)) curs (alt_vars dev)\<rparr>;
               dev = st_usbfs_endpoints_reset b dev;
               dev = (if user_callback_set_config dev ! 0 \<noteq> None then
                        call_set_config b v (user_callback_set_config dev)
                          (dev\<lparr>user_control_callback := replicate 4 None\<rparr>)
                      else dev)
           in Inr (USBD_REQ_HANDLED, CtrlPtr 0, len, dev))"

definition usb_standard_get_configuration :: "u8 list \<Rightarrow> u16 \<Rightarrow> ('h, 'a) usbd \<Rightarrow> ('h, 'a) req_outcome" where
  "usb_standard_get_configuration req len dev =
     bindR (write_ctrl 0 [if current_config dev > 0
                          then bConfigurationValue (u_config dev ! unat (current_config dev - 1)) else 0] dev)
       (\<lambda>dev. Inr (USBD_REQ_HANDLED, CtrlPtr 0, min len 1, dev))"

text \<open>\<open>config[current_config - 1]\<close>: without a configuration, what is in front of the array.\<close>

definition current_cfg :: "('h, 'a) usbd \<Rightarrow> usb_config result" where
  "current_cfg dev =
     (if 0 < current_config dev \<and> unat (current_config dev) \<le> length (u_config dev)
      then Inr (u_config dev ! unat (current_config dev - 1)) else Inl Crash)"

definition usb_standard_set_interface :: "u8 list \<Rightarrow> u16 \<Rightarrow> ('h, 'a) usbd \<Rightarrow> ('h, 'a) req_outcome" where
  "usb_standard_set_interface req len dev =
     bindR (current_cfg dev) (\<lambda>cfx.
       let no = Inr (USBD_REQ_NOTSUPP, CtrlPtr 0, len, dev)
       in if unat (wIndex req) \<ge> length (cf_interface cfx) then no
          else
            let iface = cf_interface cfx ! unat (wIndex req)
            in if unat (wValue req) \<ge> length (ui_altsetting iface) then no
               else
                 (case ui_cur iface of
                    Some x \<Rightarrow> Inr (USBD_REQ_HANDLED, CtrlPtr 0, 0, dev\<lparr>alt_vars := (alt_vars dev)(x := ucast (wValue req))\<rparr>)
                  | None \<Rightarrow> if wValue req > 0 then no else Inr (USBD_REQ_HANDLED, CtrlPtr 0, 0, dev)))"

definition usb_standard_get_interface :: "u8 list \<Rightarrow> u16 \<Rightarrow> ('h, 'a) usbd \<Rightarrow> ('h, 'a) req_outcome" where
  "usb_standard_get_interface req len dev =
     bindR (current_cfg dev) (\<lambda>cfx.
       if unat (wIndex req) \<ge> length (cf_interface cfx) then Inr (USBD_REQ_NOTSUPP, CtrlPtr 0, len, dev)
       else bindR (write_ctrl 0 [case ui_cur (cf_interface cfx ! unat (wIndex req)) of
                                   Some x \<Rightarrow> alt_vars dev x | None \<Rightarrow> 0] dev)
              (\<lambda>dev. Inr (USBD_REQ_HANDLED, CtrlPtr 0, 1, dev)))"

definition get_status :: "u8 \<Rightarrow> u16 \<Rightarrow> ('h, 'a) usbd \<Rightarrow> ('h, 'a) req_outcome" where
  "get_status st len dev =
     bindR (write_ctrl 0 [st, 0] dev) (\<lambda>dev. Inr (USBD_REQ_HANDLED, CtrlPtr 0, min len 2, dev))"

definition usb_standard_endpoint_get_status ::
    "'h bus \<Rightarrow> u8 list \<Rightarrow> u16 \<Rightarrow> ('h, 'a) usbd \<Rightarrow> ('h, 'a) req_outcome" where
  "usb_standard_endpoint_get_status b req len dev =
     (case st_usbfs_ep_stall_get b (ucast (wIndex req)) dev of (st, dev) \<Rightarrow> get_status (if st then 1 else 0) len dev)"

definition usb_standard_endpoint_stall ::
    "'h bus \<Rightarrow> bool \<Rightarrow> u8 list \<Rightarrow> u16 \<Rightarrow> ('h, 'a) usbd \<Rightarrow> ('h, 'a) req_outcome" where
  "usb_standard_endpoint_stall b stall req len dev =
     Inr (USBD_REQ_HANDLED, CtrlPtr 0, len, st_usbfs_ep_stall_set b (ucast (wIndex req)) stall dev)"

definition usbd_standard_request_device ::
    "'h bus \<Rightarrow> u8 list \<Rightarrow> u16 \<Rightarrow> ('h, 'a) usbd \<Rightarrow> ('h, 'a) req_outcome" where
  "usbd_standard_request_device b req len dev =
     (let r = bRequest req
      in if r = 5 then usb_standard_set_address req len dev
         else if r = 9 then usb_standard_set_configuration b req len dev
         else if r = 8 then usb_standard_get_configuration req len dev
         else if r = 6 then usb_standard_get_descriptor req len dev
         else if r = 0 then get_status 0 len dev
         else Inr (USBD_REQ_NOTSUPP, CtrlPtr 0, len, dev))"

definition usbd_standard_request_interface ::
    "u8 list \<Rightarrow> u16 \<Rightarrow> ('h, 'a) usbd \<Rightarrow> ('h, 'a) req_outcome" where
  "usbd_standard_request_interface req len dev =
     (let r = bRequest req
      in if r = 10 then usb_standard_get_interface req len dev
         else if r = 11 then usb_standard_set_interface req len dev
         else if r = 0 then get_status 0 len dev
         else Inr (USBD_REQ_NOTSUPP, CtrlPtr 0, len, dev))"

definition usbd_standard_request_endpoint ::
    "'h bus \<Rightarrow> u8 list \<Rightarrow> u16 \<Rightarrow> ('h, 'a) usbd \<Rightarrow> ('h, 'a) req_outcome" where
  "usbd_standard_request_endpoint b req len dev =
     (let r = bRequest req
      in if r = 1 \<and> wValue req = 0 then usb_standard_endpoint_stall b False req len dev
         else if r = 3 \<and> wValue req = 0 then usb_standard_endpoint_stall b True req len dev
         else if r = 0 then usb_standard_endpoint_get_status b req len dev
         else Inr (USBD_REQ_NOTSUPP, CtrlPtr 0, len, dev))"

definition usbd_standard_request :: "'h bus \<Rightarrow> u8 list \<Rightarrow> u16 \<Rightarrow> ('h, 'a) usbd \<Rightarrow> ('h, 'a) req_outcome" where
  "usbd_standard_request b req len dev =
     (let recipient = bmRequestType req AND 0x1F
      in if bmRequestType req AND 0x60 \<noteq> 0 then Inr (USBD_REQ_NOTSUPP, CtrlPtr 0, len, dev)
         else if recipient = 0 then usbd_standard_request_device b req len dev
         else if recipient = 1 then usbd_standard_request_interface req len dev
         else if recipient = 2 then usbd_standard_request_endpoint b req len dev
         else Inr (USBD_REQ_NOTSUPP, CtrlPtr 0, len, dev))"

section \<open>The state machine of endpoint 0\<close>

definition stall_transaction :: "'h bus \<Rightarrow> ('h, 'a) usbd \<Rightarrow> ('h, 'a) usbd" where
  "stall_transaction b dev = (st_usbfs_ep_stall_set b 0 True dev)\<lparr>cs_state := IDLE\<rparr>"

definition needs_zlp :: "u16 \<Rightarrow> u16 \<Rightarrow> u8 \<Rightarrow> bool" where
  "needs_zlp len wLen ep_size \<longleftrightarrow> len < wLen \<and> len \<noteq> 0 \<and> unat len mod unat ep_size = 0"

text \<open>What \<open>usbd_ep_write_packet\<close> accepted is not looked at.\<close>

definition send_ep0 :: "'h bus \<Rightarrow> u8 list \<Rightarrow> ('h, 'a) usbd \<Rightarrow> ('h, 'a) usbd" where
  "send_ep0 b bs dev = snd (st_usbfs_ep_write_packet b 0 bs dev)"

definition usb_control_send_chunk :: "'h bus \<Rightarrow> ('h, 'a) usbd \<Rightarrow> ('h, 'a) usbd result" where
  "usb_control_send_chunk b dev =
     (let sz = ucast (bMaxPacketSize0 dev)
      in if sz < cs_len dev then
           bindR (read_ptr (cs_buf dev) (unat sz) dev) (\<lambda>bs.
             let dev = send_ep0 b bs dev
             in Inr (dev\<lparr>cs_state := DATA_IN, cs_buf := move_ptr (unat sz) (cs_buf dev), cs_len := cs_len dev - sz\<rparr>))
         else
           bindR (read_ptr (cs_buf dev) (unat (cs_len dev)) dev) (\<lambda>bs.
             let dev = send_ep0 b bs dev
             in Inr (dev\<lparr>cs_state := (if cs_needs_zlp dev then DATA_IN else LAST_DATA_IN),
                  cs_needs_zlp := False, cs_len := 0, cs_buf := NullPtr\<rparr>)))"

text \<open>True when the chunk had the expected size; otherwise the transfer is stalled.\<close>

definition usb_control_recv_chunk :: "'h bus \<Rightarrow> ('h, 'a) usbd \<Rightarrow> (bool \<times> ('h, 'a) usbd) result" where
  "usb_control_recv_chunk b dev =
     (let rest = wLength (cs_req dev) - cs_len dev;
          packetsize = min (ucast (bMaxPacketSize0 dev)) rest
      in case st_usbfs_ep_read_packet b 0 packetsize dev of (bs, dev) \<Rightarrow>
           bindR (case cs_buf dev of CtrlPtr k \<Rightarrow> write_ctrl (k + unat (cs_len dev)) bs dev | _ \<Rightarrow> Inl Crash) (\<lambda>dev.
             if of_nat (length bs) \<noteq> packetsize then Inr (False, stall_transaction b dev)
             else Inr (True, dev\<lparr>cs_len := cs_len dev + packetsize\<rparr>)))"

fun call_control_callbacks :: "u8 list \<Rightarrow> (usb_fn \<times> u8 \<times> u8) option list \<Rightarrow> (data_ptr \<times> u16) option" where
  "call_control_callbacks req [] = None"
| "call_control_callbacks req (None # cbs) = None"
| "call_control_callbacks req (Some (f, ty, type_mask) # cbs) =
     (if bmRequestType req AND type_mask = ty \<and> f = F_usbControlCallback then
        (case usbControlCallback req of
           Some r \<Rightarrow> Some r
         | None \<Rightarrow> call_control_callbacks req cbs)
      else call_control_callbacks req cbs)"

definition usb_control_request_dispatch :: "'h bus \<Rightarrow> ('h, 'a) usbd \<Rightarrow> (bool \<times> ('h, 'a) usbd) result" where
  "usb_control_request_dispatch b dev =
     (case call_control_callbacks (cs_req dev) (user_control_callback dev) of
        Some (p, n) \<Rightarrow> Inr (True, dev\<lparr>cs_buf := p, cs_len := n\<rparr>)
      | None \<Rightarrow>
          bindR (usbd_standard_request b (cs_req dev) (cs_len dev) dev) (\<lambda>(r, p, n, dev).
            Inr (r \<noteq> USBD_REQ_NOTSUPP,
                 if r = USBD_REQ_NOTSUPP then dev else dev\<lparr>cs_buf := p, cs_len := n\<rparr>)))"

definition usb_control_setup_read :: "'h bus \<Rightarrow> ('h, 'a) usbd \<Rightarrow> ('h, 'a) usbd result" where
  "usb_control_setup_read b dev =
     (let wlen = wLength (cs_req dev)
      in bindR (usb_control_request_dispatch b (dev\<lparr>cs_buf := CtrlPtr 0, cs_len := wlen\<rparr>)) (\<lambda>(handled, dev).
           if handled then
             if wlen \<noteq> 0 then
               usb_control_send_chunk b
                 (dev\<lparr>cs_needs_zlp := needs_zlp (cs_len dev) wlen (bMaxPacketSize0 dev)\<rparr>)
             else Inr ((send_ep0 b [] dev)\<lparr>cs_state := STATUS_IN\<rparr>)
           else Inr (stall_transaction b dev)))"

definition usb_control_setup_write :: "'h bus \<Rightarrow> ('h, 'a) usbd \<Rightarrow> ('h, 'a) usbd" where
  "usb_control_setup_write b dev =
     (let wlen = wLength (cs_req dev)
      in if unat wlen > length (u_ctrl_buf dev) then stall_transaction b dev
         else st_usbfs_ep_nak_set b 0 False
           (dev\<lparr>cs_buf := CtrlPtr 0, cs_len := 0,
              cs_state := (if wlen > ucast (bMaxPacketSize0 dev) then DATA_OUT else LAST_DATA_OUT)\<rparr>))"

definition usbd_control_setup :: "'h bus \<Rightarrow> ('h, 'a) usbd \<Rightarrow> ('h, 'a) usbd result" where
  "usbd_control_setup b dev =
     (let req = cs_req dev; dev = st_usbfs_ep_nak_set b 0 True dev
      in if wLength req = 0 \<or> bmRequestType req AND 0x80 \<noteq> 0 then usb_control_setup_read b dev
         else Inr (usb_control_setup_write b dev))"

definition usbd_control_out :: "'h bus \<Rightarrow> ('h, 'a) usbd \<Rightarrow> ('h, 'a) usbd result" where
  "usbd_control_out b dev =
     (case cs_state dev of
        DATA_OUT \<Rightarrow>
          bindR (usb_control_recv_chunk b dev) (\<lambda>(good, dev).
            Inr (if good \<and> wLength (cs_req dev) - cs_len dev \<le> ucast (bMaxPacketSize0 dev)
                 then dev\<lparr>cs_state := LAST_DATA_OUT\<rparr> else dev))
      | LAST_DATA_OUT \<Rightarrow>
          bindR (usb_control_recv_chunk b dev) (\<lambda>(good, dev).
            if \<not> good then Inr dev
            else bindR (usb_control_request_dispatch b dev) (\<lambda>(handled, dev).
                   if handled then Inr ((send_ep0 b [] dev)\<lparr>cs_state := STATUS_IN\<rparr>)
                   else Inr (stall_transaction b dev)))
      | STATUS_OUT \<Rightarrow> Inr ((snd (st_usbfs_ep_read_packet b 0 0 dev))\<lparr>cs_state := IDLE\<rparr>)
      | _ \<Rightarrow> Inr (stall_transaction b dev))"

text \<open>The address is set when the status stage of the request is over.\<close>

definition usbd_control_in :: "'h bus \<Rightarrow> ('h, 'a) usbd \<Rightarrow> ('h, 'a) usbd result" where
  "usbd_control_in b dev =
     (case cs_state dev of
        DATA_IN \<Rightarrow> usb_control_send_chunk b dev
      | LAST_DATA_IN \<Rightarrow> Inr (st_usbfs_ep_nak_set b 0 False (dev\<lparr>cs_state := STATUS_OUT\<rparr>))
      | STATUS_IN \<Rightarrow>
          Inr ((if bmRequestType (cs_req dev) = 0 \<and> bRequest (cs_req dev) = 5
                then st_usbfs_set_address b (ucast (wValue (cs_req dev))) dev else dev)\<lparr>cs_state := IDLE\<rparr>)
      | _ \<Rightarrow> Inr (stall_transaction b dev))"

end
