(* ===== verification/Clock.thy ===== *)
theory Clock
  imports Peripherals Flash_Ctl
begin

text \<open>
  The clock driver of the probe (\<^verbatim>\<open>libopencm3/lib/stm32/f1/rcc.c\<close>): the
  oscillators, the fields of the configuration registers, interrupts, the real-time clock and
  the complete set-ups, of which the firmware uses \<open>rcc_clock_setup_in_hse_8mhz_out_72mhz\<close>.
  Waiting for an oscillator that never gets ready is \<open>None\<close>.
\<close>

section \<open>Oscillators\<close>

definition RCC_CSR :: u32 where "RCC_CSR = 0x40021024"

text \<open>The register of an oscillator, its enable bit and its ready bit.\<close>

fun osc_bits :: "rcc_osc \<Rightarrow> u32 \<times> nat \<times> nat" where
  "osc_bits RCC_PLL = (RCC_CR, 24, 25)"
| "osc_bits RCC_PLL2 = (RCC_CR, 26, 27)"
| "osc_bits RCC_PLL3 = (RCC_CR, 28, 29)"
| "osc_bits RCC_HSE = (RCC_CR, 16, 17)"
| "osc_bits RCC_HSI = (RCC_CR, 0, 1)"
| "osc_bits RCC_LSE = (RCC_BDCR, 0, 1)"
| "osc_bits RCC_LSI = (RCC_CSR, 0, 1)"

definition rcc_osc_on :: "'h bus \<Rightarrow> rcc_osc \<Rightarrow> 'h \<Rightarrow> 'h" where
  "rcc_osc_on b osc = (case osc_bits osc of (reg, on, rdy) \<Rightarrow> mmio_set b reg (push_bit on 1))"

definition rcc_osc_off :: "'h bus \<Rightarrow> rcc_osc \<Rightarrow> 'h \<Rightarrow> 'h" where
  "rcc_osc_off b osc = (case osc_bits osc of (reg, on, rdy) \<Rightarrow> mmio_clear b reg (push_bit on 1))"

definition rcc_is_osc_ready :: "'h bus \<Rightarrow> rcc_osc \<Rightarrow> 'h \<Rightarrow> bool \<times> 'h" where
  "rcc_is_osc_ready b osc h =
     (case osc_bits osc of (reg, on, rdy) \<Rightarrow> case mmio_read b reg h of (x, h) \<Rightarrow> (x AND push_bit rdy 1 \<noteq> 0, h))"

partial_function (option) rcc_wait_for_osc_ready :: "'h bus \<Rightarrow> rcc_osc \<Rightarrow> 'h \<Rightarrow> 'h option" where
  "rcc_wait_for_osc_ready b osc h =
     (case rcc_is_osc_ready b osc h of (ready, h) \<Rightarrow> if ready then Some h else rcc_wait_for_osc_ready b osc h)"

section \<open>The configuration register\<close>

definition cfgr_field :: "'h bus \<Rightarrow> u32 \<Rightarrow> nat \<Rightarrow> u32 \<Rightarrow> 'h \<Rightarrow> 'h" where
  "cfgr_field b msk shift v = mmio_modify b RCC_CFGR (\<lambda>x. (x AND NOT (push_bit shift msk)) OR push_bit shift v)"

definition rcc_set_sysclk_source :: "'h bus \<Rightarrow> u32 \<Rightarrow> 'h \<Rightarrow> 'h" where
  "rcc_set_sysclk_source b = cfgr_field b 3 0"

definition rcc_set_pll_multiplication_factor :: "'h bus \<Rightarrow> u32 \<Rightarrow> 'h \<Rightarrow> 'h" where
  "rcc_set_pll_multiplication_factor b = cfgr_field b 0xF 18"

definition rcc_set_pll_source :: "'h bus \<Rightarrow> u32 \<Rightarrow> 'h \<Rightarrow> 'h" where
  "rcc_set_pll_source b = cfgr_field b 1 16"

definition rcc_set_pllxtpre :: "'h bus \<Rightarrow> u32 \<Rightarrow> 'h \<Rightarrow> 'h" where
  "rcc_set_pllxtpre b = cfgr_field b 1 17"

definition rcc_set_adcpre :: "'h bus \<Rightarrow> u32 \<Rightarrow> 'h \<Rightarrow> 'h" where
  "rcc_set_adcpre b = cfgr_field b 3 14"

definition rcc_set_ppre2 :: "'h bus \<Rightarrow> u32 \<Rightarrow> 'h \<Rightarrow> 'h" where
  "rcc_set_ppre2 b = cfgr_field b 7 11"

definition rcc_set_ppre1 :: "'h bus \<Rightarrow> u32 \<Rightarrow> 'h \<Rightarrow> 'h" where
  "rcc_set_ppre1 b = cfgr_field b 7 8"

definition rcc_set_hpre :: "'h bus \<Rightarrow> u32 \<Rightarrow> 'h \<Rightarrow> 'h" where
  "rcc_set_hpre b = cfgr_field b 0xF 4"

definition rcc_system_clock_source :: "'h bus \<Rightarrow> 'h \<Rightarrow> u32 \<times> 'h" where
  "rcc_system_clock_source b h = (case mmio_read b RCC_CFGR h of (x, h) \<Rightarrow> (drop_bit 2 (x AND 0xC), h))"

definition start_osc :: "'h bus \<Rightarrow> rcc_osc \<Rightarrow> 'h \<Rightarrow> 'h option" where
  "start_osc b osc h = rcc_wait_for_osc_ready b osc (rcc_osc_on b osc h)"

text \<open>The fields of \<open>RCC_CFGR2\<close>, a register of other chips of the family.\<close>

definition RCC_CFGR2 :: u32 where "RCC_CFGR2 = 0x4002102C"

definition cfgr2_field :: "'h bus \<Rightarrow> u32 \<Rightarrow> nat \<Rightarrow> u32 \<Rightarrow> 'h \<Rightarrow> 'h" where
  "cfgr2_field b msk shift v = mmio_modify b RCC_CFGR2 (\<lambda>x. (x AND NOT (push_bit shift msk)) OR push_bit shift v)"

definition rcc_set_pll2_multiplication_factor :: "'h bus \<Rightarrow> u32 \<Rightarrow> 'h \<Rightarrow> 'h" where
  "rcc_set_pll2_multiplication_factor b = cfgr2_field b 0xF 8"

definition rcc_set_pll3_multiplication_factor :: "'h bus \<Rightarrow> u32 \<Rightarrow> 'h \<Rightarrow> 'h" where
  "rcc_set_pll3_multiplication_factor b = cfgr2_field b 0xF 12"

definition rcc_set_prediv1 :: "'h bus \<Rightarrow> u32 \<Rightarrow> 'h \<Rightarrow> 'h" where
  "rcc_set_prediv1 b = cfgr2_field b 0xF 0"

definition rcc_set_prediv2 :: "'h bus \<Rightarrow> u32 \<Rightarrow> 'h \<Rightarrow> 'h" where
  "rcc_set_prediv2 b = cfgr2_field b 0xF 4"

definition rcc_set_prediv1_source :: "'h bus \<Rightarrow> u32 \<Rightarrow> 'h \<Rightarrow> 'h" where
  "rcc_set_prediv1_source b rccsrc =
     (if rccsrc \<noteq> 0 then mmio_set b RCC_CFGR2 0x10000 else mmio_clear b RCC_CFGR2 0x10000)"

definition rcc_set_usbpre :: "'h bus \<Rightarrow> u32 \<Rightarrow> 'h \<Rightarrow> 'h" where
  "rcc_set_usbpre b usbpre =
     (if usbpre \<noteq> 0 then mmio_set b RCC_CFGR 0x400000 else mmio_clear b RCC_CFGR 0x400000)"

section \<open>Interrupts, security system, real-time clock, backup domain\<close>

definition RCC_CIR :: u32 where "RCC_CIR = 0x40021008"

text \<open>The position of an oscillator in each of the three groups of bits of \<open>RCC_CIR\<close>.\<close>

fun osc_int :: "rcc_osc \<Rightarrow> nat" where
  "osc_int RCC_PLL = 4"
| "osc_int RCC_PLL2 = 5"
| "osc_int RCC_PLL3 = 6"
| "osc_int RCC_HSE = 3"
| "osc_int RCC_HSI = 2"
| "osc_int RCC_LSE = 1"
| "osc_int RCC_LSI = 0"

definition rcc_osc_ready_int_clear :: "'h bus \<Rightarrow> rcc_osc \<Rightarrow> 'h \<Rightarrow> 'h" where
  "rcc_osc_ready_int_clear b osc = mmio_set b RCC_CIR (push_bit (16 + osc_int osc) 1)"

definition rcc_osc_ready_int_enable :: "'h bus \<Rightarrow> rcc_osc \<Rightarrow> 'h \<Rightarrow> 'h" where
  "rcc_osc_ready_int_enable b osc = mmio_set b RCC_CIR (push_bit (8 + osc_int osc) 1)"

definition rcc_osc_ready_int_disable :: "'h bus \<Rightarrow> rcc_osc \<Rightarrow> 'h \<Rightarrow> 'h" where
  "rcc_osc_ready_int_disable b osc = mmio_clear b RCC_CIR (push_bit (8 + osc_int osc) 1)"

definition rcc_osc_ready_int_flag :: "'h bus \<Rightarrow> rcc_osc \<Rightarrow> 'h \<Rightarrow> bool \<times> 'h" where
  "rcc_osc_ready_int_flag b osc h =
     (case mmio_read b RCC_CIR h of (x, h) \<Rightarrow> (x AND push_bit (osc_int osc) 1 \<noteq> 0, h))"

definition rcc_css_int_clear :: "'h bus \<Rightarrow> 'h \<Rightarrow> 'h" where
  "rcc_css_int_clear b = mmio_set b RCC_CIR (push_bit 23 1)"

definition rcc_css_int_flag :: "'h bus \<Rightarrow> 'h \<Rightarrow> bool \<times> 'h" where
  "rcc_css_int_flag b h = (case mmio_read b RCC_CIR h of (x, h) \<Rightarrow> (x AND 0x80 \<noteq> 0, h))"

definition rcc_css_enable :: "'h bus \<Rightarrow> 'h \<Rightarrow> 'h" where
  "rcc_css_enable b = mmio_set b RCC_CR (push_bit 19 1)"

definition rcc_css_disable :: "'h bus \<Rightarrow> 'h \<Rightarrow> 'h" where
  "rcc_css_disable b = mmio_clear b RCC_CR (push_bit 19 1)"

definition rcc_rtc_clock_enabled_flag :: "'h bus \<Rightarrow> 'h \<Rightarrow> u32 \<times> 'h" where
  "rcc_rtc_clock_enabled_flag b h = (case mmio_read b RCC_BDCR h of (x, h) \<Rightarrow> (x AND 0x8000, h))"

definition rcc_enable_rtc_clock :: "'h bus \<Rightarrow> 'h \<Rightarrow> 'h" where
  "rcc_enable_rtc_clock b = mmio_set b RCC_BDCR 0x8000"

text \<open>The oscillator is started and waited for; one that cannot be used turns the clock off.\<close>

definition rcc_set_rtc_clock_source :: "'h bus \<Rightarrow> rcc_osc \<Rightarrow> 'h \<Rightarrow> 'h option" where
  "rcc_set_rtc_clock_source b clock_source h =
     (let off = mmio_clear b RCC_BDCR 0x300;
          use = (\<lambda>v. Option.bind (start_osc b clock_source h) (\<lambda>h. Some (mmio_set b RCC_BDCR v (off h))))
      in if clock_source = RCC_LSE then use 0x100
         else if clock_source = RCC_LSI then use 0x200
         else if clock_source = RCC_HSE then use 0x300
         else Some (off h))"

definition rcc_backupdomain_reset :: "'h bus \<Rightarrow> 'h \<Rightarrow> 'h" where
  "rcc_backupdomain_reset b h = mmio_clear b RCC_BDCR 0x10000 (mmio_set b RCC_BDCR 0x10000 h)"

section \<open>Complete set-ups\<close>

text \<open>
  Each returns the three frequencies that it stores in the variables of the library (of the
  AHB, APB1 and APB2 buses). The steps that the functions share: an oscillator as the system
  clock, the prescalers, and starting the PLL and switching to it.
\<close>

type_synonym frequencies = "u32 \<times> u32 \<times> u32"

definition rcc_default_frequencies :: frequencies where
  "rcc_default_frequencies = (8000000, 8000000, 8000000)"

definition run_from :: "'h bus \<Rightarrow> rcc_osc \<Rightarrow> u32 \<Rightarrow> 'h \<Rightarrow> 'h option" where
  "run_from b osc sw h = map_option (rcc_set_sysclk_source b sw) (start_osc b osc h)"

definition set_prescalers :: "'h bus \<Rightarrow> u32 \<Rightarrow> u32 \<Rightarrow> u32 \<Rightarrow> u32 \<Rightarrow> 'h \<Rightarrow> 'h" where
  "set_prescalers b hpre adcpre ppre1 ppre2 h =
     rcc_set_ppre2 b ppre2 (rcc_set_ppre1 b ppre1 (rcc_set_adcpre b adcpre (rcc_set_hpre b hpre h)))"

definition finish_setup :: "'h bus \<Rightarrow> frequencies \<Rightarrow> 'h \<Rightarrow> (frequencies \<times> 'h) option" where
  "finish_setup b fs h = map_option (\<lambda>h. (fs, h)) (run_from b RCC_PLL 2 h)"

definition rcc_clock_setup_in_hsi_out_64mhz :: "'h bus \<Rightarrow> 'h \<Rightarrow> (frequencies \<times> 'h) option" where
  "rcc_clock_setup_in_hsi_out_64mhz b h =
     Option.bind (run_from b RCC_HSI 0 h) (\<lambda>h.
       let h = flash_set_ws b 2 (set_prescalers b 0 3 4 0 h);
           h = rcc_set_pll_source b 0 (rcc_set_pll_multiplication_factor b 0xE h)
       in finish_setup b (64000000, 32000000, 64000000) h)"

definition rcc_clock_setup_in_hsi_out_48mhz :: "'h bus \<Rightarrow> 'h \<Rightarrow> (frequencies \<times> 'h) option" where
  "rcc_clock_setup_in_hsi_out_48mhz b h =
     Option.bind (run_from b RCC_HSI 0 h) (\<lambda>h.
       let h = flash_set_ws b 1 (rcc_set_usbpre b 1 (set_prescalers b 0 3 4 0 h));
           h = rcc_set_pll_source b 0 (rcc_set_pll_multiplication_factor b 0xA h)
       in finish_setup b (48000000, 24000000, 48000000) h)"

definition rcc_clock_setup_in_hsi_out_24mhz :: "'h bus \<Rightarrow> 'h \<Rightarrow> (frequencies \<times> 'h) option" where
  "rcc_clock_setup_in_hsi_out_24mhz b h =
     Option.bind (run_from b RCC_HSI 0 h) (\<lambda>h.
       let h = flash_set_ws b 0 (set_prescalers b 0 0 0 0 h);
           h = rcc_set_pll_source b 0 (rcc_set_pll_multiplication_factor b 4 h)
       in finish_setup b (24000000, 24000000, 24000000) h)"

definition rcc_clock_setup_in_hse_8mhz_out_24mhz :: "'h bus \<Rightarrow> 'h \<Rightarrow> (frequencies \<times> 'h) option" where
  "rcc_clock_setup_in_hse_8mhz_out_24mhz b h =
     Option.bind (run_from b RCC_HSI 0 h) (\<lambda>h.
     Option.bind (run_from b RCC_HSE 1 h) (\<lambda>h.
       let h = flash_set_ws b 0 (set_prescalers b 0 0 0 0 h);
           h = rcc_set_pllxtpre b 0 (rcc_set_pll_source b 1 (rcc_set_pll_multiplication_factor b 1 h))
       in finish_setup b (24000000, 24000000, 24000000) h))"

text \<open>The one that the firmware uses: 72 MHz from a crystal of 8 MHz.\<close>

definition rcc_clock_setup_in_hse_8mhz_out_72mhz :: "'h bus \<Rightarrow> 'h \<Rightarrow> (frequencies \<times> 'h) option" where
  "rcc_clock_setup_in_hse_8mhz_out_72mhz b h =
     Option.bind (run_from b RCC_HSI 0 h) (\<lambda>h.
     Option.bind (run_from b RCC_HSE 1 h) (\<lambda>h.
       let h = flash_set_ws b 2 (set_prescalers b 0 3 4 0 h);
           h = rcc_set_pllxtpre b 0 (rcc_set_pll_source b 1 (rcc_set_pll_multiplication_factor b 7 h))
       in finish_setup b (72000000, 36000000, 72000000) h))"

definition rcc_clock_setup_in_hse_12mhz_out_72mhz :: "'h bus \<Rightarrow> 'h \<Rightarrow> (frequencies \<times> 'h) option" where
  "rcc_clock_setup_in_hse_12mhz_out_72mhz b h =
     Option.bind (run_from b RCC_HSI 0 h) (\<lambda>h.
     Option.bind (run_from b RCC_HSE 1 h) (\<lambda>h.
       let h = flash_set_ws b 2 (set_prescalers b 0 2 4 0 h);
           h = rcc_set_pllxtpre b 0 (rcc_set_pll_source b 1 (rcc_set_pll_multiplication_factor b 4 h))
       in finish_setup b (72000000, 36000000, 72000000) h))"

definition rcc_clock_setup_in_hse_16mhz_out_72mhz :: "'h bus \<Rightarrow> 'h \<Rightarrow> (frequencies \<times> 'h) option" where
  "rcc_clock_setup_in_hse_16mhz_out_72mhz b h =
     Option.bind (run_from b RCC_HSI 0 h) (\<lambda>h.
     Option.bind (run_from b RCC_HSE 1 h) (\<lambda>h.
       let h = flash_set_ws b 2 (set_prescalers b 0 2 4 0 h);
           h = rcc_set_pllxtpre b 1 (rcc_set_pll_source b 1 (rcc_set_pll_multiplication_factor b 7 h))
       in finish_setup b (72000000, 36000000, 72000000) h))"

definition rcc_clock_setup_in_hse_25mhz_out_72mhz :: "'h bus \<Rightarrow> 'h \<Rightarrow> (frequencies \<times> 'h) option" where
  "rcc_clock_setup_in_hse_25mhz_out_72mhz b h =
     Option.bind (run_from b RCC_HSE 1 h) (\<lambda>h.
       let h = set_prescalers b 0 2 4 0 (flash_set_ws b 2 h);
           h = rcc_set_pll2_multiplication_factor b 6 (rcc_set_prediv2 b 4 h)
       in Option.bind (start_osc b RCC_PLL2 h) (\<lambda>h.
            let h = rcc_set_prediv1 b 4 (rcc_set_prediv1_source b 1 (rcc_set_pllxtpre b 0 h));
                h = rcc_set_usbpre b 0 (rcc_set_pll_source b 1 (rcc_set_pll_multiplication_factor b 7 h))
            in finish_setup b (72000000, 36000000, 72000000) h))"

subsection \<open>The set-up from a table\<close>

record rcc_clock_scale =
  cs_pll_mul :: u8
  cs_pll_source :: u8
  cs_hpre :: u8
  cs_ppre1 :: u8
  cs_ppre2 :: u8
  cs_adcpre :: u8
  cs_flash_waitstates :: u8
  cs_prediv1 :: u8
  cs_prediv1_source :: u8
  cs_prediv2 :: u8
  cs_pll2_mul :: u8
  cs_pll3_mul :: u8
  cs_usbpre :: u8
  cs_frequencies :: frequencies

text \<open>Fields that the initialisers of the tables leave out are 0.\<close>

definition clock_scale :: "u8 \<Rightarrow> u8 \<Rightarrow> u8 \<Rightarrow> u8 \<Rightarrow> u8 \<Rightarrow> u8 \<Rightarrow> frequencies \<Rightarrow> rcc_clock_scale" where
  "clock_scale mul src ppre1 adcpre ws prediv1 fs =
     \<lparr>cs_pll_mul = mul, cs_pll_source = src, cs_hpre = 0, cs_ppre1 = ppre1, cs_ppre2 = 0, cs_adcpre = adcpre,
      cs_flash_waitstates = ws, cs_prediv1 = prediv1, cs_prediv1_source = 0, cs_prediv2 = 0, cs_pll2_mul = 0,
      cs_pll3_mul = 0, cs_usbpre = 0, cs_frequencies = fs\<rparr>"

definition rcc_hse_configs :: "rcc_clock_scale list" where
  "rcc_hse_configs =
     [clock_scale 4 1 4 2 2 0 (72000000, 36000000, 72000000),
      clock_scale 7 1 4 2 2 1 (72000000, 36000000, 72000000),
      (clock_scale 7 1 4 2 2 4 (72000000, 36000000, 72000000))
        \<lparr>cs_prediv1_source := 1, cs_pll2_mul := 6, cs_prediv2 := 4, cs_usbpre := 0\<rparr>,
      clock_scale 1 1 0 0 0 0 (24000000, 24000000, 24000000),
      clock_scale 7 1 4 3 2 0 (72000000, 36000000, 72000000)]"

definition rcc_hsi_configs :: "rcc_clock_scale list" where
  "rcc_hsi_configs =
     [clock_scale 4 0 0 0 0 0 (24000000, 24000000, 24000000),
      (clock_scale 0xA 0 4 3 1 0 (48000000, 24000000, 48000000))\<lparr>cs_usbpre := 1\<rparr>,
      clock_scale 0xE 0 4 3 2 0 (64000000, 32000000, 64000000)]"

definition if_set :: "bool \<Rightarrow> ('h \<Rightarrow> 'h) \<Rightarrow> 'h \<Rightarrow> 'h" where
  "if_set c f h = (if c then f h else h)"

definition rcc_clock_setup_pll :: "'h bus \<Rightarrow> rcc_clock_scale \<Rightarrow> 'h \<Rightarrow> (frequencies \<times> 'h) option" where
  "rcc_clock_setup_pll b clock h =
     Option.bind (start_osc b (if cs_pll_source clock = 1 then RCC_HSE else RCC_HSI) h) (\<lambda>h.
       let h = rcc_set_ppre1 b (ucast (cs_ppre1 clock)) (rcc_set_hpre b (ucast (cs_hpre clock)) h);
           h = rcc_set_adcpre b (ucast (cs_adcpre clock)) (rcc_set_ppre2 b (ucast (cs_ppre2 clock)) h);
           h = flash_set_ws b (ucast (cs_flash_waitstates clock)) (rcc_set_usbpre b (ucast (cs_usbpre clock)) h);
           h = rcc_set_pll_multiplication_factor b (ucast (cs_pll_mul clock)) h;
           h = rcc_set_pll_source b (ucast (cs_pll_source clock)) h;
           h = (if cs_prediv1 clock > 1 then rcc_set_prediv1 b (ucast (cs_prediv1 clock)) h
                else rcc_set_pllxtpre b (ucast (cs_prediv1 clock)) h);
           h = if_set (cs_prediv1_source clock \<noteq> 0) (rcc_set_prediv1_source b (ucast (cs_prediv1_source clock))) h;
           h = if_set (cs_prediv2 clock \<noteq> 0) (rcc_set_prediv2 b (ucast (cs_prediv2 clock))) h
       in Option.bind (if cs_pll2_mul clock \<noteq> 0
                       then start_osc b RCC_PLL2 (rcc_set_pll2_multiplication_factor b (ucast (cs_pll2_mul clock)) h)
                       else Some h) (\<lambda>h.
          Option.bind (if cs_pll3_mul clock \<noteq> 0
                       then start_osc b RCC_PLL3 (rcc_set_pll3_multiplication_factor b (ucast (cs_pll3_mul clock)) h)
                       else Some h) (\<lambda>h.
            finish_setup b (cs_frequencies clock) h)))"

section \<open>Frequencies\<close>

definition USART1_BASE :: u32 where "USART1_BASE = 0x40013800"
definition TIM2_BASE :: u32 where "TIM2_BASE = 0x40000000"
definition TIM14_BASE :: u32 where "TIM14_BASE = 0x40002000"

definition rcc_get_usart_clk_freq :: "frequencies \<Rightarrow> u32 \<Rightarrow> u32" where
  "rcc_get_usart_clk_freq fs usart = (case fs of (ahb, apb1, apb2) \<Rightarrow> if usart = USART1_BASE then apb2 else apb1)"

definition rcc_get_timer_clk_freq :: "'h bus \<Rightarrow> frequencies \<Rightarrow> u32 \<Rightarrow> 'h \<Rightarrow> u32 \<times> 'h" where
  "rcc_get_timer_clk_freq b fs timer h =
     (case fs of (ahb, apb1, apb2) \<Rightarrow>
        case mmio_read b RCC_CFGR h of (x, h) \<Rightarrow>
          if timer \<ge> TIM2_BASE \<and> timer \<le> TIM14_BASE
          then (if drop_bit 8 x AND 7 = 0 then apb1 else 2 * apb1, h)
          else (if drop_bit 11 x AND 7 = 0 then apb2 else 2 * apb2, h))"

definition rcc_get_i2c_clk_freq :: "frequencies \<Rightarrow> u32 \<Rightarrow> u32" where
  "rcc_get_i2c_clk_freq fs i2c = fst (snd fs)"

end
