(* ===== verification/Clock_Tree.thy ===== *)
theory Clock_Tree
  imports Clock
begin

text \<open>
  The clock tree of the chips that \<open>Clock\<close> is written for, as their reference manual (RM0008,
  chapters 7 and 8) describes it: what the registers mean in Hz. With it, each set-up leads to
  the frequencies that it stores, within the limits of the chip.
\<close>

section \<open>Oscillators that get ready\<close>

text \<open>The ready bits of \<open>RCC_CR\<close> follow the enable bits in front of them and cannot be written.\<close>

definition with_ready :: "u32 \<Rightarrow> u32" where
  "with_ready x = x OR push_bit 1 (x AND 0x15010001)"

definition osc_bus :: "memory bus" where
  "osc_bus = \<lparr>bus_read = \<lambda>n a m. (if a = RCC_CR then with_ready (load_le n a m) else load_le n a m, m),
     bus_write = \<lambda>n a v m. store_le n a (if a = RCC_CR then v AND 0xD5FDFFFD else v) m\<rparr>"

definition reg :: "u32 \<Rightarrow> memory \<Rightarrow> u32" where
  "reg a m = load_le 4 a m"

lemma osc_modify:
  "mmio_modify osc_bus a f m = store_le 4 a (if a = RCC_CR then f (with_ready (reg a m)) AND 0xD5FDFFFD else f (reg a m)) m"
  by (simp add: mmio_modify_def mmio_read_def mmio_write_def osc_bus_def reg_def)

lemma reg_store: "reg a (store_le 4 a v m) = v"
  "4 \<le> unat (a - c) \<Longrightarrow> 4 \<le> unat (c - a) \<Longrightarrow> reg a (store_le 4 c v m) = reg a m"
  by (simp_all add: reg_def load_store_same load_store_other)

lemmas rcc_regs = RCC_CR_def RCC_CFGR_def RCC_CFGR2_def FLASH_ACR_def

text \<open>What an operation does to the registers that the frequencies depend on.\<close>

definition settings :: "memory \<Rightarrow> u32 \<times> u32 \<times> u32" where
  "settings m = (reg RCC_CFGR m, reg RCC_CFGR2 m, reg FLASH_ACR m)"

definition put :: "u32 \<Rightarrow> nat \<Rightarrow> u32 \<Rightarrow> u32 \<Rightarrow> u32" where
  "put msk sh v x = (x AND NOT (push_bit sh msk)) OR push_bit sh v"

lemma settings_ops:
  "settings (cfgr_field osc_bus msk sh v m) = apfst (put msk sh v) (settings m)"
  "settings (cfgr2_field osc_bus msk sh v m) = apsnd (apfst (put msk sh v)) (settings m)"
  "settings (flash_set_ws osc_bus v m) = apsnd (apsnd (put 7 0 v)) (settings m)"
  by (simp_all add: settings_def cfgr_field_def cfgr2_field_def flash_set_ws_def osc_modify rcc_regs reg_store put_def
      FLASH_ACR_LATENCY_SHIFT_def FLASH_ACR_LATENCY_MASK_def)

lemma put_bit: "mmio_set b a (push_bit n 1) = mmio_modify b a (put 1 n 1)" "mmio_clear b a (push_bit n 1) = mmio_modify b a (put 1 n 0)"
proof -
  have "(\<lambda>x. x OR push_bit n 1) = put 1 n (1 :: u32)"
    unfolding put_def by (rule ext, rule bit_word_eqI) (auto simp: bit_simps)
  then show "mmio_set b a (push_bit n 1) = mmio_modify b a (put 1 n 1)" by (simp add: mmio_set_def)
  show "mmio_clear b a (push_bit n 1) = mmio_modify b a (put 1 n 0)"
  proof -
    have "(\<lambda>x. x AND NOT (push_bit n 1)) = put 1 n 0"
      unfolding put_def by (rule ext) (simp only: push_bit_of_0 or.right_neutral)
    then show ?thesis by (simp only: mmio_clear_def)
  qed
qed

lemma settings_bits:
  "settings (rcc_set_usbpre osc_bus v m) = apfst (put 1 22 (if v \<noteq> 0 then 1 else 0)) (settings m)"
  "settings (rcc_set_prediv1_source osc_bus v m) = apsnd (apfst (put 1 16 (if v \<noteq> 0 then 1 else 0))) (settings m)"
proof -
  have n: "(0x400000 :: u32) = push_bit 22 1" "(0x10000 :: u32) = push_bit 16 1" by simp_all
  show "settings (rcc_set_usbpre osc_bus v m) = apfst (put 1 22 (if v \<noteq> 0 then 1 else 0)) (settings m)"
    "settings (rcc_set_prediv1_source osc_bus v m) = apsnd (apfst (put 1 16 (if v \<noteq> 0 then 1 else 0))) (settings m)"
    unfolding rcc_set_usbpre_def rcc_set_prediv1_source_def n put_bit
    by (simp_all add: settings_def osc_modify rcc_regs reg_store)
qed

definition main_osc :: "rcc_osc \<Rightarrow> bool" where
  "main_osc osc \<longleftrightarrow> osc \<noteq> RCC_LSE \<and> osc \<noteq> RCC_LSI"

lemma osc_started:
  assumes "main_osc osc"
  shows "start_osc osc_bus osc m = Some (rcc_osc_on osc_bus osc m)" "settings (rcc_osc_on osc_bus osc m) = settings m"
proof -
  obtain n where n: "osc_bits osc = (RCC_CR, n, n + 1)" "n \<in> {0, 16, 24, 26, 28}"
    using assms by (cases osc) (auto simp: main_osc_def)
  define x where "x = reg RCC_CR (rcc_osc_on osc_bus osc m)"
  have x: "x = (with_ready (reg RCC_CR m) OR push_bit n 1) AND 0xD5FDFFFD"
    by (simp add: x_def rcc_osc_on_def n mmio_set_def osc_modify reg_store)
  have "with_ready x AND push_bit (n + 1) 1 \<noteq> 0"
  proof -
    have b: "bit (0x15010001 :: u32) n" "bit (0xD5FDFFFD :: u32) n" "n + 1 < 32" using n(2) by auto
    have "bit x n" using b(2,3) by (simp add: x bit_simps del: bit_numeral_word_iff)
    moreover have "bit (x OR push_bit 1 (x AND c)) (n + 1)" if "bit x n" "bit c n" for c
      using that b(3) unfolding bit_or_iff bit_push_bit_iff bit_and_iff by simp
    ultimately have "bit (with_ready x) (n + 1)" unfolding with_ready_def using b(1) by blast
    then have "bit (with_ready x AND push_bit (n + 1) 1) (n + 1)" using b(3) by (simp add: bit_simps)
    then show ?thesis by (metis bit_0_eq bot_fun_def bot_bool_def)
  qed
  then show "start_osc osc_bus osc m = Some (rcc_osc_on osc_bus osc m)"
    by (simp add: start_osc_def rcc_wait_for_osc_ready.simps rcc_is_osc_ready_def n(1) mmio_read_def)
      (simp add: osc_bus_def x_def reg_def)
  show "settings (rcc_osc_on osc_bus osc m) = settings m"
    by (simp add: rcc_osc_on_def n(1) mmio_set_def osc_modify settings_def rcc_regs reg_store)
qed

section \<open>Fields\<close>

definition fld :: "nat \<Rightarrow> u32 \<Rightarrow> u32 \<Rightarrow> u32" where
  "fld sh msk x = drop_bit sh x AND msk"

lemma fld_put_same:
  assumes "drop_bit sh (push_bit sh msk) = msk" "v AND msk = v"
  shows "fld sh msk (put msk sh v x) = v"
proof (rule bit_word_eqI)
  fix n assume "n < LENGTH(32)"
  have m: "sh + n < 32" if "bit msk n"
  proof -
    have "bit (drop_bit sh (push_bit sh msk)) n" unfolding assms(1) by (rule that)
    then show ?thesis by (simp add: bit_simps)
  qed
  have v: "bit v n = (bit v n \<and> bit msk n)" using assms(2) by (metis bit_and_iff)
  show "bit (fld sh msk (put msk sh v x)) n = bit v n"
    using m v by (auto simp: fld_def put_def bit_simps)
qed

lemma fld_put_other:
  assumes "push_bit sh msk AND push_bit sh' msk' = 0" "v AND msk = v"
  shows "fld sh' msk' (put msk sh v x) = fld sh' msk' x"
proof (rule bit_word_eqI)
  fix n assume "n < LENGTH(32)"
  have v: "bit v k \<Longrightarrow> bit msk k" for k using assms(2) by (metis bit_and_iff)
  have "\<not> (sh' + n < 32 \<and> sh \<le> sh' + n \<and> bit msk (sh' + n - sh) \<and> bit msk' n)"
  proof
    assume b: "sh' + n < 32 \<and> sh \<le> sh' + n \<and> bit msk (sh' + n - sh) \<and> bit msk' n"
    then have "bit (push_bit sh msk AND push_bit sh' msk') (sh' + n)" by (simp add: bit_simps)
    then show False unfolding assms(1) by simp
  qed
  then show "bit (fld sh' msk' (put msk sh v x)) n = bit (fld sh' msk' x) n"
    using v bit_imp_le_length [of x "sh' + n"] by (auto simp: fld_def put_def bit_simps)
qed

section \<open>Frequencies\<close>

text \<open>
  In Hz. \<open>conn\<close> tells whether the chip is one of the connectivity line, which has a second PLL
  and \<open>RCC_CFGR2\<close>; \<open>hse\<close> is the frequency of the crystal.
\<close>

definition pll_in :: "bool \<Rightarrow> nat \<Rightarrow> u32 \<Rightarrow> u32 \<Rightarrow> nat" where
  "pll_in conn hse c c2 =
     (if fld 16 1 c = 0 then 4000000
      else if conn then
        (if fld 16 1 c2 = 0 then hse else hse div (unat (fld 4 0xF c2) + 1) * (unat (fld 8 0xF c2) + 2))
          div (unat (fld 0 0xF c2) + 1)
      else hse div (unat (fld 17 1 c) + 1))"

definition pll_out :: "bool \<Rightarrow> nat \<Rightarrow> u32 \<Rightarrow> u32 \<Rightarrow> nat" where
  "pll_out conn hse c c2 = pll_in conn hse c c2 * (unat (fld 18 0xF c) + 2)"

definition sysclk :: "bool \<Rightarrow> nat \<Rightarrow> u32 \<Rightarrow> u32 \<Rightarrow> nat" where
  "sysclk conn hse c c2 =
     (if fld 0 3 c = 0 then 8000000 else if fld 0 3 c = 1 then hse else pll_out conn hse c c2)"

definition ahb_div :: "u32 \<Rightarrow> nat" where
  "ahb_div v = (if v < 8 then 1 else [2, 4, 8, 16, 64, 128, 256, 512] ! unat (v - 8))"

definition apb_div :: "u32 \<Rightarrow> nat" where
  "apb_div v = (if v < 4 then 1 else 2 ^ (unat v - 3))"

text \<open>
  The frequencies that a set-up has stored are those of the buses, and the limits of the data
  sheet hold: 72 MHz, 36 MHz on APB1, 14 MHz for the ADC, a wait state of the flash for every
  24 MHz.
\<close>

definition clocked :: "bool \<Rightarrow> nat \<Rightarrow> (frequencies \<times> memory) option \<Rightarrow> bool" where
  "clocked conn hse r =
     (case r of
        None \<Rightarrow> False
      | Some ((ahb, apb1, apb2), m) \<Rightarrow>
          let (c, c2, ws) = settings m; f = sysclk conn hse c c2 div ahb_div (fld 4 0xF c)
          in unat ahb = f \<and> unat apb1 = f div apb_div (fld 8 7 c) \<and> unat apb2 = f div apb_div (fld 11 7 c) \<and>
             f \<le> 72000000 \<and> unat apb1 \<le> 36000000 \<and>
             unat apb2 div (2 * (unat (fld 14 3 c) + 1)) \<le> 14000000 \<and> f \<le> 24000000 * (unat (fld 0 7 ws) + 1))"

lemma clocked_settings:
  "clocked conn hse (Some ((ahb, apb1, apb2), m)) \<longleftrightarrow>
     (let (c, c2, ws) = settings m; f = sysclk conn hse c c2 div ahb_div (fld 4 0xF c)
          in unat ahb = f \<and> unat apb1 = f div apb_div (fld 8 7 c) \<and> unat apb2 = f div apb_div (fld 11 7 c) \<and>
             f \<le> 72000000 \<and> unat apb1 \<le> 36000000 \<and>
             unat apb2 div (2 * (unat (fld 14 3 c) + 1)) \<le> 14000000 \<and> f \<le> 24000000 * (unat (fld 0 7 ws) + 1))"
  by (simp add: clocked_def)

lemmas setup_steps = run_from_def finish_setup_def osc_started main_osc_def set_prescalers_def settings_ops settings_bits
  rcc_set_sysclk_source_def rcc_set_pll_multiplication_factor_def rcc_set_pll_source_def rcc_set_pllxtpre_def
  rcc_set_adcpre_def rcc_set_ppre2_def rcc_set_ppre1_def rcc_set_hpre_def rcc_set_pll2_multiplication_factor_def
  rcc_set_prediv1_def rcc_set_prediv2_def

lemmas tree = clocked_settings sysclk_def pll_out_def pll_in_def ahb_div_def apb_div_def fld_put_same fld_put_other

lemma settings_triple: obtains c c2 w where "settings m = (c, c2, w)"
  by (cases "settings m") auto

lemmas setup_functions = rcc_clock_setup_in_hsi_out_64mhz_def rcc_clock_setup_in_hsi_out_48mhz_def
  rcc_clock_setup_in_hsi_out_24mhz_def rcc_clock_setup_in_hse_8mhz_out_24mhz_def
  rcc_clock_setup_in_hse_8mhz_out_72mhz_def rcc_clock_setup_in_hse_12mhz_out_72mhz_def
  rcc_clock_setup_in_hse_16mhz_out_72mhz_def rcc_clock_setup_in_hse_25mhz_out_72mhz_def

lemma setups_hsi:
  "clocked conn hse (rcc_clock_setup_in_hsi_out_64mhz osc_bus m)"
  "clocked conn hse (rcc_clock_setup_in_hsi_out_48mhz osc_bus m)"
  "clocked conn hse (rcc_clock_setup_in_hsi_out_24mhz osc_bus m)"
  by (rule settings_triple [of m], simp add: setup_functions setup_steps tree flip: numeral_2_eq_2)+

lemma setups_hse:
  "clocked False 8000000 (rcc_clock_setup_in_hse_8mhz_out_24mhz osc_bus m)"
  "clocked False 8000000 (rcc_clock_setup_in_hse_8mhz_out_72mhz osc_bus m)"
  "clocked False 12000000 (rcc_clock_setup_in_hse_12mhz_out_72mhz osc_bus m)"
  "clocked False 16000000 (rcc_clock_setup_in_hse_16mhz_out_72mhz osc_bus m)"
  "clocked True 25000000 (rcc_clock_setup_in_hse_25mhz_out_72mhz osc_bus m)"
  by (rule settings_triple [of m], simp add: setup_functions setup_steps tree flip: numeral_2_eq_2)+

text \<open>The chip and the crystal that each entry of the first table is for.\<close>

definition hse_crystals :: "(bool \<times> nat) list" where
  "hse_crystals = [(False, 12000000), (False, 16000000), (True, 25000000), (False, 8000000), (False, 8000000)]"

lemma setups_pll:
  "clocked conn hse (rcc_clock_setup_pll osc_bus (rcc_hsi_configs ! 0) m)"
  "clocked conn hse (rcc_clock_setup_pll osc_bus (rcc_hsi_configs ! 1) m)"
  "clocked conn hse (rcc_clock_setup_pll osc_bus (rcc_hsi_configs ! 2) m)"
  "clocked False 12000000 (rcc_clock_setup_pll osc_bus (rcc_hse_configs ! 0) m)"
  "clocked False 16000000 (rcc_clock_setup_pll osc_bus (rcc_hse_configs ! 1) m)"
  "clocked True 25000000 (rcc_clock_setup_pll osc_bus (rcc_hse_configs ! 2) m)"
  "clocked False 8000000 (rcc_clock_setup_pll osc_bus (rcc_hse_configs ! 3) m)"
  "clocked False 8000000 (rcc_clock_setup_pll osc_bus (rcc_hse_configs ! 4) m)"
  by (rule settings_triple [of m], simp add: rcc_clock_setup_pll_def rcc_hsi_configs_def rcc_hse_configs_def
      clock_scale_def if_set_def setup_steps tree flip: numeral_2_eq_2)+


end
