(* ===== verification/Usb_App.thy ===== *)
theory Usb_App
  imports Usb_Control Monitor Clock
begin

text \<open>
  The firmware around the USB stack: which function a transfer on an endpoint calls and the
  polling function of the driver (\<^verbatim>\<open>st_usbfs_core.c\<close>), start-up (\<^verbatim>\<open>Bootloader/App/Usb.cpp\<close>,
  \<^verbatim>\<open>SystemInit.cpp\<close>, \<^verbatim>\<open>lib/usb/usb.c\<close>), and the services that the debugged program gets from the
  firmware through \<open>svc\<close> (\<^verbatim>\<open>Syscalls.cpp\<close>). The application behind the callbacks is the command
  interpreter; it runs on the hardware of the device.
\<close>

type_synonym 'h firmware = "('h, 'h monitor) usbd"

section \<open>The endpoints of the application\<close>

definition run_monitor :: "('h monitor \<Rightarrow> ('x \<times> 'h monitor) result) \<Rightarrow> 'h firmware \<Rightarrow> ('x \<times> 'h firmware) result" where
  "run_monitor f dev =
     bindR (f ((usb_app dev)\<lparr>hw := usb_hw dev\<rparr>)) (\<lambda>(x, m). Inr (x, dev\<lparr>usb_hw := hw m, usb_app := m\<rparr>))"

text \<open>\<open>usbDataOutCallback\<close> of \<^verbatim>\<open>main.cpp\<close> with the two packet functions at its ends.\<close>

definition usb_data_out :: "'h bus \<Rightarrow> u8 \<Rightarrow> 'h firmware \<Rightarrow> 'h firmware result" where
  "usb_data_out b ep dev =
     (case st_usbfs_ep_read_packet b ep 64 dev of (packet, dev) \<Rightarrow>
        bindR (run_monitor (usbDataOutCallback b packet) dev) (\<lambda>(ans, dev).
          case ans of
            None \<Rightarrow> Inr dev
          | Some bs \<Rightarrow> Inr (snd (st_usbfs_ep_write_packet b (ep OR 0x80) bs dev))))"

definition usbSerialDataInCallback :: "'h firmware \<Rightarrow> 'h firmware" where
  "usbSerialDataInCallback dev = dev\<lparr>usb_app := (usb_app dev)\<lparr>allowUsbTransfer := True\<rparr>\<rparr>"

text \<open>A call through the table; the other functions have a different type and are never in it.\<close>

fun call_endpoint :: "'h bus \<Rightarrow> usb_fn \<Rightarrow> u8 \<Rightarrow> 'h firmware \<Rightarrow> 'h firmware result" where
  "call_endpoint b F_control_setup ep dev = usbd_control_setup b dev"
| "call_endpoint b F_control_out ep dev = usbd_control_out b dev"
| "call_endpoint b F_control_in ep dev = usbd_control_in b dev"
| "call_endpoint b F_usbDataOutCallback ep dev = usb_data_out b ep dev"
| "call_endpoint b F_usbDataInCallback ep dev = Inr dev"
| "call_endpoint b F_usbSerialDataInCallback ep dev = Inr (usbSerialDataInCallback dev)"
| "call_endpoint b F_usbControlCallback ep dev = Inl Crash"
| "call_endpoint b F_usbSetConfigCallback ep dev = Inl Crash"

section \<open>Polling\<close>

definition usbd_reset :: "'h bus \<Rightarrow> ('h, 'a) usbd \<Rightarrow> ('h, 'a) usbd" where
  "usbd_reset b dev =
     st_usbfs_set_address b 0
       (st_usbfs_ep_setup b 0 0 (ucast (bMaxPacketSize0 dev)) None
         (dev\<lparr>current_address := 0, current_config := 0\<rparr>))"

text \<open>A transfer on an endpoint: which of the three, and what that calls.\<close>

definition poll_ctr :: "'h bus \<Rightarrow> u16 \<Rightarrow> 'h firmware \<Rightarrow> 'h firmware result" where
  "poll_ctr b istr dev =
     (let ep = ucast (istr AND USB_ISTR_EP_ID) :: u8;
          (tr, dev) =
            (if istr AND USB_ISTR_DIR \<noteq> 0 then
               case mmio_read b (USB_EP_REG ep) (usb_hw dev) of (x, h) \<Rightarrow>
                 let dev = dev\<lparr>usb_hw := h\<rparr>
                 in if x AND ucast USB_EP_SETUP \<noteq> 0 then
                      case st_usbfs_ep_read_packet b ep 8 dev of (bs, dev) \<Rightarrow>
                        (USB_TRANSACTION_SETUP, dev\<lparr>cs_req := blit 0 bs (cs_req dev)\<rparr>)
                    else (USB_TRANSACTION_OUT, dev)
             else (USB_TRANSACTION_IN, upd_hw (USB_CLR_EP_TX_CTR b ep) dev))
      in case user_callback_ctr dev (unat ep) tr of
           Some f \<Rightarrow> call_endpoint b f ep dev
         | None \<Rightarrow> Inr (upd_hw (USB_CLR_EP_RX_CTR b ep) dev))"

definition USB_CNTR_SOFM :: u32 where "USB_CNTR_SOFM = 0x0200"

definition st_usbfs_poll :: "'h bus \<Rightarrow> 'h firmware \<Rightarrow> 'h firmware result" where
  "st_usbfs_poll b dev =
     (case GET_REG b USB_ISTR_REG (usb_hw dev) of (istr, h) \<Rightarrow>
        let dev = dev\<lparr>usb_hw := h\<rparr>
        in if istr AND USB_ISTR_RESET \<noteq> 0 then
             Inr (usbd_reset b ((upd_hw (CLR_REG_BIT b USB_ISTR_REG USB_ISTR_RESET) dev)\<lparr>pm_top := USBD_PM_TOP\<rparr>))
           else
             bindR (if istr AND USB_ISTR_CTR \<noteq> 0 then poll_ctr b istr dev else Inr dev) (\<lambda>dev.
               let clr = (\<lambda>flag h. if istr AND flag \<noteq> 0 then CLR_REG_BIT b USB_ISTR_REG flag h else h)
               in Inr (upd_hw (mmio_clear b USB_CNTR_REG USB_CNTR_SOFM \<circ> clr USB_ISTR_SOF \<circ>
                    clr USB_ISTR_WKUP \<circ> clr USB_ISTR_SUSP) dev)))"

definition DHCSR :: u32 where "DHCSR = 0xE000EDF0"
definition DEMCR_MON_EN :: u32 where "DEMCR_MON_EN = 0x10000"

definition USB_IRQHandler :: "'h bus \<Rightarrow> 'h firmware \<Rightarrow> 'h firmware result" where
  "USB_IRQHandler b dev =
     st_usbfs_poll b (upd_hw (mmio_set b DEMCR DEMCR_MON_EN \<circ> mmio_write b DHCSR 0xA05F0001) dev)"

section \<open>Start-up\<close>

text \<open>The device before \<open>usbd_init\<close>: a static variable, all zero.\<close>

definition blank_device :: "'a \<Rightarrow> 'h \<Rightarrow> ('h, 'a) usbd" where
  "blank_device app h =
     \<lparr>u_desc = [], u_config = [], u_strings = None, u_ctrl_buf = [], current_address = 0, current_config = 0,
      pm_top = 0, cs_state = IDLE, cs_req = replicate 8 0, cs_buf = NullPtr, cs_len = 0, cs_needs_zlp = False,
      user_control_callback = replicate 4 None, user_callback_ctr = (\<lambda>_ _. None),
      user_callback_set_config = replicate 4 None, alt_vars = (\<lambda>_. 0), extra_string_idx = 0, extra_string = [],
      force_nak = replicate 8 False, usb_hw = h, usb_app = app\<rparr>"

definition RCC_USB :: u32 where "RCC_USB = push_bit 5 0x1C + 23"

definition st_usbfs_v1_usbd_init :: "'h bus \<Rightarrow> ('h, 'a) usbd \<Rightarrow> ('h, 'a) usbd" where
  "st_usbfs_v1_usbd_init b =
     upd_hw (SET_REG b USB_CNTR_REG 0x9C00 \<circ> SET_REG b USB_ISTR_REG 0 \<circ> SET_REG b USB_BTABLE_REG 0 \<circ>
       SET_REG b USB_CNTR_REG 0 \<circ> rcc_periph_clock_enable b RCC_USB)"

definition usbd_init ::
    "'h bus \<Rightarrow> u8 list \<Rightarrow> usb_config list \<Rightarrow> u8 list list option \<Rightarrow> u8 list \<Rightarrow> ('h, 'a) usbd \<Rightarrow> ('h, 'a) usbd" where
  "usbd_init b desc conf strings control_buffer dev =
     (st_usbfs_v1_usbd_init b dev)
       \<lparr>u_desc := desc, u_config := conf, u_strings := strings, extra_string_idx := 0, extra_string := [],
        u_ctrl_buf := control_buffer,
        user_callback_ctr := (user_callback_ctr dev)(0 := (\<lambda>tr. case tr of
          USB_TRANSACTION_SETUP \<Rightarrow> Some F_control_setup | USB_TRANSACTION_OUT \<Rightarrow> Some F_control_out
        | USB_TRANSACTION_IN \<Rightarrow> Some F_control_in)),
        user_callback_set_config := replicate 4 None\<rparr>"

text \<open>\<open>GPIO_BRR\<close> is accessed as a half word.\<close>

definition usbSetEnable :: "'h bus \<Rightarrow> bool \<Rightarrow> 'h \<Rightarrow> 'h" where
  "usbSetEnable b enabled h =
     (if enabled then mmio_write b 0x40010810 0x8000 h else bus_write b 2 0x40010814 0x8000 h)"

definition usbdInit :: "'h bus \<Rightarrow> 'a \<Rightarrow> 'h \<Rightarrow> ('h, 'a) usbd" where
  "usbdInit b app h =
     (let dev = usbd_init b usbDeviceDescriptor [usbConfigDescriptor] (Some usbStrings) (replicate 320 0)
            (blank_device app (usbSetEnable b False h));
          dev = snd (usbd_register_set_config_callback F_usbSetConfigCallback dev);
          dev = snd (usbd_register_control_callback 0 0 F_usbControlCallback dev)
      in upd_hw (usbSetEnable b True \<circ> nvic_enable_irq b 20 \<circ> nvic_enable_irq b 19 \<circ>
           nvic_set_priority b 20 0x10 \<circ> nvic_set_priority b 19 0x10) dev)"

definition RCC_GPIOA :: u32 where "RCC_GPIOA = push_bit 5 0x18 + 2"
definition RCC_GPIOC :: u32 where "RCC_GPIOC = push_bit 5 0x18 + 4"
definition RCC_AFIO :: u32 where "RCC_AFIO = push_bit 5 0x18 + 0"

text \<open>The negative numbers of the system exceptions are converted to 8 bits.\<close>

definition NVIC_SYSTICK_IRQ :: u8 where "NVIC_SYSTICK_IRQ = -1"
definition NVIC_SV_CALL_IRQ :: u8 where "NVIC_SV_CALL_IRQ = -5"

definition init_clocks :: "'h bus \<Rightarrow> 'h \<Rightarrow> 'h" where
  "init_clocks b h =
     (let h = fold (rcc_periph_clock_enable b) [RCC_GPIOA, RCC_GPIOC, RCC_AFIO, RCC_USB] h;
          h = gpio_set_mode b 0x40010800 3 2 0x0800 h;
          h = gpio_set_mode b 0x40010800 3 2 0x1000 h;
          h = gpio_set_mode b 0x40011000 2 0 0x2000 h
      in mmio_write b 0x40011010 0x2000 (mmio_write b AFIO_MAPR 0x2000000 h))"

definition init_interrupts :: "'h bus \<Rightarrow> 'h \<Rightarrow> 'h" where
  "init_interrupts b h =
     (let h = fold (\<lambda>i h. nvic_set_priority b i 0xF0 (nvic_disable_irq b i h))
                (map of_nat [0..<unat NVIC_IRQ_COUNT]) h;
          h = snd (the (systick_set_frequency b 1000 72000000 h));
          h = nvic_enable_irq b NVIC_SYSTICK_IRQ (nvic_set_priority b NVIC_SYSTICK_IRQ 0x10 h);
          h = systick_counter_enable b (systick_interrupt_enable b h);
          h = nvic_enable_irq b NVIC_SV_CALL_IRQ (nvic_set_priority b NVIC_SV_CALL_IRQ 0x20 h)
      in nvic_enable_irq b (-4) (nvic_set_priority b (-4) 0x20 h))"

text \<open>The loop over the breakpoints has an empty body; only \<open>FP_CTRL\<close> is read.\<close>

definition systemInit :: "'h bus \<Rightarrow> 'a \<Rightarrow> 'h \<Rightarrow> ('h, 'a) usbd option" where
  "systemInit b app h =
     Option.bind (rcc_clock_setup_in_hse_8mhz_out_72mhz b h) (\<lambda>(_, h).
       let h = init_interrupts b (init_clocks b h);
           h = mmio_write b DEMCR DEMCR_MON_EN (mmio_write b DHCSR 0xA05F0001 h)
       in Some (usbdInit b app (snd (mmio_read b FP_CTRL h))))"

definition SysTick_Handler :: "'h bus \<Rightarrow> u32 \<times> 'h \<Rightarrow> u32 \<times> 'h" where
  "SysTick_Handler b = (\<lambda>(timeFromSystemStartedMs, h).
     (timeFromSystemStartedMs + 1, nvic_clear_pending_irq b NVIC_SYSTICK_IRQ h))"

section \<open>Services\<close>

definition sysCallReset :: "'h bus \<Rightarrow> 'h firmware \<Rightarrow> 'h firmware" where
  "sysCallReset b dev =
     (let m = snd (debugResume b False (snd (debugStartFirmware b ((usb_app dev)\<lparr>hw := usb_hw dev\<rparr>))))
      in dev\<lparr>usb_hw := hw m, usb_app := m\<rparr>)"

definition sysCallMillis :: "'h bus \<Rightarrow> u32 \<Rightarrow> u32 \<Rightarrow> ('h, 'a) usbd \<Rightarrow> ('h, 'a) usbd" where
  "sysCallMillis b timeMs arg0 dev =
     (if arg0 AND 3 \<noteq> 0 \<or> arg0 < 0x20001000 \<or> arg0 > 0x20005000 then dev
      else upd_hw (mmio_write b arg0 timeMs) dev)"

definition sysCallEnableDisableIrq :: "'h bus \<Rightarrow> u32 \<Rightarrow> u32 \<Rightarrow> ('h, 'a) usbd \<Rightarrow> ('h, 'a) usbd" where
  "sysCallEnableDisableIrq b arg0 arg1 dev =
     (if arg0 > 255 then dev
      else
        let read_odr = (\<lambda>h. snd (mmio_read b GPIOA_ODR h))
        in upd_hw (read_odr \<circ> (if arg1 \<noteq> 0 then nvic_enable_irq b (ucast arg0) else nvic_disable_irq b (ucast arg0))
             \<circ> read_odr) dev)"

text \<open>The test of the range that the program wants to send; it is made before and after the one of the size.\<close>

definition serial_range :: "u32 \<Rightarrow> u32 \<Rightarrow> bool" where
  "serial_range arg0 sz \<longleftrightarrow>
     \<not> ((arg0 < 0x8004000 \<or> arg0 + sz > 0x8020000) \<and> (arg0 < 0x20001000 \<or> arg0 + sz > 0x20005000))"

text \<open>
  Packets of at most 64 bytes. Before each, the service waits until the previous one is sent;
  \<open>sent k\<close> tells whether the interrupt that sets \<open>allowUsbTransfer\<close> comes while it waits after
  \<open>k\<close> bytes, and if it does not come the rest is dropped. The packet is loaded byte by byte.
\<close>

definition load_bytes :: "'h bus \<Rightarrow> u32 \<Rightarrow> nat \<Rightarrow> 'h \<Rightarrow> u8 list \<times> 'h" where
  "load_bytes b a n h =
     fold (\<lambda>i (bs, h). case bus_read b 1 (a + of_nat i) h of (x, h) \<Rightarrow> (bs @ [ucast x], h)) [0..<n] ([], h)"

function write_serial_loop :: "'h bus \<Rightarrow> (nat \<Rightarrow> bool) \<Rightarrow> u32 \<Rightarrow> nat \<Rightarrow> nat \<Rightarrow> 'h firmware \<Rightarrow> 'h firmware" where
  "write_serial_loop b sent ptr offset sz dev =
     (if \<not> offset < sz then dev
      else if \<not> allowUsbTransfer (usb_app dev) \<and> \<not> sent offset then dev
      else
        let count = min (sz - offset) 64;
            dev = dev\<lparr>usb_app := (usb_app dev)\<lparr>allowUsbTransfer := False\<rparr>\<rparr>;
            (bs, h) = load_bytes b (ptr + of_nat offset) count (usb_hw dev);
            dev = snd (st_usbfs_ep_write_packet b 0x82 bs (dev\<lparr>usb_hw := h\<rparr>))
        in write_serial_loop b sent ptr (offset + count) sz dev)"
  by pat_completeness auto
termination
  by (relation "measure (\<lambda>(b, sent, ptr, offset, sz, dev). sz - offset)") auto

declare write_serial_loop.simps [simp del]

definition sysCallWriteUsbSerial :: "'h bus \<Rightarrow> (nat \<Rightarrow> bool) \<Rightarrow> u32 \<Rightarrow> u32 \<Rightarrow> 'h firmware \<Rightarrow> 'h firmware" where
  "sysCallWriteUsbSerial b sent arg0 arg1 dev =
     (if \<not> usbInitialized (usb_app dev) then dev
      else if \<not> serial_range arg0 0 then dev
      else if arg1 = 0 \<or> arg1 > 1024 then dev
      else if \<not> serial_range arg0 arg1 then dev
      else if \<not> allowUsbTransfer (usb_app dev) then dev
      else write_serial_loop b sent arg0 0 (unat arg1) dev)"

definition SVC_Handler ::
    "'h bus \<Rightarrow> (nat \<Rightarrow> bool) \<Rightarrow> u32 \<Rightarrow> u32 \<Rightarrow> u32 \<Rightarrow> u32 \<Rightarrow> u32 \<Rightarrow> 'h firmware \<Rightarrow> 'h firmware" where
  "SVC_Handler b sent timeMs arg0 arg1 arg2 funcNo dev =
     (if funcNo = 0 then sysCallReset b dev
      else if funcNo = 1 then sysCallEnableDisableIrq b arg0 arg1 dev
      else if funcNo = 2 then sysCallMillis b timeMs arg0 dev
      else if funcNo = 3 then sysCallWriteUsbSerial b sent arg0 arg1 dev
      else dev)"

end
