(* ===== verification/Usb_Hw.thy ===== *)
theory Usb_Hw
  imports Usb_App
begin

text \<open>
  The device controller as its reference manual (RM0008, chapter 23) describes it, for the
  properties of the stack: the endpoint registers, whose status bits toggle when a 1 is
  written and whose transfer flags are cleared by writing 0, the interrupt register, which
  shows the endpoint with a flag set, and the packet memory. A host that sends tokens for
  endpoint 0 completes the picture. None of this is code of the repository.
\<close>

section \<open>The controller\<close>

record usbfs =
  uf_ep :: "nat \<Rightarrow> u16"
  uf_flags :: u16
  uf_pma :: "nat \<Rightarrow> u16"
  uf_mem :: memory

definition ep_write :: "u16 \<Rightarrow> u16 \<Rightarrow> u16" where
  "ep_write x v = (x AND v AND 0x8080) OR ((x XOR v) AND 0x7070) OR (x AND 0x0800) OR (v AND 0x070F)"

definition pending :: "usbfs \<Rightarrow> nat option" where
  "pending h = find (\<lambda>i. uf_ep h i AND 0x8080 \<noteq> 0) [0..<8]"

definition istr :: "usbfs \<Rightarrow> u16" where
  "istr h = uf_flags h AND 0x7F00 OR
     (case pending h of None \<Rightarrow> 0
      | Some i \<Rightarrow> 0x8000 OR (if uf_ep h i AND 0x8000 \<noteq> 0 then 0x10 else 0) OR of_nat i)"

definition ep_index :: "u32 \<Rightarrow> nat option" where
  "ep_index a = (let k = unat (a - 0x40005C00) in if k < 0x20 \<and> k mod 4 = 0 then Some (k div 4) else None)"

definition pma_index :: "u32 \<Rightarrow> nat option" where
  "pma_index a = (let k = unat (a - 0x40006000) in if k < 0x400 \<and> k mod 4 = 0 then Some (k div 4) else None)"

definition usbfs_read :: "nat \<Rightarrow> u32 \<Rightarrow> usbfs \<Rightarrow> u32 \<times> usbfs" where
  "usbfs_read n a h =
     (case ep_index a of
        Some i \<Rightarrow> (ucast (uf_ep h i), h)
      | None \<Rightarrow>
          (case pma_index a of
             Some i \<Rightarrow> (if n = 1 then ucast (uf_pma h i) AND 0xFF else ucast (uf_pma h i), h)
           | None \<Rightarrow> if a = USB_ISTR_REG then (ucast (istr h), h) else (load_le n a (uf_mem h), h)))"

definition usbfs_write :: "nat \<Rightarrow> u32 \<Rightarrow> u32 \<Rightarrow> usbfs \<Rightarrow> usbfs" where
  "usbfs_write n a v h =
     (case ep_index a of
        Some i \<Rightarrow> h\<lparr>uf_ep := (uf_ep h)(i := ep_write (uf_ep h i) (ucast v))\<rparr>
      | None \<Rightarrow>
          (case pma_index a of
             Some i \<Rightarrow> h\<lparr>uf_pma := (uf_pma h)(i := ucast v)\<rparr>
           | None \<Rightarrow> if a = USB_ISTR_REG then h\<lparr>uf_flags := uf_flags h AND ucast v\<rparr>
                     else h\<lparr>uf_mem := store_le n a v (uf_mem h)\<rparr>))"

definition usb_bus :: "usbfs bus" where
  "usb_bus = \<lparr>bus_read = usbfs_read, bus_write = usbfs_write\<rparr>"

section \<open>Registers\<close>

lemma all_bits_16: "(\<forall>n<16. P n) \<longleftrightarrow> P 0 \<and> P 1 \<and> P 2 \<and> P 3 \<and> P 4 \<and> P 5 \<and> P 6 \<and> P 7 \<and> P 8 \<and> P 9 \<and>
    P 10 \<and> P 11 \<and> P 12 \<and> P 13 \<and> P 14 \<and> P (15 :: nat)"
  by (simp add: numeral_eq_Suc All_less_Suc conj_ac)

lemma word16_eqI: "(\<forall>n<16. bit (x :: u16) n = bit y n) \<Longrightarrow> x = y"
  by (rule bit_word_eqI) simp

lemmas usb_masks = USB_EP_RX_CTR_def USB_EP_RX_DTOG_def USB_EP_RX_STAT_def USB_EP_SETUP_def USB_EP_TYPE_def
  USB_EP_KIND_def USB_EP_TX_CTR_def USB_EP_TX_DTOG_def USB_EP_TX_STAT_def USB_EP_ADDR_def
  USB_EP_NTOGGLE_MSK_def USB_EP_RX_STAT_TOG_MSK_def USB_EP_TX_STAT_TOG_MSK_def

text \<open>What the macros of the driver do to a register: each sets its field and nothing else.\<close>

lemma tog_fields:
  "st AND 0x3000 = st \<Longrightarrow> ep_write x (((x AND USB_EP_RX_STAT_TOG_MSK) XOR st) OR (USB_EP_RX_CTR OR USB_EP_TX_CTR)) =
    (x AND NOT 0x3000) OR st"
  "st AND 0x0030 = st \<Longrightarrow> ep_write x (((x AND USB_EP_TX_STAT_TOG_MSK) XOR st) OR (USB_EP_RX_CTR OR USB_EP_TX_CTR)) =
    (x AND NOT 0x0030) OR st"
proof -
  have "ep_write x (((x AND USB_EP_RX_STAT_TOG_MSK) XOR (st AND 0x3000)) OR (USB_EP_RX_CTR OR USB_EP_TX_CTR)) =
      (x AND NOT 0x3000) OR (st AND 0x3000)"
    by (rule word16_eqI, unfold all_bits_16) (auto simp: ep_write_def usb_masks bit_simps)
  then show "st AND 0x3000 = st \<Longrightarrow> ep_write x (((x AND USB_EP_RX_STAT_TOG_MSK) XOR st) OR (USB_EP_RX_CTR OR USB_EP_TX_CTR)) =
      (x AND NOT 0x3000) OR st" by simp
  have "ep_write x (((x AND USB_EP_TX_STAT_TOG_MSK) XOR (st AND 0x0030)) OR (USB_EP_RX_CTR OR USB_EP_TX_CTR)) =
      (x AND NOT 0x0030) OR (st AND 0x0030)"
    by (rule word16_eqI, unfold all_bits_16) (auto simp: ep_write_def usb_masks bit_simps)
  then show "st AND 0x0030 = st \<Longrightarrow> ep_write x (((x AND USB_EP_TX_STAT_TOG_MSK) XOR st) OR (USB_EP_RX_CTR OR USB_EP_TX_CTR)) =
      (x AND NOT 0x0030) OR st" by simp
qed

lemma clr_fields:
  "ep_write x ((x AND USB_EP_NTOGGLE_MSK AND NOT USB_EP_RX_CTR) OR USB_EP_TX_CTR) = x AND NOT 0x8000"
  "ep_write x ((x AND USB_EP_NTOGGLE_MSK AND NOT USB_EP_TX_CTR) OR USB_EP_RX_CTR) = x AND NOT 0x0080"
  "ep_write x (x AND (USB_EP_NTOGGLE_MSK OR USB_EP_TX_DTOG)) = x AND NOT 0x0040"
  "ep_write x (x AND (USB_EP_NTOGGLE_MSK OR USB_EP_RX_DTOG)) = x AND NOT 0x4000"
  by (rule word16_eqI, unfold all_bits_16, auto simp: ep_write_def usb_masks bit_simps)+

lemma set_fields:
  "ty AND 0x0600 = ty \<Longrightarrow> ep_write x ((x AND (USB_EP_NTOGGLE_MSK AND NOT USB_EP_TYPE)) OR ty) = (x AND NOT 0x0600) OR ty"
  "ad AND 0x000F = ad \<Longrightarrow> ep_write x ((x AND (USB_EP_NTOGGLE_MSK AND NOT USB_EP_ADDR)) OR ad) = (x AND NOT 0x000F) OR ad"
proof -
  have "ep_write x ((x AND (USB_EP_NTOGGLE_MSK AND NOT USB_EP_TYPE)) OR (ty AND 0x0600)) = (x AND NOT 0x0600) OR (ty AND 0x0600)"
    by (rule word16_eqI, unfold all_bits_16) (auto simp: ep_write_def usb_masks bit_simps)
  then show "ty AND 0x0600 = ty \<Longrightarrow> ep_write x ((x AND (USB_EP_NTOGGLE_MSK AND NOT USB_EP_TYPE)) OR ty) = (x AND NOT 0x0600) OR ty"
    by simp
  have "ep_write x ((x AND (USB_EP_NTOGGLE_MSK AND NOT USB_EP_ADDR)) OR (ad AND 0x000F)) = (x AND NOT 0x000F) OR (ad AND 0x000F)"
    by (rule word16_eqI, unfold all_bits_16) (auto simp: ep_write_def usb_masks bit_simps)
  then show "ad AND 0x000F = ad \<Longrightarrow> ep_write x ((x AND (USB_EP_NTOGGLE_MSK AND NOT USB_EP_ADDR)) OR ad) = (x AND NOT 0x000F) OR ad"
    by simp
qed

section \<open>Endpoint 0\<close>

text \<open>The addresses that the stack uses for endpoint 0, with the buffer table at 0.\<close>

lemma ep0_address [simp]: "ep_index (USB_EP_REG 0) = Some 0"
  by (simp add: ep_index_def USB_EP_REG_def USB_DEV_FS_BASE_def)

lemma pma_address:
  assumes "k < 256"
  shows "ep_index (USB_PMA_BASE + 4 * of_nat k) = None" "pma_index (USB_PMA_BASE + 4 * of_nat k) = Some k"
proof -
  have u: "unat (of_nat (4 * k) :: u32) = 4 * k" using assms by (intro unat_of_nat_u32) simp
  then show "pma_index (USB_PMA_BASE + 4 * of_nat k) = Some k"
    using assms by (simp add: pma_index_def USB_PMA_BASE_def)
  have "USB_PMA_BASE + 4 * of_nat k - 0x40005C00 = of_nat (0x400 + 4 * k)" by (simp add: USB_PMA_BASE_def)
  moreover have "unat (of_nat (0x400 + 4 * k) :: u32) = 0x400 + 4 * k" using assms by (intro unat_of_nat_u32) simp
  ultimately show "ep_index (USB_PMA_BASE + 4 * of_nat k) = None" by (simp only: ep_index_def Let_def) simp
qed

lemma u16_u32 [simp]: "ucast (ucast (x :: u16) :: u32) = x"
  by (rule u32_u16)

definition ep0 :: "usbfs \<Rightarrow> u16" where
  "ep0 h = uf_ep h 0"

abbreviation set_ep0 :: "u16 \<Rightarrow> usbfs \<Rightarrow> usbfs" where
  "set_ep0 x h \<equiv> h\<lparr>uf_ep := (uf_ep h)(0 := x)\<rparr>"

lemma mod_ep0: "MOD_REG usb_bus (USB_EP_REG 0) f h = set_ep0 (ep_write (ep0 h) (f (ep0 h))) h"
  by (simp add: MOD_REG_def GET_REG_def SET_REG_def mmio_read_def mmio_write_def usb_bus_def usbfs_read_def
      usbfs_write_def ep0_def)

lemma stat_masks: "RX_STALL AND 0x3000 = RX_STALL" "RX_NAK AND 0x3000 = RX_NAK" "RX_VALID AND 0x3000 = RX_VALID"
  "TX_STALL AND 0x0030 = TX_STALL" "TX_NAK AND 0x0030 = TX_NAK" "TX_VALID AND 0x0030 = TX_VALID"
  by (simp_all add: RX_STALL_def RX_NAK_def RX_VALID_def TX_STALL_def TX_NAK_def TX_VALID_def)

lemma ep0_ops:
  "st AND 0x3000 = st \<Longrightarrow> USB_SET_EP_RX_STAT usb_bus 0 st h = set_ep0 ((ep0 h AND NOT 0x3000) OR st) h"
  "st AND 0x0030 = st \<Longrightarrow> USB_SET_EP_TX_STAT usb_bus 0 st h = set_ep0 ((ep0 h AND NOT 0x0030) OR st) h"
  "USB_CLR_EP_RX_CTR usb_bus 0 h = set_ep0 (ep0 h AND NOT 0x8000) h"
  "USB_CLR_EP_TX_CTR usb_bus 0 h = set_ep0 (ep0 h AND NOT 0x0080) h"
  by (simp_all only: USB_SET_EP_RX_STAT_def USB_SET_EP_TX_STAT_def USB_CLR_EP_RX_CTR_def USB_CLR_EP_TX_CTR_def
      TOG_SET_REG_BIT_MSK_AND_SET_def CLR_REG_BIT_MSK_AND_SET_def mod_ep0 tog_fields clr_fields)

lemma read_ep0: "mmio_read usb_bus (USB_EP_REG 0) h = (ucast (ep0 h), h)"
  by (simp add: mmio_read_def usb_bus_def usbfs_read_def ep0_def)

section \<open>Packet memory\<close>

text \<open>The bytes that the controller sees from an address of its memory on.\<close>

definition pma_bytes :: "usbfs \<Rightarrow> nat \<Rightarrow> nat \<Rightarrow> u8 list" where
  "pma_bytes h t n = map (\<lambda>i. let w = uf_pma h ((t + i) div 2) in
     if even (t + i) then ucast w else ucast (drop_bit 8 w)) [0..<n]"

fun pm_words :: "u8 list \<Rightarrow> u16 list" where
  "pm_words [] = []"
| "pm_words [x] = [ucast x]"
| "pm_words (x # y # bs) = rd16 [x, y] # pm_words bs"

definition put_pma :: "nat \<Rightarrow> u16 list \<Rightarrow> usbfs \<Rightarrow> usbfs" where
  "put_pma k ws h = h\<lparr>uf_pma := \<lambda>i. if k \<le> i \<and> i < k + length ws then ws ! (i - k) else uf_pma h i\<rparr>"

lemma length_pm_words: "length (pm_words bs) = (length bs + 1) div 2"
  by (induction bs rule: pm_words.induct) simp_all

lemma put_pma_Nil [simp]: "put_pma k [] h = h"
proof -
  have "(\<lambda>i. if k \<le> i \<and> i < k + length ([] :: u16 list) then [] ! (i - k) else uf_pma h i) = uf_pma h"
    by (rule ext) auto
  then show ?thesis unfolding put_pma_def by (simp only:) simp
qed

lemma put_pma_Cons: "put_pma (Suc k) ws (h\<lparr>uf_pma := (uf_pma h)(k := w)\<rparr>) = put_pma k (w # ws) h"
proof -
  have "(if Suc k \<le> i \<and> i < Suc k + length ws then ws ! (i - Suc k) else ((uf_pma h)(k := w)) i) =
      (if k \<le> i \<and> i < k + length (w # ws) then (w # ws) ! (i - k) else uf_pma h i)" for i
  proof (cases "i = k")
    case False
    then show ?thesis by (auto simp: nth_Cons' dest: Suc_leI)
  qed simp
  then show ?thesis by (simp add: put_pma_def fun_eq_iff)
qed

lemma write_pma: "k < 256 \<Longrightarrow> mmio_write usb_bus (USB_PMA_BASE + 4 * of_nat k) v h = h\<lparr>uf_pma := (uf_pma h)(k := ucast v)\<rparr>"
  by (simp add: mmio_write_def usb_bus_def usbfs_write_def pma_address)

lemma copy_to_pm:
  "k + length (pm_words bs) \<le> 256 \<Longrightarrow>
   st_usbfs_copy_to_pm usb_bus (USB_PMA_BASE + 4 * of_nat k) bs h = put_pma k (pm_words bs) h"
proof (induction bs arbitrary: k h rule: pm_words.induct)
  case (2 x)
  have "(ucast (ucast x :: u32) :: u16) = ucast x" by (rule bit_word_eqI) (auto simp: bit_simps)
  with 2 show ?case using put_pma_Cons [of k "[]" h] by (simp add: write_pma)
next
  case (3 x y bs)
  have a: "USB_PMA_BASE + 4 * of_nat k + 4 = USB_PMA_BASE + 4 * of_nat (Suc k)" by simp
  show ?case
    using 3 write_pma [of k "ucast (rd16 [x, y])" h] put_pma_Cons [of k "pm_words bs" h]
    by (simp add: a del: of_nat_Suc)
qed simp

lemma pm_word_byte:
  "i < length bs \<Longrightarrow> (let w = pm_words bs ! (i div 2) in if even i then ucast w else ucast (drop_bit 8 w)) = bs ! i"
proof (induction bs arbitrary: i rule: pm_words.induct)
  case (2 x)
  have "(ucast (ucast x :: u16) :: u8) = x" by (rule bit_word_eqI) (auto simp: bit_simps)
  with 2 show ?case by simp
next
  case (3 x y bs)
  have "(ucast (rd16 [x, y]) :: u8) = x" "(ucast (drop_bit 8 (rd16 [x, y])) :: u8) = y"
    by (rule bit_word_eqI; auto simp: rd16_def bit_simps not_bit_u8)+
  then show ?case
    using 3 by (cases i rule: nat.exhaust; cases "i - 1") (auto simp: Let_def)
qed simp

lemma pma_bytes_put:
  assumes "even t"
  shows "pma_bytes (put_pma (t div 2) (pm_words bs) h) t (length bs) = bs"
proof (rule nth_equalityI)
  fix i assume "i < length (pma_bytes (put_pma (t div 2) (pm_words bs) h) t (length bs))"
  then have i: "i < length bs" by (simp add: pma_bytes_def)
  have d: "(t + i) div 2 = t div 2 + i div 2" "even (t + i) = even i" using assms by (auto elim!: evenE)
  have "i div 2 < length (pm_words bs)" using i by (simp add: length_pm_words)
  then show "pma_bytes (put_pma (t div 2) (pm_words bs) h) t (length bs) ! i = bs ! i"
    using pm_word_byte [OF i] i assms by (auto simp: pma_bytes_def put_pma_def d Let_def split: if_splits)
qed (simp add: pma_bytes_def)

lemma copy_from_pm:
  "k + (n + 1) div 2 \<le> 256 \<Longrightarrow>
   st_usbfs_copy_from_pm usb_bus (USB_PMA_BASE + 4 * of_nat k) n h = (pma_bytes h (2 * k) n, h)"
proof (induction n arbitrary: k rule: induct_nat_012)
  case 1
  then have "bus_read usb_bus 1 (USB_PMA_BASE + 4 * of_nat k) h = (ucast (uf_pma h k) AND 0xFF, h)"
    by (simp add: usb_bus_def usbfs_read_def pma_address)
  moreover have "(ucast (ucast (w :: u16) AND 0xFF :: u32) :: u8) = ucast w" for w
  proof -
    have "bit (0xFF :: u32) n" if "n < 8" for n
      using that bit_mask_iff [of 8 n, where ?'a = "32 word"] by (simp add: mask_eq_exp_minus_1)
    then show ?thesis by (intro bit_word_eqI) (auto simp: bit_simps simp del: bit_numeral_word_iff)
  qed
  ultimately show ?case by (simp add: pma_bytes_def)
next
  case (ge2 n)
  have a: "USB_PMA_BASE + 4 * of_nat k + 4 = USB_PMA_BASE + 4 * of_nat (Suc k)" by simp
  have r: "bus_read usb_bus 2 (USB_PMA_BASE + 4 * of_nat k) h = (ucast (uf_pma h k), h)"
    using ge2.prems by (simp add: usb_bus_def usbfs_read_def pma_address)
  have "pma_bytes h (2 * k) (Suc (Suc n)) = [ucast (uf_pma h k), ucast (drop_bit 8 (uf_pma h k))] @ pma_bytes h (2 * Suc k) n"
  proof (rule nth_equalityI)
    fix i assume "i < length (pma_bytes h (2 * k) (Suc (Suc n)))"
    then show "pma_bytes h (2 * k) (Suc (Suc n)) ! i =
        ([ucast (uf_pma h k), ucast (drop_bit 8 (uf_pma h k))] @ pma_bytes h (2 * Suc k) n) ! i"
      by (cases i; cases "i - 1") (auto simp: pma_bytes_def nth_append Let_def simp del: upt_Suc)
  qed (simp add: pma_bytes_def)
  moreover have "k + 1 + (n + 1) div 2 \<le> 256" using ge2.prems by simp
  ultimately show ?case
    using r ge2.IH(1) [of "Suc k"] by (simp add: a le16_def del: of_nat_Suc)
qed (simp add: pma_bytes_def)

section \<open>The buffer table\<close>

text \<open>The entries of endpoint 0 as \<open>usbd_reset\<close> leaves them, with the table at address 0.\<close>

definition btable :: "usbfs \<Rightarrow> u16" where
  "btable h = ucast (load_le 4 USB_BTABLE_REG (uf_mem h))"

definition wired :: "usbfs \<Rightarrow> bool" where
  "wired h \<longleftrightarrow> btable h = 0 \<and> uf_pma h 0 = 0x40 \<and> uf_pma h 2 = 0x80"

lemma btable_word_ep0:
  assumes "btable h = 0"
  shows "btable_word usb_bus 0 (2 * of_nat k) h = (USB_PMA_BASE + 4 * of_nat k, h)"
proof -
  have "GET_REG usb_bus USB_BTABLE_REG h = (0, h)"
    using assms by (simp add: GET_REG_def mmio_read_def usb_bus_def usbfs_read_def btable_def ep_index_def pma_index_def
        USB_BTABLE_REG_def USB_ISTR_REG_def USB_DEV_FS_BASE_def)
  then show ?thesis by (simp add: btable_word_def)
qed

lemma get_pma: "k < 256 \<Longrightarrow> GET_REG usb_bus (USB_PMA_BASE + 4 * of_nat k) h = (uf_pma h k, h)"
  by (simp add: GET_REG_def mmio_read_def usb_bus_def usbfs_read_def pma_address)

lemma get_btable_ep0: "btable h = 0 \<Longrightarrow> k < 256 \<Longrightarrow> get_btable usb_bus 0 (2 * of_nat k) h = (uf_pma h k, h)"
  by (simp add: get_btable_def btable_word_ep0 get_pma)

lemma set_btable_ep0:
  "btable h = 0 \<Longrightarrow> k < 256 \<Longrightarrow> set_btable usb_bus 0 (2 * of_nat k) v h = h\<lparr>uf_pma := (uf_pma h)(k := v)\<rparr>"
  by (simp add: set_btable_def btable_word_ep0 SET_REG_def write_pma)

lemma btable_ep0:
  assumes "wired h"
  shows "USB_GET_EP_TX_BUFF usb_bus 0 h = (USB_PMA_BASE + 4 * of_nat 32, h)"
    "USB_GET_EP_RX_BUFF usb_bus 0 h = (USB_PMA_BASE + 4 * of_nat 64, h)"
    "USB_GET_EP_RX_COUNT usb_bus 0 h = (uf_pma h 3, h)"
    "USB_SET_EP_TX_COUNT usb_bus 0 v h = h\<lparr>uf_pma := (uf_pma h)(1 := v)\<rparr>"
  using assms get_btable_ep0 [of h 0] get_btable_ep0 [of h 2] get_btable_ep0 [of h 3] set_btable_ep0 [of h 1 v]
  by (simp_all add: wired_def USB_GET_EP_TX_BUFF_def USB_GET_EP_RX_BUFF_def USB_GET_EP_RX_COUNT_def USB_SET_EP_TX_COUNT_def)

end
