(* ===== verification/Usb_Transfer.thy ===== *)
theory Usb_Transfer
  imports Usb_Hw
begin

text \<open>
  Control reads from the host's side: the tokens that the host sends to endpoint 0, what the
  controller makes of them, and the polling function after each. The firmware answers every
  request for one of its descriptors with that descriptor, cut to the length asked for, and
  is ready for the next request afterwards.
\<close>

section \<open>The host\<close>

definition tx_bytes :: "usbfs \<Rightarrow> u8 list" where
  "tx_bytes h = pma_bytes h (unat (uf_pma h 0)) (unat (uf_pma h 1))"

text \<open>
  A packet is taken from the device when one is waiting (otherwise the answer is NAK); the
  controller then sets the flag and waits for the next packet.
\<close>

definition in_token :: "usbfs firmware \<Rightarrow> (u8 list \<times> usbfs firmware) option" where
  "in_token dev =
     (let h = usb_hw dev
      in if ep0 h AND 0x0030 = 0x0030
         then Some (tx_bytes h, dev\<lparr>usb_hw := set_ep0 (((ep0 h AND NOT 0x0030) OR 0x00A0) XOR 0x0040) h\<rparr>)
         else None)"

text \<open>A setup packet is always accepted; both directions are then NAK until the firmware acts.\<close>

definition setup_token :: "u8 list \<Rightarrow> usbfs firmware \<Rightarrow> usbfs firmware" where
  "setup_token req dev =
     (let h = put_pma (unat (uf_pma (usb_hw dev) 2) div 2) (pm_words req) (usb_hw dev);
          h = h\<lparr>uf_pma := (uf_pma h)(3 := (uf_pma h 3 AND 0xFC00) OR of_nat (length req))\<rparr>
      in dev\<lparr>usb_hw := set_ep0 ((ep0 h AND NOT 0x3030) OR 0xE860) h\<rparr>)"

text \<open>The empty packet of the status stage.\<close>

definition out_token :: "usbfs firmware \<Rightarrow> usbfs firmware option" where
  "out_token dev =
     (let h = usb_hw dev
      in if ep0 h AND 0x3000 = 0x3000
         then Some (dev\<lparr>usb_hw := (set_ep0 ((((ep0 h AND NOT 0x3800) OR 0xA000) XOR 0x4000)) h)
                \<lparr>uf_pma := (uf_pma h)(3 := uf_pma h 3 AND 0xFC00)\<rparr>\<rparr>)
         else None)"

function host_read :: "nat \<Rightarrow> usbfs firmware \<Rightarrow> (u8 list \<times> usbfs firmware) result" where
  "host_read want dev =
     (case in_token dev of
        None \<Rightarrow> Inl Blocked
      | Some (p, dev) \<Rightarrow>
          bindR (st_usbfs_poll usb_bus dev) (\<lambda>dev.
            if length p < 64 \<or> want \<le> length p then Inr (p, dev)
            else bindR (host_read (want - length p) dev) (\<lambda>(bs, dev). Inr (p @ bs, dev))))"
  by pat_completeness auto
termination by (relation "measure fst") auto

declare host_read.simps [simp del]

definition control_read :: "u8 list \<Rightarrow> usbfs firmware \<Rightarrow> (u8 list \<times> usbfs firmware) result" where
  "control_read req dev =
     bindR (st_usbfs_poll usb_bus (setup_token req dev)) (\<lambda>dev.
     bindR (host_read (unat (wLength req)) dev) (\<lambda>(bs, dev).
       case out_token dev of
         None \<Rightarrow> Inl Blocked
       | Some dev \<Rightarrow> bindR (st_usbfs_poll usb_bus dev) (\<lambda>dev. Inr (bs, dev))))"

section \<open>Devices of the firmware\<close>

text \<open>The address register.\<close>

definition daddr :: "usbfs \<Rightarrow> u32" where
  "daddr h = load_le 4 USB_DADDR_REG (uf_mem h)"

text \<open>
  What control transfers leave alone: the other endpoints with their entries in the buffer
  table and their buffers, the address, the callbacks and the application.
\<close>

definition ep0_pma :: "nat \<Rightarrow> bool" where
  "ep0_pma i \<longleftrightarrow> i < 4 \<or> 32 \<le> i \<and> i < 96"

type_synonym hw_view = "u32 \<times> (nat \<Rightarrow> u16) \<times> (nat \<Rightarrow> u16)"

definition hw_view :: "usbfs \<Rightarrow> hw_view" where
  "hw_view h = (daddr h, (\<lambda>i. if i = 0 then 0 else uf_ep h i), (\<lambda>i. if ep0_pma i then 0 else uf_pma h i))"

type_synonym app_view = "(nat \<Rightarrow> usb_transaction \<Rightarrow> usb_fn option) \<times> usb_fn option list \<times> usbfs monitor"

text \<open>What never changes, and a controller with view \<open>a\<close> and without other interrupts.\<close>

definition fw :: "app_view \<Rightarrow> usbfs firmware \<Rightarrow> bool" where
  "fw c dev \<longleftrightarrow> c = (user_callback_ctr dev, user_callback_set_config dev, usb_app dev) \<and>
     u_desc dev = usbDeviceDescriptor \<and> u_config dev = [usbConfigDescriptor] \<and>
     u_strings dev = Some usbStrings \<and> length (u_ctrl_buf dev) = 320 \<and> extra_string_idx dev = 0 \<and>
     user_callback_ctr dev 0 = (\<lambda>tr. case tr of USB_TRANSACTION_SETUP \<Rightarrow> Some F_control_setup
       | USB_TRANSACTION_OUT \<Rightarrow> Some F_control_out | USB_TRANSACTION_IN \<Rightarrow> Some F_control_in) \<and>
     length (force_nak dev) = 8 \<and> \<not> force_nak dev ! 1 \<and> length (cs_req dev) = 8"

definition quiet :: "hw_view \<Rightarrow> usbfs \<Rightarrow> bool" where
  "quiet a h \<longleftrightarrow> wired h \<and> hw_view h = a \<and> uf_flags h AND 0x7F00 = 0 \<and> (\<forall>i. 0 < i \<and> i < 8 \<longrightarrow> uf_ep h i AND 0x8080 = 0)"

lemma hw_view_eqI:
  "daddr h = daddr g \<Longrightarrow> (\<And>i. 0 < i \<Longrightarrow> uf_ep h i = uf_ep g i) \<Longrightarrow> (\<And>i. \<not> ep0_pma i \<Longrightarrow> uf_pma h i = uf_pma g i) \<Longrightarrow>
   hw_view h = hw_view g"
  by (auto simp: hw_view_def)

lemma quiet_cong:
  assumes "hw_view h = hw_view g" "btable h = btable g" "uf_flags h = uf_flags g"
    "uf_pma h 0 = uf_pma g 0" "uf_pma h 2 = uf_pma g 2"
  shows "quiet a h = quiet a g"
proof -
  have "uf_ep h i = uf_ep g i" if "0 < i" for i
    using assms(1) that by (auto simp: hw_view_def fun_eq_iff dest: spec [of _ i])
  then show ?thesis using assms by (auto simp: quiet_def wired_def)
qed

lemma quiet_eqI:
  assumes "uf_mem h = uf_mem g" "\<And>i. 0 < i \<Longrightarrow> uf_ep h i = uf_ep g i" "\<And>i. \<not> ep0_pma i \<Longrightarrow> uf_pma h i = uf_pma g i"
    "uf_flags h = uf_flags g" "uf_pma h 0 = uf_pma g 0" "uf_pma h 2 = uf_pma g 2"
  shows "quiet a h = quiet a g"
  using assms by (intro quiet_cong hw_view_eqI) (auto simp: btable_def daddr_def)

lemma fw_packet_size: "fw c dev \<Longrightarrow> bMaxPacketSize0 dev = 64"
  by (simp add: fw_def bMaxPacketSize0_def usbDeviceDescriptor_def le16_def)

lemma fw_hw [simp]: "fw c (dev\<lparr>usb_hw := h\<rparr>) = fw c dev" "fw c (dev\<lparr>cs_state := s\<rparr>) = fw c dev"
  "fw c (dev\<lparr>cs_buf := p\<rparr>) = fw c dev" "fw c (dev\<lparr>cs_len := n\<rparr>) = fw c dev" "fw c (dev\<lparr>cs_needs_zlp := z\<rparr>) = fw c dev"
  by (simp_all add: fw_def)

lemma quiet_ep0 [simp]: "quiet a (set_ep0 x h) = quiet a h"
  by (rule quiet_eqI) simp_all

lemma ep0_set [simp]: "ep0 (set_ep0 x h) = x" "set_ep0 y (set_ep0 x h) = set_ep0 y h"
  by (simp_all add: ep0_def)

section \<open>Polling\<close>

text \<open>The last statement of the polling function writes to the control register.\<close>

definition sofm :: "usbfs \<Rightarrow> usbfs" where
  "sofm = mmio_clear usb_bus USB_CNTR_REG USB_CNTR_SOFM"

lemma sofm_keeps:
  "uf_ep (sofm h) = uf_ep h" "uf_pma (sofm h) = uf_pma h" "uf_flags (sofm h) = uf_flags h" "btable (sofm h) = btable h" "daddr (sofm h) = daddr h"
  by (simp_all add: sofm_def mmio_clear_def mmio_modify_def mmio_read_def mmio_write_def usb_bus_def usbfs_read_def
      usbfs_write_def ep_index_def pma_index_def USB_CNTR_REG_def USB_ISTR_REG_def USB_DEV_FS_BASE_def btable_def
      USB_BTABLE_REG_def daddr_def USB_DADDR_REG_def load_store_other)

lemma quiet_sofm [simp]: "quiet a (sofm h) = quiet a h"
proof (rule quiet_cong)
  show "hw_view (sofm h) = hw_view h" by (rule hw_view_eqI) (simp_all add: sofm_keeps)
qed (simp_all add: sofm_keeps)

lemma ep0_sofm [simp]: "ep0 (sofm h) = ep0 h" "tx_bytes (sofm h) = tx_bytes h"
  by (simp_all add: sofm_keeps ep0_def tx_bytes_def pma_bytes_def)

lemma istr_ep0:
  assumes "quiet a h" "ep0 h AND 0x8080 \<noteq> 0"
  shows "istr h = (if ep0 h AND 0x8000 \<noteq> 0 then 0x8010 else 0x8000)"
proof -
  have "[0..<8] = 0 # [1..<8]" by (simp add: upt_conv_Cons)
  then have "pending h = Some 0" using assms(2) by (simp add: pending_def ep0_def)
  then show ?thesis using assms by (simp add: istr_def quiet_def ep0_def)
qed

lemma get_istr: "GET_REG usb_bus USB_ISTR_REG h = (istr h, h)"
  by (simp add: GET_REG_def mmio_read_def usb_bus_def usbfs_read_def ep_index_def pma_index_def USB_ISTR_REG_def
      USB_DEV_FS_BASE_def)

lemma poll_ep0:
  assumes "quiet a (usb_hw dev)" "ep0 (usb_hw dev) AND 0x8080 \<noteq> 0"
  shows "st_usbfs_poll usb_bus dev =
    bindR (poll_ctr usb_bus (istr (usb_hw dev)) dev) (\<lambda>dev. Inr (dev\<lparr>usb_hw := sofm (usb_hw dev)\<rparr>))"
  unfolding st_usbfs_poll_def get_istr prod.case istr_ep0 [OF assms] Let_def sofm_def
  by (simp add: USB_ISTR_RESET_def USB_ISTR_CTR_def USB_ISTR_SOF_def USB_ISTR_WKUP_def USB_ISTR_SUSP_def comp_def)

lemma poll_in:
  assumes "fw c dev" "quiet a (usb_hw dev)" "ep0 (usb_hw dev) AND 0x8080 = 0x0080"
  shows "st_usbfs_poll usb_bus dev =
    bindR (usbd_control_in usb_bus (dev\<lparr>usb_hw := set_ep0 (ep0 (usb_hw dev) AND NOT 0x0080) (usb_hw dev)\<rparr>))
      (\<lambda>dev. Inr (dev\<lparr>usb_hw := sofm (usb_hw dev)\<rparr>))"
proof -
  have "ep0 (usb_hw dev) AND 0x8000 = (ep0 (usb_hw dev) AND 0x8080) AND 0x8000" by (simp add: and.assoc)
  then have z: "ep0 (usb_hw dev) AND 0x8000 = 0" using assms(3) by simp
  have nz: "ep0 (usb_hw dev) AND 0x8080 \<noteq> 0" using assms(3) by simp
  show ?thesis
    unfolding poll_ep0 [OF assms(2) nz] istr_ep0 [OF assms(2) nz]
    using assms(1) z
    by (simp add: poll_ctr_def USB_ISTR_EP_ID_def USB_ISTR_DIR_def ep0_ops fw_def)
qed

section \<open>Sending on endpoint 0\<close>

definition loaded :: "u8 list \<Rightarrow> usbfs \<Rightarrow> usbfs" where
  "loaded bs h =
     (let h = put_pma 32 (pm_words bs) h; h = h\<lparr>uf_pma := (uf_pma h)(1 := of_nat (length bs))\<rparr>
      in set_ep0 ((ep0 h AND NOT 0x0030) OR 0x0030) h)"

lemma put_pma_keeps: "uf_ep (put_pma k ws h) = uf_ep h" "uf_flags (put_pma k ws h) = uf_flags h"
  "btable (put_pma k ws h) = btable h" "i < k \<Longrightarrow> uf_pma (put_pma k ws h) i = uf_pma h i"
  by (simp_all add: put_pma_def btable_def)

lemma ep0_loaded: "ep0 (loaded bs h) = (ep0 h AND NOT 0x0030) OR 0x0030"
  by (simp add: loaded_def Let_def ep0_def put_pma_keeps)

lemma quiet_loaded: "length bs \<le> 64 \<Longrightarrow> quiet a (loaded bs h) = quiet a h"
  by (rule quiet_eqI) (auto simp: loaded_def Let_def put_pma_def length_pm_words ep0_pma_def)

lemma tx_loaded:
  assumes "wired h" "length bs \<le> 64"
  shows "tx_bytes (loaded bs h) = bs"
proof -
  define g where "g = put_pma 32 (pm_words bs) h"
  have a: "uf_pma (loaded bs h) 0 = 0x40" "uf_pma (loaded bs h) 1 = of_nat (length bs)"
    using assms by (simp_all add: loaded_def Let_def wired_def put_pma_keeps)
  have n: "unat (of_nat (length bs) :: u16) = length bs" using assms(2) by (simp add: unat_of_nat)
  have "pma_bytes (loaded bs h) 64 (length bs) = pma_bytes g 64 (length bs)"
    by (rule nth_equalityI) (auto simp: pma_bytes_def loaded_def Let_def g_def)
  also have "\<dots> = bs" using pma_bytes_put [of 64 bs h] by (simp add: g_def)
  finally show ?thesis unfolding tx_bytes_def a n by simp
qed

lemma read_stat_ep0: "read_stat usb_bus 0 msk dev = (ucast (ep0 (usb_hw dev)) AND ucast msk, dev)"
  by (simp add: read_stat_def read_ep0)

lemma ucast_and_eq: "ucast (x :: u16) AND ucast (m :: u16) = (ucast (v :: u16) :: u32) \<longleftrightarrow> x AND m = v"
proof -
  have "ucast x AND ucast m = (ucast (x AND m) :: u32)" by (rule bit_word_eqI) (auto simp: bit_simps)
  then show ?thesis by (metis u16_u32)
qed

lemma send_loaded:
  assumes "wired (usb_hw dev)" "length bs \<le> 64" "ep0 (usb_hw dev) AND 0x0030 \<noteq> 0x0030"
  shows "send_ep0 usb_bus bs dev = upd_hw (loaded bs) dev"
proof -
  define h where "h = usb_hw dev"
  define g where "g = put_pma 32 (pm_words bs) h"
  have w: "wired h" "wired g"
    using assms(1) by (simp_all add: h_def g_def wired_def btable_def) (simp_all add: put_pma_def)
  have "st_usbfs_copy_to_pm usb_bus (USB_PMA_BASE + 4 * of_nat 32) bs h = g"
    using assms(2) by (subst copy_to_pm) (simp_all add: length_pm_words g_def)
  moreover have "ucast (ep0 h) AND ucast USB_EP_TX_STAT \<noteq> (ucast TX_VALID :: u32)"
    unfolding ucast_and_eq using assms(3) by (simp add: USB_EP_TX_STAT_def TX_VALID_def h_def)
  ultimately show ?thesis
    unfolding send_ep0_def st_usbfs_ep_write_packet_def
    using w stat_masks
    by (simp add: read_stat_ep0 btable_ep0 ep0_ops loaded_def Let_def flip: h_def g_def)
      (simp add: TX_VALID_def)
qed

section \<open>The data stage\<close>

text \<open>
  What the firmware still has to send when \<open>p\<close> waits in the packet memory: \<open>r\<close>, and an empty
  packet behind it when the host wants more than there is and would wait for another packet.
\<close>

definition zlp :: "nat \<Rightarrow> nat \<Rightarrow> bool" where
  "zlp n w \<longleftrightarrow> n < w \<and> n \<noteq> 0 \<and> n mod 64 = 0"

definition staged :: "app_view \<Rightarrow> hw_view \<Rightarrow> u8 list \<Rightarrow> u8 list \<Rightarrow> nat \<Rightarrow> usbfs firmware \<Rightarrow> bool" where
  "staged c a p r w dev \<longleftrightarrow>
     fw c dev \<and> quiet a (usb_hw dev) \<and> ep0 (usb_hw dev) AND 0x80B0 = 0x0030 \<and> tx_bytes (usb_hw dev) = p \<and>
     length p + length r \<le> w \<and>
     (if cs_state dev = DATA_IN
      then length p = 64 \<and> read_ptr (cs_buf dev) (unat (cs_len dev)) dev = Inr r \<and>
        cs_needs_zlp dev = zlp (length r) (w - 64) \<and> (r = [] \<longrightarrow> 64 < w)
      else cs_state dev = LAST_DATA_IN \<and> r = [] \<and> (length p < 64 \<or> length p = w))"

lemma read_ptr_length: "read_ptr p n dev = Inr bs \<Longrightarrow> length bs = n"
  by (auto simp: read_ptr_def split: data_ptr.splits if_splits)

lemma read_ptr_prefix: "read_ptr p n dev = Inr bs \<Longrightarrow> k \<le> n \<Longrightarrow> read_ptr p k dev = Inr (take k bs)"
  by (auto simp: read_ptr_def min_def split: data_ptr.splits if_splits)

lemma read_ptr_rest: "read_ptr p n dev = Inr bs \<Longrightarrow> k \<le> n \<Longrightarrow> read_ptr (move_ptr k p) (n - k) dev = Inr (drop k bs)"
  by (auto simp: read_ptr_def drop_take ac_simps split: data_ptr.splits if_splits)

lemma read_ptr_cong [simp]: "read_ptr p n (dev\<lparr>usb_hw := h\<rparr>) = read_ptr p n dev" "read_ptr p n (dev\<lparr>cs_state := s\<rparr>) = read_ptr p n dev"
  "read_ptr p n (dev\<lparr>cs_buf := q\<rparr>) = read_ptr p n dev" "read_ptr p n (dev\<lparr>cs_len := l\<rparr>) = read_ptr p n dev"
  "read_ptr p n (dev\<lparr>cs_needs_zlp := z\<rparr>) = read_ptr p n dev"
  by (simp_all add: read_ptr_def split: data_ptr.splits)

lemma ep0_bits:
  "x AND 0x80B0 = 0x0020 \<Longrightarrow> x AND 0x0030 \<noteq> (0x0030 :: u16)"
  "x AND 0x80B0 = 0x0020 \<Longrightarrow> ((x AND NOT 0x0030) OR 0x0030) AND 0x80B0 = (0x0030 :: u16)"
  "x AND 0x80B0 = 0x0030 \<Longrightarrow> x AND 0x0030 = (0x0030 :: u16)"
  "x AND 0x80B0 = 0x0030 \<Longrightarrow> (((x AND NOT 0x0030) OR 0x00A0) XOR 0x0040) AND 0x8080 = (0x0080 :: u16)"
  "x AND 0x80B0 = 0x0030 \<Longrightarrow> ((((x AND NOT 0x0030) OR 0x00A0) XOR 0x0040) AND NOT 0x0080) AND 0x80B0 = (0x0020 :: u16)"
proof -
  have a: "x AND 0x0030 = (x AND 0x80B0) AND (0x0030 :: u16)" for x by (simp add: and.assoc)
  show "x AND 0x80B0 = 0x0020 \<Longrightarrow> x AND 0x0030 \<noteq> (0x0030 :: u16)" by (subst a) simp
  show "x AND 0x80B0 = 0x0030 \<Longrightarrow> x AND 0x0030 = (0x0030 :: u16)" by (subst a) simp
  have "((x AND NOT 0x0030) OR 0x0030) AND 0x80B0 = ((x AND 0x80B0) AND 0x8080) OR (0x0030 :: u16)"
    by (rule word16_eqI, unfold all_bits_16) (auto simp: bit_simps)
  then show "x AND 0x80B0 = 0x0020 \<Longrightarrow> ((x AND NOT 0x0030) OR 0x0030) AND 0x80B0 = (0x0030 :: u16)" by simp
  have "(((x AND NOT 0x0030) OR 0x00A0) XOR 0x0040) AND 0x8080 = ((x AND 0x80B0) AND 0x8000) OR (0x0080 :: u16)"
    by (rule word16_eqI, unfold all_bits_16) (auto simp: bit_simps)
  then show "x AND 0x80B0 = 0x0030 \<Longrightarrow> (((x AND NOT 0x0030) OR 0x00A0) XOR 0x0040) AND 0x8080 = (0x0080 :: u16)" by simp
  have "((((x AND NOT 0x0030) OR 0x00A0) XOR 0x0040) AND NOT 0x0080) AND 0x80B0 = ((x AND 0x80B0) AND 0x8000) OR (0x0020 :: u16)"
    by (rule word16_eqI, unfold all_bits_16) (auto simp: bit_simps)
  then show "x AND 0x80B0 = 0x0030 \<Longrightarrow> ((((x AND NOT 0x0030) OR 0x00A0) XOR 0x0040) AND NOT 0x0080) AND 0x80B0 = (0x0020 :: u16)" by simp
qed

lemma send_staged:
  assumes dev: "fw c dev" "quiet a (usb_hw dev)" "ep0 (usb_hw dev) AND 0x80B0 = 0x0020"
    and bs: "read_ptr (cs_buf dev) (unat (cs_len dev)) dev = Inr bs" "length bs \<le> w" "cs_needs_zlp dev = zlp (length bs) w"
  shows "\<exists>dev'. usb_control_send_chunk usb_bus dev = Inr dev' \<and> staged c a (take 64 bs) (drop 64 bs) w dev'"
proof -
  have n: "unat (cs_len dev) = length bs" using read_ptr_length [OF bs(1)] by simp
  have c: "64 < cs_len dev \<longleftrightarrow> 64 < length bs" using n by (simp add: word_less_nat_alt)
  have snd: "send_ep0 usb_bus cs dev = upd_hw (loaded cs) dev" if "length cs \<le> 64" for cs
    using dev(2) that ep0_bits(1) [OF dev(3)] by (intro send_loaded) (simp_all add: quiet_def)
  have tx: "tx_bytes (loaded cs (usb_hw dev)) = cs" if "length cs \<le> 64" for cs
    using dev(2) that by (intro tx_loaded) (simp_all add: quiet_def)
  show ?thesis
  proof (cases "64 < length bs")
    case True
    have r: "read_ptr (cs_buf dev) 64 dev = Inr (take 64 bs)"
      "read_ptr (move_ptr 64 (cs_buf dev)) (length bs - 64) dev = Inr (drop 64 bs)"
      using read_ptr_prefix [OF bs(1)] read_ptr_rest [OF bs(1)] True n by simp_all
    have l: "unat (cs_len dev - 64) = length bs - 64" using c True n by (simp add: unat_sub word_le_nat_alt)
    have z: "zlp (length bs) w = zlp (length bs - 64) (w - 64)"
      using True bs(2) le_mod_geq [of 64 "length bs"] by (auto simp: zlp_def)
    show ?thesis
      using True c r l z dev bs(2,3) snd tx ep0_bits(2) [OF dev(3)]
      by (simp add: usb_control_send_chunk_def fw_packet_size staged_def ep0_loaded quiet_loaded)
  next
    case False
    have "\<not> zlp (length bs) w \<Longrightarrow> length bs < 64 \<or> length bs = w" "zlp (length bs) w \<Longrightarrow> length bs = 64 \<and> 64 < w \<and> length bs < w"
      using False bs(2) by (cases "length bs = 64"; auto simp: zlp_def)+
    moreover have "read_ptr NullPtr 0 dev = Inr []" "\<not> zlp 0 (w - 64)" by (simp_all add: read_ptr_def zlp_def)
    ultimately show ?thesis
      using False c n bs dev snd tx ep0_bits(2) [OF dev(3)]
      by (simp add: usb_control_send_chunk_def fw_packet_size staged_def ep0_loaded quiet_loaded)
  qed
qed

text \<open>The host has taken everything; the firmware waits for the empty packet of the status stage.\<close>

definition status_out :: "app_view \<Rightarrow> hw_view \<Rightarrow> usbfs firmware \<Rightarrow> bool" where
  "status_out c a dev \<longleftrightarrow>
     fw c dev \<and> quiet a (usb_hw dev) \<and> ep0 (usb_hw dev) AND 0xB080 = 0x3000 \<and> cs_state dev = STATUS_OUT"

lemma read_ptr_hw [simp]: "read_ptr p n (upd_hw f dev) = read_ptr p n dev"
  by simp

lemma staged_sofm: "staged c a p r w (dev\<lparr>usb_hw := sofm (usb_hw dev)\<rparr>) = staged c a p r w dev"
  unfolding staged_def by simp

lemma in_step:
  assumes "staged c a p r w dev"
  obtains dev1 dev2 where "in_token dev = Some (p, dev1)" "st_usbfs_poll usb_bus dev1 = Inr dev2"
    "if cs_state dev = DATA_IN then staged c a (take 64 r) (drop 64 r) (w - 64) dev2 else status_out c a dev2"
proof -
  define h where "h = usb_hw dev"
  define h1 where "h1 = set_ep0 (((ep0 h AND NOT 0x0030) OR 0x00A0) XOR 0x0040) h"
  define dev1 where "dev1 = dev\<lparr>usb_hw := h1\<rparr>"
  define h2 where "h2 = set_ep0 (ep0 h1 AND NOT 0x0080) h1"
  have s: "fw c dev" "quiet a h" "ep0 h AND 0x80B0 = 0x0030" "tx_bytes h = p"
    using assms by (simp_all add: staged_def h_def)
  have e: "ep0 h AND 0x0030 = 0x0030" "ep0 h1 AND 0x8080 = 0x0080" "ep0 h2 AND 0x80B0 = 0x0020"
    using ep0_bits(3-5) [OF s(3)] by (simp_all add: h1_def h2_def)
  have i: "in_token dev = Some (p, dev1)"
    using e(1) s(4) by (simp add: in_token_def Let_def dev1_def h1_def h_def)
  have q: "quiet a h1" "quiet a h2" using s(2) by (simp_all add: h1_def h2_def)
  have p: "st_usbfs_poll usb_bus dev1 =
      bindR (usbd_control_in usb_bus (dev\<lparr>usb_hw := h2\<rparr>)) (\<lambda>dev. Inr (dev\<lparr>usb_hw := sofm (usb_hw dev)\<rparr>))"
    using s(1) q e(2) by (subst poll_in) (simp_all add: dev1_def h2_def)
  show ?thesis
  proof (cases "cs_state dev = DATA_IN")
    case True
    have "\<exists>dev'. usb_control_send_chunk usb_bus (dev\<lparr>usb_hw := h2\<rparr>) = Inr dev' \<and>
        staged c a (take 64 r) (drop 64 r) (w - 64) dev'"
      using assms True s(1) q(2) e(3) by (intro send_staged) (auto simp: staged_def)
    then obtain dev' where d: "usb_control_send_chunk usb_bus (dev\<lparr>usb_hw := h2\<rparr>) = Inr dev'"
      "staged c a (take 64 r) (drop 64 r) (w - 64) dev'" by blast
    have "st_usbfs_poll usb_bus dev1 = Inr (dev'\<lparr>usb_hw := sofm (usb_hw dev')\<rparr>)"
      using d(1) True by (simp add: p usbd_control_in_def)
    from that [OF i this] d(2) True show ?thesis by (simp only: staged_sofm if_True simp_thms)
  next
    case False
    define dev2 where "dev2 = dev\<lparr>force_nak := (force_nak dev)[0 := False], cs_state := STATUS_OUT,
      usb_hw := sofm (set_ep0 ((ep0 h2 AND NOT 0x3000) OR 0x3000) h2)\<rparr>"
    have l: "cs_state dev = LAST_DATA_IN" using assms False by (simp add: staged_def)
    have "((x AND NOT 0x3000) OR 0x3000) AND 0xB080 = (0x3000 :: u16)" if "x AND 0x80B0 = 0x0020" for x
    proof -
      have "((x AND NOT 0x3000) OR 0x3000) AND 0xB080 = ((x AND 0x80B0) AND 0x8080) OR (0x3000 :: u16)"
        by (rule word16_eqI, unfold all_bits_16) (auto simp: bit_simps)
      then show ?thesis using that by simp
    qed
    from this [OF e(3)] have "status_out c a dev2"
      using s(1) q(2) by (simp add: status_out_def dev2_def fw_def)
    moreover have "st_usbfs_poll usb_bus dev1 = Inr dev2"
      unfolding p usbd_control_in_def
      by (simp add: l dev2_def st_usbfs_ep_nak_set_def ep0_ops stat_masks) (simp add: RX_VALID_def)
    ultimately show ?thesis using i False by (intro that [of dev1 dev2]) simp_all
  qed
qed

lemma host_reads:
  "staged c a p r w dev \<Longrightarrow> \<exists>dev'. host_read w dev = Inr (p @ r, dev') \<and> status_out c a dev'"
proof (induction w arbitrary: p r dev rule: less_induct)
  case (less w)
  obtain dev1 dev2 where d: "in_token dev = Some (p, dev1)" "st_usbfs_poll usb_bus dev1 = Inr dev2"
    "if cs_state dev = DATA_IN then staged c a (take 64 r) (drop 64 r) (w - 64) dev2 else status_out c a dev2"
    using in_step [OF less.prems] .
  show ?case
  proof (cases "cs_state dev = DATA_IN")
    case True
    then have s: "length p = 64" "64 + length r \<le> w" "r = [] \<longrightarrow> 64 < w" using less.prems by (simp_all add: staged_def)
    then have w: "64 < w" by (cases r) auto
    obtain dev' where "host_read (w - 64) dev2 = Inr (take 64 r @ drop 64 r, dev')" "status_out c a dev'"
      using less.IH [of "w - 64"] d(3) True w by force
    then show ?thesis using d(1,2) s(1) w by (subst host_read.simps) simp
  next
    case False
    then have "r = []" "length p < 64 \<or> length p = w" using less.prems by (auto simp: staged_def)
    then show ?thesis using d False by (subst host_read.simps) auto
  qed
qed

section \<open>The setup and the status stage\<close>

lemma setup_bits:
  "((x AND NOT 0x3030) OR 0xE860) AND 0x8080 \<noteq> (0 :: u16)" "((x AND NOT 0x3030) OR 0xE860) AND 0x8000 \<noteq> (0 :: u16)"
  "((x AND NOT 0x3030) OR 0xE860) AND 0x3000 = (0x2000 :: u16)" "((x AND NOT 0x3030) OR 0xE860) AND 0x0800 = (0x0800 :: u16)"
  "x AND 0x8080 = 0 \<Longrightarrow> (((x AND NOT 0x3030) OR 0xE860) AND NOT 0x8000) AND 0x80B0 = (0x0020 :: u16)"
  "x AND 0x80B0 = 0x0020 \<Longrightarrow> ((x AND NOT 0x3000) OR 0x3000) AND 0x80B0 = (0x0020 :: u16)"
  "x AND 0x80B0 = 0x0020 \<Longrightarrow> ((x AND NOT 0x3000) OR 0x2000) AND 0x80B0 = (0x0020 :: u16)"
  "((n AND 0xFC00) OR 8) AND 0x03FF = (8 :: u16)"
proof -
  have e: "((x AND NOT 0x3030) OR 0xE860) AND 0x8080 = (x AND 0x0080) OR (0x8000 :: u16)" for x
    by (rule word16_eqI, unfold all_bits_16) (auto simp: bit_simps)
  have "((x AND 0x0080) OR 0x8000) AND 0x8000 = (0x8000 :: u16)"
    by (rule word16_eqI, unfold all_bits_16) (auto simp: bit_simps)
  then have "(x AND 0x0080) OR 0x8000 \<noteq> (0 :: u16)" by (intro notI) simp
  then show "((x AND NOT 0x3030) OR 0xE860) AND 0x8080 \<noteq> (0 :: u16)" by (simp only: e not_False_eq_True)
  have "((x AND NOT 0x3030) OR 0xE860) AND 0x8000 = (0x8000 :: u16)"
    by (rule word16_eqI, unfold all_bits_16) (auto simp: bit_simps)
  then show "((x AND NOT 0x3030) OR 0xE860) AND 0x8000 \<noteq> (0 :: u16)" by simp
  show "((x AND NOT 0x3030) OR 0xE860) AND 0x3000 = (0x2000 :: u16)" "((x AND NOT 0x3030) OR 0xE860) AND 0x0800 = (0x0800 :: u16)"
    "((n AND 0xFC00) OR 8) AND 0x03FF = (8 :: u16)"
    by (rule word16_eqI, unfold all_bits_16, auto simp: bit_simps)+
  have "(((x AND NOT 0x3030) OR 0xE860) AND NOT 0x8000) AND 0x80B0 = ((x AND 0x8080) AND 0x0080) OR (0x0020 :: u16)"
    by (rule word16_eqI, unfold all_bits_16) (auto simp: bit_simps)
  then show "x AND 0x8080 = 0 \<Longrightarrow> (((x AND NOT 0x3030) OR 0xE860) AND NOT 0x8000) AND 0x80B0 = (0x0020 :: u16)" by simp
  have "((x AND NOT 0x3000) OR 0x3000) AND 0x80B0 = (x AND 0x80B0 :: u16)" "((x AND NOT 0x3000) OR 0x2000) AND 0x80B0 = (x AND 0x80B0 :: u16)"
    by (rule word16_eqI, unfold all_bits_16, auto simp: bit_simps)+
  then show "x AND 0x80B0 = 0x0020 \<Longrightarrow> ((x AND NOT 0x3000) OR 0x3000) AND 0x80B0 = (0x0020 :: u16)"
    "x AND 0x80B0 = 0x0020 \<Longrightarrow> ((x AND NOT 0x3000) OR 0x2000) AND 0x80B0 = (0x0020 :: u16)" by simp_all
qed

text \<open>The packet that the controller has received on endpoint 0.\<close>

definition rx_bytes :: "usbfs \<Rightarrow> u8 list" where
  "rx_bytes h = pma_bytes h 128 (unat (uf_pma h 3 AND 0x03FF))"

lemma read_packet_ep0:
  assumes "wired (usb_hw dev)" "ep0 (usb_hw dev) AND 0x3000 = 0x2000" "uf_pma (usb_hw dev) 3 AND 0x03FF \<le> 64"
  shows "st_usbfs_ep_read_packet usb_bus 0 n dev =
    (take (unat n) (rx_bytes (usb_hw dev)), upd_hw (\<lambda>h. let x = ep0 h AND NOT 0x8000
       in set_ep0 (if force_nak dev ! 0 then x else (x AND NOT 0x3000) OR 0x3000) h) dev)"
proof -
  define c where "c = uf_pma (usb_hw dev) 3 AND 0x03FF"
  have "unat (min c n) = min (unat c) (unat n)" by (simp add: min_def word_le_nat_alt)
  moreover have "unat c \<le> 64" using assms(3) by (simp add: c_def word_le_nat_alt)
  moreover have "pma_bytes h t (min a k) = take k (pma_bytes h t a)" for h t a k
    by (rule nth_equalityI) (auto simp: pma_bytes_def)
  ultimately have "st_usbfs_copy_from_pm usb_bus (USB_PMA_BASE + 4 * of_nat 64) (unat (min c n)) (usb_hw dev) =
      (take (unat n) (rx_bytes (usb_hw dev)), usb_hw dev)"
    using copy_from_pm [of 64 "unat (min c n)" "usb_hw dev"] by (simp add: rx_bytes_def c_def)
  moreover have "ucast (ep0 (usb_hw dev)) AND ucast USB_EP_RX_STAT \<noteq> (ucast RX_VALID :: u32)"
    unfolding ucast_and_eq using assms(2) by (simp add: USB_EP_RX_STAT_def RX_VALID_def)
  ultimately show ?thesis
    unfolding st_usbfs_ep_read_packet_def
    using assms(1) by (simp add: read_stat_ep0 btable_ep0 ep0_ops stat_masks Let_def c_def) (simp add: RX_VALID_def)
qed

lemma poll_setup:
  assumes dev: "fw c dev" "quiet a (usb_hw dev)" "ep0 (usb_hw dev) AND 0x8080 = 0" and req: "length req = 8"
  shows "\<exists>h. quiet a h \<and> ep0 h AND 0x80B0 = 0x0020 \<and> st_usbfs_poll usb_bus (setup_token req dev) =
    bindR (usbd_control_setup usb_bus (dev\<lparr>usb_hw := h, cs_req := req\<rparr>)) (\<lambda>dev. Inr (dev\<lparr>usb_hw := sofm (usb_hw dev)\<rparr>))"
proof -
  define h where "h = usb_hw dev"
  define h1 where "h1 = usb_hw (setup_token req dev)"
  have st: "setup_token req dev = dev\<lparr>usb_hw := h1\<rparr>" by (simp add: h1_def setup_token_def Let_def)
  have w: "wired h" using dev(2) by (simp add: quiet_def h_def)
  have e1: "ep0 h1 = (ep0 h AND NOT 0x3030) OR 0xE860"
    by (simp add: h1_def setup_token_def Let_def h_def) (simp add: ep0_def put_pma_keeps)
  have "quiet a h1 = quiet a h"
    using w req by (intro quiet_eqI)
      (auto simp: h1_def setup_token_def Let_def put_pma_def length_pm_words ep0_pma_def wired_def simp flip: h_def)
  then have q1: "quiet a h1" using dev(2) by (simp add: h_def)
  have c: "uf_pma h1 3 = (uf_pma h 3 AND 0xFC00) OR 8"
    using w req by (simp add: h1_def setup_token_def Let_def wired_def put_pma_keeps flip: h_def)
  have "rx_bytes h1 = pma_bytes (put_pma (128 div 2) (pm_words req) h) 128 8"
    unfolding rx_bytes_def c setup_bits
    using w by (intro nth_equalityI) (auto simp: h1_def setup_token_def Let_def wired_def pma_bytes_def simp flip: h_def)
  also have "\<dots> = req" using pma_bytes_put [of 128 req h] req by simp
  finally have rx: "rx_bytes h1 = req" .
  define x where "x = ep0 h1 AND NOT 0x8000"
  define h2 where "h2 = set_ep0 (if force_nak dev ! 0 then x else (x AND NOT 0x3000) OR 0x3000) h1"
  have x: "x AND 0x80B0 = 0x0020" using setup_bits(5) dev(3) by (simp add: x_def e1 h_def)
  have "ep0 h2 AND 0x80B0 = 0x0020" using x setup_bits(6) by (simp add: h2_def)
  moreover have "quiet a h2" using q1 by (simp add: h2_def)
  moreover have "st_usbfs_ep_read_packet usb_bus 0 8 (dev\<lparr>usb_hw := h1\<rparr>) = (req, dev\<lparr>usb_hw := h2\<rparr>)"
    using q1 rx req c setup_bits(3,8)
    by (subst read_packet_ep0) (simp_all add: quiet_def e1 h2_def x_def Let_def)
  moreover have "ucast (ep0 h1) AND ucast USB_EP_SETUP \<noteq> (0 :: u32)"
    using ucast_and_eq [of "ep0 h1" USB_EP_SETUP 0] setup_bits(4) by (simp add: e1 USB_EP_SETUP_def)
  moreover have "istr h1 = 0x8010" using istr_ep0 [OF q1] setup_bits(1,2) by (simp add: e1)
  moreover have "blit 0 req (cs_req dev) = req" using dev(1) req by (simp add: blit_front fw_def)
  ultimately show ?thesis
    using dev(1) q1 setup_bits(1) unfolding st
    by (intro exI [of _ h2]) (subst poll_ep0;
      simp add: poll_ctr_def read_ep0 USB_ISTR_EP_ID_def USB_ISTR_DIR_def fw_def e1)
qed

text \<open>A device that answers requests: endpoint 0 has no transfer that was not looked at.\<close>

definition enumerable :: "app_view \<Rightarrow> hw_view \<Rightarrow> usbfs firmware \<Rightarrow> bool" where
  "enumerable c a dev \<longleftrightarrow> fw c dev \<and> quiet a (usb_hw dev) \<and> ep0 (usb_hw dev) AND 0x8080 = 0"

lemma enumerable_sofm [simp]: "enumerable c a (dev\<lparr>usb_hw := sofm (usb_hw dev)\<rparr>) = enumerable c a dev"
  by (simp add: enumerable_def)

lemma status_bits:
  "x AND 0xB080 = 0x3000 \<Longrightarrow> x AND 0x3000 = (0x3000 :: u16)"
  "(((x AND NOT 0x3800) OR 0xA000) XOR 0x4000) AND 0x8000 = (0x8000 :: u16)"
  "(((x AND NOT 0x3800) OR 0xA000) XOR 0x4000) AND 0x8080 \<noteq> (0 :: u16)"
  "(((x AND NOT 0x3800) OR 0xA000) XOR 0x4000) AND 0x0800 = (0 :: u16)"
  "(((x AND NOT 0x3800) OR 0xA000) XOR 0x4000) AND 0x3000 = (0x2000 :: u16)"
  "x AND 0xB080 = 0x3000 \<Longrightarrow> ((((x AND NOT 0x3800) OR 0xA000) XOR 0x4000) AND NOT 0x8000) AND 0x8080 = (0 :: u16)"
  "((x AND NOT 0x3000) OR 0x3000) AND 0x8080 = (x AND 0x8080 :: u16)"
  "(n AND 0xFC00) AND 0x03FF = (0 :: u16)"
proof -
  have "x AND 0x3000 = (x AND 0xB080) AND (0x3000 :: u16)" by (simp add: and.assoc)
  then show "x AND 0xB080 = 0x3000 \<Longrightarrow> x AND 0x3000 = (0x3000 :: u16)" by simp
  show a: "(((x AND NOT 0x3800) OR 0xA000) XOR 0x4000) AND 0x8000 = (0x8000 :: u16)"
    by (rule word16_eqI, unfold all_bits_16) (auto simp: bit_simps)
  show "(((x AND NOT 0x3800) OR 0xA000) XOR 0x4000) AND 0x0800 = (0 :: u16)"
    "(((x AND NOT 0x3800) OR 0xA000) XOR 0x4000) AND 0x3000 = (0x2000 :: u16)"
    "((x AND NOT 0x3000) OR 0x3000) AND 0x8080 = (x AND 0x8080 :: u16)" "(n AND 0xFC00) AND 0x03FF = (0 :: u16)"
    by (rule word16_eqI, unfold all_bits_16, auto simp: bit_simps)+
  have e: "y AND 0x8000 = (y AND 0x8080) AND (0x8000 :: u16)" for y by (simp add: and.assoc)
  show "(((x AND NOT 0x3800) OR 0xA000) XOR 0x4000) AND 0x8080 \<noteq> (0 :: u16)"
    using a e [of "((x AND NOT 0x3800) OR 0xA000) XOR 0x4000"] by (intro notI) simp
  have "((((x AND NOT 0x3800) OR 0xA000) XOR 0x4000) AND NOT 0x8000) AND 0x8080 = (x AND 0xB080) AND (0x0080 :: u16)"
    by (rule word16_eqI, unfold all_bits_16) (auto simp: bit_simps)
  then show "x AND 0xB080 = 0x3000 \<Longrightarrow> ((((x AND NOT 0x3800) OR 0xA000) XOR 0x4000) AND NOT 0x8000) AND 0x8080 = (0 :: u16)" by simp
qed

lemma status_stage:
  assumes "status_out c a dev"
  obtains dev1 dev2 where "out_token dev = Some dev1" "st_usbfs_poll usb_bus dev1 = Inr dev2" "enumerable c a dev2"
proof -
  define h where "h = usb_hw dev"
  define h1 where "h1 = (set_ep0 ((((ep0 h AND NOT 0x3800) OR 0xA000) XOR 0x4000)) h)\<lparr>uf_pma := (uf_pma h)(3 := uf_pma h 3 AND 0xFC00)\<rparr>"
  define dev1 where "dev1 = dev\<lparr>usb_hw := h1\<rparr>"
  define x where "x = ep0 h1 AND NOT 0x8000"
  define h2 where "h2 = set_ep0 (if force_nak dev ! 0 then x else (x AND NOT 0x3000) OR 0x3000) h1"
  have s: "fw c dev" "quiet a h" "ep0 h AND 0xB080 = 0x3000" "cs_state dev = STATUS_OUT"
    using assms by (simp_all add: status_out_def h_def)
  have e1: "ep0 h1 = ((ep0 h AND NOT 0x3800) OR 0xA000) XOR 0x4000" "uf_pma h1 3 AND 0x03FF = 0"
    using status_bits(8) by (simp_all add: h1_def ep0_def)
  have "quiet a h1 = quiet a h" by (rule quiet_eqI) (auto simp: h1_def ep0_pma_def)
  then have q1: "quiet a h1" using s(2) by simp
  have o: "out_token dev = Some dev1"
    using status_bits(1) [OF s(3)] by (simp add: out_token_def Let_def dev1_def h1_def flip: h_def)
  have i: "istr h1 = 0x8010" using istr_ep0 [OF q1] status_bits(2,3) by (simp add: e1)
  have r: "st_usbfs_ep_read_packet usb_bus 0 0 dev1 = ([], dev\<lparr>usb_hw := h2\<rparr>)"
    using q1 status_bits(5) e1 by (subst read_packet_ep0) (simp_all add: dev1_def quiet_def h2_def x_def Let_def)
  have "ucast (ep0 h1) AND ucast USB_EP_SETUP = (0 :: u32)"
    using ucast_and_eq [of "ep0 h1" USB_EP_SETUP 0] status_bits(4) by (simp add: e1 USB_EP_SETUP_def)
  then have "poll_ctr usb_bus (istr h1) dev1 = Inr (dev\<lparr>usb_hw := h2, cs_state := IDLE\<rparr>)"
    using s(1,4) r i
    by (simp add: poll_ctr_def read_ep0 USB_ISTR_EP_ID_def USB_ISTR_DIR_def fw_def usbd_control_out_def dev1_def)
  then have "st_usbfs_poll usb_bus dev1 = Inr (dev\<lparr>usb_hw := sofm h2, cs_state := IDLE\<rparr>)"
    using q1 status_bits(3) by (subst poll_ep0) (simp_all add: dev1_def e1)
  moreover have "enumerable c a (dev\<lparr>usb_hw := sofm h2, cs_state := IDLE\<rparr>)"
    using s(1) q1 status_bits(6,7) s(3) by (simp add: enumerable_def h2_def x_def e1)
  ultimately show ?thesis using that o by blast
qed

section \<open>The descriptors\<close>

definition string_descriptor :: "u8 list \<Rightarrow> u8 list" where
  "string_descriptor s = [of_nat (2 * length s + 2), 3] @ concat (map (\<lambda>c. [c, 0]) s)"

text \<open>The configuration with its interface and endpoints, and the length of all that in bytes 2 and 3.\<close>

definition configuration :: "u8 list" where
  "configuration = blit 2 (le16 39) (concat (config_chunks usbConfigDescriptor))"

definition fw_descriptor :: "u8 \<Rightarrow> u8 \<Rightarrow> u8 list option" where
  "fw_descriptor ty ix =
     (if ty = 1 then Some usbDeviceDescriptor
      else if ty = 2 \<and> ix = 0 then Some configuration
      else if ty = 3 \<and> ix = 0 then Some [4, 3, 9, 4]
      else if ty = 3 \<and> ix \<le> 7 then Some (string_descriptor (usbStrings ! (unat ix - 1)))
      else None)"

definition get_descriptor :: "u8 \<Rightarrow> u8 \<Rightarrow> u16 \<Rightarrow> u16 \<Rightarrow> u8 list" where
  "get_descriptor ty ix lang wlen = [0x80, 6, ix, ty] @ le16 lang @ le16 wlen"

lemma get_descriptor_fields:
  "length (get_descriptor ty ix lang wlen) = 8" "bmRequestType (get_descriptor ty ix lang wlen) = 0x80"
  "bRequest (get_descriptor ty ix lang wlen) = 6" "wIndex (get_descriptor ty ix lang wlen) = lang"
  "wLength (get_descriptor ty ix lang wlen) = wlen"
  "usb_descriptor_type (wValue (get_descriptor ty ix lang wlen)) = ucast ty"
  "usb_descriptor_index (wValue (get_descriptor ty ix lang wlen)) = ucast ix"
proof -
  have "drop_bit 8 (rd16 [ix, ty] :: u16) = ucast ty" "rd16 [ix, ty] AND 0xFF = (ucast ix :: u16)"
    by (rule word16_eqI, unfold all_bits_16, auto simp: rd16_def bit_simps not_bit_u8)+
  moreover have "rd16 [ix, ty, a, b, c, d] = rd16 [ix, ty]" for a b c d by (simp add: rd16_def)
  ultimately show "usb_descriptor_type (wValue (get_descriptor ty ix lang wlen)) = ucast ty"
    "usb_descriptor_index (wValue (get_descriptor ty ix lang wlen)) = ucast ix"
    by (simp_all add: get_descriptor_def wValue_def usb_descriptor_type_def usb_descriptor_index_def le16_def)
qed (use rd16_le16 [of _ "[]"] rd16_le16 in \<open>simp_all add: get_descriptor_def bmRequestType_def bRequest_def wIndex_def wLength_def\<close>)

lemma no_callback: "usbControlCallback req = None \<Longrightarrow> call_control_callbacks req cbs = None"
  by (induction req cbs rule: call_control_callbacks.induct) simp_all

lemma put_chunks:
  "unat sent + length (concat cs) \<le> length (u_ctrl_buf dev) \<Longrightarrow> length (u_ctrl_buf dev) < 65536 \<Longrightarrow>
   put_chunks cs len sent tot dev =
     Inr (sent + of_nat (min (unat len) (length (concat cs))), tot + of_nat (length (concat cs)),
       dev\<lparr>u_ctrl_buf := blit (unat sent) (take (unat len) (concat cs)) (u_ctrl_buf dev)\<rparr>)"
proof (induction cs arbitrary: len sent tot dev)
  case (Cons c cs)
  define count where "count = min len (of_nat (length c))"
  have n: "unat (of_nat (length c) :: u16) = length c" using Cons.prems by (simp add: unat_of_nat)
  have u: "unat count = min (unat len) (length c)" unfolding count_def by (simp add: min_def word_le_nat_alt n)
  have s: "unat (sent + count) = unat sent + unat count" using Cons.prems u by (simp add: unat_word_ariths)
  have l: "unat (len - count) = unat len - unat count" using u by (simp add: unat_sub word_le_nat_alt)
  define dev1 where "dev1 = dev\<lparr>u_ctrl_buf := blit (unat sent) (take (unat count) c) (u_ctrl_buf dev)\<rparr>"
  have t: "length (take (unat count) c) = unat count" using u by simp
  have b: "length (u_ctrl_buf dev1) = length (u_ctrl_buf dev)"
    unfolding dev1_def using Cons.prems t by (simp add: length_blit)
  have w: "write_ctrl (unat sent) (take (unat count) c) dev = Inr dev1"
    unfolding write_ctrl_def dev1_def using Cons.prems t u by simp
  have ih: "put_chunks cs (len - count) (sent + count) (tot + of_nat (length c)) dev1 =
      Inr (sent + count + of_nat (min (unat (len - count)) (length (concat cs))),
        tot + of_nat (length c) + of_nat (length (concat cs)),
        dev1\<lparr>u_ctrl_buf := blit (unat (sent + count)) (take (unat (len - count)) (concat cs)) (u_ctrl_buf dev1)\<rparr>)"
    using Cons.prems b s u by (intro Cons.IH) simp_all
  have m: "unat count + min (unat len - unat count) k = min (unat len) (length c + k)" for k using u by (auto simp: min_def)
  have "sent + count + of_nat (min (unat (len - count)) (length (concat cs))) =
      sent + of_nat (unat count + min (unat len - unat count) (length (concat cs)))"
    by (simp only: l of_nat_add unat_of_nat word_of_nat_eq_iff) simp
  moreover have "blit (unat (sent + count)) (take (unat (len - count)) (concat cs)) (u_ctrl_buf dev1) =
      blit (unat sent) (take (unat len) (c @ concat cs)) (u_ctrl_buf dev)"
  proof -
    have "blit (unat sent + length (take (unat count) c)) (take (unat len - unat count) (concat cs))
        (blit (unat sent) (take (unat count) c) (u_ctrl_buf dev)) =
      blit (unat sent) (take (unat count) c @ take (unat len - unat count) (concat cs)) (u_ctrl_buf dev)"
      using Cons.prems t u by (intro blit_append) simp
    moreover have "take (unat count) c @ take (unat len - unat count) (concat cs) = take (unat len) (c @ concat cs)"
      using u by (simp add: min_def)
    ultimately show ?thesis unfolding dev1_def s l t by simp
  qed
  ultimately show ?case
    unfolding put_chunks.simps Let_def count_def [symmetric] w bindR_simps ih by (simp add: m dev1_def)
qed simp

lemma take_string: "take (2 * k) (concat (map (\<lambda>c. [c, 0]) s)) = concat (map (\<lambda>c. [c, 0]) (take k s))"
proof (induction k arbitrary: s)
  case (Suc k)
  then show ?case by (cases s) simp_all
qed simp

lemma length_string_descriptor: "length (string_descriptor s) = 2 * length s + 2"
  by (simp add: string_descriptor_def length_concat comp_def sum_list_triv)

lemma unat_u8_u16: "unat (ucast (w :: u8) :: u16) = unat w"
proof -
  have "unat w < 2 ^ LENGTH(8)" by (rule unsigned_less)
  then show ?thesis by (simp add: unsigned_ucast_eq take_bit_nat_eq_self)
qed

lemma put_string:
  assumes s: "length s < 100" and buf: "length (u_ctrl_buf dev) = 320"
    and len: "len \<noteq> 0" "even (unat len) \<or> length (string_descriptor s) \<le> unat len"
  shows "\<exists>B n. length B = 320 \<and> put_string s len dev = Inr (USBD_REQ_HANDLED, CtrlPtr 0, n, dev\<lparr>u_ctrl_buf := B\<rparr>) \<and>
    read_ptr (CtrlPtr 0) (unat n) (dev\<lparr>u_ctrl_buf := B\<rparr>) = Inr (take (unat len) (string_descriptor s))"
proof -
  define bl :: u8 where "bl = of_nat (length s * 2 + 2)"
  define n where "n = min len (ucast bl)"
  define k where "k = unat n div 2 - 1"
  have bl: "unat bl = 2 * length s + 2" using s unfolding bl_def unat_of_nat by simp
  then have n: "unat n = min (unat len) (2 * length s + 2)"
    by (simp add: n_def min_def word_le_nat_alt unat_u8_u16)
  have "even (unat n)" using len(2) n by (auto simp: min_def length_string_descriptor)
  moreover have "unat len \<noteq> 0" using len(1) by (simp add: unat_eq_zero)
  then have "unat n \<noteq> 0" using n by simp
  ultimately have k: "unat n = 2 * k + 2" by (auto simp: k_def elim!: evenE)
  define bs where "bs = take (unat len) (string_descriptor s)"
  have "bs = take (2 * k + 2) (string_descriptor s)"
    using n k length_string_descriptor [of s] by (auto simp: bs_def min_def split: if_splits)
  also have "\<dots> = [bl, 3] @ concat (map (\<lambda>c. [c, 0]) (take k s))"
    using take_string [of k s] by (simp add: string_descriptor_def bl_def mult.commute)
  finally have bs: "[bl, 3] @ concat (map (\<lambda>c. [c, 0]) (take k s)) = bs" ..
  have "le16 (ucast c) = [c, 0]" for c :: u8
    by (simp add: le16_def) (intro conjI bit_word_eqI; simp add: bit_simps not_bit_u8)
  then have w: "put_string s len dev = bindR (write_ctrl 0 bs dev) (\<lambda>dev. Inr (USBD_REQ_HANDLED, CtrlPtr 0, n, dev))"
    unfolding put_string_def Let_def bl_def [symmetric] n_def [symmetric] k_def [symmetric] by (simp only: bs)
  have lb: "length bs = unat n" using n by (simp add: bs_def length_string_descriptor)
  moreover have "length bs \<le> 320" using lb n s by simp
  ultimately show ?thesis
    using buf unfolding bs_def [symmetric]
    by (intro exI [of _ "blit 0 bs (u_ctrl_buf dev)"] exI [of _ n])
      (simp add: w write_ctrl_def length_blit read_ptr_def blit_front)
qed

lemma usb_strings: "s \<in> set usbStrings \<Longrightarrow> length s < 100" "length usbStrings = 7"
  by (auto simp: usbStrings_def)

lemma fw_config: "concat (config_chunks usbConfigDescriptor) =
  [9, 2, 0, 0, 1, 0, 4, 0x80, 0x32, 9, 4, 0, 0, 3, 0xFF, 0, 0, 5,
   7, 5, 0x01, 2, 64, 0, 1, 7, 5, 0x81, 2, 64, 0, 1, 7, 5, 0x82, 2, 64, 0, 1]"
  by (simp add: config_chunks_def usbConfigDescriptor_def usbIfaces_def usbIfaceDescr_def usbEndpointDescr_def
      bulk_endpoint_def interface_chunks_def endpoint_chunks_def le16_def)

lemma blit_take:
  "length cs \<le> length buf \<Longrightarrow> 4 \<le> length cs \<Longrightarrow> length ys = 2 \<Longrightarrow> 4 \<le> length buf \<Longrightarrow>
   take (min n (length cs)) (blit 2 ys (blit 0 (take n cs) buf)) = take n (blit 2 ys cs)"
proof (rule nth_equalityI)
  assume a: "length cs \<le> length buf" "4 \<le> length cs" "length ys = 2" "4 \<le> length buf"
  have b: "length (blit 0 (take n cs) buf) = length buf" using a by (simp add: length_blit)
  show "length (take (min n (length cs)) (blit 2 ys (blit 0 (take n cs) buf))) = length (take n (blit 2 ys cs))"
    using a b by (simp add: length_blit)
  fix i assume "i < length (take (min n (length cs)) (blit 2 ys (blit 0 (take n cs) buf)))"
  then have "i < n" "i < length cs" "i < length buf" using a by auto
  then show "take (min n (length cs)) (blit 2 ys (blit 0 (take n cs) buf)) ! i = take n (blit 2 ys cs) ! i"
    using a b by (simp add: nth_blit)
qed

lemma get_descriptor_served:
  assumes dev: "fw c dev" and d: "fw_descriptor ty ix = Some d" and len: "wlen \<noteq> 0"
    "ty = 3 \<and> ix \<noteq> 0 \<Longrightarrow> lang = 0x409 \<and> (even (unat wlen) \<or> length d \<le> unat wlen)"
  shows "\<exists>B p n. length B = 320 \<and>
    usb_standard_get_descriptor (get_descriptor ty ix lang wlen) wlen dev = Inr (USBD_REQ_HANDLED, p, n, dev\<lparr>u_ctrl_buf := B\<rparr>) \<and>
    read_ptr p (unat n) (dev\<lparr>u_ctrl_buf := B\<rparr>) = Inr (take (unat wlen) d)"
proof -
  have buf: "length (u_ctrl_buf dev) = 320" using dev by (simp add: fw_def)
  have u16: "(ucast ty :: u16) = ucast c \<longleftrightarrow> ty = c" for c by (simp add: word_unat_eq_iff unat_u8_u16)
  have ty: "(ucast ty :: u16) = 1 \<longleftrightarrow> ty = 1" "(ucast ty :: u16) = 2 \<longleftrightarrow> ty = 2" "(ucast ty :: u16) = 3 \<longleftrightarrow> ty = 3"
    using u16 [of 1] u16 [of 2] u16 [of 3] by simp_all
  have ix: "unat (ucast ix :: u16) = unat ix" by (rule unat_u8_u16)
  have m: "unat (min wlen c) = min (unat wlen) (unat c)" for c :: u16 by (simp add: min_def word_le_nat_alt)
  note ev = usb_standard_get_descriptor_def Let_def get_descriptor_fields ty ix
  consider "ty = 1" "d = usbDeviceDescriptor" | "ty = 2" "ix = 0" "d = configuration" | "ty = 3" "ix = 0" "d = [4, 3, 9, 4]"
    | "ty = 3" "ix \<noteq> 0" "ix \<le> 7" "d = string_descriptor (usbStrings ! (unat ix - 1))"
    using d by (auto simp: fw_descriptor_def split: if_splits)
  then show ?thesis
  proof cases
    case 1
    then show ?thesis
      using dev buf
      by (intro exI [of _ "u_ctrl_buf dev"] exI [of _ "ConstPtr (u_desc dev)"] exI [of _ "min wlen 18"])
        (simp add: ev fw_def m read_ptr_def; simp add: usbDeviceDescriptor_def le16_def min_def)
  next
    case 2
    define cs where "cs = concat (config_chunks usbConfigDescriptor)"
    define n where "n = (of_nat (min (unat wlen) 39) :: u16)"
    have l: "length cs = 39" by (simp add: cs_def fw_config)
    have un: "unat n = min (unat wlen) (length cs)" by (simp add: n_def l unat_of_nat)
    define B where "B = blit 2 (le16 39) (blit 0 (take (unat wlen) cs) (u_ctrl_buf dev))"
    have p: "put_chunks (config_chunks usbConfigDescriptor) wlen 0 0 dev =
        Inr (n, 39, dev\<lparr>u_ctrl_buf := blit 0 (take (unat wlen) cs) (u_ctrl_buf dev)\<rparr>)"
      using buf l by (subst put_chunks) (simp_all add: n_def flip: cs_def)
    have "length B = 320" using buf l by (simp add: B_def length_blit)
    moreover have "take (unat n) B = take (unat wlen) configuration"
      unfolding un B_def configuration_def cs_def [symmetric] using buf l by (intro blit_take) simp_all
    moreover have "build_config_descriptor 0 wlen dev = Inr (n, dev\<lparr>u_ctrl_buf := B\<rparr>)"
      using dev p buf l by (simp add: build_config_descriptor_def fw_def write_ctrl_def length_blit B_def)
    ultimately show ?thesis
      using 2 by (intro exI [of _ B] exI [of _ "CtrlPtr 0"] exI [of _ n]) (simp add: ev read_ptr_def un l)
  next
    case 3
    have e: "le16 0x409 = [9, 4]" by (simp add: le16_def)
    have "write_ctrl 0 ([4, 3] @ le16 0x409) dev = Inr (dev\<lparr>u_ctrl_buf := blit 0 [4, 3, 9, 4] (u_ctrl_buf dev)\<rparr>)"
      using buf unfolding e by (simp add: write_ctrl_def)
    moreover have "take (min (unat wlen) 4) (blit 0 [4, 3, 9, 4] (u_ctrl_buf dev)) = take (unat wlen) [4, 3, 9, 4]"
    proof -
      have "take (min k (length xs)) (xs @ ys) = take k xs" for k and xs ys :: "u8 list"
        by (simp add: min_def)
      from this [of "unat wlen" "[4, 3, 9, 4]"] show ?thesis using buf by (simp add: blit_front eval_nat_numeral)
    qed
    moreover have "length (blit 0 [4, 3, 9, 4] (u_ctrl_buf dev)) = 320" using buf by (simp add: length_blit)
    ultimately show ?thesis
      using 3
      by (intro exI [of _ "blit 0 [4, 3, 9, 4] (u_ctrl_buf dev)"] exI [of _ "CtrlPtr 0"] exI [of _ "min wlen 4"])
        (simp add: ev read_ptr_def m)
  next
    case 4
    have k: "unat ix \<le> 7" "unat ix \<noteq> 0" using 4(2,3) by (simp_all add: word_le_nat_alt unat_eq_zero)
    then have i: "unat ix - 1 < 7" by simp
    then have s: "usbStrings ! (unat ix - 1) \<in> set usbStrings" using usb_strings(2) by (intro nth_mem) simp
    have l: "lang = 0x409" "even (unat wlen) \<or> length (string_descriptor (usbStrings ! (unat ix - 1))) \<le> unat wlen"
      using len(2) 4 by simp_all
    obtain B n where b: "length B = 320"
      "put_string (usbStrings ! (unat ix - 1)) wlen dev = Inr (USBD_REQ_HANDLED, CtrlPtr 0, n, dev\<lparr>u_ctrl_buf := B\<rparr>)"
      "read_ptr (CtrlPtr 0) (unat n) (dev\<lparr>u_ctrl_buf := B\<rparr>) = Inr (take (unat wlen) d)"
      using put_string [OF usb_strings(1) [OF s] buf len(1) l(2)] 4(4) by blast
    have "usb_standard_get_descriptor (get_descriptor ty ix lang wlen) wlen dev =
        put_string (usbStrings ! (unat ix - 1)) wlen dev"
      using 4 i k(2) dev l(1) usb_strings(2) by (simp add: ev fw_def)
    then show ?thesis using b by (intro exI [of _ B] exI [of _ "CtrlPtr 0"] exI [of _ n]) simp
  qed
qed

lemma descriptor_no_callback:
  assumes "fw_descriptor ty ix \<noteq> None"
  shows "usbControlCallback (get_descriptor ty ix lang wlen) = None"
proof -
  define v where "v = wValue (get_descriptor ty ix lang wlen)"
  have f: "drop_bit 8 v = ucast ty" "v AND 0xFF = ucast ix"
    using get_descriptor_fields(6,7) by (simp_all add: v_def usb_descriptor_type_def usb_descriptor_index_def)
  have u: "(ucast (ucast t :: u16) :: u8) = t" for t :: u8 by (rule bit_word_eqI) (simp add: bit_simps)
  have "(ucast (ucast t AND 0xFF :: u16) :: u8) = t" for t :: u8
  proof -
    have "ucast t AND 0xFF = (ucast t :: u16)"
      by (rule word16_eqI, unfold all_bits_16) (auto simp: bit_simps not_bit_u8)
    then show ?thesis by (simp only: u)
  qed
  then have "ucast (drop_bit 8 v AND 0xFF) = ty" "ucast (v AND 0xFF) = ix" unfolding f by (simp_all only: u)
  moreover have "ty \<noteq> 6" "\<not> (ty = 3 \<and> ix = 0xEE)"
    using assms by (auto simp: fw_descriptor_def split: if_splits)
  ultimately show ?thesis
    by (simp add: usbControlCallback_def get_descriptor_fields Let_def flip: v_def)
qed

lemma needs_zlp: "unat n \<le> unat w \<Longrightarrow> needs_zlp n w 64 = zlp (unat n) (unat w)"
  by (auto simp: needs_zlp_def zlp_def word_less_nat_alt unat_eq_zero)

lemma setup_answered:
  assumes dev: "fw c dev" "quiet a (usb_hw dev)" "ep0 (usb_hw dev) AND 0x80B0 = 0x0020"
    and req: "cs_req dev = get_descriptor ty ix lang wlen" and d: "fw_descriptor ty ix = Some d" and len: "wlen \<noteq> 0"
    "ty = 3 \<and> ix \<noteq> 0 \<Longrightarrow> lang = 0x409 \<and> (even (unat wlen) \<or> length d \<le> unat wlen)"
  shows "\<exists>dev'. usbd_control_setup usb_bus dev = Inr dev' \<and>
    staged c a (take 64 (take (unat wlen) d)) (drop 64 (take (unat wlen) d)) (unat wlen) dev'"
proof -
  define h where "h = set_ep0 ((ep0 (usb_hw dev) AND NOT 0x3000) OR 0x2000) (usb_hw dev)"
  define dev0 where "dev0 = dev\<lparr>force_nak := (force_nak dev)[0 := True], usb_hw := h, cs_buf := CtrlPtr 0, cs_len := wlen\<rparr>"
  define bs where "bs = take (unat wlen) d"
  have f0: "fw c dev0" using dev(1) by (simp add: dev0_def fw_def)
  obtain B p n where b: "length B = 320"
    "usb_standard_get_descriptor (get_descriptor ty ix lang wlen) wlen dev0 = Inr (USBD_REQ_HANDLED, p, n, dev0\<lparr>u_ctrl_buf := B\<rparr>)"
    "read_ptr p (unat n) (dev0\<lparr>u_ctrl_buf := B\<rparr>) = Inr bs"
    using get_descriptor_served [OF f0 d len] unfolding bs_def by blast
  define dev1 where "dev1 = dev0\<lparr>u_ctrl_buf := B, cs_buf := p, cs_len := n, cs_needs_zlp := needs_zlp n wlen 64\<rparr>"
  have q: "quiet a h" "ep0 h AND 0x80B0 = 0x0020" using dev(2,3) setup_bits(7) by (simp_all add: h_def)
  have n: "unat n = length bs" "length bs \<le> unat wlen" using read_ptr_length [OF b(3)] by (simp_all add: bs_def)
  have "read_ptr (cs_buf dev1) (unat (cs_len dev1)) dev1 = read_ptr p (unat n) (dev0\<lparr>u_ctrl_buf := B\<rparr>)"
    by (simp add: dev1_def read_ptr_def split: data_ptr.split)
  then have "read_ptr (cs_buf dev1) (unat (cs_len dev1)) dev1 = Inr bs" by (simp only: b(3))
  then have "\<exists>dev'. usb_control_send_chunk usb_bus dev1 = Inr dev' \<and> staged c a (take 64 bs) (drop 64 bs) (unat wlen) dev'"
    using f0 b(1) q n needs_zlp [of n wlen]
    by (intro send_staged) (simp_all add: dev1_def dev0_def fw_def)
  moreover have "usbd_control_setup usb_bus dev = usb_control_send_chunk usb_bus dev1"
  proof -
    have s: "st_usbfs_ep_nak_set usb_bus 0 True dev = dev\<lparr>force_nak := (force_nak dev)[0 := True], usb_hw := h\<rparr>"
      by (simp add: st_usbfs_ep_nak_set_def ep0_ops stat_masks h_def) (simp add: RX_NAK_def)
    have r: "usb_control_request_dispatch usb_bus dev0 = Inr (True, dev0\<lparr>u_ctrl_buf := B, cs_buf := p, cs_len := n\<rparr>)"
      using b(2) no_callback [OF descriptor_no_callback] d req
      by (simp add: usb_control_request_dispatch_def usbd_standard_request_def usbd_standard_request_device_def
          get_descriptor_fields dev0_def)
    have z: "bMaxPacketSize0 (dev0\<lparr>u_ctrl_buf := B, cs_buf := p, cs_len := n\<rparr>) = 64"
      using f0 b(1) by (intro fw_packet_size) (simp add: fw_def)
    show ?thesis
      using req len(1) r z
      by (simp add: usbd_control_setup_def s usb_control_setup_read_def get_descriptor_fields dev0_def dev1_def)
  qed
  ultimately show ?thesis by (simp add: bs_def)
qed

text \<open>
  A request for a descriptor, whatever the state of a running transfer. A string must be asked
  for in the language 0x409 and with an even length, or with one that is enough for all of it.
\<close>

lemma descriptor_read:
  assumes "enumerable c a dev" and "fw_descriptor ty ix = Some d" and "wlen \<noteq> 0"
    and "ty = 3 \<and> ix \<noteq> 0 \<Longrightarrow> lang = 0x409 \<and> (even (unat wlen) \<or> length d \<le> unat wlen)"
  shows "\<exists>dev'. control_read (get_descriptor ty ix lang wlen) dev = Inr (take (unat wlen) d, dev') \<and> enumerable c a dev'"
proof -
  let ?req = "get_descriptor ty ix lang wlen" and ?bs = "take (unat wlen) d"
  obtain h where h: "quiet a h" "ep0 h AND 0x80B0 = 0x0020" "st_usbfs_poll usb_bus (setup_token ?req dev) =
      bindR (usbd_control_setup usb_bus (dev\<lparr>usb_hw := h, cs_req := ?req\<rparr>)) (\<lambda>dev. Inr (dev\<lparr>usb_hw := sofm (usb_hw dev)\<rparr>))"
    using poll_setup [of c dev a ?req] assms(1) get_descriptor_fields(1) by (auto simp: enumerable_def)
  have "fw c (dev\<lparr>usb_hw := h, cs_req := ?req\<rparr>)"
    using assms(1) get_descriptor_fields(1) by (simp add: enumerable_def fw_def)
  then obtain dev1 where 1: "usbd_control_setup usb_bus (dev\<lparr>usb_hw := h, cs_req := ?req\<rparr>) = Inr dev1"
    "staged c a (take 64 ?bs) (drop 64 ?bs) (unat wlen) dev1"
    using setup_answered [of c "dev\<lparr>usb_hw := h, cs_req := ?req\<rparr>" a ty ix lang wlen d] h(1,2) assms(2-4) by auto
  define dev2 where "dev2 = dev1\<lparr>usb_hw := sofm (usb_hw dev1)\<rparr>"
  have "staged c a (take 64 ?bs) (drop 64 ?bs) (unat wlen) dev2" using 1(2) by (simp only: dev2_def staged_sofm)
  from host_reads [OF this] obtain dev3 where 3: "host_read (unat wlen) dev2 = Inr (?bs, dev3)" "status_out c a dev3"
    unfolding append_take_drop_id by blast
  obtain dev4 dev5 where "out_token dev3 = Some dev4" "st_usbfs_poll usb_bus dev4 = Inr dev5" "enumerable c a dev5"
    using status_stage [OF 3(2)] .
  then show ?thesis using h(3) 1(1) 3(1) by (simp add: control_read_def get_descriptor_fields flip: dev2_def)
qed

end
