(* ===== verification/Usb_Session.thy ===== *)
theory Usb_Session
  imports Usb_Transfer
begin

text \<open>
  What a host does with the device: start-up and bus reset, setting the address, requests for
  descriptors: one lemma for each.
\<close>

section \<open>Start-up and bus reset\<close>

text \<open>A bus reset, as the controller sees it: its endpoint registers are cleared and the flag is set.\<close>

definition bus_reset :: "usbfs firmware \<Rightarrow> usbfs firmware" where
  "bus_reset dev = upd_hw (\<lambda>h. h\<lparr>uf_ep := \<lambda>_. 0, uf_flags := USB_ISTR_RESET\<rparr>) dev"

lemma write_elsewhere:
  assumes "ep_index a = None" "pma_index a = None" "a \<noteq> USB_ISTR_REG" "n \<in> {1, 2, 4}"
    and "\<forall>i<4. n \<le> unat (USB_BTABLE_REG + of_nat i - a)"
  shows "btable (bus_write usb_bus n a v h) = btable h"
  using assms mem_load_overlay_other [of 4 "bytes_le n v" USB_BTABLE_REG a "uf_mem h"]
  by (simp add: usb_bus_def usbfs_write_def btable_def load_le_def store_le_def)

lemma all4: "(\<forall>i<4. P i) \<longleftrightarrow> P 0 \<and> P 1 \<and> P 2 \<and> P (3 :: nat)"
  by (simp add: numeral_eq_Suc All_less_Suc conj_ac)

lemma fw_registers: "fw c (snd (usbd_register_control_callback ty msk cb dev)) = fw c dev"
  "usb_hw (snd (usbd_register_control_callback ty msk cb dev)) = usb_hw dev"
  "usb_hw (snd (usbd_register_set_config_callback cb dev)) = usb_hw dev"
  by (simp_all add: usbd_register_control_callback_def usbd_register_set_config_callback_def fw_def split: option.split)

lemmas usb_addresses = ep_index_def pma_index_def USB_DEV_FS_BASE_def USB_PMA_BASE_def USB_ISTR_REG_def USB_CNTR_REG_def
  USB_BTABLE_REG_def USB_DADDR_REG_def

text \<open>The callbacks after start-up: those of endpoint 0, and the one for a configuration.\<close>

definition config_slots :: "usb_fn option list" where
  "config_slots = [Some F_usbSetConfigCallback, None, None, None]"

definition started :: "usbfs monitor \<Rightarrow> app_view" where
  "started app = ((\<lambda>_ _. None)(0 := (\<lambda>tr. case tr of USB_TRANSACTION_SETUP \<Rightarrow> Some F_control_setup
       | USB_TRANSACTION_OUT \<Rightarrow> Some F_control_out | USB_TRANSACTION_IN \<Rightarrow> Some F_control_in)), config_slots, app)"

lemma init_device:
  "fw (started app) (usbdInit usb_bus app h)" "btable (usb_hw (usbdInit usb_bus app h)) = 0"
proof -
  show "fw (started app) (usbdInit usb_bus app h)"
    by (simp add: usbdInit_def Let_def fw_registers)
      (simp add: fw_def usbd_init_def st_usbfs_v1_usbd_init_def blank_device_def started_def config_slots_def
        usbd_register_set_config_callback_def eval_nat_numeral)
  have g: "btable (usb_hw (st_usbfs_v1_usbd_init usb_bus (blank_device app g))) = 0" for g
    by (simp add: st_usbfs_v1_usbd_init_def SET_REG_def mmio_write_def usb_bus_def usbfs_write_def usb_addresses
        btable_def load_store_other load_store_same)
  then show "btable (usb_hw (usbdInit usb_bus app h)) = 0"
    by (simp add: usbdInit_def Let_def fw_registers usbd_init_def usbSetEnable_def nvic_enable_irq_def nvic_set_priority_def
        mmio_write_def write_elsewhere usb_addresses all4 nvic_reg_def NVIC_BASE_def NVIC_IRQ_COUNT_def g)
qed

lemma ep0_setup_ops:
  "USB_SET_EP_TYPE usb_bus 0 (ep_type 0) h = set_ep0 ((ep0 h AND NOT 0x0600) OR 0x0200) h"
  "USB_SET_EP_ADDR usb_bus 0 0 h = set_ep0 (ep0 h AND NOT 0x000F) h"
  "USB_CLR_EP_TX_DTOG usb_bus 0 h = set_ep0 (ep0 h AND NOT 0x0040) h"
  "USB_CLR_EP_RX_DTOG usb_bus 0 h = set_ep0 (ep0 h AND NOT 0x4000) h"
proof -
  have "ep_type 0 AND 0x0600 = ep_type 0" "ep_type 0 = 0x0200" by (simp_all add: ep_type_def)
  then show "USB_SET_EP_TYPE usb_bus 0 (ep_type 0) h = set_ep0 ((ep0 h AND NOT 0x0600) OR 0x0200) h"
    by (simp only: USB_SET_EP_TYPE_def mod_ep0 set_fields)
  show "USB_SET_EP_ADDR usb_bus 0 0 h = set_ep0 (ep0 h AND NOT 0x000F) h"
    using set_fields(2) [of 0 "ep0 h"] by (simp only: USB_SET_EP_ADDR_def mod_ep0) simp
qed (simp_all only: USB_CLR_EP_TX_DTOG_def USB_CLR_EP_RX_DTOG_def mod_ep0 clr_fields)

lemma btable_ep0_setup:
  "btable h = 0 \<Longrightarrow> USB_SET_EP_TX_ADDR usb_bus 0 v h = h\<lparr>uf_pma := (uf_pma h)(0 := v)\<rparr>"
  "btable h = 0 \<Longrightarrow> USB_SET_EP_RX_ADDR usb_bus 0 v h = h\<lparr>uf_pma := (uf_pma h)(2 := v)\<rparr>"
  "btable h = 0 \<Longrightarrow> USB_SET_EP_RX_COUNT usb_bus 0 v h = h\<lparr>uf_pma := (uf_pma h)(3 := v)\<rparr>"
  using set_btable_ep0 [of h 0 v] set_btable_ep0 [of h 2 v] set_btable_ep0 [of h 3 v]
  by (simp_all add: USB_SET_EP_TX_ADDR_def USB_SET_EP_RX_ADDR_def USB_SET_EP_RX_COUNT_def)

lemma set_address:
  "st_usbfs_set_address usb_bus 0 dev = upd_hw (\<lambda>h. h\<lparr>uf_mem := store_le 4 USB_DADDR_REG 0x80 (uf_mem h)\<rparr>) dev"
  by (simp add: st_usbfs_set_address_def SET_REG_def mmio_write_def usb_bus_def usbfs_write_def usb_addresses)

lemma reset_bits: "(((((((((x AND NOT 0x000F) AND NOT 0x0600) OR 0x0200) AND NOT 0x0040) AND NOT 0x0030) OR 0x0020)
    AND NOT 0x4000) AND NOT 0x3000) OR 0x3000) AND 0x8080 = (x AND 0x8080 :: u16)"
  by (rule word16_eqI, unfold all_bits_16) (auto simp: bit_simps)

lemma pma_keeps: "ep0 (h\<lparr>uf_pma := p\<rparr>) = ep0 h" "btable (h\<lparr>uf_pma := p\<rparr>) = btable h" "btable (h\<lparr>uf_ep := e\<rparr>) = btable h"
  by (simp_all add: ep0_def btable_def)

lemma rx_bufsize_64: "rx_bufsize 64 = (64, 0x21)"
  by (simp add: rx_bufsize_def)

lemma ep0_setup:
  assumes "btable (usb_hw dev) = 0"
  shows "\<exists>x. x AND 0x8080 = ep0 (usb_hw dev) AND 0x8080 \<and> st_usbfs_ep_setup usb_bus 0 0 64 None dev =
    dev\<lparr>usb_hw := (set_ep0 x (usb_hw dev))\<lparr>uf_pma := (uf_pma (usb_hw dev))(0 := pm_top dev, 2 := pm_top dev + 64, 3 := 0x8400)\<rparr>,
      pm_top := pm_top dev + 128\<rparr>"
proof -
  define h0 where "h0 = usb_hw dev"
  define x1 where "x1 = (ep0 h0 AND NOT 0x000F) AND NOT 0x0600 OR 0x0200"
  define h1 where "h1 = set_ep0 x1 h0"
  define h2 where "h2 = h1\<lparr>uf_pma := (uf_pma h1)(0 := pm_top dev)\<rparr>"
  define x2 where "x2 = (x1 AND NOT 0x0040) AND NOT 0x0030 OR 0x0020"
  define h3 where "h3 = set_ep0 x2 h2"
  define h4 where "h4 = h3\<lparr>uf_pma := (uf_pma h3)(2 := pm_top dev + 64)\<rparr>"
  define h5 where "h5 = h4\<lparr>uf_pma := (uf_pma h4)(3 := 0x8400)\<rparr>"
  define x3 where "x3 = (x2 AND NOT 0x4000) AND NOT 0x3000 OR 0x3000"
  have b: "btable h1 = 0" "btable h3 = 0" "btable h4 = 0"
    using assms by (simp_all add: h4_def h3_def h2_def h1_def pma_keeps flip: h0_def)
  have e1: "ep0 h1 = x1" "ep0 h3 = x2" by (simp_all add: h3_def h1_def)
  have e: "ep0 h1 = x1" "ep0 h2 = x1" "ep0 h3 = x2" "ep0 h4 = x2" "ep0 h5 = x2"
    by (simp_all add: h5_def h4_def h2_def pma_keeps e1)
  have "USB_SET_EP_TYPE usb_bus 0 (ep_type 0) (USB_SET_EP_ADDR usb_bus 0 0 h0) = h1"
    by (simp add: ep0_setup_ops h1_def x1_def)
  moreover have "USB_SET_EP_TX_ADDR usb_bus 0 (pm_top dev) h1 = h2" by (simp add: btable_ep0_setup b h2_def)
  moreover have "USB_SET_EP_TX_STAT usb_bus 0 TX_NAK (USB_CLR_EP_TX_DTOG usb_bus 0 h2) = h3"
    by (simp add: ep0_setup_ops ep0_ops stat_masks e h3_def x2_def) (simp add: TX_NAK_def)
  moreover have "USB_SET_EP_RX_ADDR usb_bus 0 (pm_top dev + 64) h3 = h4" by (simp add: btable_ep0_setup b h4_def)
  moreover have "USB_SET_EP_RX_COUNT usb_bus 0 0x8400 h4 = h5" by (simp add: btable_ep0_setup b h5_def)
  moreover have "USB_SET_EP_RX_STAT usb_bus 0 RX_VALID (USB_CLR_EP_RX_DTOG usb_bus 0 h5) = set_ep0 x3 h5"
    by (simp add: ep0_setup_ops ep0_ops stat_masks e x3_def) (simp add: RX_VALID_def)
  ultimately have s: "st_usbfs_ep_setup usb_bus 0 0 64 None dev = dev\<lparr>usb_hw := set_ep0 x3 h5, pm_top := pm_top dev + 128\<rparr>"
    by (simp add: st_usbfs_ep_setup_def set_callback_def rx_bufsize_64 st_usbfs_set_ep_rx_bufsize_def flip: h0_def)
  have h: "set_ep0 x3 h5 =
      (set_ep0 x3 h0)\<lparr>uf_pma := (uf_pma h0)(0 := pm_top dev, 2 := pm_top dev + 64, 3 := 0x8400)\<rparr>"
    by (simp add: h5_def h4_def h3_def h2_def h1_def)
  have "x3 AND 0x8080 = ep0 h0 AND 0x8080"
    using reset_bits [of "ep0 h0"] by (simp add: x3_def x2_def x1_def)
  then show ?thesis unfolding s h h0_def [symmetric] by (intro exI [of _ x3] conjI refl)
qed

lemma reset_device:
  assumes "fw c dev" "btable (usb_hw dev) = 0" "\<forall>i<8. uf_ep (usb_hw dev) i AND 0x8080 = 0" "uf_flags (usb_hw dev) AND 0x7F00 = 0"
    and "pm_top dev = USBD_PM_TOP"
  shows "\<exists>a. enumerable c a (usbd_reset usb_bus dev)" "daddr (usb_hw (usbd_reset usb_bus dev)) = 0x80"
    "current_address (usbd_reset usb_bus dev) = 0" "current_config (usbd_reset usb_bus dev) = 0"
proof -
  define dev0 where "dev0 = dev\<lparr>current_address := 0, current_config := 0\<rparr>"
  have f: "fw c dev0" using assms(1) by (simp add: dev0_def fw_def)
  obtain x where x: "x AND 0x8080 = ep0 (usb_hw dev0) AND 0x8080" "st_usbfs_ep_setup usb_bus 0 0 64 None dev0 =
      dev0\<lparr>usb_hw := (set_ep0 x (usb_hw dev0))\<lparr>uf_pma := (uf_pma (usb_hw dev0))(0 := 0x40, 2 := 0x80, 3 := 0x8400)\<rparr>,
        pm_top := 0xC0\<rparr>"
    using ep0_setup [of dev0] assms(2,5) by (auto simp: dev0_def USBD_PM_TOP_def)
  have r: "usbd_reset usb_bus dev = st_usbfs_set_address usb_bus 0 (st_usbfs_ep_setup usb_bus 0 0 64 None dev0)"
    using fw_packet_size [OF assms(1)] by (simp add: usbd_reset_def dev0_def)
  show "daddr (usb_hw (usbd_reset usb_bus dev)) = 0x80"
    by (simp add: usbd_reset_def set_address daddr_def load_store_same)
  show "current_address (usbd_reset usb_bus dev) = 0" "current_config (usbd_reset usb_bus dev) = 0"
    unfolding r x set_address by (simp_all add: dev0_def)
  have "ep0 (usb_hw dev0) AND 0x8080 = 0" using assms(3) by (simp add: ep0_def dev0_def)
  then have "enumerable c (hw_view (usb_hw (usbd_reset usb_bus dev))) (usbd_reset usb_bus dev)"
    unfolding r x set_address using f assms(2-4) x(1)
    by (simp add: enumerable_def fw_def quiet_def wired_def btable_def load_store_other load_store_same usb_addresses
        dev0_def ep0_def)
  then show "\<exists>a. enumerable c a (usbd_reset usb_bus dev)" ..
qed

lemma reset_poll:
  assumes "fw c dev" and "btable (usb_hw dev) = 0"
  shows "\<exists>dev'. st_usbfs_poll usb_bus (bus_reset dev) = Inr dev' \<and> (\<exists>a. enumerable c a dev') \<and> daddr (usb_hw dev') = 0x80 \<and>
    current_address dev' = 0 \<and> current_config dev' = 0"
proof -
  define h where "h = usb_hw (bus_reset dev)"
  define dev1 where "dev1 = dev\<lparr>usb_hw := h\<lparr>uf_flags := 0\<rparr>, pm_top := USBD_PM_TOP\<rparr>"
  have f: "uf_flags h = 0x0400" "uf_ep h = (\<lambda>_. 0)" "btable h = 0"
    using assms(2) by (simp_all add: h_def bus_reset_def USB_ISTR_RESET_def btable_def)
  have "[0..<8] = [0, 1, 2, 3, 4, 5, 6, 7 :: nat]" by (simp add: upt_rec)
  then have i: "istr h = 0x0400" by (simp add: istr_def pending_def f)
  have "CLR_REG_BIT usb_bus USB_ISTR_REG USB_ISTR_RESET h = h\<lparr>uf_flags := 0\<rparr>"
    by (simp add: CLR_REG_BIT_def SET_REG_def mmio_write_def usb_bus_def usbfs_write_def usb_addresses f USB_ISTR_RESET_def)
  then have "st_usbfs_poll usb_bus (bus_reset dev) = Inr (usbd_reset usb_bus dev1)"
    by (simp add: st_usbfs_poll_def get_istr i USB_ISTR_RESET_def dev1_def flip: h_def)
      (simp add: bus_reset_def)
  moreover have "fw c dev1" "btable (usb_hw dev1) = 0" using assms(1) f(3) by (simp_all add: dev1_def fw_def btable_def)
  ultimately show "\<exists>dev'. st_usbfs_poll usb_bus (bus_reset dev) = Inr dev' \<and> (\<exists>a. enumerable c a dev') \<and> daddr (usb_hw dev') = 0x80 \<and>
      current_address dev' = 0 \<and> current_config dev' = 0"
    using reset_device [of c dev1] f by (simp add: dev1_def)
qed

section \<open>Requests without data\<close>

definition control_request :: "u8 list \<Rightarrow> usbfs firmware \<Rightarrow> usbfs firmware result" where
  "control_request req dev =
     bindR (st_usbfs_poll usb_bus (setup_token req dev)) (\<lambda>dev.
       case in_token dev of
         None \<Rightarrow> Inl Blocked
       | Some (p, dev) \<Rightarrow> st_usbfs_poll usb_bus dev)"

definition set_address_request :: "u8 \<Rightarrow> u8 list" where
  "set_address_request n = [0, 5, n, 0, 0, 0, 0, 0]"

lemma set_address_fields:
  "length (set_address_request n) = 8" "bmRequestType (set_address_request n) = 0" "bRequest (set_address_request n) = 5"
  "wLength (set_address_request n) = 0" "ucast (wValue (set_address_request n)) = n"
  "unat (wValue (set_address_request n)) = unat n"
proof -
  have v: "wValue (set_address_request n) = ucast n"
    by (simp add: set_address_request_def wValue_def rd16_def)
  show "ucast (wValue (set_address_request n)) = n" unfolding v by (rule bit_word_eqI) (simp add: bit_simps)
  show "unat (wValue (set_address_request n)) = unat n" unfolding v by (rule unat_u8_u16)
qed (simp_all add: set_address_request_def bmRequestType_def bRequest_def wLength_def rd16_def)

text \<open>The two halves of a request without data: the setup stage ends with an empty packet waiting.\<close>

definition status_in :: "app_view \<Rightarrow> hw_view \<Rightarrow> u8 list \<Rightarrow> usbfs firmware \<Rightarrow> bool" where
  "status_in c a req dev \<longleftrightarrow> fw c dev \<and> quiet a (usb_hw dev) \<and> ep0 (usb_hw dev) AND 0x80B0 = 0x0030 \<and>
     cs_state dev = STATUS_IN \<and> cs_req dev = req"

lemma status_in_poll:
  assumes "status_in c a req dev"
  obtains p dev1 h where "in_token dev = Some (p, dev1)" "quiet a h" "ep0 h AND 0x8080 = 0"
    "st_usbfs_poll usb_bus dev1 = bindR (usbd_control_in usb_bus (dev\<lparr>usb_hw := h\<rparr>)) (\<lambda>dev. Inr (dev\<lparr>usb_hw := sofm (usb_hw dev)\<rparr>))"
proof -
  define h where "h = usb_hw dev"
  define h1 where "h1 = set_ep0 (((ep0 h AND NOT 0x0030) OR 0x00A0) XOR 0x0040) h"
  define h2 where "h2 = set_ep0 (ep0 h1 AND NOT 0x0080) h1"
  have s: "fw c dev" "quiet a h" "ep0 h AND 0x80B0 = 0x0030" using assms by (simp_all add: status_in_def h_def)
  have e: "ep0 h AND 0x0030 = 0x0030" "ep0 h1 AND 0x8080 = 0x0080" "ep0 h2 AND 0x80B0 = 0x0020"
    using ep0_bits(3-5) [OF s(3)] by (simp_all add: h1_def h2_def)
  have "ep0 h2 AND 0x8080 = (ep0 h2 AND 0x80B0) AND 0x8080" by (simp add: and.assoc)
  then have "ep0 h2 AND 0x8080 = 0" using e(3) by simp
  moreover have "quiet a h1" "quiet a h2" using s(2) by (simp_all add: h1_def h2_def)
  moreover have "in_token dev = Some (tx_bytes h, dev\<lparr>usb_hw := h1\<rparr>)"
    using e(1) by (simp add: in_token_def Let_def h1_def h_def)
  moreover have "st_usbfs_poll usb_bus (dev\<lparr>usb_hw := h1\<rparr>) =
      bindR (usbd_control_in usb_bus (dev\<lparr>usb_hw := h2\<rparr>)) (\<lambda>dev. Inr (dev\<lparr>usb_hw := sofm (usb_hw dev)\<rparr>))"
    using s(1) \<open>quiet a h1\<close> e(2) by (subst poll_in) (simp_all add: h2_def)
  ultimately show thesis by (intro that)
qed

text \<open>When the standard request succeeds and changes neither the hardware nor the buffers, the request succeeds.\<close>

lemma setup_no_data:
  assumes dev: "fw c dev" "quiet a (usb_hw dev)" "ep0 (usb_hw dev) AND 0x80B0 = 0x0020" "cs_req dev = req"
    and req: "wLength req = 0" "usbControlCallback req = None" "length req = 8"
    and std: "\<And>d. fw c d \<Longrightarrow> quiet a (usb_hw d) \<Longrightarrow> cs_req d = req \<Longrightarrow>
      \<exists>d' a'. usbd_standard_request usb_bus req 0 d = Inr (USBD_REQ_HANDLED, CtrlPtr 0, 0, d') \<and> fw c' d' \<and>
        quiet a' (usb_hw d') \<and> ep0 (usb_hw d') = ep0 (usb_hw d) \<and> cs_req d' = req \<and> R a'"
  shows "\<exists>dev' a'. usbd_control_setup usb_bus dev = Inr dev' \<and> status_in c' a' req dev' \<and> R a'"
proof -
  define h where "h = set_ep0 ((ep0 (usb_hw dev) AND NOT 0x3000) OR 0x2000) (usb_hw dev)"
  define d where "d = dev\<lparr>force_nak := (force_nak dev)[0 := True], cs_buf := CtrlPtr 0, cs_len := 0, usb_hw := h\<rparr>"
  obtain d' a' where d': "usbd_standard_request usb_bus req 0 d = Inr (USBD_REQ_HANDLED, CtrlPtr 0, 0, d')"
    "fw c' d'" "quiet a' (usb_hw d')" "ep0 (usb_hw d') = ep0 h" "cs_req d' = req" "R a'"
    using std [of d] dev by (auto simp: d_def h_def fw_def)
  have q: "ep0 (usb_hw d') AND 0x80B0 = 0x0020" using d'(4) dev(3) setup_bits(7) by (simp add: h_def)
  define dev' where "dev' = d'\<lparr>usb_hw := loaded [] (usb_hw d'), cs_buf := CtrlPtr 0, cs_len := 0, cs_state := STATUS_IN\<rparr>"
  have l: "send_ep0 usb_bus [] (d'\<lparr>cs_buf := CtrlPtr 0, cs_len := 0\<rparr>) =
      d'\<lparr>cs_buf := CtrlPtr 0, cs_len := 0, usb_hw := loaded [] (usb_hw d')\<rparr>"
    using d'(3) ep0_bits(1) [OF q] by (subst send_loaded) (simp_all add: quiet_def)
  have "usbd_control_setup usb_bus dev = Inr dev'"
  proof -
    have s: "st_usbfs_ep_nak_set usb_bus 0 True dev = dev\<lparr>force_nak := (force_nak dev)[0 := True], usb_hw := h\<rparr>"
      by (simp add: st_usbfs_ep_nak_set_def ep0_ops stat_masks h_def) (simp add: RX_NAK_def)
    have r: "usb_control_request_dispatch usb_bus d = Inr (True, d'\<lparr>cs_buf := CtrlPtr 0, cs_len := 0\<rparr>)"
      using d'(1) no_callback [OF req(2)] dev(4) by (simp add: usb_control_request_dispatch_def d_def)
    have e: "(dev\<lparr>force_nak := (force_nak dev)[0 := True], usb_hw := h, cs_buf := CtrlPtr 0, cs_len := 0\<rparr>) = d"
      by (simp add: d_def)
    show ?thesis
      unfolding usbd_control_setup_def s usb_control_setup_read_def
      using dev(4) req(1) r by (simp add: e l) (simp add: dev'_def)
  qed
  moreover have "status_in c' a' req dev'"
    using d' q ep0_bits(2) [OF q] by (simp add: status_in_def dev'_def ep0_loaded quiet_loaded fw_def)
  ultimately show ?thesis using d'(6) by blast
qed

lemma request_no_data:
  assumes dev: "enumerable c a dev" and req: "wLength req = 0" "usbControlCallback req = None" "length req = 8"
    and std: "\<And>d. fw c d \<Longrightarrow> quiet a (usb_hw d) \<Longrightarrow> cs_req d = req \<Longrightarrow>
      \<exists>d' a'. usbd_standard_request usb_bus req 0 d = Inr (USBD_REQ_HANDLED, CtrlPtr 0, 0, d') \<and> fw c' d' \<and>
        quiet a' (usb_hw d') \<and> ep0 (usb_hw d') = ep0 (usb_hw d) \<and> cs_req d' = req \<and> R a'"
  obtains dev' a' h where "R a'" "quiet a' h" "ep0 h AND 0x8080 = 0" "fw c' dev'" "cs_req dev' = req"
    "control_request req dev = Inr (let d = dev'\<lparr>usb_hw := h\<rparr>;
       d = (if bmRequestType req = 0 \<and> bRequest req = 5 then st_usbfs_set_address usb_bus (ucast (wValue req)) d else d)
       in d\<lparr>cs_state := IDLE, usb_hw := sofm (usb_hw d)\<rparr>)"
proof -
  obtain h where h: "quiet a h" "ep0 h AND 0x80B0 = 0x0020" "st_usbfs_poll usb_bus (setup_token req dev) =
      bindR (usbd_control_setup usb_bus (dev\<lparr>usb_hw := h, cs_req := req\<rparr>)) (\<lambda>dev. Inr (dev\<lparr>usb_hw := sofm (usb_hw dev)\<rparr>))"
    using poll_setup [of c dev a req] dev req(3) by (auto simp: enumerable_def)
  have f: "fw c (dev\<lparr>usb_hw := h, cs_req := req\<rparr>)" using dev req(3) by (simp add: enumerable_def fw_def)
  have "\<exists>d a'. usbd_control_setup usb_bus (dev\<lparr>usb_hw := h, cs_req := req\<rparr>) = Inr d \<and> status_in c' a' req d \<and> R a'"
    by (rule setup_no_data [OF _ _ _ _ req std]) (simp_all add: f h(1,2))
  then obtain d a' where d: "usbd_control_setup usb_bus (dev\<lparr>usb_hw := h, cs_req := req\<rparr>) = Inr d"
    "status_in c' a' req d" "R a'" by blast
  define d1 where "d1 = d\<lparr>usb_hw := sofm (usb_hw d)\<rparr>"
  have "status_in c' a' req d1" using d(2) by (simp add: status_in_def d1_def)
  from status_in_poll [OF this] obtain p dev1 g where g: "in_token d1 = Some (p, dev1)" "quiet a' g" "ep0 g AND 0x8080 = 0"
    "st_usbfs_poll usb_bus dev1 = bindR (usbd_control_in usb_bus (d1\<lparr>usb_hw := g\<rparr>)) (\<lambda>dev. Inr (dev\<lparr>usb_hw := sofm (usb_hw dev)\<rparr>))" .
  have s: "cs_state d1 = STATUS_IN" "cs_req d1 = req" "fw c' d1" using d(2) by (simp_all add: status_in_def d1_def)
  show thesis
  proof (rule that [OF d(3) g(2,3) s(3,2)])
    show "control_request req dev = Inr (let d = d1\<lparr>usb_hw := g\<rparr>;
       d = (if bmRequestType req = 0 \<and> bRequest req = 5 then st_usbfs_set_address usb_bus (ucast (wValue req)) d else d)
       in d\<lparr>cs_state := IDLE, usb_hw := sofm (usb_hw d)\<rparr>)"
      using h(3) d(1) g(1,4) s(1,2)
      by (simp add: control_request_def Let_def usbd_control_in_def flip: d1_def)
  qed
qed

end
