(* ===== verification/Usb_Bulk.thy ===== *)
theory Usb_Bulk
  imports Usb_Session
begin

text \<open>
  The bulk endpoints: the hardware operations on any endpoint, and the request
  \<open>SET_CONFIGURATION\<close>, whose callback sets the endpoints of the firmware up.
\<close>

section \<open>Operations on an endpoint\<close>

lemma ep_address: "unat e < 8 \<Longrightarrow> ep_index (USB_EP_REG e) = Some (unat e)"
proof -
  assume e: "unat e < 8"
  have "unat (USB_EP_REG e - 0x40005C00) = 4 * unat e"
    using e by (simp add: USB_EP_REG_def USB_DEV_FS_BASE_def unat_word_ariths)
  then show ?thesis using e by (simp add: ep_index_def Let_def)
qed

abbreviation set_ep :: "nat \<Rightarrow> u16 \<Rightarrow> usbfs \<Rightarrow> usbfs" where
  "set_ep e x h \<equiv> h\<lparr>uf_ep := (uf_ep h)(e := x)\<rparr>"

lemma mod_ep:
  "unat e < 8 \<Longrightarrow> MOD_REG usb_bus (USB_EP_REG e) f h = set_ep (unat e) (ep_write (uf_ep h (unat e)) (f (uf_ep h (unat e)))) h"
  by (simp add: MOD_REG_def GET_REG_def SET_REG_def mmio_read_def mmio_write_def usb_bus_def usbfs_read_def
      usbfs_write_def ep_address)

lemma ep_ops:
  assumes "unat e < 8"
  shows "st AND 0x3000 = st \<Longrightarrow> USB_SET_EP_RX_STAT usb_bus e st h = set_ep (unat e) ((uf_ep h (unat e) AND NOT 0x3000) OR st) h"
    "st AND 0x0030 = st \<Longrightarrow> USB_SET_EP_TX_STAT usb_bus e st h = set_ep (unat e) ((uf_ep h (unat e) AND NOT 0x0030) OR st) h"
    "USB_CLR_EP_RX_CTR usb_bus e h = set_ep (unat e) (uf_ep h (unat e) AND NOT 0x8000) h"
    "USB_CLR_EP_TX_CTR usb_bus e h = set_ep (unat e) (uf_ep h (unat e) AND NOT 0x0080) h"
    "USB_CLR_EP_TX_DTOG usb_bus e h = set_ep (unat e) (uf_ep h (unat e) AND NOT 0x0040) h"
    "USB_CLR_EP_RX_DTOG usb_bus e h = set_ep (unat e) (uf_ep h (unat e) AND NOT 0x4000) h"
  using assms
  by (simp_all only: USB_SET_EP_RX_STAT_def USB_SET_EP_TX_STAT_def USB_CLR_EP_RX_CTR_def USB_CLR_EP_TX_CTR_def
      USB_CLR_EP_TX_DTOG_def USB_CLR_EP_RX_DTOG_def
      TOG_SET_REG_BIT_MSK_AND_SET_def CLR_REG_BIT_MSK_AND_SET_def mod_ep tog_fields clr_fields)

lemma ep_type_addr:
  assumes "unat e < 8"
  shows "USB_SET_EP_TYPE usb_bus e (ep_type 2) h = set_ep (unat e) (uf_ep h (unat e) AND NOT 0x0600) h"
    "USB_SET_EP_ADDR usb_bus e e h = set_ep (unat e) ((uf_ep h (unat e) AND NOT 0x000F) OR ucast e) h"
proof -
  have "ep_type 2 = 0" by (simp add: ep_type_def)
  then show "USB_SET_EP_TYPE usb_bus e (ep_type 2) h = set_ep (unat e) (uf_ep h (unat e) AND NOT 0x0600) h"
    using set_fields(1) [of 0 "uf_ep h (unat e)"] mod_ep [OF assms] by (simp only: USB_SET_EP_TYPE_def) simp
  have "take_bit 4 e = e" using assms by (simp add: word_unat_eq_iff unsigned_take_bit_eq take_bit_nat_eq_self)
  then have "e AND mask 4 = e" by (simp add: take_bit_eq_mask)
  moreover have "ucast e AND 0x000F = (ucast (e AND mask 4) :: u16)"
    by (rule word16_eqI, unfold all_bits_16) (auto simp: bit_simps)
  ultimately have "ucast e AND 0x000F = (ucast e :: u16)" by simp
  then show "USB_SET_EP_ADDR usb_bus e e h = set_ep (unat e) ((uf_ep h (unat e) AND NOT 0x000F) OR ucast e) h"
    by (simp only: USB_SET_EP_ADDR_def mod_ep [OF assms] set_fields)
qed

lemma read_ep: "unat e < 8 \<Longrightarrow> mmio_read usb_bus (USB_EP_REG e) h = (ucast (uf_ep h (unat e)), h)"
  by (simp add: mmio_read_def usb_bus_def usbfs_read_def ep_address)

section \<open>The buffer table\<close>

lemma btable_word_ep:
  assumes "btable h = 0" "unat e < 8"
  shows "btable_word usb_bus e (2 * of_nat k) h = (USB_PMA_BASE + 4 * of_nat (4 * unat e + k), h)"
proof -
  have "GET_REG usb_bus USB_BTABLE_REG h = (0, h)"
    using assms by (simp add: GET_REG_def mmio_read_def usb_bus_def usbfs_read_def btable_def ep_index_def pma_index_def
        USB_BTABLE_REG_def USB_ISTR_REG_def USB_DEV_FS_BASE_def)
  moreover have "ucast e = (of_nat (unat e) :: u32)" by (simp add: word_unat_eq_iff unat_of_nat_u32 unat_byte_less [THEN less_trans])
  ultimately show ?thesis by (simp add: btable_word_def algebra_simps)
qed

lemma get_btable_ep:
  "btable h = 0 \<Longrightarrow> unat e < 8 \<Longrightarrow> k < 4 \<Longrightarrow> get_btable usb_bus e (2 * of_nat k) h = (uf_pma h (4 * unat e + k), h)"
  by (simp add: get_btable_def btable_word_ep get_pma del: of_nat_add of_nat_mult)

lemma set_btable_ep:
  "btable h = 0 \<Longrightarrow> unat e < 8 \<Longrightarrow> k < 4 \<Longrightarrow>
   set_btable usb_bus e (2 * of_nat k) v h = h\<lparr>uf_pma := (uf_pma h)(4 * unat e + k := v)\<rparr>"
  by (simp add: set_btable_def btable_word_ep SET_REG_def write_pma del: of_nat_add of_nat_mult)

lemma btable_ep:
  assumes "btable h = 0" "unat e < 8"
  shows "USB_SET_EP_TX_ADDR usb_bus e v h = h\<lparr>uf_pma := (uf_pma h)(4 * unat e := v)\<rparr>"
    "USB_SET_EP_TX_COUNT usb_bus e v h = h\<lparr>uf_pma := (uf_pma h)(4 * unat e + 1 := v)\<rparr>"
    "USB_SET_EP_RX_ADDR usb_bus e v h = h\<lparr>uf_pma := (uf_pma h)(4 * unat e + 2 := v)\<rparr>"
    "USB_SET_EP_RX_COUNT usb_bus e v h = h\<lparr>uf_pma := (uf_pma h)(4 * unat e + 3 := v)\<rparr>"
    "USB_GET_EP_TX_BUFF usb_bus e h = (USB_PMA_BASE + ucast (uf_pma h (4 * unat e)) * 2, h)"
    "USB_GET_EP_RX_BUFF usb_bus e h = (USB_PMA_BASE + ucast (uf_pma h (4 * unat e + 2)) * 2, h)"
    "USB_GET_EP_RX_COUNT usb_bus e h = (uf_pma h (4 * unat e + 3), h)"
  using set_btable_ep [OF assms, of 0 v] set_btable_ep [OF assms, of 1 v] set_btable_ep [OF assms, of 2 v]
    set_btable_ep [OF assms, of 3 v] get_btable_ep [OF assms, of 0] get_btable_ep [OF assms, of 2] get_btable_ep [OF assms, of 3]
  by (simp_all add: USB_SET_EP_TX_ADDR_def USB_SET_EP_TX_COUNT_def USB_SET_EP_RX_ADDR_def USB_SET_EP_RX_COUNT_def
      USB_GET_EP_TX_BUFF_def USB_GET_EP_RX_BUFF_def USB_GET_EP_RX_COUNT_def)

section \<open>Setting an endpoint up\<close>

lemma out_bits: "((((((x AND NOT 0x000F) OR a) AND NOT 0x0600) AND NOT 0x4000) AND NOT 0x3000) OR 0x3000) AND 0xB0B0 =
    (x AND 0x80B0) OR (a AND 0xB0B0) AND 0x8080 OR (a AND 0x0030) OR (0x3000 :: u16)"
  by (rule word16_eqI, unfold all_bits_16) (auto simp: bit_simps)

lemma in_bits: "((((((x AND NOT 0x000F) OR a) AND NOT 0x0600) AND NOT 0x0040) AND NOT 0x0030) OR 0x0020) AND 0xB0B0 =
    (x AND 0xB080) OR (a AND 0xB080) OR (0x0020 :: u16)"
  by (rule word16_eqI, unfold all_bits_16) (auto simp: bit_simps)

lemma low_bits: "unat (e :: u8) < 8 \<Longrightarrow> (ucast e :: u16) AND 0xFFF0 = 0"
proof -
  assume "unat e < 8"
  then have "take_bit 4 e = e" by (simp add: word_unat_eq_iff unsigned_take_bit_eq take_bit_nat_eq_self)
  then have "\<not> bit e n" if "4 \<le> n" for n using that by (metis bit_take_bit_iff not_le)
  then show ?thesis by (intro word16_eqI, unfold all_bits_16) (auto simp: bit_simps)
qed

lemma setup_out:
  assumes dev: "btable (usb_hw dev) = 0" and e: "unat e < 8" "e \<noteq> 0" "addr AND 0x80 = 0" "addr AND 0x7F = e"
  shows "\<exists>x. x AND 0xB0B0 = (uf_ep (usb_hw dev) (unat e) AND 0x80B0) OR 0x3000 \<and>
    st_usbfs_ep_setup usb_bus addr 2 64 (Some f) dev =
      dev\<lparr>usb_hw := (set_ep (unat e) x (usb_hw dev))\<lparr>uf_pma := (uf_pma (usb_hw dev))
            (4 * unat e + 2 := pm_top dev, 4 * unat e + 3 := 0x8400)\<rparr>,
          user_callback_ctr := (user_callback_ctr dev)(unat e := (user_callback_ctr dev (unat e))(USB_TRANSACTION_OUT := Some f)),
          pm_top := pm_top dev + 64\<rparr>"
proof -
  define h0 where "h0 = usb_hw dev"
  define i where "i = unat e"
  define x1 where "x1 = ((uf_ep h0 i AND NOT 0x000F) OR ucast e) AND NOT 0x0600"
  define h1 where "h1 = set_ep i x1 h0"
  define h2 where "h2 = h1\<lparr>uf_pma := (uf_pma h1)(4 * i + 2 := pm_top dev)\<rparr>"
  define h3 where "h3 = h2\<lparr>uf_pma := (uf_pma h2)(4 * i + 3 := 0x8400)\<rparr>"
  define x2 where "x2 = (x1 AND NOT 0x4000) AND NOT 0x3000 OR 0x3000"
  have b: "btable h1 = 0" "btable h2 = 0" using dev by (simp_all add: h2_def h1_def btable_def flip: h0_def)
  have x: "uf_ep h3 i = x1" by (simp add: h3_def h2_def h1_def)
  have "USB_SET_EP_TYPE usb_bus e (ep_type 2) (USB_SET_EP_ADDR usb_bus e e h0) = h1"
    by (simp add: ep_type_addr [OF e(1)] h1_def x1_def i_def)
  moreover have "USB_SET_EP_RX_ADDR usb_bus e (pm_top dev) h1 = h2" by (simp add: btable_ep [OF b(1) e(1)] h2_def i_def)
  moreover have "USB_SET_EP_RX_COUNT usb_bus e 0x8400 h2 = h3" by (simp add: btable_ep [OF b(2) e(1)] h3_def i_def)
  moreover have "USB_SET_EP_RX_STAT usb_bus e RX_VALID (USB_CLR_EP_RX_DTOG usb_bus e h3) = set_ep i x2 h3"
    using x by (simp add: ep_ops [OF e(1)] stat_masks x2_def i_def) (simp add: RX_VALID_def)
  ultimately have s: "st_usbfs_ep_setup usb_bus addr 2 64 (Some f) dev =
      dev\<lparr>usb_hw := set_ep i x2 h3,
        user_callback_ctr := (user_callback_ctr dev)(unat e := (user_callback_ctr dev (unat e))(USB_TRANSACTION_OUT := Some f)),
        pm_top := pm_top dev + 64\<rparr>"
    using e by (simp add: st_usbfs_ep_setup_def set_callback_def rx_bufsize_64 st_usbfs_set_ep_rx_bufsize_def flip: h0_def)
  have h: "set_ep i x2 h3 = (set_ep i x2 h0)\<lparr>uf_pma := (uf_pma h0)(4 * i + 2 := pm_top dev, 4 * i + 3 := 0x8400)\<rparr>"
    by (simp add: h3_def h2_def h1_def)
  have "ucast e AND 0xB0B0 = (ucast e AND 0xFFF0) AND (0xB0B0 :: u16)" "ucast e AND 0x0030 = (ucast e AND 0xFFF0) AND (0x0030 :: u16)"
    by (simp_all add: and.assoc)
  then have "ucast e AND 0xB0B0 = (0 :: u16)" "ucast e AND 0x0030 = (0 :: u16)" using low_bits [OF e(1)] by simp_all
  then have "x2 AND 0xB0B0 = (uf_ep h0 i AND 0x80B0) OR 0x3000"
    using out_bits [of "uf_ep h0 i" "ucast e"] by (simp add: x2_def x1_def)
  then show ?thesis unfolding s h h0_def [symmetric] i_def [symmetric] by (intro exI [of _ x2] conjI refl)
qed

lemma setup_in:
  assumes dev: "btable (usb_hw dev) = 0" and e: "unat e < 8" "addr AND 0x80 \<noteq> 0" "addr AND 0x7F = e"
  shows "\<exists>x. x AND 0xB0B0 = (uf_ep (usb_hw dev) (unat e) AND 0xB080) OR 0x0020 \<and>
    st_usbfs_ep_setup usb_bus addr 2 64 (Some f) dev =
      dev\<lparr>usb_hw := (set_ep (unat e) x (usb_hw dev))\<lparr>uf_pma := (uf_pma (usb_hw dev))(4 * unat e := pm_top dev)\<rparr>,
          user_callback_ctr := (user_callback_ctr dev)(unat e := (user_callback_ctr dev (unat e))(USB_TRANSACTION_IN := Some f)),
          pm_top := pm_top dev + 64\<rparr>"
proof -
  define h0 where "h0 = usb_hw dev"
  define i where "i = unat e"
  define x1 where "x1 = ((uf_ep h0 i AND NOT 0x000F) OR ucast e) AND NOT 0x0600"
  define h1 where "h1 = set_ep i x1 h0"
  define h2 where "h2 = h1\<lparr>uf_pma := (uf_pma h1)(4 * i := pm_top dev)\<rparr>"
  define x2 where "x2 = (x1 AND NOT 0x0040) AND NOT 0x0030 OR 0x0020"
  have b: "btable h1 = 0" using dev by (simp add: h1_def btable_def flip: h0_def)
  have x: "uf_ep h2 i = x1" by (simp add: h2_def h1_def)
  have "USB_SET_EP_TYPE usb_bus e (ep_type 2) (USB_SET_EP_ADDR usb_bus e e h0) = h1"
    by (simp add: ep_type_addr [OF e(1)] h1_def x1_def i_def)
  moreover have "USB_SET_EP_TX_ADDR usb_bus e (pm_top dev) h1 = h2" by (simp add: btable_ep [OF b e(1)] h2_def i_def)
  moreover have "USB_SET_EP_TX_STAT usb_bus e TX_NAK (USB_CLR_EP_TX_DTOG usb_bus e h2) = set_ep i x2 h2"
    using x by (simp add: ep_ops [OF e(1)] stat_masks x2_def i_def) (simp add: TX_NAK_def)
  ultimately have s: "st_usbfs_ep_setup usb_bus addr 2 64 (Some f) dev =
      dev\<lparr>usb_hw := set_ep i x2 h2,
        user_callback_ctr := (user_callback_ctr dev)(unat e := (user_callback_ctr dev (unat e))(USB_TRANSACTION_IN := Some f)),
        pm_top := pm_top dev + 64\<rparr>"
    using e by (simp add: st_usbfs_ep_setup_def set_callback_def Let_def flip: h0_def)
  have h: "set_ep i x2 h2 = (set_ep i x2 h0)\<lparr>uf_pma := (uf_pma h0)(4 * i := pm_top dev)\<rparr>"
    by (simp add: h2_def h1_def)
  have "ucast e AND 0xB080 = (ucast e AND 0xFFF0) AND (0xB080 :: u16)" by (simp add: and.assoc)
  then have "ucast e AND 0xB080 = (0 :: u16)" using low_bits [OF e(1)] by simp
  then have "x2 AND 0xB0B0 = (uf_ep h0 i AND 0xB080) OR 0x0020"
    using in_bits [of "uf_ep h0 i" "ucast e"] by (simp add: x2_def x1_def)
  then show ?thesis unfolding s h h0_def [symmetric] i_def [symmetric] by (intro exI [of _ x2] conjI refl)
qed

section \<open>The request SET_CONFIGURATION\<close>

lemma disable_fold:
  "\<forall>e\<in>set es. unat e < 8 \<Longrightarrow> distinct (map unat es) \<Longrightarrow>
   fold (\<lambda>e. USB_SET_EP_RX_STAT usb_bus e EP_DISABLED \<circ> USB_SET_EP_TX_STAT usb_bus e EP_DISABLED) es h =
     h\<lparr>uf_ep := \<lambda>i. if i \<in> unat ` set es then (uf_ep h i AND NOT 0x0030) AND NOT 0x3000 else uf_ep h i\<rparr>"
proof (induction es arbitrary: h)
  case (Cons e es)
  have e: "unat e < 8" using Cons.prems by simp
  have z: "EP_DISABLED AND 0x3000 = EP_DISABLED" "EP_DISABLED AND 0x0030 = EP_DISABLED" "EP_DISABLED = 0"
    by (simp_all add: EP_DISABLED_def)
  define h1 where "h1 = set_ep (unat e) ((uf_ep h (unat e) AND NOT 0x0030) AND NOT 0x3000) h"
  have "USB_SET_EP_RX_STAT usb_bus e EP_DISABLED (USB_SET_EP_TX_STAT usb_bus e EP_DISABLED h) = h1"
    by (simp add: ep_ops [OF e] z(1,2) h1_def) (simp add: z(3))
  moreover have "(\<lambda>i. if i \<in> unat ` set es then (uf_ep h1 i AND NOT 0x0030) AND NOT 0x3000 else uf_ep h1 i) =
      (\<lambda>i. if i \<in> unat ` set (e # es) then (uf_ep h i AND NOT 0x0030) AND NOT 0x3000 else uf_ep h i)"
    using Cons.prems(2) by (rule_tac ext) (auto simp: h1_def)
  moreover have "h1\<lparr>uf_ep := f\<rparr> = h\<lparr>uf_ep := f\<rparr>" for f by (simp add: h1_def)
  ultimately show ?case using Cons by simp
qed simp

text \<open>The endpoints after the request: one to receive on, two to send on, each with its buffer.\<close>

definition bulk :: "hw_view \<Rightarrow> bool" where
  "bulk a \<longleftrightarrow> (case a of (_, eps, pma) \<Rightarrow>
     eps 1 AND 0xB0B0 = 0x3020 \<and> eps 2 AND 0x80B0 = 0x0020 \<and> pma 4 = 0x100 \<and> pma 6 = 0xC0 \<and> pma 8 = 0x140)"

text \<open>The callbacks after it.\<close>

definition bulk_callbacks :: "(nat \<Rightarrow> usb_transaction \<Rightarrow> usb_fn option) \<Rightarrow> nat \<Rightarrow> usb_transaction \<Rightarrow> usb_fn option" where
  "bulk_callbacks ctr =
     ctr(1 := (ctr 1)(USB_TRANSACTION_OUT := Some F_usbDataOutCallback, USB_TRANSACTION_IN := Some F_usbDataInCallback),
         2 := (ctr 2)(USB_TRANSACTION_IN := Some F_usbSerialDataInCallback))"

definition configured :: "app_view \<Rightarrow> app_view" where
  "configured c = (bulk_callbacks (fst c), snd c)"

lemma and_disabled: "((x AND NOT 0x0030) AND NOT 0x3000) AND 0x80B0 = (x AND 0x8080 :: u16)"
  "((x AND NOT 0x0030) AND NOT 0x3000) AND 0xB080 = (x AND 0x8080 :: u16)"
  by (rule word16_eqI, unfold all_bits_16, auto simp: bit_simps)+

lemma config_callback:
  assumes dev: "btable (usb_hw dev) = 0" "pm_top dev = 0xC0"
    "uf_ep (usb_hw dev) 1 AND 0x80B0 = 0" "uf_ep (usb_hw dev) 2 AND 0xB080 = 0"
  shows "\<exists>x y. x AND 0xB0B0 = 0x3020 \<and> y AND 0xB0B0 = 0x0020 \<and> usbSetConfigCallback usb_bus v dev =
    dev\<lparr>usb_hw := (usb_hw dev)\<lparr>uf_ep := (uf_ep (usb_hw dev))(1 := x, 2 := y),
            uf_pma := (uf_pma (usb_hw dev))(6 := 0xC0, 7 := 0x8400, 4 := 0x100, 8 := 0x140)\<rparr>,
        user_callback_ctr := bulk_callbacks (user_callback_ctr dev), pm_top := 0x180\<rparr>"
proof -
  obtain x1 where 1: "x1 AND 0xB0B0 = (uf_ep (usb_hw dev) 1 AND 0x80B0) OR 0x3000"
    "st_usbfs_ep_setup usb_bus 1 2 64 (Some F_usbDataOutCallback) dev =
      dev\<lparr>usb_hw := (set_ep 1 x1 (usb_hw dev))\<lparr>uf_pma := (uf_pma (usb_hw dev))(6 := 0xC0, 7 := 0x8400)\<rparr>,
          user_callback_ctr := (user_callback_ctr dev)(1 := (user_callback_ctr dev 1)(USB_TRANSACTION_OUT := Some F_usbDataOutCallback)),
          pm_top := 0x100\<rparr>"
    using setup_out [OF dev(1), of 1 1] dev(2) by auto
  define d1 where "d1 = dev\<lparr>usb_hw := (set_ep 1 x1 (usb_hw dev))\<lparr>uf_pma := (uf_pma (usb_hw dev))(6 := 0xC0, 7 := 0x8400)\<rparr>,
          user_callback_ctr := (user_callback_ctr dev)(1 := (user_callback_ctr dev 1)(USB_TRANSACTION_OUT := Some F_usbDataOutCallback)),
          pm_top := 0x100\<rparr>"
  obtain x2 where 2: "x2 AND 0xB0B0 = (x1 AND 0xB080) OR 0x0020"
    "st_usbfs_ep_setup usb_bus 0x81 2 64 (Some F_usbDataInCallback) d1 =
      d1\<lparr>usb_hw := (set_ep 1 x2 (usb_hw d1))\<lparr>uf_pma := (uf_pma (usb_hw d1))(4 := 0x100)\<rparr>,
          user_callback_ctr := (user_callback_ctr d1)(1 := (user_callback_ctr d1 1)(USB_TRANSACTION_IN := Some F_usbDataInCallback)),
          pm_top := 0x140\<rparr>"
    using setup_in [of d1 1 "0x81"] dev(1) by (auto simp: d1_def btable_def)
  define d2 where "d2 = d1\<lparr>usb_hw := (set_ep 1 x2 (usb_hw d1))\<lparr>uf_pma := (uf_pma (usb_hw d1))(4 := 0x100)\<rparr>,
          user_callback_ctr := (user_callback_ctr d1)(1 := (user_callback_ctr d1 1)(USB_TRANSACTION_IN := Some F_usbDataInCallback)),
          pm_top := 0x140\<rparr>"
  obtain y where 3: "y AND 0xB0B0 = (uf_ep (usb_hw dev) 2 AND 0xB080) OR 0x0020"
    "st_usbfs_ep_setup usb_bus 0x82 2 64 (Some F_usbSerialDataInCallback) d2 =
      d2\<lparr>usb_hw := (set_ep 2 y (usb_hw d2))\<lparr>uf_pma := (uf_pma (usb_hw d2))(8 := 0x140)\<rparr>,
          user_callback_ctr := (user_callback_ctr d2)(2 := (user_callback_ctr d2 2)(USB_TRANSACTION_IN := Some F_usbSerialDataInCallback)),
          pm_top := 0x180\<rparr>"
    using setup_in [of d2 2 "0x82"] dev(1) by (auto simp: d2_def d1_def btable_def)
  have x1: "x1 AND 0xB0B0 = 0x3000" using 1(1) dev(3) by simp
  have "x1 AND 0xB080 = (x1 AND 0xB0B0) AND 0xB080" by (simp add: and.assoc)
  then have "x2 AND 0xB0B0 = 0x3020" using 2(1) x1 by simp
  moreover have "y AND 0xB0B0 = 0x0020" using 3(1) dev(4) by simp
  moreover have "usbSetConfigCallback usb_bus v dev =
      d2\<lparr>usb_hw := (set_ep 2 y (usb_hw d2))\<lparr>uf_pma := (uf_pma (usb_hw d2))(8 := 0x140)\<rparr>,
          user_callback_ctr := (user_callback_ctr d2)(2 := (user_callback_ctr d2 2)(USB_TRANSACTION_IN := Some F_usbSerialDataInCallback)),
          pm_top := 0x180\<rparr>"
    unfolding usbSetConfigCallback_def 1(2) d1_def [symmetric] 2(2) d2_def [symmetric] 3(2) ..
  ultimately show ?thesis
    by (intro exI [of _ x2] exI [of _ y]) (simp add: d2_def d1_def bulk_callbacks_def)
qed

definition configure_request :: "u8 list" where
  "configure_request = [0, 9, 0, 0, 0, 0, 0, 0]"

lemma configure_fields:
  "length configure_request = 8" "bmRequestType configure_request = 0" "bRequest configure_request = 9"
  "wLength configure_request = 0" "wValue configure_request = 0" "usbControlCallback configure_request = None"
  by (simp_all add: configure_request_def bmRequestType_def bRequest_def wLength_def wValue_def rd16_def usbControlCallback_def)

lemma configure_std:
  assumes dev: "fw c d" "quiet a (usb_hw d)" "cs_req d = req" and slots: "fst (snd c) = config_slots"
  shows "\<exists>d' a'. usbd_standard_request usb_bus configure_request 0 d = Inr (USBD_REQ_HANDLED, CtrlPtr 0, 0, d') \<and>
    fw (configured c) d' \<and> quiet a' (usb_hw d') \<and> ep0 (usb_hw d') = ep0 (usb_hw d) \<and> cs_req d' = req \<and>
    bulk a' \<and> fst a' = fst a"
proof -
  define h where "h = usb_hw d"
  define g where "g = h\<lparr>uf_ep := \<lambda>i. if i \<in> {1, 2, 3, 4, 5, 6, 7} then (uf_ep h i AND NOT 0x0030) AND NOT 0x3000 else uf_ep h i\<rparr>"
  define d1 where "d1 = d\<lparr>current_config := 0, usb_hw := g, pm_top := 0xC0, user_control_callback := replicate 4 None\<rparr>"
  have es: "unat ` {1, 2, 3, 4, 5, 6, 7 :: u8} = {1, 2, 3, 4, 5, 6, 7}" by simp
  have m: "bMaxPacketSize0 (d\<lparr>current_config := 0\<rparr>) = 64" using dev(1) by (intro fw_packet_size) (simp add: fw_def)
  have r: "st_usbfs_endpoints_reset usb_bus (d\<lparr>current_config := 0\<rparr>) = d\<lparr>current_config := 0, usb_hw := g, pm_top := 0xC0\<rparr>"
  proof -
    have "fold (\<lambda>e. USB_SET_EP_RX_STAT usb_bus e EP_DISABLED \<circ> USB_SET_EP_TX_STAT usb_bus e EP_DISABLED) [1, 2, 3, 4, 5, 6, 7] h = g"
      unfolding g_def es [symmetric] by (subst disable_fold) simp_all
    then show ?thesis
      unfolding st_usbfs_endpoints_reset_def m by (simp add: USBD_PM_TOP_def h_def)
  qed
  have s: "user_callback_set_config d = config_slots" using dev(1) slots by (auto simp: fw_def)
  have q: "btable h = 0" "\<forall>i. 0 < i \<and> i < 8 \<longrightarrow> uf_ep h i AND 0x8080 = 0"
    using dev(2) by (simp_all add: quiet_def wired_def h_def)
  have "uf_ep g 1 = (uf_ep h 1 AND NOT 0x0030) AND NOT 0x3000" "uf_ep g 2 = (uf_ep h 2 AND NOT 0x0030) AND NOT 0x3000"
    by (simp_all add: g_def)
  then have "uf_ep g 1 AND 0x80B0 = uf_ep h 1 AND 0x8080" "uf_ep g 2 AND 0xB080 = uf_ep h 2 AND 0x8080"
    by (simp_all only: and_disabled)
  then have "uf_ep g 1 AND 0x80B0 = 0" "uf_ep g 2 AND 0xB080 = 0" using q(2) by simp_all
  then obtain x y where xy: "x AND 0xB0B0 = 0x3020" "y AND 0xB0B0 = 0x0020" "usbSetConfigCallback usb_bus 0 d1 =
    d1\<lparr>usb_hw := g\<lparr>uf_ep := (uf_ep g)(1 := x, 2 := y), uf_pma := (uf_pma g)(6 := 0xC0, 7 := 0x8400, 4 := 0x100, 8 := 0x140)\<rparr>,
        user_callback_ctr := bulk_callbacks (user_callback_ctr d), pm_top := 0x180\<rparr>"
    using config_callback [of d1 0] q(1) by (auto simp: d1_def g_def btable_def)
  define d' where "d' = d1\<lparr>usb_hw := g\<lparr>uf_ep := (uf_ep g)(1 := x, 2 := y), uf_pma := (uf_pma g)(6 := 0xC0, 7 := 0x8400, 4 := 0x100, 8 := 0x140)\<rparr>,
        user_callback_ctr := bulk_callbacks (user_callback_ctr d), pm_top := 0x180\<rparr>"
  have e: "usbSetConfigCallback usb_bus 0 d1 = d'" unfolding d'_def by (rule xy(3))
  have "usbd_standard_request usb_bus configure_request 0 d = Inr (USBD_REQ_HANDLED, CtrlPtr 0, 0, d')"
    by (simp add: usbd_standard_request_def usbd_standard_request_device_def usb_standard_set_configuration_def Let_def
        configure_fields r s config_slots_def e [unfolded d1_def])
  moreover have "fw (configured c) d'"
    using dev(1) by (simp add: d'_def d1_def fw_def configured_def) (simp add: bulk_callbacks_def)
  moreover have "ep0 (usb_hw d') = ep0 (usb_hw d)" by (simp add: d'_def g_def h_def ep0_def)
  moreover have "cs_req d' = req" using dev(3) by (simp add: d'_def d1_def)
  moreover have "quiet (hw_view (usb_hw d')) (usb_hw d')"
  proof -
    have "x AND 0x8080 = (x AND 0xB0B0) AND 0x8080" "y AND 0x8080 = (y AND 0xB0B0) AND 0x8080" by (simp_all add: and.assoc)
    then have "x AND 0x8080 = 0" "y AND 0x8080 = 0" using xy(1,2) by simp_all
    moreover have "((z AND NOT 0x0030) AND NOT 0x3000) AND 0x8080 = (z AND 0x8080 :: u16)" for z
      by (rule word16_eqI, unfold all_bits_16) (auto simp: bit_simps)
    ultimately show ?thesis
      using dev(2) by (auto simp: d'_def quiet_def wired_def btable_def g_def h_def)
  qed
  moreover have "bulk (hw_view (usb_hw d'))"
  proof -
    have "y AND 0x80B0 = (y AND 0xB0B0) AND 0x80B0" by (simp add: and.assoc)
    then have "y AND 0x80B0 = 0x0020" using xy(2) by simp
    then show ?thesis using xy(1) by (simp add: bulk_def hw_view_def ep0_pma_def d'_def)
  qed
  moreover have "fst (hw_view (usb_hw d')) = fst a"
    using dev(2) by (auto simp: quiet_def hw_view_def d'_def g_def h_def daddr_def)
  ultimately show ?thesis by blast
qed

lemma configure:
  assumes "enumerable c a dev" "fst (snd c) = config_slots"
  shows "\<exists>dev' a'. control_request configure_request dev = Inr dev' \<and> enumerable (configured c) a' dev' \<and> bulk a' \<and> fst a' = fst a"
proof -
  obtain d a' h where d: "bulk a' \<and> fst a' = fst a" "quiet a' h" "ep0 h AND 0x8080 = 0" "fw (configured c) d"
    "control_request configure_request dev = Inr (let d = d\<lparr>usb_hw := h\<rparr>;
       d = (if bmRequestType configure_request = 0 \<and> bRequest configure_request = 5
            then st_usbfs_set_address usb_bus (ucast (wValue configure_request)) d else d)
       in d\<lparr>cs_state := IDLE, usb_hw := sofm (usb_hw d)\<rparr>)"
    by (rule request_no_data [OF assms(1) configure_fields(4,6,1), where R = "\<lambda>a'. bulk a' \<and> fst a' = fst a" and c' = "configured c"])
      (rule configure_std [OF _ _ _ assms(2)])
  then have "control_request configure_request dev = Inr (d\<lparr>cs_state := IDLE, usb_hw := sofm h\<rparr>)"
    by (simp add: configure_fields Let_def)
  moreover have "enumerable (configured c) a' (d\<lparr>cs_state := IDLE, usb_hw := sofm h\<rparr>)"
    using d(2-4) by (simp add: enumerable_def)
  ultimately show ?thesis using d(1) by blast
qed

end
