(* ===== verification/Usb_Enumeration.thy ===== *)
theory Usb_Enumeration
  imports Usb_Bulk
begin

text \<open>
  Sessions of a host with the device: bus resets, reads of descriptors, the two requests that
  set the address and the configuration, in any order. The device behaves as an abstract one
  that has only an address and a flag for the configuration.
\<close>

section \<open>The request SET_ADDRESS\<close>

lemma address_std:
  assumes dev: "fw c d" "quiet a (usb_hw d)" "cs_req d = req" and n: "unat n < 128"
  shows "\<exists>d' a'. usbd_standard_request usb_bus (set_address_request n) 0 d = Inr (USBD_REQ_HANDLED, CtrlPtr 0, 0, d') \<and>
    fw c d' \<and> quiet a' (usb_hw d') \<and> ep0 (usb_hw d') = ep0 (usb_hw d) \<and> cs_req d' = req \<and> a' = a"
proof -
  let ?r = "set_address_request n" and ?d = "d\<lparr>current_address := ucast (wValue (set_address_request n))\<rparr>"
  have "\<not> wValue ?r \<ge> 128" using n set_address_fields(6) [of n] by (simp add: word_le_nat_alt)
  then have "usbd_standard_request usb_bus ?r 0 d = Inr (USBD_REQ_HANDLED, CtrlPtr 0, 0, ?d)"
    by (simp add: usbd_standard_request_def usbd_standard_request_device_def usb_standard_set_address_def set_address_fields)
  moreover have "fw c ?d" using dev(1) by (simp add: fw_def)
  ultimately show ?thesis using dev(2,3) by (intro exI [of _ ?d] exI [of _ a]) simp
qed

text \<open>The address with the bit that enables the controller, as it is in the register.\<close>

definition at_address :: "u8 \<Rightarrow> u32" where
  "at_address n = ucast ((n AND 0x7F) OR 0x80)"

lemma address_stored:
  assumes "quiet a h"
  shows "quiet (at_address n, snd a) (h\<lparr>uf_mem := store_le 4 USB_DADDR_REG (at_address n) (uf_mem h)\<rparr>)"
proof -
  define g where "g = h\<lparr>uf_mem := store_le 4 USB_DADDR_REG (at_address n) (uf_mem h)\<rparr>"
  have d: "daddr g = at_address n" "btable g = btable h"
    by (simp_all add: g_def daddr_def btable_def load_store_same load_store_other usb_addresses)
  have f: "uf_ep g = uf_ep h" "uf_pma g = uf_pma h" "uf_flags g = uf_flags h" by (simp_all add: g_def)
  have "hw_view g = (at_address n, snd (hw_view h))" by (simp only: hw_view_def d f snd_conv)
  then show ?thesis unfolding g_def [symmetric] using assms by (auto simp: quiet_def wired_def d f)
qed

lemma set_address_any: "st_usbfs_set_address usb_bus n dev =
    upd_hw (\<lambda>h. h\<lparr>uf_mem := store_le 4 USB_DADDR_REG (at_address n) (uf_mem h)\<rparr>) dev"
proof -
  have "ucast (ucast x :: u16) = (ucast (x :: u8) :: u32)" for x
    by (rule bit_word_eqI) (auto simp: bit_simps dest: bit_imp_le_length)
  then show ?thesis
    by (simp add: st_usbfs_set_address_def SET_REG_def mmio_write_def usb_bus_def usbfs_write_def usb_addresses at_address_def)
qed

lemma address_callback: "usbControlCallback (set_address_request n) = None"
  by (simp add: usbControlCallback_def set_address_fields)

lemma address:
  assumes "enumerable c a dev" "unat n < 128"
  shows "\<exists>dev'. control_request (set_address_request n) dev = Inr dev' \<and> enumerable c (at_address n, snd a) dev'"
proof -
  let ?r = "set_address_request n"
  obtain d a' h where d: "a' = a" "quiet a' h" "ep0 h AND 0x8080 = 0" "fw c d"
    "control_request ?r dev = Inr (let d = d\<lparr>usb_hw := h\<rparr>;
       d = (if bmRequestType ?r = 0 \<and> bRequest ?r = 5 then st_usbfs_set_address usb_bus (ucast (wValue ?r)) d else d)
       in d\<lparr>cs_state := IDLE, usb_hw := sofm (usb_hw d)\<rparr>)"
    by (rule request_no_data [OF assms(1) set_address_fields(4) address_callback set_address_fields(1),
          where R = "\<lambda>a'. a' = a" and c' = c])
      (rule address_std [OF _ _ _ assms(2)])
  define g where "g = h\<lparr>uf_mem := store_le 4 USB_DADDR_REG (at_address n) (uf_mem h)\<rparr>"
  have g: "quiet (at_address n, snd a) g" "ep0 g = ep0 h" using d(1,2) address_stored by (simp_all add: g_def ep0_def)
  have "control_request ?r dev = Inr (d\<lparr>cs_state := IDLE, usb_hw := sofm g\<rparr>)"
    using d(5) by (simp add: set_address_fields set_address_any Let_def g_def)
  moreover have "enumerable c (at_address n, snd a) (d\<lparr>cs_state := IDLE, usb_hw := sofm g\<rparr>)"
    using d(3,4) g by (simp add: enumerable_def)
  ultimately show ?thesis by blast
qed

section \<open>Sessions\<close>

datatype host_action = Bus_Reset | Describe u8 u8 u16 u16 | Set_Address u8 | Configure

fun perform :: "host_action \<Rightarrow> usbfs firmware \<Rightarrow> (u8 list option \<times> usbfs firmware) result" where
  "perform Bus_Reset dev = bindR (st_usbfs_poll usb_bus (bus_reset dev)) (\<lambda>dev. Inr (None, dev))"
| "perform (Describe ty ix lang wlen) dev =
     bindR (control_read (get_descriptor ty ix lang wlen) dev) (\<lambda>(bs, dev). Inr (Some bs, dev))"
| "perform (Set_Address n) dev = bindR (control_request (set_address_request n) dev) (\<lambda>dev. Inr (None, dev))"
| "perform Configure dev = bindR (control_request configure_request dev) (\<lambda>dev. Inr (None, dev))"

fun session :: "host_action list \<Rightarrow> usbfs firmware \<Rightarrow> (u8 list option list \<times> usbfs firmware) result" where
  "session [] dev = Inr ([], dev)"
| "session (act # acts) dev =
     bindR (perform act dev) (\<lambda>(r, dev). bindR (session acts dev) (\<lambda>(rs, dev). Inr (r # rs, dev)))"

text \<open>The abstract device: its address and whether it is configured, what it answers and when.\<close>

fun abs_step :: "host_action \<Rightarrow> u8 \<times> bool \<Rightarrow> u8 \<times> bool" where
  "abs_step Bus_Reset s = (0, False)"
| "abs_step (Describe ty ix lang wlen) s = s"
| "abs_step (Set_Address n) s = (n, snd s)"
| "abs_step Configure s = (fst s, True)"

fun abs_answer :: "host_action \<Rightarrow> u8 list option" where
  "abs_answer (Describe ty ix lang wlen) = map_option (take (unat wlen)) (fw_descriptor ty ix)"
| "abs_answer _ = None"

fun permitted :: "host_action \<Rightarrow> bool" where
  "permitted (Describe ty ix lang wlen) \<longleftrightarrow>
     (case fw_descriptor ty ix of
        None \<Rightarrow> False
      | Some d \<Rightarrow> wlen \<noteq> 0 \<and> (if ty = 3 \<and> ix \<noteq> 0 then lang = 0x409 \<and> (even (unat wlen) \<or> length d \<le> unat wlen) else True))"
| "permitted (Set_Address n) \<longleftrightarrow> unat n < 128"
| "permitted _ \<longleftrightarrow> True"

text \<open>
  The device in an abstract state: its address register holds the address, its application is
  \<open>app\<close>, and the endpoints are set up when it is configured.
\<close>

definition serving :: "usbfs monitor \<Rightarrow> u8 \<times> bool \<Rightarrow> usbfs firmware \<Rightarrow> bool" where
  "serving app s dev \<longleftrightarrow> (\<exists>c a. enumerable c a dev \<and> snd c = (config_slots, app) \<and> fst a = at_address (fst s) \<and>
     (snd s \<longrightarrow> bulk a \<and> fst c = bulk_callbacks (fst c)))"

lemma servingI:
  "enumerable c a dev \<Longrightarrow> snd c = (config_slots, app) \<Longrightarrow> fst a = at_address (fst s) \<Longrightarrow>
   (snd s \<Longrightarrow> bulk a \<and> fst c = bulk_callbacks (fst c)) \<Longrightarrow> serving app s dev"
  unfolding serving_def by (intro exI [of _ c] exI [of _ a]) simp

lemma serving_reset:
  assumes "fw c dev" "btable (usb_hw dev) = 0" "snd c = (config_slots, app)"
  shows "\<exists>dev'. perform Bus_Reset dev = Inr (None, dev') \<and> serving app (0, False) dev'"
proof -
  obtain dev' a where r: "st_usbfs_poll usb_bus (bus_reset dev) = Inr dev'" "enumerable c a dev'" "daddr (usb_hw dev') = 0x80"
    using reset_poll [OF assms(1,2)] by blast
  have "fst a = at_address 0" using r(2,3) by (auto simp: enumerable_def quiet_def hw_view_def at_address_def)
  then have "serving app (0, False) dev'" by (intro servingI [OF r(2) assms(3)]) simp_all
  then show ?thesis using r(1) by simp
qed

lemma bulk_callbacks_twice [simp]: "bulk_callbacks (bulk_callbacks f) = bulk_callbacks f"
  by (simp add: bulk_callbacks_def fun_eq_iff)

lemma serving_step:
  assumes "serving app s dev" "permitted act"
  shows "\<exists>dev'. perform act dev = Inr (abs_answer act, dev') \<and> serving app (abs_step act s) dev'"
proof -
  obtain c a where c: "enumerable c a dev" "snd c = (config_slots, app)" "fst a = at_address (fst s)"
    "snd s \<Longrightarrow> bulk a \<and> fst c = bulk_callbacks (fst c)"
    using assms(1) unfolding serving_def by blast
  show ?thesis
  proof (cases act)
    case Bus_Reset
    have "fw c dev" "btable (usb_hw dev) = 0" using c(1) by (simp_all add: enumerable_def quiet_def wired_def)
    then show ?thesis unfolding Bus_Reset using serving_reset [of c dev] c(2) by simp
  next
    case (Describe ty ix lang wlen)
    then obtain d where d: "fw_descriptor ty ix = Some d" "wlen \<noteq> 0"
      "ty = 3 \<and> ix \<noteq> 0 \<Longrightarrow> lang = 0x409 \<and> (even (unat wlen) \<or> length d \<le> unat wlen)"
      using assms(2) by (auto split: option.splits if_splits)
    obtain dev' where "control_read (get_descriptor ty ix lang wlen) dev = Inr (take (unat wlen) d, dev')" "enumerable c a dev'"
      using descriptor_read [OF c(1) d] by blast
    moreover from servingI [OF this(2) c(2,3,4)] have "serving app s dev'" .
    ultimately show ?thesis using Describe d(1) by simp
  next
    case (Set_Address n)
    then obtain dev' where a: "control_request (set_address_request n) dev = Inr dev'" "enumerable c (at_address n, snd a) dev'"
      using address [OF c(1)] assms(2) by auto
    have "bulk (at_address n, snd a) = bulk a" by (cases a) (simp add: bulk_def)
    then have "serving app (n, snd s) dev'" using c(4) by (intro servingI [OF a(2) c(2)]) auto
    then show ?thesis using Set_Address a(1) by simp
  next
    case Configure
    obtain dev' a' where a: "control_request configure_request dev = Inr dev'" "enumerable (configured c) a' dev'" "bulk a'" "fst a' = fst a"
      using configure [OF c(1)] c(2) by auto
    have "serving app (fst s, True) dev'"
      using a(3,4) c(2,3) by (intro servingI [OF a(2)]) (simp_all add: configured_def)
    then show ?thesis using Configure a(1) by simp
  qed
qed

lemma serving_session:
  assumes "serving app s dev" "\<forall>act\<in>set acts. permitted act"
  shows "\<exists>dev'. session acts dev = Inr (map abs_answer acts, dev') \<and> serving app (fold abs_step acts s) dev'"
  using assms
proof (induction acts arbitrary: s dev)
  case (Cons act acts)
  obtain dev1 where 1: "perform act dev = Inr (abs_answer act, dev1)" "serving app (abs_step act s) dev1"
    using serving_step [of app s dev act] Cons.prems by auto
  obtain dev2 where "session acts dev1 = Inr (map abs_answer acts, dev2)" "serving app (fold abs_step acts (abs_step act s)) dev2"
    using Cons.IH [OF 1(2)] Cons.prems(2) by auto
  then show ?case using 1(1) by simp
qed simp

lemma power_on: "\<exists>dev. perform Bus_Reset (usbdInit usb_bus app h) = Inr (None, dev) \<and> serving app (0, False) dev"
  using serving_reset [OF init_device, of app app h] by (auto simp: started_def)



end
