(* ===== verification/Bus_Frame.thy ===== *)
theory Bus_Frame
  imports Monitor_Total
begin

text \<open>
  What the command interpreter leaves alone. A bus with a part that neither a load nor a store
  to a free address changes, where the registers of the debug hardware are free: no command
  changes that part, but a write to memory that is not free.
\<close>

definition debug_registers :: "u32 list" where
  "debug_registers = [SCB_CFSR, SCB_CCR, DEMCR, FP_CTRL, FLASH_KEYR] @ comps"

locale bus_frame =
  fixes b :: "'h bus" and view :: "'h \<Rightarrow> 'v" and free :: "nat \<Rightarrow> u32 \<Rightarrow> bool"
  assumes read_view: "view (snd (bus_read b n a h)) = view h"
    and write_view: "free n a \<Longrightarrow> view (bus_write b n a v h) = view h"
    and registers_free: "a \<in> set debug_registers \<Longrightarrow> free 4 a"
begin

lemma mmio_view:
  "view (snd (mmio_read b a h)) = view h" "mmio_read b a h = (x, g) \<Longrightarrow> view g = view h"
  "free 4 a \<Longrightarrow> view (mmio_write b a v h) = view h"
  using read_view [of 4 a h] by (simp_all add: mmio_read_def mmio_write_def write_view)

lemma modify_view:
  "free 4 a \<Longrightarrow> view (mmio_set b a v h) = view h" "free 4 a \<Longrightarrow> view (mmio_clear b a v h) = view h"
  by (simp_all add: mmio_set_def mmio_clear_def mmio_modify_def mmio_view split: prod.splits)

lemma registers:
  "free 4 SCB_CFSR" "free 4 SCB_CCR" "free 4 DEMCR" "free 4 FP_CTRL" "free 4 FLASH_KEYR" "a \<in> set comps \<Longrightarrow> free 4 a"
  by (rule registers_free, simp add: debug_registers_def)+

lemma enqueue_view [simp]: "view (hw (snd (enqueue b c m))) = view (hw m)"
  by (simp add: enqueue_def on_hw_def modify_view registers split: prod.splits)

lemma unlock_view: "view (flash_unlock b h) = view h"
  by (simp add: flash_unlock_def mmio_view registers split: prod.splits)

lemma find_comp_view: "find_comp b P bps h = (r, g) \<Longrightarrow> view g = view h \<and> (\<forall>bp. r = Some bp \<longrightarrow> bp \<in> set bps)"
proof (induction bps arbitrary: h)
  case (Cons bp bps)
  obtain v h1 where v: "mmio_read b bp h = (v, h1)" by fastforce
  then show ?case using Cons mmio_view(2) [OF v] by (auto split: if_splits)
qed simp

lemma breakpoint_view: "view (set_breakpoint b a h) = view h"
proof -
  obtain r h1 where 1: "find_comp b (\<lambda>v. v AND 0x3FFFFFFC = bp_word a) comps h = (r, h1)" by fastforce
  obtain r' h2 where 2: "find_comp b (\<lambda>v. v AND 1 = 0) comps h1 = (r', h2)" by fastforce
  show ?thesis
    using find_comp_view [OF 1] find_comp_view [OF 2]
    by (auto simp: set_breakpoint_def 1 2 modify_view mmio_view registers split: option.splits)
qed

lemma clear_comp_view: "bp \<in> set comps \<Longrightarrow> view (clear_comp b a bp h) = view h"
  using mmio_view(2) by (auto simp: clear_comp_def modify_view mmio_view registers split: prod.splits)

lemma fold_view: "(\<And>x h. x \<in> set xs \<Longrightarrow> view (f x h) = view h) \<Longrightarrow> view (fold f xs h) = view h"
  by (induction xs arbitrary: h) simp_all

lemma breakpoints_view:
  "view (fold (set_breakpoint b) xs h) = view h" "view (fold (clear_breakpoint b) xs h) = view h"
  by (simp_all add: fold_view breakpoint_view clear_breakpoint_def clear_comp_view)

lemma put_ans_view [simp]: "hw (put_ans k bs m) = hw m"
  by (simp add: put_ans_def)

lemma copy_view:
  assumes "dbg_memcpy b ld st z al m = Inr m'" "copy_width al dvd unat z"
    and "\<And>off q. off + copy_width al \<le> unat z \<Longrightarrow>
      view (hw (st (copy_width al) (of_nat off) (fst (ld (copy_width al) (of_nat off) q)) (snd (ld (copy_width al) (of_nat off) q)))) =
        view (hw q)"
  shows "view (hw m') = view (hw m)"
proof -
  let ?P = "\<lambda>q. view (hw q) = view (hw m)"
  have regs: "?P (on_hw (mmio_set b SCB_CFSR BFARVALID_MASK) m)" by (simp add: on_hw_def modify_view registers)
  define m1 where "m1 = on_hw (mmio_set b SCB_CCR SCB_CCR_BFHFNMIGN_Msk)
    ((on_hw (mmio_set b SCB_CFSR BFARVALID_MASK) m)\<lparr>faultmask := 1\<rparr>)"
  have m1: "?P m1" by (simp add: m1_def on_hw_def modify_view registers)
  obtain k where k: "unat z = k * copy_width al" using assms(2) by (metis dvd_def mult.commute)
  have w: "0 < copy_width al" by (simp add: copy_width_def)
  have "\<exists>m2. copy_loop (copy_width al) (ld (copy_width al)) (st (copy_width al)) (of_nat 0) (of_nat (k * copy_width al)) m1 = Some m2 \<and> ?P m2"
    by (rule copy_loop_total [OF w unat_u32_less [of z], where P = ?P])
      (use assms(3) m1 k in simp_all)
  then obtain m2 where m2: "copy_loop (copy_width al) (ld (copy_width al)) (st (copy_width al)) 0 z m1 = Some m2" "?P m2"
    by (auto simp flip: k)
  have "m' = (on_hw (mmio_clear b SCB_CCR SCB_CCR_BFHFNMIGN_Msk) m2)\<lparr>faultmask := faultmask m\<rparr>"
    using assms(1) m2(1) by (simp add: dbg_memcpy_def Let_def m1_def on_hw_def)
  then show ?thesis using m2(2) by (simp add: on_hw_def modify_view registers)
qed

section \<open>The commands\<close>

lemma memoryRead_view:
  assumes "memoryReadCommand b inSize BULK_EP_MAXPACKET m = Inr (n, m')"
  shows "view (hw m') = view (hw m)"
proof (cases "dbgHeadValid 8 (usbCmdFrame m) inSize CMemoryRead")
  case True
  let ?al = "ucast (cmd_u8 1 m) :: u32" and ?a = "cmd_u32 4 m"
  let ?n = "payloadSize 8 BULK_EP_MAXPACKET (ucast (cmd_u16 2 m)) ?al"
  let ?m = "put_ans 0 (mem_head CMemoryRead (ucast ?al) (ucast ?n) ?a) m"
  have ld: "view (hw (store_frame 8 w off v (snd (load_mem b ?a w' off' q)))) = view (hw q)" for w off v w' off' q
    using read_view by (simp add: store_frame_def load_mem_def read_hw_def split: prod.splits) (metis snd_conv)
  show ?thesis
  proof (cases "checkMemRegionAccess ?a (?a + ?n) AND 1 \<noteq> 0")
    case True
    then obtain q where q: "dbg_memcpy b (load_mem b ?a) (store_frame 8) ?n ?al ?m = Inr q" "m' = q"
      using assms \<open>dbgHeadValid _ _ _ _\<close>
      by (cases "dbg_memcpy b (load_mem b ?a) (store_frame 8) ?n ?al ?m") (auto simp: memoryReadCommand_def Let_def)
    show ?thesis using copy_view [OF q(1) payloadSize_width ld] q(2) by simp
  next
    case False
    then show ?thesis using assms \<open>dbgHeadValid _ _ _ _\<close> by (auto simp: memoryReadCommand_def Let_def)
  qed
next
  case False
  then show ?thesis using assms by (simp add: memoryReadCommand_def)
qed

text \<open>A write to memory, when all that it can write to is free.\<close>

definition free_block :: "u32 \<Rightarrow> bool" where
  "free_block a \<longleftrightarrow> (\<forall>w\<in>{1, 2, 4}. \<forall>off. off + w \<le> 56 \<longrightarrow> free w (a + of_nat off))"

lemma memoryWrite_view:
  assumes "memoryWriteCommand b inSize BULK_EP_MAXPACKET m = Inr (n, m')"
    and "\<not> isFlashRegion (cmd_u32 4 m)" "free_block (cmd_u32 4 m)" "unat inSize \<le> 64"
  shows "view (hw m') = view (hw m)"
proof (cases "dbgHeadValid 8 (usbCmdFrame m) inSize CMemoryWrite")
  case True
  let ?al = "getValidatedAlign (ucast (cmd_u8 1 m) :: u32)" and ?a = "cmd_u32 4 m"
  let ?n = "payloadSize 8 inSize (ucast (cmd_u16 2 m)) ?al"
  have n: "unat ?n \<le> 56" using payloadSize_le [of 8 inSize "ucast (cmd_u16 2 m)" ?al] assms(4) by simp
  have st: "view (hw (store_mem b ?a (copy_width ?al) (of_nat off) (fst (load_frame 8 (copy_width ?al) (of_nat off) q))
      (snd (load_frame 8 (copy_width ?al) (of_nat off) q)))) = view (hw q)" if "off + copy_width ?al \<le> unat ?n" for off q
  proof -
    have "free (copy_width ?al) (?a + of_nat off)"
      using assms(3) copy_width_cases [of ?al] that n by (auto simp: free_block_def)
    then show ?thesis by (simp add: store_mem_def load_frame_def on_hw_def write_view)
  qed
  obtain q where q: "dbg_memcpy b (load_frame 8) (store_mem b ?a) ?n ?al m = Inr q" "hw m' = hw q"
    using assms(1,2) True
    by (cases "dbg_memcpy b (load_frame 8) (store_mem b ?a) ?n ?al m") (auto simp: memoryWriteCommand_def Let_def)
  show ?thesis using copy_view [OF q(1) payloadSize_width st] q(2) by simp
next
  case False
  then show ?thesis using assms by (simp add: memoryWriteCommand_def)
qed

lemma other_view:
  "regsReadCommand b inSize BULK_EP_MAXPACKET m = Inr (n, m') \<Longrightarrow> view (hw m') = view (hw m)"
  "regsWriteCommand b inSize BULK_EP_MAXPACKET m = Inr (n, m') \<Longrightarrow> view (hw m') = view (hw m)"
  "resetHaltCommand b inSize BULK_EP_MAXPACKET m = Inr (n, m') \<Longrightarrow> view (hw m') = view (hw m)"
  "attachCommand b inSize BULK_EP_MAXPACKET m = Inr (n, m') \<Longrightarrow> view (hw m') = view (hw m)"
  by (auto simp: regsReadCommand_def regsWriteCommand_def resetHaltCommand_def attachCommand_def Let_def
      debugHaltRequest_def debugResume_def debugStartFirmware_def split: if_splits)

lemma breakpointCommand_view:
  "breakpointCommand b inSize BULK_EP_MAXPACKET m = Inr (n, m') \<Longrightarrow> view (hw m') = view (hw m)"
  by (auto simp: breakpointCommand_def Let_def on_hw_def breakpoints_view modify_view registers split: if_splits)

lemma flashCommand_view:
  "flashCommand b inSize BULK_EP_MAXPACKET m = Inr (n, m') \<Longrightarrow> view (hw m') = view (hw m)"
proof -
  have e: "view (hw (snd (debugStartEraseLoop b a z q))) = view (hw q)" for a z q
  proof -
    have "snd (debugStartEraseLoop b a z q) = snd (enqueue b HStartEraseLoop
        (q\<lparr>gEraseParams := snd (cb_put (a, z) (gEraseParams q))\<rparr>))"
      by (simp add: debugStartEraseLoop_def split: prod.splits)
    then show ?thesis by simp
  qed
  have "hw (on_hw (flash_unlock b) q) = flash_unlock b (hw q)" for q by (simp add: on_hw_def)
  then show "flashCommand b inSize BULK_EP_MAXPACKET m = Inr (n, m') \<Longrightarrow> view (hw m') = view (hw m)"
    by (auto simp: flashCommand_def Let_def debugStartFirmware_def debugStartLocalLoop_def e unlock_view
        split: if_splits)
qed

lemma run_view:
  assumes "run_command b inSize m = Inr (n, m')" "unat inSize \<le> 64"
    and "usbCmdFrame m ! 0 = 1 \<Longrightarrow> \<not> isFlashRegion (cmd_u32 4 m) \<and> free_block (cmd_u32 4 m)"
  shows "view (hw m') = view (hw m)"
  using assms(1) memoryRead_view memoryWrite_view [OF _ _ _ assms(2)] assms(3) other_view breakpointCommand_view
    flashCommand_view
  unfolding run_command_def Let_def
  by (auto split: if_splits)

end

end
