(* ===== verification/Usb_Exchange.thy ===== *)
theory Usb_Exchange
  imports Usb_Enumeration Bus_Frame Cable
begin

text \<open>
  The bulk endpoints at work: the host sends a command packet to endpoint 1 and takes the
  answer from it. The stack hands the packet to the command interpreter and the answer to the
  host, byte for byte, and is ready for the next packet: it is the cable that \<open>Cable\<close> takes it for.
\<close>

section \<open>The controller seen by the interpreter\<close>

text \<open>A store that the controller takes as one to memory, not to the registers used here.\<close>

definition plain_store :: "nat \<Rightarrow> u32 \<Rightarrow> bool" where
  "plain_store n a \<longleftrightarrow> n \<in> {1, 2, 4} \<and> ep_index a = None \<and> pma_index a = None \<and> a \<noteq> USB_ISTR_REG \<and>
     (\<forall>i<4. n \<le> unat (USB_BTABLE_REG + of_nat i - a)) \<and> (\<forall>i<4. n \<le> unat (USB_DADDR_REG + of_nat i - a))"

definition controller :: "usbfs \<Rightarrow> (nat \<Rightarrow> u16) \<times> u16 \<times> (nat \<Rightarrow> u16) \<times> u16 \<times> u32" where
  "controller h = (uf_ep h, uf_flags h, uf_pma h, btable h, daddr h)"

lemma controller_write: "plain_store n a \<Longrightarrow> controller (bus_write usb_bus n a v h) = controller h"
proof -
  assume p: "plain_store n a"
  have "mem_load (store_le n a v m) c 4 = mem_load m c 4" if "\<forall>i<4. n \<le> unat (c + of_nat i - a)" for m c
    using p mem_load_overlay_other [of 4 "bytes_le n v" c a m] that by (simp add: plain_store_def store_le_def)
  then show ?thesis
    using p by (simp add: plain_store_def controller_def usb_bus_def usbfs_write_def btable_def daddr_def load_le_def)
qed

lemma debug_registers_list: "debug_registers =
  [0xE000ED28, 0xE000ED14, 0xE000EDFC, 0xE0002000, 0x40022004, 0xE0002008, 0xE000200C, 0xE0002010, 0xE0002014,
   0xE0002018, 0xE000201C, 0xE0002020, 0xE0002024]"
  by (simp add: debug_registers_def comps_def FP_COMP_def NUMOFBKPTS_def SCB_CFSR_def SCB_CCR_def DEMCR_def FP_CTRL_def
      FLASH_KEYR_def upt_rec)

interpretation uf: bus_frame usb_bus controller plain_store
proof
  show "controller (snd (bus_read usb_bus n a h)) = controller h" for n a h
    by (simp add: usb_bus_def usbfs_read_def split: option.split)
  show "plain_store n a \<Longrightarrow> controller (bus_write usb_bus n a v h) = controller h" for n a v h
    by (rule controller_write)
  show "a \<in> set debug_registers \<Longrightarrow> plain_store 4 a" for a
    unfolding debug_registers_list by (auto simp: plain_store_def usb_addresses all4)
qed

text \<open>The memory of the chip where a program may write.\<close>

definition in_ram :: "u32 \<Rightarrow> bool" where
  "in_ram a \<longleftrightarrow> 0x20000000 \<le> a \<and> a \<le> 0x20010000 - 56"

lemma ram_address:
  assumes "in_ram a" "off + w \<le> 56"
  shows "0x20000000 \<le> unat (a + of_nat off)" "unat (a + of_nat off) + w \<le> 0x20010000"
proof -
  have a: "0x20000000 \<le> unat a" "unat a \<le> 0x2000FFC8" using assms(1) by (simp_all add: in_ram_def word_le_nat_alt)
  then have "unat (a + of_nat off) = unat a + off"
    using assms(2) by (simp add: unat_word_ariths unat_of_nat)
  then show "0x20000000 \<le> unat (a + of_nat off)" "unat (a + of_nat off) + w \<le> 0x20010000"
    using a assms(2) by simp_all
qed

lemma far_sub:
  assumes "unat (x :: u32) \<le> unat y"
  shows "unat (y - x) = unat y - unat x"
  using assms by (intro unat_sub) (simp add: word_le_nat_alt)

lemma ram_free: "in_ram a \<Longrightarrow> uf.free_block a"
proof -
  assume a: "in_ram a"
  have "plain_store w (a + of_nat off)" if w: "w \<in> {1, 2, 4}" "off + w \<le> 56" for w off
  proof -
    define c where "c = a + of_nat off"
    have c: "0x20000000 \<le> unat c" "unat c + w \<le> 0x20010000" using ram_address [OF a w(2)] by (simp_all add: c_def)
    have far: "w \<le> unat (y - c)" if "0x20010000 \<le> unat y" for y
      using far_sub [of c y] that c by simp
    have "c - 0x40005C00 = c + 0xBFFFA400" "c - 0x40006000 = c + 0xBFFFA000" by simp_all
    then have big: "unat (c - 0x40005C00) = unat c + 0xBFFFA400" "unat (c - 0x40006000) = unat c + 0xBFFFA000"
      using c by (simp_all only: unat_word_ariths) simp_all
    show ?thesis
      using w(1) c far big
      by (auto simp: plain_store_def usb_addresses all4 Let_def c_def [symmetric])
  qed
  then show ?thesis by (simp add: uf.free_block_def)
qed

section \<open>The host\<close>

text \<open>
  A packet for endpoint 1 is stored in its buffer when the endpoint is ready; a packet from an
  endpoint is taken when one is waiting. The device of the transport is the firmware with its
  controller, or the way in which it hangs; after each packet the interrupt handler polls.
\<close>

definition bulk_out :: "u8 list \<Rightarrow> usbfs firmware \<Rightarrow> usbfs firmware option" where
  "bulk_out packet dev =
     (let h = usb_hw dev; x = uf_ep h 1
      in if x AND 0x3000 = 0x3000 \<and> length packet \<le> 64 then
           let h = put_pma (unat (uf_pma h 6) div 2) (pm_words packet) h;
               h = h\<lparr>uf_pma := (uf_pma h)(7 := (uf_pma h 7 AND 0xFC00) OR of_nat (length packet))\<rparr>
           in Some (dev\<lparr>usb_hw := set_ep 1 (((x AND NOT 0x3800) OR 0xA000) XOR 0x4000) h\<rparr>)
         else None)"

definition bulk_in :: "nat \<Rightarrow> usbfs firmware \<Rightarrow> (u8 list \<times> usbfs firmware) option" where
  "bulk_in e dev =
     (let h = usb_hw dev; x = uf_ep h e
      in if x AND 0x0030 = 0x0030 then
           Some (pma_bytes h (unat (uf_pma h (4 * e))) (unat (uf_pma h (4 * e + 1))),
                 dev\<lparr>usb_hw := set_ep e (((x AND NOT 0x0030) OR 0x00A0) XOR 0x0040) h\<rparr>)
         else None)"

definition usb_write :: "u8 list \<Rightarrow> usbfs firmware result \<Rightarrow> nat \<times> usbfs firmware result" where
  "usb_write packet d =
     (case d of
        Inl e \<Rightarrow> (0, d)
      | Inr dev \<Rightarrow>
          (case bulk_out packet dev of
             None \<Rightarrow> (0, d)
           | Some dev \<Rightarrow> (length packet, st_usbfs_poll usb_bus dev)))"

definition usb_read :: "nat \<Rightarrow> nat \<Rightarrow> usbfs firmware result \<Rightarrow> u8 list \<times> usbfs firmware result" where
  "usb_read e n d =
     (case d of
        Inl e \<Rightarrow> ([], d)
      | Inr dev \<Rightarrow>
          (case bulk_in e dev of
             None \<Rightarrow> ([], d)
           | Some (bs, dev) \<Rightarrow> (take n bs, st_usbfs_poll usb_bus dev)))"

definition usb_iface :: "usbfs firmware result iface" where
  "usb_iface = \<lparr>if_write = usb_write, if_read = usb_read 1, if_serial = usb_read 2\<rparr>"

section \<open>Registers of the endpoint\<close>

lemma bulk_bits:
  "x AND 0xB0B0 = 0x3020 \<Longrightarrow> x AND 0x3000 = (0x3000 :: u16)"
  "x AND 0xB0B0 = 0x3020 \<Longrightarrow>
    (((((((x AND NOT 0x3800) OR 0xA000) XOR 0x4000) AND NOT 0x8000) AND NOT 0x3000) OR 0x3000) AND 0xB0B0) = (0x3020 :: u16)"
  "x AND 0xB0B0 = 0x3020 \<Longrightarrow> x AND 0x0030 \<noteq> (0x0030 :: u16)"
  "x AND 0xB0B0 = 0x3020 \<Longrightarrow> ((x AND NOT 0x0030) OR 0x0030) AND 0xB0B0 = (0x3030 :: u16)"
  "x AND 0xB0B0 = 0x3030 \<Longrightarrow> x AND 0x0030 = (0x0030 :: u16)"
  "x AND 0xB0B0 = 0x3030 \<Longrightarrow> (((x AND NOT 0x0030) OR 0x00A0) XOR 0x0040) AND 0x8080 = (0x0080 :: u16)"
  "x AND 0xB0B0 = 0x3030 \<Longrightarrow> ((((x AND NOT 0x0030) OR 0x00A0) XOR 0x0040) AND NOT 0x0080) AND 0xB0B0 = (0x3020 :: u16)"
  "x AND 0xB0B0 = 0x3020 \<Longrightarrow> x AND 0x8080 = (0 :: u16)"
proof -
  have a: "x AND 0x3000 = (x AND 0xB0B0) AND (0x3000 :: u16)" "x AND 0x0030 = (x AND 0xB0B0) AND (0x0030 :: u16)"
    "x AND 0x8080 = (x AND 0xB0B0) AND (0x8080 :: u16)" for x
    by (simp_all add: and.assoc)
  show "x AND 0xB0B0 = 0x3020 \<Longrightarrow> x AND 0x3000 = (0x3000 :: u16)" "x AND 0xB0B0 = 0x3020 \<Longrightarrow> x AND 0x0030 \<noteq> (0x0030 :: u16)"
    "x AND 0xB0B0 = 0x3030 \<Longrightarrow> x AND 0x0030 = (0x0030 :: u16)" "x AND 0xB0B0 = 0x3020 \<Longrightarrow> x AND 0x8080 = (0 :: u16)"
    by (subst a, simp)+
  have "(((((((x AND NOT 0x3800) OR 0xA000) XOR 0x4000) AND NOT 0x8000) AND NOT 0x3000) OR 0x3000) AND 0xB0B0) =
      ((x AND 0xB0B0) AND 0x00B0) OR (0x3000 :: u16)"
    by (rule word16_eqI, unfold all_bits_16) (auto simp: bit_simps)
  then show "x AND 0xB0B0 = 0x3020 \<Longrightarrow>
    (((((((x AND NOT 0x3800) OR 0xA000) XOR 0x4000) AND NOT 0x8000) AND NOT 0x3000) OR 0x3000) AND 0xB0B0) = (0x3020 :: u16)" by simp
  have "((x AND NOT 0x0030) OR 0x0030) AND 0xB0B0 = ((x AND 0xB0B0) AND 0xB080) OR (0x0030 :: u16)"
    by (rule word16_eqI, unfold all_bits_16) (auto simp: bit_simps)
  then show "x AND 0xB0B0 = 0x3020 \<Longrightarrow> ((x AND NOT 0x0030) OR 0x0030) AND 0xB0B0 = (0x3030 :: u16)" by simp
  have "(((x AND NOT 0x0030) OR 0x00A0) XOR 0x0040) AND 0x8080 = ((x AND 0xB0B0) AND 0x8000) OR (0x0080 :: u16)"
    by (rule word16_eqI, unfold all_bits_16) (auto simp: bit_simps)
  then show "x AND 0xB0B0 = 0x3030 \<Longrightarrow> (((x AND NOT 0x0030) OR 0x00A0) XOR 0x0040) AND 0x8080 = (0x0080 :: u16)" by simp
  have "((((x AND NOT 0x0030) OR 0x00A0) XOR 0x0040) AND NOT 0x0080) AND 0xB0B0 = ((x AND 0xB0B0) AND 0xB000) OR (0x0020 :: u16)"
    by (rule word16_eqI, unfold all_bits_16) (auto simp: bit_simps)
  then show "x AND 0xB0B0 = 0x3030 \<Longrightarrow> ((((x AND NOT 0x0030) OR 0x00A0) XOR 0x0040) AND NOT 0x0080) AND 0xB0B0 = (0x3020 :: u16)" by simp
qed

lemma out_count:
  assumes "n \<le> 64"
  shows "unat (((c AND 0xFC00) OR of_nat n) AND (0x03FF :: u16)) = n"
proof -
  have "(of_nat n :: u16) AND 0x03FF = take_bit 10 (of_nat n)" by (simp add: take_bit_eq_mask mask_eq_exp_minus_1)
  also have "\<dots> = of_nat n"
    using assms by (simp add: word_unat_eq_iff unsigned_take_bit_eq unat_of_nat take_bit_nat_eq_self)
  finally have n: "(of_nat n :: u16) AND 0x03FF = of_nat n" .
  have "((c AND 0xFC00) OR of_nat n) AND 0x03FF = (of_nat n AND 0x03FF :: u16)"
    by (rule word16_eqI, unfold all_bits_16) (auto simp: bit_simps)
  then show ?thesis using n assms by (simp add: unat_of_nat)
qed

section \<open>Polling\<close>

lemma istr_one:
  assumes "\<forall>i<8. i \<noteq> 1 \<longrightarrow> uf_ep h i AND 0x8080 = 0" "uf_ep h 1 AND 0x8080 \<noteq> 0" "uf_flags h AND 0x7F00 = 0"
  shows "istr h = (if uf_ep h 1 AND 0x8000 \<noteq> 0 then 0x8011 else 0x8001)"
proof -
  have "[0..<8] = 0 # 1 # [2..<8]" by (simp add: upt_conv_Cons)
  then have "pending h = Some 1" using assms(1,2) by (simp add: pending_def)
  then show ?thesis using assms(3) by (simp add: istr_def)
qed

lemma poll_bulk:
  assumes "istr (usb_hw dev) \<in> {0x8011, 0x8001}"
  shows "st_usbfs_poll usb_bus dev =
    bindR (poll_ctr usb_bus (istr (usb_hw dev)) dev) (\<lambda>dev. Inr (dev\<lparr>usb_hw := sofm (usb_hw dev)\<rparr>))"
  using assms unfolding st_usbfs_poll_def get_istr prod.case Let_def sofm_def
  by (auto simp: USB_ISTR_RESET_def USB_ISTR_CTR_def USB_ISTR_SOF_def USB_ISTR_WKUP_def USB_ISTR_SUSP_def comp_def)

section \<open>A packet through the stack\<close>

text \<open>A configured device between two packets, but for the register of endpoint 1.\<close>

definition bulk_ready :: "usbfs \<Rightarrow> bool" where
  "bulk_ready h \<longleftrightarrow> wired h \<and> uf_flags h AND 0x7F00 = 0 \<and> (\<forall>i<8. i \<noteq> 1 \<longrightarrow> uf_ep h i AND 0x8080 = 0) \<and>
     uf_ep h 2 AND 0x80B0 = 0x0020 \<and> uf_pma h 4 = 0x100 \<and> uf_pma h 6 = 0xC0 \<and> uf_pma h 8 = 0x140"

lemma bulk_view: "bulk (hw_view h) \<longleftrightarrow> uf_ep h 1 AND 0xB0B0 = 0x3020 \<and> uf_ep h 2 AND 0x80B0 = 0x0020 \<and>
    uf_pma h 4 = 0x100 \<and> uf_pma h 6 = 0xC0 \<and> uf_pma h 8 = 0x140"
  by (simp add: bulk_def hw_view_def ep0_pma_def)

lemma bulk_enumerable:
  "enumerable c (hw_view (usb_hw dev)) dev \<and> bulk (hw_view (usb_hw dev)) \<longleftrightarrow>
   fw c dev \<and> bulk_ready (usb_hw dev) \<and> uf_ep (usb_hw dev) 1 AND 0xB0B0 = 0x3020"
proof -
  have "(\<forall>i<8. i \<noteq> 1 \<longrightarrow> P i) \<longleftrightarrow> P 0 \<and> (\<forall>i. 0 < i \<and> i < 8 \<longrightarrow> P i)" if "P 1" for P :: "nat \<Rightarrow> bool"
  proof
    assume all: "\<forall>i<8. i \<noteq> 1 \<longrightarrow> P i"
    then have "P i" if "i < 8" for i using that \<open>P 1\<close> by (cases "i = 1") auto
    then show "P 0 \<and> (\<forall>i. 0 < i \<and> i < 8 \<longrightarrow> P i)" by simp
  next
    assume "P 0 \<and> (\<forall>i. 0 < i \<and> i < 8 \<longrightarrow> P i)"
    then show "\<forall>i<8. i \<noteq> 1 \<longrightarrow> P i" by (metis gr0I)
  qed
  from this [of "\<lambda>i. uf_ep (usb_hw dev) i AND 0x8080 = 0"] show ?thesis
    using bulk_bits(8) [of "uf_ep (usb_hw dev) 1"]
    by (auto simp: enumerable_def quiet_def bulk_view bulk_ready_def ep0_def)
qed

lemma bulk_ready_ep [simp]: "bulk_ready (set_ep 1 x h) = bulk_ready h" "bulk_ready (set_ep (Suc 0) x h) = bulk_ready h"
  by (auto simp: bulk_ready_def wired_def btable_def)

lemma bulk_ready_cong:
  assumes "bulk_ready g" "\<And>i. i \<noteq> 1 \<Longrightarrow> uf_ep h i = uf_ep g i" "uf_flags h = uf_flags g" "uf_mem h = uf_mem g"
    "\<And>i. i \<in> {0, 2, 4, 6, 8} \<Longrightarrow> uf_pma h i = uf_pma g i"
  shows "bulk_ready h"
  using assms by (auto simp: bulk_ready_def wired_def btable_def)

lemma bulk_ready_sofm [simp]: "bulk_ready (sofm h) = bulk_ready h" "uf_ep (sofm h) = uf_ep h" "uf_pma (sofm h) = uf_pma h"
  by (simp_all add: bulk_ready_def wired_def sofm_keeps)

lemma bulk_ready_controller:
  assumes "controller h = controller g"
  shows "bulk_ready h = bulk_ready g" "uf_ep h = uf_ep g" "daddr h = daddr g"
  using assms by (auto simp: controller_def bulk_ready_def wired_def)

lemma out_loaded:
  assumes "bulk_ready (usb_hw dev)" "uf_ep (usb_hw dev) 1 AND 0xB0B0 = 0x3020" "length packet \<le> 64"
  obtains h where "bulk_out packet dev = Some (dev\<lparr>usb_hw := h\<rparr>)" "bulk_ready h" "uf_mem h = uf_mem (usb_hw dev)"
    "uf_ep h 1 = ((uf_ep (usb_hw dev) 1 AND NOT 0x3800) OR 0xA000) XOR 0x4000" "daddr h = daddr (usb_hw dev)"
    "pma_bytes h 192 (length packet) = packet" "unat (uf_pma h 7 AND 0x03FF) = length packet"
proof -
  define g where "g = usb_hw dev"
  define x where "x = ((uf_ep g 1 AND NOT 0x3800) OR 0xA000) XOR 0x4000"
  define h where "h = set_ep 1 x ((put_pma 96 (pm_words packet) g)
    \<lparr>uf_pma := (uf_pma (put_pma 96 (pm_words packet) g))(7 := (uf_pma g 7 AND 0xFC00) OR of_nat (length packet))\<rparr>)"
  have p: "uf_pma g 6 = 0xC0" using assms(1) by (simp add: bulk_ready_def g_def)
  have e: "uf_ep g 1 AND 0x3000 = 0x3000" using assms(2) bulk_bits(1) by (simp add: g_def)
  have m: "uf_mem (put_pma k ws h) = uf_mem h" for k ws h by (simp add: put_pma_def)
  show thesis
  proof (rule that)
    show "bulk_out packet dev = Some (dev\<lparr>usb_hw := h\<rparr>)"
      using assms(3) p e
      by (simp add: bulk_out_def Let_def put_pma_keeps h_def x_def flip: g_def)
    show "bulk_ready h"
      by (rule bulk_ready_cong [OF assms(1)]) (auto simp: h_def g_def put_pma_def)
    show "uf_mem h = uf_mem (usb_hw dev)" by (simp add: h_def m g_def)
    then show "daddr h = daddr (usb_hw dev)" by (simp add: daddr_def)
    show "uf_ep h 1 = ((uf_ep (usb_hw dev) 1 AND NOT 0x3800) OR 0xA000) XOR 0x4000" by (simp add: h_def x_def g_def)
    have "pma_bytes h 192 (length packet) = pma_bytes (put_pma 96 (pm_words packet) g) 192 (length packet)"
      by (rule nth_equalityI) (auto simp: pma_bytes_def h_def)
    then show "pma_bytes h 192 (length packet) = packet" using pma_bytes_put [of 192 packet g] by simp
    show "unat (uf_pma h 7 AND 0x03FF) = length packet" using out_count [OF assms(3)] by (simp add: h_def)
  qed
qed

lemma read_bulk:
  assumes h: "bulk_ready (usb_hw dev)" "uf_ep (usb_hw dev) 1 AND 0x3000 = 0x2000"
    and n: "unat (uf_pma (usb_hw dev) 7 AND 0x03FF) = n" "n \<le> 64" and f: "\<not> force_nak dev ! 1"
  shows "st_usbfs_ep_read_packet usb_bus 1 64 dev = (pma_bytes (usb_hw dev) 192 n,
    dev\<lparr>usb_hw := set_ep 1 (((uf_ep (usb_hw dev) 1 AND NOT 0x8000) AND NOT 0x3000) OR 0x3000) (usb_hw dev)\<rparr>)"
proof -
  define g where "g = usb_hw dev"
  have e1: "unat (1 :: u8) < 8" by simp
  have b: "btable g = 0" "uf_pma g 6 = 0xC0" using h(1) by (simp_all add: bulk_ready_def wired_def g_def)
  have c: "unat (min (uf_pma g 7 AND 0x03FF) 64) = n"
    using n by (simp add: min_def word_le_nat_alt g_def)
  have s: "read_stat usb_bus 1 USB_EP_RX_STAT dev = (ucast (uf_ep g 1) AND ucast USB_EP_RX_STAT, dev)"
    by (simp add: read_stat_def read_ep g_def)
  have "ucast (uf_ep g 1) AND ucast USB_EP_RX_STAT \<noteq> (ucast RX_VALID :: u32)"
    unfolding ucast_and_eq using h(2) by (simp add: USB_EP_RX_STAT_def RX_VALID_def g_def)
  moreover have "st_usbfs_copy_from_pm usb_bus (USB_PMA_BASE + 0x180) n g = (pma_bytes g 192 n, g)"
    using copy_from_pm [of 96 n g] n(2) by simp
  ultimately show ?thesis
    unfolding st_usbfs_ep_read_packet_def s
    using f by (simp add: btable_ep [OF b(1) e1] b(2) c ep_ops [OF e1] stat_masks Let_def flip: g_def)
      (simp add: RX_VALID_def)
qed

lemma write_bulk:
  assumes h: "bulk_ready (usb_hw dev)" "uf_ep (usb_hw dev) 1 AND 0xB0B0 = 0x3020" and n: "length bs \<le> 64"
  obtains h where "st_usbfs_ep_write_packet usb_bus 0x81 bs dev = (of_nat (length bs), dev\<lparr>usb_hw := h\<rparr>)" "bulk_ready h"
    "uf_ep h 1 AND 0xB0B0 = 0x3030" "uf_mem h = uf_mem (usb_hw dev)" "daddr h = daddr (usb_hw dev)"
    "unat (uf_pma h 5) = length bs" "pma_bytes h 256 (length bs) = bs"
proof -
  define g where "g = usb_hw dev"
  define g1 where "g1 = put_pma 128 (pm_words bs) g"
  define h where "h = set_ep 1 ((uf_ep g 1 AND NOT 0x0030) OR 0x0030) (g1\<lparr>uf_pma := (uf_pma g1)(5 := of_nat (length bs))\<rparr>)"
  have e1: "unat (1 :: u8) < 8" by simp
  have b: "btable g = 0" "btable g1 = 0" "uf_pma g 4 = 0x100"
    using h(1) by (simp_all add: bulk_ready_def wired_def g1_def put_pma_keeps g_def)
  have s: "read_stat usb_bus 1 USB_EP_TX_STAT dev = (ucast (uf_ep g 1) AND ucast USB_EP_TX_STAT, dev)"
    by (simp add: read_stat_def read_ep g_def)
  have "ucast (uf_ep g 1) AND ucast USB_EP_TX_STAT \<noteq> (ucast TX_VALID :: u32)"
    unfolding ucast_and_eq using bulk_bits(3) [OF h(2)] by (simp add: USB_EP_TX_STAT_def TX_VALID_def g_def)
  moreover have "st_usbfs_copy_to_pm usb_bus (USB_PMA_BASE + 0x200) bs g = g1"
    using copy_to_pm [of 128 bs g] n by (simp add: length_pm_words g1_def)
  moreover have "USB_SET_EP_TX_STAT usb_bus 1 TX_VALID (USB_SET_EP_TX_COUNT usb_bus 1 (of_nat (length bs)) g1) = h"
    by (simp add: btable_ep [OF b(2) e1] ep_ops [OF e1] stat_masks h_def) (simp add: TX_VALID_def g1_def put_pma_keeps)
  ultimately have w: "st_usbfs_ep_write_packet usb_bus 0x81 bs dev = (of_nat (length bs), dev\<lparr>usb_hw := h\<rparr>)"
    unfolding st_usbfs_ep_write_packet_def
    by (simp add: s btable_ep [OF b(1) e1] b(3) flip: g_def)
  have m: "uf_mem h = uf_mem g" by (simp add: h_def g1_def put_pma_def)
  show thesis
  proof (rule that [OF w])
    show "bulk_ready h"
      by (rule bulk_ready_cong [OF h(1)]) (auto simp: h_def g1_def g_def put_pma_def)
    show "uf_ep h 1 AND 0xB0B0 = 0x3030" using bulk_bits(4) [OF h(2)] by (simp add: h_def g_def)
    show "uf_mem h = uf_mem (usb_hw dev)" using m by (simp add: g_def)
    then show "daddr h = daddr (usb_hw dev)" by (simp add: daddr_def)
    show "unat (uf_pma h 5) = length bs" using n by (simp add: h_def unat_of_nat)
    have "pma_bytes h 256 (length bs) = pma_bytes g1 256 (length bs)"
      by (rule nth_equalityI) (auto simp: pma_bytes_def h_def)
    then show "pma_bytes h 256 (length bs) = bs" using pma_bytes_put [of 256 bs g] by (simp add: g1_def)
  qed
qed

section \<open>An exchange\<close>

text \<open>Packets that the interpreter answers and that do not write to the registers of the chip or to the flash.\<close>

definition acceptable :: "u8 list \<Rightarrow> bool" where
  "acceptable packet \<longleftrightarrow> length packet \<le> 64 \<and> well_formed packet \<and> (packet ! 0 = 1 \<longrightarrow> in_ram (rd32 (drop 4 packet)))"

lemma ram_no_flash: "in_ram a \<Longrightarrow> \<not> isFlashRegion a"
  by (auto simp: in_ram_def isFlashRegion_def word_le_nat_alt word_less_nat_alt)

lemma callback_frame:
  assumes m: "frames_ok m" and p: "acceptable packet"
  shows "\<exists>ans q. usbDataOutCallback usb_bus packet m = Inr (Some ans, q) \<and> frames_ok q \<and> ans \<noteq> [] \<and> hd ans = packet ! 0 \<and>
    length ans \<le> 64 \<and> controller (hw q) = controller (hw m)"
proof -
  have p': "length packet \<le> 64" "well_formed packet" "packet \<noteq> []" using p by (auto simp: acceptable_def well_formed_def)
  have "\<not> writes_flash packet" using p ram_no_flash by (auto simp: acceptable_def writes_flash_def)
  then have a: "answers (packet ! 0) (run_command usb_bus (of_nat (length packet)) (received packet m))"
    using run_answers [OF m p'(1,2), of usb_bus] by blast
  then obtain n q where q: "run_command usb_bus (of_nat (length packet)) (received packet m) = Inr (n, q)" by (auto simp: answers_def)
  obtain ans where ans: "usbDataOutCallback usb_bus packet m = Inr (Some ans, q)" "frames_ok q" "ans \<noteq> []"
    "hd ans = packet ! 0" "length ans \<le> 64"
    using answers_run [OF a] unfolding callback_run [OF p'(3)] q by (auto split: if_splits)
  have "controller (hw q) = controller (hw (received packet m))"
  proof (rule uf.run_view [OF q])
    show "unat (of_nat (length packet) :: u32) \<le> 64" using p'(1) by (simp add: unat_of_nat_u32)
    assume "usbCmdFrame (received packet m) ! 0 = 1"
    then have c: "packet ! 0 = 1" using received_frame(1) [OF m p'(1), of 0] p'(3) by simp
    then have "8 \<le> length packet" "in_ram (rd32 (drop 4 packet))"
      using p by (auto simp: acceptable_def well_formed_def Let_def)
    then show "\<not> isFlashRegion (cmd_u32 4 (received packet m)) \<and> uf.free_block (cmd_u32 4 (received packet m))"
      using received_frame(3) [OF m p'(1)] ram_no_flash ram_free by simp
  qed
  then show ?thesis using ans by (simp add: received_def)
qed

text \<open>The memory of the chip, but for the control register that the polling function writes to.\<close>

definition same_memory :: "usbfs \<Rightarrow> usbfs \<Rightarrow> bool" where
  "same_memory g h \<longleftrightarrow> (\<forall>a. 4 \<le> unat (a - USB_CNTR_REG) \<longrightarrow> uf_mem g a = uf_mem h a)"

lemma same_memory_sofm: "same_memory (sofm g) h = same_memory g h"
  by (auto simp: same_memory_def sofm_def mmio_clear_def mmio_modify_def mmio_read_def mmio_write_def usb_bus_def
      usbfs_read_def usbfs_write_def usb_addresses store_le_def bytes_le_def overlay_def)

lemma same_memory_eq: "uf_mem g = uf_mem h \<Longrightarrow> same_memory g h"
  by (simp add: same_memory_def)

text \<open>The first half: the packet has arrived, and the answer waits in the other buffer.\<close>

lemma packet_in:
  assumes dev: "fw c dev" "bulk_ready (usb_hw dev)" "uf_ep (usb_hw dev) 1 AND 0xB0B0 = 0x3020" "fst c = bulk_callbacks (fst c)"
    and p: "frames_ok (usb_app dev)" "acceptable packet"
  obtains h ans q dev' where "same_memory h (usb_hw dev)"
    "usbDataOutCallback usb_bus packet ((usb_app dev)\<lparr>hw := h\<rparr>) = Inr (Some ans, q)" "frames_ok q" "ans \<noteq> []"
    "hd ans = packet ! 0" "length ans \<le> 64" "usb_write packet (Inr dev) = (length packet, Inr dev')"
    "fw (fst c, fst (snd c), q) dev'" "bulk_ready (usb_hw dev')" "uf_ep (usb_hw dev') 1 AND 0xB0B0 = 0x3030"
    "same_memory (usb_hw dev') (hw q)" "daddr (usb_hw dev') = daddr (usb_hw dev)"
    "unat (uf_pma (usb_hw dev') 5) = length ans" "pma_bytes (usb_hw dev') 256 (length ans) = ans"
proof -
  have len: "length packet \<le> 64" using p(2) by (simp add: acceptable_def)
  define x where "x = uf_ep (usb_hw dev) 1"
  obtain h1 where h1: "bulk_out packet dev = Some (dev\<lparr>usb_hw := h1\<rparr>)" "bulk_ready h1" "uf_mem h1 = uf_mem (usb_hw dev)"
    "uf_ep h1 1 = ((x AND NOT 0x3800) OR 0xA000) XOR 0x4000" "daddr h1 = daddr (usb_hw dev)"
    "pma_bytes h1 192 (length packet) = packet" "unat (uf_pma h1 7 AND 0x03FF) = length packet"
    using out_loaded [OF dev(2,3) len] unfolding x_def by blast
  define y where "y = uf_ep h1 1"
  define h2 where "h2 = set_ep 1 (((y AND NOT 0x8000) AND NOT 0x3000) OR 0x3000) h1"
  have y: "y = ((x AND NOT 0x3800) OR 0xA000) XOR 0x4000" unfolding y_def by (rule h1(4))
  have "uf_ep h2 1 = ((y AND NOT 0x8000) AND NOT 0x3000) OR 0x3000" by (simp add: h2_def)
  then have r2: "bulk_ready h2" "uf_ep h2 1 AND 0xB0B0 = 0x3020"
    using h1(2) bulk_bits(2) [of x] dev(3) by (simp_all only: y x_def) (simp add: h2_def)
  have bits: "uf_ep h1 1 AND 0x8000 = 0x8000" "uf_ep h1 1 AND 0x8080 \<noteq> 0" "uf_ep h1 1 AND 0x0800 = 0" "uf_ep h1 1 AND 0x3000 = 0x2000"
    unfolding h1(4) by (rule status_bits)+
  have rd: "st_usbfs_ep_read_packet usb_bus 1 64 (dev\<lparr>usb_hw := h1\<rparr>) = (packet, dev\<lparr>usb_hw := h2\<rparr>)"
    using read_bulk [of "dev\<lparr>usb_hw := h1\<rparr>" "length packet"] h1(2,6,7) len dev(1) bits(4)
    by (simp add: fw_def h2_def y_def)
  define m where "m = (usb_app dev)\<lparr>hw := h2\<rparr>"
  obtain ans q where q: "usbDataOutCallback usb_bus packet m = Inr (Some ans, q)" "frames_ok q" "ans \<noteq> []"
    "hd ans = packet ! 0" "length ans \<le> 64" "controller (hw q) = controller h2"
    using callback_frame [of m packet] p by (auto simp: m_def)
  define dev3 where "dev3 = dev\<lparr>usb_hw := hw q, usb_app := q\<rparr>"
  have r3: "bulk_ready (usb_hw dev3)" "uf_ep (usb_hw dev3) 1 AND 0xB0B0 = 0x3020" "daddr (hw q) = daddr h2"
    using bulk_ready_controller [OF q(6)] r2 by (simp_all add: dev3_def)
  obtain h4 where h4: "st_usbfs_ep_write_packet usb_bus 0x81 ans dev3 = (of_nat (length ans), dev3\<lparr>usb_hw := h4\<rparr>)" "bulk_ready h4"
    "uf_ep h4 1 AND 0xB0B0 = 0x3030" "uf_mem h4 = uf_mem (usb_hw dev3)" "daddr h4 = daddr (usb_hw dev3)"
    "unat (uf_pma h4 5) = length ans" "pma_bytes h4 256 (length ans) = ans"
    using write_bulk [OF r3(1,2) q(5)] by blast
  have "usb_data_out usb_bus 1 (dev\<lparr>usb_hw := h1\<rparr>) = Inr (dev3\<lparr>usb_hw := h4\<rparr>)"
    using q(1) h4(1) by (simp add: usb_data_out_def rd run_monitor_def m_def dev3_def)
  moreover have "user_callback_ctr dev 1 USB_TRANSACTION_OUT = Some F_usbDataOutCallback"
  proof -
    have "user_callback_ctr dev = fst c" using dev(1) by (simp add: fw_def)
    then show ?thesis by (subst dev(4) [folded \<open>user_callback_ctr dev = fst c\<close>]) (simp add: bulk_callbacks_def)
  qed
  moreover have "istr h1 = 0x8011"
    using istr_one [of h1] h1(2) bits(1,2) by (simp add: bulk_ready_def)
  moreover have "mmio_read usb_bus (USB_EP_REG 1) h1 = (ucast y, h1)" by (simp add: read_ep y_def)
  moreover have "ucast y AND ucast USB_EP_SETUP = (0 :: u32)"
    using ucast_and_eq [of y USB_EP_SETUP 0] bits(3) by (simp add: y_def USB_EP_SETUP_def)
  ultimately have poll: "st_usbfs_poll usb_bus (dev\<lparr>usb_hw := h1\<rparr>) = Inr (dev3\<lparr>usb_hw := sofm h4\<rparr>)"
    by (subst poll_bulk; simp add: poll_ctr_def USB_ISTR_EP_ID_def USB_ISTR_DIR_def)
  show thesis
  proof (rule that [of h2 ans q "dev3\<lparr>usb_hw := sofm h4\<rparr>"])
    show "same_memory h2 (usb_hw dev)" by (rule same_memory_eq) (simp add: h2_def h1(3))
    show "usbDataOutCallback usb_bus packet ((usb_app dev)\<lparr>hw := h2\<rparr>) = Inr (Some ans, q)" using q(1) by (simp add: m_def)
    show "usb_write packet (Inr dev) = (length packet, Inr (dev3\<lparr>usb_hw := sofm h4\<rparr>))"
      by (simp add: usb_write_def h1(1) poll)
    show "fw (fst c, fst (snd c), q) (dev3\<lparr>usb_hw := sofm h4\<rparr>)" using dev(1) by (auto simp: dev3_def fw_def)
    show "same_memory (usb_hw (dev3\<lparr>usb_hw := sofm h4\<rparr>)) (hw q)"
      using same_memory_eq [of h4 "hw q"] h4(4) by (simp add: same_memory_sofm dev3_def)
    have "daddr h2 = daddr h1" by (simp add: h2_def daddr_def)
    then show "daddr (usb_hw (dev3\<lparr>usb_hw := sofm h4\<rparr>)) = daddr (usb_hw dev)"
      using h4(5) r3(3) h1(5) by (simp add: sofm_keeps dev3_def)
  qed (use q h4 in \<open>simp_all add: pma_bytes_def\<close>)
qed

text \<open>The second half: the host takes the answer.\<close>

lemma packet_out:
  assumes dev: "fw c dev" "bulk_ready (usb_hw dev)" "uf_ep (usb_hw dev) 1 AND 0xB0B0 = 0x3030" "fst c = bulk_callbacks (fst c)"
    and ans: "unat (uf_pma (usb_hw dev) 5) = length ans" "pma_bytes (usb_hw dev) 256 (length ans) = ans" "length ans \<le> 64"
  obtains dev' where "usb_read 1 64 (Inr dev) = (ans, Inr dev')" "fw c dev'" "bulk_ready (usb_hw dev')"
    "uf_ep (usb_hw dev') 1 AND 0xB0B0 = 0x3020" "\<And>h. same_memory (usb_hw dev') h = same_memory (usb_hw dev) h"
    "daddr (usb_hw dev') = daddr (usb_hw dev)"
proof -
  define h where "h = usb_hw dev"
  define x where "x = uf_ep h 1"
  define y where "y = ((x AND NOT 0x0030) OR 0x00A0) XOR 0x0040"
  define h1 where "h1 = set_ep 1 y h"
  define h2 where "h2 = set_ep 1 (y AND NOT 0x0080) h"
  have x: "x AND 0xB0B0 = 0x3030" using dev(3) by (simp add: x_def h_def)
  have y: "y AND 0x8080 = 0x0080" "(y AND NOT 0x0080) AND 0xB0B0 = 0x3020"
    unfolding y_def by (rule bulk_bits(6) [OF x], rule bulk_bits(7) [OF x])
  have "y AND 0x8000 = (y AND 0x8080) AND 0x8000" by (simp add: and.assoc)
  then have y0: "y AND 0x8000 = 0" using y(1) by simp
  have r: "bulk_ready h1" "bulk_ready h2" "uf_pma h 4 = 0x100"
    using dev(2) by (simp_all add: h1_def h2_def flip: h_def) (simp add: bulk_ready_def)
  have e1: "uf_ep h1 1 = y" by (simp add: h1_def)
  have i: "istr h1 = 0x8001"
    using istr_one [of h1] r(1) y(1) y0 unfolding e1 by (simp add: bulk_ready_def)
  have tok: "bulk_in 1 dev = Some (ans, dev\<lparr>usb_hw := h1\<rparr>)"
    using bulk_bits(5) [OF x] ans(1,2) r(3) by (simp add: bulk_in_def Let_def h1_def y_def x_def flip: h_def)
  have "USB_CLR_EP_TX_CTR usb_bus 1 h1 = h2"
    by (subst ep_ops) (simp_all add: h2_def h1_def)
  moreover have "user_callback_ctr dev 1 USB_TRANSACTION_IN = Some F_usbDataInCallback"
  proof -
    have "user_callback_ctr dev = fst c" using dev(1) by (simp add: fw_def)
    then show ?thesis by (subst dev(4) [folded \<open>user_callback_ctr dev = fst c\<close>]) (simp add: bulk_callbacks_def)
  qed
  ultimately have poll: "st_usbfs_poll usb_bus (dev\<lparr>usb_hw := h1\<rparr>) = Inr (dev\<lparr>usb_hw := sofm h2\<rparr>)"
    using i by (subst poll_bulk; simp add: poll_ctr_def USB_ISTR_EP_ID_def USB_ISTR_DIR_def)
  have m: "uf_mem h2 = uf_mem h" by (simp add: h2_def)
  then have same: "daddr h2 = daddr h" by (simp add: daddr_def)
  show thesis
  proof (rule that [of "dev\<lparr>usb_hw := sofm h2\<rparr>"])
    show "usb_read 1 64 (Inr dev) = (ans, Inr (dev\<lparr>usb_hw := sofm h2\<rparr>))"
      using ans(3) unfolding usb_read_def sum.case tok option.case prod.case poll by simp
    show "same_memory (usb_hw (dev\<lparr>usb_hw := sofm h2\<rparr>)) g = same_memory (usb_hw dev) g" for g
      using m by (simp add: same_memory_sofm) (simp add: same_memory_def h_def)
    show "daddr (usb_hw (dev\<lparr>usb_hw := sofm h2\<rparr>)) = daddr (usb_hw dev)"
      using same by (simp add: sofm_keeps h_def)
    have "uf_ep h2 1 = y AND NOT 0x0080" by (simp add: h2_def)
    then show "uf_ep (usb_hw (dev\<lparr>usb_hw := sofm h2\<rparr>)) 1 AND 0xB0B0 = 0x3020" using y(2) by simp
  qed (use dev r in simp_all)
qed

section \<open>The cable\<close>

text \<open>
  One step of the cable that \<open>Cable\<close> assumes, between two states of the interpreter: the packet
  is written to it and the answer read, at the moment when the memory of the chip is the one
  in the first state.
\<close>

definition cable_step :: "u8 list \<Rightarrow> usbfs monitor \<Rightarrow> u8 list \<Rightarrow> usbfs monitor \<Rightarrow> bool" where
  "cable_step packet m ans m' \<longleftrightarrow> (\<exists>h q. same_memory h (hw m) \<and>
     exchanges (link_iface usb_bus) packet (plugged (m\<lparr>hw := h\<rparr>)) ans (plugged q) \<and>
     m' = q\<lparr>hw := hw m'\<rparr> \<and> same_memory (hw m') (hw q))"

fun cable_steps :: "u8 list list \<Rightarrow> usbfs monitor \<Rightarrow> u8 list list \<Rightarrow> usbfs monitor \<Rightarrow> bool" where
  "cable_steps (p # ps) m (ans # as) m' \<longleftrightarrow> (\<exists>m1. cable_step p m ans m1 \<and> cable_steps ps m1 as m')"
| "cable_steps ps m as m' \<longleftrightarrow> ps = [] \<and> as = [] \<and> m' = m"

text \<open>The same through the whole stack.\<close>

fun exchange_all :: "u8 list list \<Rightarrow> usbfs firmware result \<Rightarrow> u8 list list \<times> usbfs firmware result" where
  "exchange_all [] d = ([], d)"
| "exchange_all (p # ps) d =
     (case if_write usb_iface p d of (n, d) \<Rightarrow>
        case if_read usb_iface 64 d of (ans, d) \<Rightarrow>
          case exchange_all ps d of (as, d) \<Rightarrow> (ans # as, d))"

definition firmware_state :: "usbfs firmware \<Rightarrow> usbfs monitor" where
  "firmware_state dev = (usb_app dev)\<lparr>hw := usb_hw dev\<rparr>"

definition debugging :: "u8 \<Rightarrow> usbfs firmware \<Rightarrow> bool" where
  "debugging n dev \<longleftrightarrow> serving (usb_app dev) (n, True) dev \<and> frames_ok (usb_app dev)"

lemma debugging_iff:
  "debugging n dev \<longleftrightarrow> (\<exists>c. fw c dev \<and> fst (snd c) = config_slots \<and> fst c = bulk_callbacks (fst c) \<and> bulk_ready (usb_hw dev) \<and>
     uf_ep (usb_hw dev) 1 AND 0xB0B0 = 0x3020 \<and> daddr (usb_hw dev) = at_address n) \<and> frames_ok (usb_app dev)"
proof -
  have a: "a = hw_view (usb_hw dev)" if "enumerable c a dev" for c a using that by (auto simp: enumerable_def quiet_def)
  have e: "(\<exists>a. enumerable c a dev \<and> P a) \<longleftrightarrow> enumerable c (hw_view (usb_hw dev)) dev \<and> P (hw_view (usb_hw dev))" for c P
    using a by metis
  have d: "fst (hw_view h) = daddr h" for h by (simp add: hw_view_def)
  have f: "snd (snd c) = usb_app dev" if "fw c dev" for c using that by (auto simp: fw_def)
  have "serving (usb_app dev) (n, True) dev \<longleftrightarrow> (\<exists>c. (enumerable c (hw_view (usb_hw dev)) dev \<and> bulk (hw_view (usb_hw dev))) \<and>
      snd c = (config_slots, usb_app dev) \<and> daddr (usb_hw dev) = at_address n \<and> fst c = bulk_callbacks (fst c))"
    unfolding serving_def by (simp only: e d fst_conv snd_conv) blast
  also have "\<dots> \<longleftrightarrow> (\<exists>c. fw c dev \<and> fst (snd c) = config_slots \<and> fst c = bulk_callbacks (fst c) \<and> bulk_ready (usb_hw dev) \<and>
     uf_ep (usb_hw dev) 1 AND 0xB0B0 = 0x3020 \<and> daddr (usb_hw dev) = at_address n)"
    unfolding bulk_enumerable using f by (auto simp: prod_eq_iff)
  finally show ?thesis by (simp add: debugging_def)
qed

lemma exchange:
  assumes "debugging n dev" "acceptable p"
  obtains ans dev' where "exchanges usb_iface p (Inr dev) ans (Inr dev')" "cable_step p (firmware_state dev) ans (firmware_state dev')"
    "hd ans = hd p" "ans \<noteq> []" "debugging n dev'"
proof -
  obtain c where c: "fw c dev" "fst (snd c) = config_slots" "fst c = bulk_callbacks (fst c)" "bulk_ready (usb_hw dev)"
    "uf_ep (usb_hw dev) 1 AND 0xB0B0 = 0x3020" "daddr (usb_hw dev) = at_address n" "frames_ok (usb_app dev)"
    using assms(1) unfolding debugging_iff by blast
  obtain h ans q dev1 where 1: "same_memory h (usb_hw dev)"
    "usbDataOutCallback usb_bus p ((usb_app dev)\<lparr>hw := h\<rparr>) = Inr (Some ans, q)" "frames_ok q" "ans \<noteq> []"
    "hd ans = p ! 0" "length ans \<le> 64" "usb_write p (Inr dev) = (length p, Inr dev1)"
    "fw (fst c, fst (snd c), q) dev1" "bulk_ready (usb_hw dev1)" "uf_ep (usb_hw dev1) 1 AND 0xB0B0 = 0x3030"
    "same_memory (usb_hw dev1) (hw q)" "daddr (usb_hw dev1) = daddr (usb_hw dev)"
    "unat (uf_pma (usb_hw dev1) 5) = length ans" "pma_bytes (usb_hw dev1) 256 (length ans) = ans"
    by (rule packet_in [OF c(1,4,5,3,7) assms(2)])
  obtain dev2 where 2: "usb_read 1 64 (Inr dev1) = (ans, Inr dev2)" "fw (fst c, fst (snd c), q) dev2" "bulk_ready (usb_hw dev2)"
    "uf_ep (usb_hw dev2) 1 AND 0xB0B0 = 0x3020" "\<And>h. same_memory (usb_hw dev2) h = same_memory (usb_hw dev1) h"
    "daddr (usb_hw dev2) = daddr (usb_hw dev1)"
    by (rule packet_out [OF 1(8,9,10) _ 1(13,14,6)]) (simp_all add: c(3) [symmetric])
  have q: "usb_app dev2 = q" using 2(2) by (simp add: fw_def)
  have ne: "p \<noteq> []" using assms(2) by (simp add: acceptable_def well_formed_def)
  show thesis
  proof (rule that [of ans dev2])
    show "exchanges usb_iface p (Inr dev) ans (Inr dev2)"
      using 1(7) 2(1) by (simp add: exchanges_def usb_iface_def maxPacketSize_def)
    have "exchanges (link_iface usb_bus) p (plugged ((usb_app dev)\<lparr>hw := h\<rparr>)) ans (plugged q)"
      using exchange_answer [of "plugged ((usb_app dev)\<lparr>hw := h\<rparr>)" usb_bus p ans q] 1(2,6) by (simp add: plugged_def)
    then show "cable_step p (firmware_state dev) ans (firmware_state dev2)"
      unfolding cable_step_def using 1(1,11) 2(5) q
      by (intro exI [of _ h] exI [of _ q]) (simp add: firmware_state_def)
    show "hd ans = hd p" using 1(5) ne by (simp add: hd_conv_nth)
    show "debugging n dev2"
      unfolding debugging_iff q using 2 1(3,12) c(2,3,6)
      by (intro conjI exI [of _ "(fst c, fst (snd c), q)"]) simp_all
  qed (rule 1(4))
qed

lemma exchanges_all:
  assumes "debugging n dev" "\<forall>p\<in>set packets. acceptable p"
  shows "\<exists>answers dev'. exchange_all packets (Inr dev) = (answers, Inr dev') \<and>
    cable_steps packets (firmware_state dev) answers (firmware_state dev') \<and>
    list_all2 (\<lambda>p ans. ans \<noteq> [] \<and> hd ans = hd p) packets answers \<and> debugging n dev'"
  using assms
proof (induction packets arbitrary: dev)
  case (Cons p packets)
  obtain ans dev1 where 1: "exchanges usb_iface p (Inr dev) ans (Inr dev1)" "cable_step p (firmware_state dev) ans (firmware_state dev1)"
    "hd ans = hd p" "ans \<noteq> []" "debugging n dev1"
    using exchange [of n dev p] Cons.prems by auto
  obtain answers dev2 where 2: "exchange_all packets (Inr dev1) = (answers, Inr dev2)"
    "cable_steps packets (firmware_state dev1) answers (firmware_state dev2)"
    "list_all2 (\<lambda>p ans. ans \<noteq> [] \<and> hd ans = hd p) packets answers" "debugging n dev2"
    using Cons.IH [OF 1(5)] Cons.prems(2) by auto
  have "exchange_all (p # packets) (Inr dev) = (ans # answers, Inr dev2)"
    using 1(1) 2(1) by (auto simp: exchanges_def maxPacketSize_def)
  moreover have "cable_steps (p # packets) (firmware_state dev) (ans # answers) (firmware_state dev2)"
    using 1(2) 2(2) by auto
  ultimately show ?case using 1(3,4) 2(3,4) by (intro exI [of _ "ans # answers"] exI [of _ dev2]) simp
qed simp



end
