(* ===== verification/Cortexm.thy ===== *)
theory Cortexm
  imports Utils Target_Core
begin

text \<open>
  \<^verbatim>\<open>GdbServer/Gdb/cortexm.c\<close>, first part: the state of the Cortex-M driver of the Black Magic
  Probe, its access to memory and registers, resuming, and the break- and watchpoint units, in
  the hosted build (\<open>PC_HOSTED\<close> is 1). The debug access port (\<^verbatim>\<open>adiv5.h\<close>) and the platform are
  not in the repository: their functions are the fields of the record \<open>adiv5\<close>, functions on a
  state \<open>'a\<close> of the adapter. Any of them may raise an exception of \<^verbatim>\<open>exception.c\<close>, which ends
  every function up to the next \<open>TRY_CATCH\<close>; what was done to the state before stays done.
\<close>

section \<open>Functions that may raise\<close>

datatype 'a outcome = Ret 'a | Raise u32 | Stop fault

definition retM :: "'r \<Rightarrow> 's \<Rightarrow> 'r outcome \<times> 's" where
  "retM x s = (Ret x, s)"

definition stopM :: "fault \<Rightarrow> 's \<Rightarrow> 'r outcome \<times> 's" where
  "stopM e s = (Stop e, s)"

definition raiseM :: "u32 \<Rightarrow> 's \<Rightarrow> 'r outcome \<times> 's" where
  "raiseM ty s = (Raise ty, s)"

definition bindM ::
    "('s \<Rightarrow> 'q outcome \<times> 's) \<Rightarrow> ('q \<Rightarrow> 's \<Rightarrow> 'r outcome \<times> 's) \<Rightarrow> 's \<Rightarrow> 'r outcome \<times> 's" where
  "bindM m f s =
     (case m s of (Ret x, s) \<Rightarrow> f x s | (Raise ty, s) \<Rightarrow> (Raise ty, s) | (Stop e, s) \<Rightarrow> (Stop e, s))"

definition thenM :: "('s \<Rightarrow> 'q outcome \<times> 's) \<Rightarrow> ('s \<Rightarrow> 'r outcome \<times> 's) \<Rightarrow> 's \<Rightarrow> 'r outcome \<times> 's" where
  "thenM m k = bindM m (\<lambda>_. k)"

definition getM :: "('s \<Rightarrow> 'r) \<Rightarrow> 's \<Rightarrow> 'r outcome \<times> 's" where
  "getM f s = (Ret (f s), s)"

definition modM :: "('s \<Rightarrow> 's) \<Rightarrow> 's \<Rightarrow> unit outcome \<times> 's" where
  "modM f s = (Ret (), f s)"

fun eachM :: "('x \<Rightarrow> 's \<Rightarrow> unit outcome \<times> 's) \<Rightarrow> 'x list \<Rightarrow> 's \<Rightarrow> unit outcome \<times> 's" where
  "eachM f [] = retM ()"
| "eachM f (x # xs) = thenM (f x) (eachM f xs)"

fun collectM :: "('x \<Rightarrow> 's \<Rightarrow> 'r outcome \<times> 's) \<Rightarrow> 'x list \<Rightarrow> 's \<Rightarrow> 'r list outcome \<times> 's" where
  "collectM f [] = retM []"
| "collectM f (x # xs) = bindM (f x) (\<lambda>y. bindM (collectM f xs) (\<lambda>ys. retM (y # ys)))"

text \<open>\<open>TRY_CATCH (e, mask)\<close>: the type of the exception that was caught, zero for none.\<close>

definition tryM :: "u32 \<Rightarrow> ('s \<Rightarrow> unit outcome \<times> 's) \<Rightarrow> 's \<Rightarrow> u32 outcome \<times> 's" where
  "tryM msk m s =
     (case m s of
        (Ret _, s) \<Rightarrow> (Ret 0, s)
      | (Raise ty, s) \<Rightarrow> if msk AND ty \<noteq> 0 then (Ret ty, s) else (Raise ty, s)
      | (Stop e, s) \<Rightarrow> (Stop e, s))"

named_theorems run_simps \<open>running the driver step by step\<close>

lemma bind_run [run_simps]:
  "m s = (Ret x, s') \<Longrightarrow> bindM m f s = f x s'"
  "m s = (Raise ty, s') \<Longrightarrow> bindM m f s = (Raise ty, s')"
  "m s = (Stop e, s') \<Longrightarrow> bindM m f s = (Stop e, s')"
  by (simp_all add: bindM_def)

lemma then_run [run_simps]:
  "m s = (Ret x, s') \<Longrightarrow> thenM m k s = k s'"
  "m s = (Raise ty, s') \<Longrightarrow> thenM m k s = (Raise ty, s')"
  "m s = (Stop e, s') \<Longrightarrow> thenM m k s = (Stop e, s')"
  by (simp_all add: thenM_def bindM_def)

lemma basic_run [run_simps]:
  "retM x s = (Ret x, s)" "stopM e s = (Stop e, s)" "raiseM ty s = (Raise ty, s)"
  "getM g s = (Ret (g s), s)" "modM h s = (Ret (), h s)"
  by (simp_all add: retM_def stopM_def raiseM_def getM_def modM_def)

section \<open>The adapter\<close>

text \<open>The registers of the access port that the driver names, and the designers it knows.\<close>

datatype ap_register = AP_CSW | AP_TAR | AP_DB nat

datatype designer =
  Freescale | CS | GigaDevice | STM | Cypress | Infineon | Nordic | Atmel | Energy_Micro | Texas | Specular
| ARM | Unknown_designer

text \<open>
  A memory read delivers what is in the destination afterwards, that is all bytes also when the
  access failed. \<open>ap_csw\<close> is the control word with the word size set. The three functions on
  registers are pointers in \<open>ap->dp\<close>, null for most adapters; \<open>ap_regs_read\<close> fills 21 words.
  \<open>patience\<close> bounds the rounds of the polling loops of the model.
\<close>

record 'a adiv5 =
  adiv5_mem_read :: "u32 \<Rightarrow> nat \<Rightarrow> 'a \<Rightarrow> u8 list outcome \<times> 'a"
  adiv5_mem_write :: "u32 \<Rightarrow> u8 list \<Rightarrow> 'a \<Rightarrow> unit outcome \<times> 'a"
  adiv5_mem_write_sized :: "u32 \<Rightarrow> u8 list \<Rightarrow> u32 \<Rightarrow> 'a \<Rightarrow> unit outcome \<times> 'a"
  adiv5_dp_error :: "'a \<Rightarrow> u32 outcome \<times> 'a"
  adiv5_ap_write :: "ap_register \<Rightarrow> u32 \<Rightarrow> 'a \<Rightarrow> unit outcome \<times> 'a"
  adiv5_dp_low_write :: "ap_register \<Rightarrow> u32 \<Rightarrow> 'a \<Rightarrow> unit outcome \<times> 'a"
  adiv5_dp_read :: "ap_register \<Rightarrow> 'a \<Rightarrow> u32 outcome \<times> 'a"
  ap_reg_read :: "(u32 \<Rightarrow> 'a \<Rightarrow> u32 outcome \<times> 'a) option"
  ap_regs_read :: "('a \<Rightarrow> u32 list outcome \<times> 'a) option"
  ap_reg_write :: "(u32 \<Rightarrow> u32 \<Rightarrow> 'a \<Rightarrow> unit outcome \<times> 'a) option"
  adiv5_ap_ref :: "'a \<Rightarrow> 'a"
  adiv5_ap_unref :: "'a \<Rightarrow> 'a"
  ap_csw :: u32
  ap_designer :: designer
  ap_designer_code :: u16
  ap_partno :: u16
  ap_cortexm_demcr :: u32
  platform_srst_set_val :: "bool \<Rightarrow> 'a \<Rightarrow> unit outcome \<times> 'a"
  platform_delay :: "u32 \<Rightarrow> 'a \<Rightarrow> unit outcome \<times> 'a"
  time_ms :: "'a \<Rightarrow> u32 outcome \<times> 'a"
  extended_reset :: "('a \<Rightarrow> unit outcome \<times> 'a) option"
  patience :: nat

section \<open>The driver's state\<close>

definition CORTEXM_MAX_WATCHPOINTS :: nat where "CORTEXM_MAX_WATCHPOINTS = 4"
definition CORTEXM_MAX_BREAKPOINTS :: nat where "CORTEXM_MAX_BREAKPOINTS = 6"

record cortexm_priv =
  stepping :: bool
  on_bkpt :: bool
  hw_watchpoint :: "bool list"
  flash_patch_revision :: u32
  hw_watchpoint_max :: nat
  hw_breakpoint :: "bool list"
  hw_breakpoint_max :: nat
  demcr :: u32
  has_cache :: bool
  dcache_minline :: u32

text \<open>
  The target with its private part, the global \<open>time0_sec\<close>, what \<open>tc_printf\<close> has sent to the
  controller (\<open>console\<close>), whether the target is still allocated (\<open>live\<close>), and the adapter.
\<close>

record 'a cortexm = cortexm_priv +
  target_options :: u32
  cm_regs_size :: u32
  cm_tdesc :: "u8 list"
  cm_core :: "u8 list"
  cm_driver :: "u8 list"
  cm_cpuid :: u32
  cm_designer :: u16
  cm_idcode :: u16
  cm_commands :: "u8 list list"
  cm_ram :: "target_ram list"
  cm_cmdline :: "u8 list"
  cm_heapinfo :: "u32 list"
  cm_tc :: bool
  interrupted :: bool
  console :: "u8 list"
  time0_sec :: u32
  live :: bool
  adapter :: 'a

type_synonym ('r, 'a) drv = "'a cortexm \<Rightarrow> 'r outcome \<times> 'a cortexm"

definition on_ap :: "('a \<Rightarrow> 'r outcome \<times> 'a) \<Rightarrow> ('r, 'a) drv" where
  "on_ap f s = (case f (adapter s) of (r, a) \<Rightarrow> (r, s\<lparr>adapter := a\<rparr>))"

lemma on_ap_run [run_simps]: "f (adapter s) = (r, a) \<Longrightarrow> on_ap f s = (r, s\<lparr>adapter := a\<rparr>)"
  by (simp add: on_ap_def)

definition printM :: "u8 list \<Rightarrow> ('a cortexm \<Rightarrow> unit outcome \<times> 'a cortexm)" where
  "printM text = modM (\<lambda>s. if cm_tc s then s\<lparr>console := console s @ text\<rparr> else s)"

definition TOPT_FLAVOUR_V6M :: u32 where "TOPT_FLAVOUR_V6M = 1"
definition TOPT_FLAVOUR_V7MF :: u32 where "TOPT_FLAVOUR_V7MF = 2"
definition CORTEXM_TOPT_INHIBIT_SRST :: u32 where "CORTEXM_TOPT_INHIBIT_SRST = 4"

definition has_fpu :: "'a cortexm \<Rightarrow> bool" where
  "has_fpu s \<longleftrightarrow> target_options s AND TOPT_FLAVOUR_V7MF \<noteq> 0"

section \<open>Registers of the core\<close>

definition CORTEXM_CPUID :: u32 where "CORTEXM_CPUID = 0xE000ED00"
definition CORTEXM_AIRCR :: u32 where "CORTEXM_AIRCR = 0xE000ED0C"
definition CORTEXM_CFSR :: u32 where "CORTEXM_CFSR = 0xE000ED28"
definition CORTEXM_HFSR :: u32 where "CORTEXM_HFSR = 0xE000ED2C"
definition CORTEXM_DFSR :: u32 where "CORTEXM_DFSR = 0xE000ED30"
definition CORTEXM_CPACR :: u32 where "CORTEXM_CPACR = 0xE000ED88"
definition CORTEXM_CTR :: u32 where "CORTEXM_CTR = 0xE000ED7C"
definition CORTEXM_DHCSR :: u32 where "CORTEXM_DHCSR = 0xE000EDF0"
definition CORTEXM_DCRSR :: u32 where "CORTEXM_DCRSR = 0xE000EDF4"
definition CORTEXM_DCRDR :: u32 where "CORTEXM_DCRDR = 0xE000EDF8"
definition CORTEXM_DEMCR :: u32 where "CORTEXM_DEMCR = 0xE000EDFC"
definition CORTEXM_ICIALLU :: u32 where "CORTEXM_ICIALLU = 0xE000EF50"
definition CORTEXM_DCCMVAC :: u32 where "CORTEXM_DCCMVAC = 0xE000EF68"
definition CORTEXM_DCCIMVAC :: u32 where "CORTEXM_DCCIMVAC = 0xE000EF70"
definition CORTEXM_FPB_CTRL :: u32 where "CORTEXM_FPB_CTRL = 0xE0002000"
definition CORTEXM_FPB_COMP :: "nat \<Rightarrow> u32" where "CORTEXM_FPB_COMP i = 0xE0002008 + 4 * of_nat i"
definition CORTEXM_DWT_CTRL :: u32 where "CORTEXM_DWT_CTRL = 0xE0001000"
definition CORTEXM_DWT_COMP :: "nat \<Rightarrow> u32" where "CORTEXM_DWT_COMP i = 0xE0001020 + 0x10 * of_nat i"
definition CORTEXM_DWT_MASK :: "nat \<Rightarrow> u32" where "CORTEXM_DWT_MASK i = 0xE0001024 + 0x10 * of_nat i"
definition CORTEXM_DWT_FUNC :: "nat \<Rightarrow> u32" where "CORTEXM_DWT_FUNC i = 0xE0001028 + 0x10 * of_nat i"

lemmas cortexm_registers = CORTEXM_CPUID_def CORTEXM_AIRCR_def CORTEXM_CFSR_def CORTEXM_HFSR_def CORTEXM_DFSR_def
  CORTEXM_CPACR_def CORTEXM_CTR_def CORTEXM_DHCSR_def CORTEXM_DCRSR_def CORTEXM_DCRDR_def CORTEXM_DEMCR_def
  CORTEXM_ICIALLU_def CORTEXM_DCCMVAC_def CORTEXM_DCCIMVAC_def CORTEXM_FPB_CTRL_def CORTEXM_DWT_CTRL_def

definition AIRCR_VECTKEY :: u32 where "AIRCR_VECTKEY = 0x05FA0000"
definition AIRCR_SYSRESETREQ :: u32 where "AIRCR_SYSRESETREQ = 4"
definition AIRCR_VECTCLRACTIVE :: u32 where "AIRCR_VECTCLRACTIVE = 2"
definition HFSR_FORCED :: u32 where "HFSR_FORCED = 0x40000000"
definition DFSR_RESETALL :: u32 where "DFSR_RESETALL = 0x1F"
definition DFSR_VCATCH :: u32 where "DFSR_VCATCH = 8"
definition DFSR_DWTTRAP :: u32 where "DFSR_DWTTRAP = 4"
definition DFSR_BKPT :: u32 where "DFSR_BKPT = 2"
definition DFSR_HALTED :: u32 where "DFSR_HALTED = 1"
definition DHCSR_DBGKEY :: u32 where "DHCSR_DBGKEY = 0xA05F0000"
definition DHCSR_S_RESET_ST :: u32 where "DHCSR_S_RESET_ST = 0x02000000"
definition DHCSR_S_HALT :: u32 where "DHCSR_S_HALT = 0x00020000"
definition DHCSR_C_MASKINTS :: u32 where "DHCSR_C_MASKINTS = 8"
definition DHCSR_C_STEP :: u32 where "DHCSR_C_STEP = 4"
definition DHCSR_C_HALT :: u32 where "DHCSR_C_HALT = 2"
definition DHCSR_C_DEBUGEN :: u32 where "DHCSR_C_DEBUGEN = 1"
definition DCRSR_REGWnR :: u32 where "DCRSR_REGWnR = 0x00010000"
definition DEMCR_TRCENA :: u32 where "DEMCR_TRCENA = 0x01000000"
definition DEMCR_VC_HARDERR :: u32 where "DEMCR_VC_HARDERR = 0x400"
definition DEMCR_VC_CORERESET :: u32 where "DEMCR_VC_CORERESET = 1"
definition FPB_CTRL_KEY :: u32 where "FPB_CTRL_KEY = 2"
definition FPB_CTRL_ENABLE :: u32 where "FPB_CTRL_ENABLE = 1"
definition DWT_FUNC_MATCHED :: u32 where "DWT_FUNC_MATCHED = 0x01000000"
definition DWT_FUNC_DATAVSIZE_WORD :: u32 where "DWT_FUNC_DATAVSIZE_WORD = 0x800"

lemmas cortexm_bits = AIRCR_VECTKEY_def AIRCR_SYSRESETREQ_def AIRCR_VECTCLRACTIVE_def HFSR_FORCED_def
  DFSR_RESETALL_def DFSR_VCATCH_def DFSR_DWTTRAP_def DFSR_BKPT_def DFSR_HALTED_def DHCSR_DBGKEY_def
  DHCSR_S_RESET_ST_def DHCSR_S_HALT_def DHCSR_C_MASKINTS_def DHCSR_C_STEP_def DHCSR_C_HALT_def
  DHCSR_C_DEBUGEN_def DCRSR_REGWnR_def DEMCR_TRCENA_def DEMCR_VC_HARDERR_def DEMCR_VC_CORERESET_def
  FPB_CTRL_KEY_def FPB_CTRL_ENABLE_def DWT_FUNC_MATCHED_def DWT_FUNC_DATAVSIZE_WORD_def

section \<open>Memory\<close>

text \<open>
  The data cache is cleaned line by line where the memory accessed meets a RAM region. The
  loop variable can wrap around behind the end of the address space.
\<close>

fun clean_lines :: "'a adiv5 \<Rightarrow> nat \<Rightarrow> u32 \<Rightarrow> u32 \<Rightarrow> u32 \<Rightarrow> u32 \<Rightarrow> (unit, 'a) drv" where
  "clean_lines A fuel cache_reg minline r r_end =
     (if r < r_end
      then case fuel of
             0 \<Rightarrow> stopM Spinning
           | Suc fuel \<Rightarrow>
               thenM (on_ap (adiv5_mem_write A cache_reg (le32 r)))
                     (clean_lines A fuel cache_reg minline (r + minline) r_end)
      else retM ())"

definition clean_region :: "'a adiv5 \<Rightarrow> u32 \<Rightarrow> u32 \<Rightarrow> u32 \<Rightarrow> u32 \<Rightarrow> target_ram \<Rightarrow> (unit, 'a) drv" where
  "clean_region A cache_reg minline addr mem_end r =
     (let first = (if addr > ram_start r then addr else ram_start r);
          r_end = ram_start r + ram_length r;
          r_end = (if mem_end < r_end then mem_end else r_end)
      in clean_lines A (patience A) cache_reg minline (first AND NOT (minline - 1)) r_end)"

definition cortexm_cache_clean :: "'a adiv5 \<Rightarrow> u32 \<Rightarrow> u32 \<Rightarrow> bool \<Rightarrow> (unit, 'a) drv" where
  "cortexm_cache_clean A addr len invalidate s =
     (if \<not> has_cache s \<or> dcache_minline s = 0 then (Ret (), s)
      else eachM (clean_region A (if invalidate then CORTEXM_DCCIMVAC else CORTEXM_DCCMVAC)
                    (dcache_minline s) addr (addr + len)) (cm_ram s) s)"

definition cortexm_mem_read :: "'a adiv5 \<Rightarrow> u32 \<Rightarrow> u32 \<Rightarrow> (u8 list, 'a) drv" where
  "cortexm_mem_read A src len =
     thenM (cortexm_cache_clean A src len False) (on_ap (adiv5_mem_read A src (unat len)))"

definition cortexm_mem_write :: "'a adiv5 \<Rightarrow> u32 \<Rightarrow> u8 list \<Rightarrow> (unit, 'a) drv" where
  "cortexm_mem_write A dest src =
     thenM (cortexm_cache_clean A dest (of_nat (length src)) True) (on_ap (adiv5_mem_write A dest src))"

definition cortexm_check_error :: "'a adiv5 \<Rightarrow> (bool, 'a) drv" where
  "cortexm_check_error A = bindM (on_ap (adiv5_dp_error A)) (\<lambda>e. retM (e \<noteq> 0))"

definition cortexm_mem_write_sized :: "'a adiv5 \<Rightarrow> u32 \<Rightarrow> u8 list \<Rightarrow> u32 \<Rightarrow> (bool, 'a) drv" where
  "cortexm_mem_write_sized A dest src align =
     thenM (cortexm_cache_clean A dest (of_nat (length src)) True)
       (thenM (on_ap (adiv5_mem_write_sized A dest src align)) (cortexm_check_error A))"

text \<open>
  The accessors of \<^verbatim>\<open>target.c\<close> with the functions above behind the pointers of the target. A
  driver of a chip may replace them; none in the repository does it for this core.
\<close>

definition read32 :: "'a adiv5 \<Rightarrow> u32 \<Rightarrow> (u32, 'a) drv" where
  "read32 A a = bindM (cortexm_mem_read A a 4) (\<lambda>bs. retM (rd32 bs))"

definition read16 :: "'a adiv5 \<Rightarrow> u32 \<Rightarrow> (u16, 'a) drv" where
  "read16 A a = bindM (cortexm_mem_read A a 2) (\<lambda>bs. retM (rd16 bs))"

definition read8 :: "'a adiv5 \<Rightarrow> u32 \<Rightarrow> (u8, 'a) drv" where
  "read8 A a = bindM (cortexm_mem_read A a 1) (\<lambda>bs. retM (bs ! 0))"

definition write32 :: "'a adiv5 \<Rightarrow> u32 \<Rightarrow> u32 \<Rightarrow> (unit, 'a) drv" where
  "write32 A a v = cortexm_mem_write A a (le32 v)"

text \<open>\<open>target_mem_read\<close> and \<open>target_mem_write\<close> ask for errors themselves.\<close>

definition mem_read_checked :: "'a adiv5 \<Rightarrow> u32 \<Rightarrow> u32 \<Rightarrow> (bool \<times> u8 list, 'a) drv" where
  "mem_read_checked A src len =
     bindM (cortexm_mem_read A src len) (\<lambda>bs. bindM (cortexm_check_error A) (\<lambda>e. retM (e, bs)))"

definition mem_write_checked :: "'a adiv5 \<Rightarrow> u32 \<Rightarrow> u8 list \<Rightarrow> (bool, 'a) drv" where
  "mem_write_checked A dest src = thenM (cortexm_mem_write A dest src) (cortexm_check_error A)"

text \<open>The register descriptions for GDB; the second one begins like the first.\<close>

definition tdesc_m_profile :: "u8 list" where
  "tdesc_m_profile =
     str ''<?xml version=\"1.0\"?>'' @
     str ''<!DOCTYPE target SYSTEM \"gdb-target.dtd\">'' @
     str ''<target>'' @
     str ''  <architecture>arm</architecture>'' @
     str ''  <feature name=\"org.gnu.gdb.arm.m-profile\">'' @
     str ''    <reg name=\"r0\" bitsize=\"32\"/>'' @
     str ''    <reg name=\"r1\" bitsize=\"32\"/>'' @
     str ''    <reg name=\"r2\" bitsize=\"32\"/>'' @
     str ''    <reg name=\"r3\" bitsize=\"32\"/>'' @
     str ''    <reg name=\"r4\" bitsize=\"32\"/>'' @
     str ''    <reg name=\"r5\" bitsize=\"32\"/>'' @
     str ''    <reg name=\"r6\" bitsize=\"32\"/>'' @
     str ''    <reg name=\"r7\" bitsize=\"32\"/>'' @
     str ''    <reg name=\"r8\" bitsize=\"32\"/>'' @
     str ''    <reg name=\"r9\" bitsize=\"32\"/>'' @
     str ''    <reg name=\"r10\" bitsize=\"32\"/>'' @
     str ''    <reg name=\"r11\" bitsize=\"32\"/>'' @
     str ''    <reg name=\"r12\" bitsize=\"32\"/>'' @
     str ''    <reg name=\"sp\" bitsize=\"32\" type=\"data_ptr\"/>'' @
     str ''    <reg name=\"lr\" bitsize=\"32\" type=\"code_ptr\"/>'' @
     str ''    <reg name=\"pc\" bitsize=\"32\" type=\"code_ptr\"/>'' @
     str ''    <reg name=\"xpsr\" bitsize=\"32\"/>'' @
     str ''    <reg name=\"msp\" bitsize=\"32\" save-restore=\"no\" type=\"data_ptr\"/>'' @
     str ''    <reg name=\"psp\" bitsize=\"32\" save-restore=\"no\" type=\"data_ptr\"/>'' @
     str ''    <reg name=\"primask\" bitsize=\"8\" save-restore=\"no\"/>'' @
     str ''    <reg name=\"basepri\" bitsize=\"8\" save-restore=\"no\"/>'' @
     str ''    <reg name=\"faultmask\" bitsize=\"8\" save-restore=\"no\"/>'' @
     str ''    <reg name=\"control\" bitsize=\"8\" save-restore=\"no\"/>'' @
     str ''  </feature>''"

definition tdesc_cortex_m :: "u8 list" where
  "tdesc_cortex_m = tdesc_m_profile @ str ''</target>''"

definition tdesc_cortex_mf :: "u8 list" where
  "tdesc_cortex_mf = tdesc_m_profile @
     str ''  <feature name=\"org.gnu.gdb.arm.vfp\">'' @
     str ''    <reg name=\"fpscr\" bitsize=\"32\"/>'' @
     str ''    <reg name=\"d0\" bitsize=\"64\" type=\"float\"/>'' @
     str ''    <reg name=\"d1\" bitsize=\"64\" type=\"float\"/>'' @
     str ''    <reg name=\"d2\" bitsize=\"64\" type=\"float\"/>'' @
     str ''    <reg name=\"d3\" bitsize=\"64\" type=\"float\"/>'' @
     str ''    <reg name=\"d4\" bitsize=\"64\" type=\"float\"/>'' @
     str ''    <reg name=\"d5\" bitsize=\"64\" type=\"float\"/>'' @
     str ''    <reg name=\"d6\" bitsize=\"64\" type=\"float\"/>'' @
     str ''    <reg name=\"d7\" bitsize=\"64\" type=\"float\"/>'' @
     str ''    <reg name=\"d8\" bitsize=\"64\" type=\"float\"/>'' @
     str ''    <reg name=\"d9\" bitsize=\"64\" type=\"float\"/>'' @
     str ''    <reg name=\"d10\" bitsize=\"64\" type=\"float\"/>'' @
     str ''    <reg name=\"d11\" bitsize=\"64\" type=\"float\"/>'' @
     str ''    <reg name=\"d12\" bitsize=\"64\" type=\"float\"/>'' @
     str ''    <reg name=\"d13\" bitsize=\"64\" type=\"float\"/>'' @
     str ''    <reg name=\"d14\" bitsize=\"64\" type=\"float\"/>'' @
     str ''    <reg name=\"d15\" bitsize=\"64\" type=\"float\"/>'' @
     str ''  </feature>'' @
     str ''</target>''"

section \<open>Core registers\<close>

definition regnum_cortex_m :: "u32 list" where
  "regnum_cortex_m = [0, 1, 2, 3, 4, 5, 6, 7, 8, 9, 10, 11, 12, 13, 14, 15, 0x10, 0x11, 0x12, 0x14]"

definition regnum_cortex_mf :: "u32 list" where
  "regnum_cortex_mf =
     [0x21, 0x40, 0x41, 0x42, 0x43, 0x44, 0x45, 0x46, 0x47, 0x48, 0x49, 0x4a, 0x4b, 0x4c, 0x4d, 0x4e, 0x4f,
      0x50, 0x51, 0x52, 0x53, 0x54, 0x55, 0x56, 0x57, 0x58, 0x59, 0x5a, 0x5b, 0x5c, 0x5d, 0x5e, 0x5f]"

definition DB_DHCSR :: nat where "DB_DHCSR = 0"
definition DB_DCRSR :: nat where "DB_DCRSR = 1"
definition DB_DCRDR :: nat where "DB_DCRDR = 2"
definition DB_DEMCR :: nat where "DB_DEMCR = 3"

text \<open>Reading: with the functions of the adapter when it has them, or through the banked registers.\<close>

definition read_selected :: "'a adiv5 \<Rightarrow> u32 \<Rightarrow> (u32, 'a) drv" where
  "read_selected A n =
     thenM (on_ap (adiv5_dp_low_write A (AP_DB DB_DCRSR) n)) (on_ap (adiv5_dp_read A (AP_DB DB_DCRDR)))"

definition map_debug_registers :: "'a adiv5 \<Rightarrow> (unit, 'a) drv" where
  "map_debug_registers A =
     thenM (on_ap (adiv5_ap_write A AP_CSW (ap_csw A))) (on_ap (adiv5_dp_low_write A AP_TAR CORTEXM_DHCSR))"

definition regs_read_banked :: "'a adiv5 \<Rightarrow> (u32 list, 'a) drv" where
  "regs_read_banked A s =
     thenM (map_debug_registers A)
       (thenM (on_ap (adiv5_ap_write A (AP_DB DB_DCRSR) (regnum_cortex_m ! 0)))
         (bindM (on_ap (adiv5_dp_read A (AP_DB DB_DCRDR))) (\<lambda>r0.
          bindM (collectM (read_selected A) (tl regnum_cortex_m)) (\<lambda>rs.
          bindM (collectM (read_selected A) (if has_fpu s then regnum_cortex_mf else [])) (\<lambda>fs.
            retM (r0 # rs @ fs)))))) s"

definition regs_read_adapter ::
    "(u32 \<Rightarrow> 'a \<Rightarrow> u32 outcome \<times> 'a) \<Rightarrow> ('a \<Rightarrow> u32 list outcome \<times> 'a) \<Rightarrow> (u32 list, 'a) drv" where
  "regs_read_adapter reg_read regs_read s =
     bindM (on_ap regs_read) (\<lambda>base_regs.
     bindM (collectM (\<lambda>n. on_ap (reg_read n)) (if has_fpu s then regnum_cortex_mf else [])) (\<lambda>fs.
       retM (map (\<lambda>n. base_regs ! unat n) regnum_cortex_m @ fs))) s"

definition cortexm_regs_read :: "'a adiv5 \<Rightarrow> (u32 list, 'a) drv" where
  "cortexm_regs_read A =
     (case (ap_reg_read A, ap_regs_read A) of
        (Some reg_read, Some regs_read) \<Rightarrow> regs_read_adapter reg_read regs_read
      | _ \<Rightarrow> regs_read_banked A)"

text \<open>Writing. The data has to hold a word for every register.\<close>

definition write_selected :: "'a adiv5 \<Rightarrow> u32 \<times> u32 \<Rightarrow> (unit, 'a) drv" where
  "write_selected A nv =
     thenM (on_ap (adiv5_dp_low_write A (AP_DB DB_DCRDR) (snd nv)))
       (on_ap (adiv5_dp_low_write A (AP_DB DB_DCRSR) (0x10000 OR fst nv)))"

definition written_registers :: "'a cortexm \<Rightarrow> u32 list" where
  "written_registers s = regnum_cortex_m @ (if has_fpu s then regnum_cortex_mf else [])"

definition regs_write_banked :: "'a adiv5 \<Rightarrow> u32 list \<Rightarrow> (unit, 'a) drv" where
  "regs_write_banked A regs s =
     thenM (map_debug_registers A)
       (thenM (on_ap (adiv5_ap_write A (AP_DB DB_DCRDR) (regs ! 0)))
         (thenM (on_ap (adiv5_dp_low_write A (AP_DB DB_DCRSR) (0x10000 OR regnum_cortex_m ! 0)))
           (eachM (write_selected A) (tl (zip (written_registers s) regs))))) s"

definition cortexm_regs_write :: "'a adiv5 \<Rightarrow> u32 list \<Rightarrow> (unit, 'a) drv" where
  "cortexm_regs_write A regs s =
     (if length regs < length (written_registers s) then (Stop Crash, s)
      else case ap_reg_write A of
             Some reg_write \<Rightarrow>
               eachM (\<lambda>(n, v). on_ap (reg_write n v)) (zip (written_registers s) regs) s
           | None \<Rightarrow> regs_write_banked A regs s)"

text \<open>
  The number of a single register in the selector, -1 for none. The bound for the second table
  adds the size of the first in bytes, so it also lets pass numbers behind the table, whose
  entries do not exist.
\<close>

definition dcrsr_regnum :: "u32 \<Rightarrow> (u32, 'a) drv" where
  "dcrsr_regnum reg s =
     (let i = unat reg in
      if i < length regnum_cortex_m then (Ret (regnum_cortex_m ! i), s)
      else if has_fpu s \<and> i < 4 * length regnum_cortex_m + length regnum_cortex_mf
      then if i - length regnum_cortex_m < length regnum_cortex_mf
           then (Ret (regnum_cortex_mf ! (i - length regnum_cortex_m)), s) else (Stop Crash, s)
      else (Ret (-1), s))"

text \<open>The result is the return value and the bytes that were stored, if any.\<close>

definition cortexm_reg_read :: "'a adiv5 \<Rightarrow> u32 \<Rightarrow> u32 \<Rightarrow> (u32 \<times> u8 list, 'a) drv" where
  "cortexm_reg_read A reg max_size =
     (if max_size < 4 then retM (-1, [])
      else bindM (dcrsr_regnum reg) (\<lambda>n.
           thenM (write32 A CORTEXM_DCRSR n)
             (bindM (read32 A CORTEXM_DCRDR) (\<lambda>r. retM (4, le32 r)))))"

definition cortexm_reg_write :: "'a adiv5 \<Rightarrow> u32 \<Rightarrow> u8 list \<Rightarrow> (u32, 'a) drv" where
  "cortexm_reg_write A reg data =
     (if length data < 4 then retM (-1)
      else thenM (write32 A CORTEXM_DCRDR (rd32 data))
             (bindM (dcrsr_regnum reg) (\<lambda>n.
              thenM (write32 A CORTEXM_DCRSR (DCRSR_REGWnR OR n)) (retM 4))))"

definition cortexm_pc_read :: "'a adiv5 \<Rightarrow> (u32, 'a) drv" where
  "cortexm_pc_read A = thenM (write32 A CORTEXM_DCRSR 0x0F) (read32 A CORTEXM_DCRDR)"

definition cortexm_pc_write :: "'a adiv5 \<Rightarrow> u32 \<Rightarrow> (unit, 'a) drv" where
  "cortexm_pc_write A v =
     thenM (write32 A CORTEXM_DCRDR v) (write32 A CORTEXM_DCRSR (DCRSR_REGWnR OR 0x0F))"

section \<open>Reset, halting and resuming\<close>

fun reset_wait :: "'a adiv5 \<Rightarrow> nat \<Rightarrow> u32 \<Rightarrow> (unit, 'a) drv" where
  "reset_wait A fuel to =
     bindM (read32 A CORTEXM_DHCSR) (\<lambda>dhcsr.
       if dhcsr AND DHCSR_S_RESET_ST = 0 then retM ()
       else bindM (on_ap (time_ms A)) (\<lambda>now.
            if platform_timeout_is_expired now to then retM ()
            else case fuel of 0 \<Rightarrow> stopM Spinning | Suc fuel \<Rightarrow> reset_wait A fuel to))"

definition cortexm_reset :: "'a adiv5 \<Rightarrow> (unit, 'a) drv" where
  "cortexm_reset A s =
     thenM (read32 A CORTEXM_DHCSR)
       (thenM (if target_options s AND CORTEXM_TOPT_INHIBIT_SRST = 0
               then thenM (on_ap (platform_srst_set_val A True))
                      (thenM (on_ap (platform_srst_set_val A False)) (on_ap (platform_delay A 10)))
               else retM ())
         (bindM (read32 A CORTEXM_DHCSR) (\<lambda>dhcsr.
          thenM (if dhcsr AND DHCSR_S_RESET_ST = 0
                 then write32 A CORTEXM_AIRCR (AIRCR_VECTKEY OR AIRCR_SYSRESETREQ) else retM ())
            (thenM (case extended_reset A of None \<Rightarrow> retM () | Some f \<Rightarrow> on_ap f)
              (bindM (on_ap (time_ms A)) (\<lambda>now.
               thenM (reset_wait A (patience A) (Utils.platform_timeout_set now 1000))
                 (thenM (on_ap (platform_delay A 10))
                   (thenM (write32 A CORTEXM_DFSR DFSR_RESETALL)
                     (thenM (cortexm_check_error A) (retM ())))))))))) s"

definition cortexm_halt_request :: "'a adiv5 \<Rightarrow> (unit, 'a) drv" where
  "cortexm_halt_request A =
     bindM (tryM EXCEPTION_TIMEOUT (write32 A CORTEXM_DHCSR (DHCSR_DBGKEY OR DHCSR_C_HALT OR DHCSR_C_DEBUGEN)))
       (\<lambda>ty. if ty \<noteq> 0 then printM (str ''Timeout sending interrupt, is target in WFI?'' @ [10]) else retM ())"

definition cortexm_halt_resume :: "'a adiv5 \<Rightarrow> bool \<Rightarrow> (unit, 'a) drv" where
  "cortexm_halt_resume A step s =
     (let dhcsr = DHCSR_DBGKEY OR DHCSR_C_DEBUGEN;
          dhcsr = (if step then dhcsr OR DHCSR_C_STEP OR DHCSR_C_MASKINTS else dhcsr)
      in thenM (if step \<noteq> stepping s
                then thenM (write32 A CORTEXM_DHCSR (dhcsr OR DHCSR_C_HALT)) (modM (stepping_update (\<lambda>_. step)))
                else retM ())
           (thenM (if on_bkpt s
                   then bindM (cortexm_pc_read A) (\<lambda>pc.
                        bindM (read16 A pc) (\<lambda>instr.
                          if instr AND 0xFF00 = 0xBE00 then cortexm_pc_write A (pc + 2) else retM ()))
                   else retM ())
             (thenM (if has_cache s then write32 A CORTEXM_ICIALLU 0 else retM ())
               (write32 A CORTEXM_DHCSR dhcsr))) s)"

section \<open>Unwinding a fault\<close>

definition REG_SP :: nat where "REG_SP = 13"
definition REG_LR :: nat where "REG_LR = 14"
definition REG_PC :: nat where "REG_PC = 15"
definition REG_XPSR :: nat where "REG_XPSR = 16"
definition REG_MSP :: nat where "REG_MSP = 17"
definition REG_PSP :: nat where "REG_PSP = 18"
definition REG_SPECIAL :: nat where "REG_SPECIAL = 19"

text \<open>The registers with the stack frame of the exception popped: \<open>stack\<close> is the frame.\<close>

definition unwound :: "u32 list \<Rightarrow> u32 list \<Rightarrow> u32 list" where
  "unwound stack regs =
     (let retcode = regs ! REG_LR;
          spsel = bit retcode 2;
          fpca = (\<not> bit retcode 4);
          regs = regs[REG_LR := stack ! 5, REG_PC := stack ! 6];
          framesize = (if fpca then 0x68 else 0x20) + (if bit (stack ! 7) 9 then 4 else 0);
          regs = (if spsel
                  then let sp = regs ! REG_PSP + framesize
                       in regs[REG_SPECIAL := regs ! REG_SPECIAL OR 0x4000000, REG_PSP := sp, REG_SP := sp]
                  else let sp = regs ! REG_MSP + framesize in regs[REG_MSP := sp, REG_SP := sp])
      in if fpca then regs[REG_SPECIAL := regs ! REG_SPECIAL OR 0x2000000] else regs)"

definition cortexm_fault_unwind :: "'a adiv5 \<Rightarrow> (bool, 'a) drv" where
  "cortexm_fault_unwind A =
     bindM (read32 A CORTEXM_HFSR) (\<lambda>hfsr.
     bindM (read32 A CORTEXM_CFSR) (\<lambda>cfsr.
     thenM (write32 A CORTEXM_HFSR hfsr)
       (thenM (write32 A CORTEXM_CFSR cfsr)
         (if hfsr AND HFSR_FORCED \<noteq> 0 \<or> cfsr \<noteq> 0
          then bindM (cortexm_regs_read A) (\<lambda>regs.
               bindM (mem_read_checked A (if bit (regs ! REG_LR) 2 then regs ! REG_PSP else regs ! REG_MSP) 32)
                 (\<lambda>(_, bs).
               bindM (cortexm_check_error A) (\<lambda>e.
                 if e then retM False
                 else thenM (write32 A CORTEXM_AIRCR (AIRCR_VECTKEY OR AIRCR_VECTCLRACTIVE))
                        (thenM (cortexm_regs_write A (unwound (map (\<lambda>i. rd32 (drop (4 * i) bs)) [0..<8]) regs))
                          (retM True)))))
          else retM False))))"

section \<open>Break- and watchpoints\<close>

definition dwt_mask :: "u32 \<Rightarrow> u32" where
  "dwt_mask len = (if len = 1 then 0 else if len = 2 then 1 else if len = 4 then 2 else -1)"

definition dwt_func :: "'a cortexm \<Rightarrow> u32 \<Rightarrow> u32" where
  "dwt_func s ty =
     (let x = (if target_options s AND TOPT_FLAVOUR_V6M = 0 then DWT_FUNC_DATAVSIZE_WORD else 0) in
      if ty = WATCH_WRITE then 6 OR x else if ty = WATCH_READ then 5 OR x
      else if ty = WATCH_ACCESS then 7 OR x else -1)"

text \<open>
  The first free unit, or \<open>n\<close> when all of them are in use. Looking at or marking a unit behind
  the table is undefined.
\<close>

fun free_unit :: "bool list \<Rightarrow> nat \<Rightarrow> nat \<Rightarrow> nat result" where
  "free_unit used i 0 = Inr i"
| "free_unit used i (Suc k) =
     (if i \<ge> length used then Inl Crash else if \<not> used ! i then Inr i else free_unit used (Suc i) k)"

definition liftM :: "'r result \<Rightarrow> 's \<Rightarrow> 'r outcome \<times> 's" where
  "liftM r s = (case r of Inl e \<Rightarrow> (Stop e, s) | Inr x \<Rightarrow> (Ret x, s))"

definition bkpt_comp :: "u32 \<Rightarrow> u32 \<Rightarrow> u32" where
  "bkpt_comp revision addr =
     (if revision = 0 then (addr AND 0x1FFFFFFC) OR (if addr AND 2 \<noteq> 0 then 0x80000000 else 0x40000000)
      else addr) OR 1"

definition set_mark :: "nat \<Rightarrow> bool \<Rightarrow> bool list \<Rightarrow> bool list result" where
  "set_mark i b used = (if i < length used then Inr (used[i := b]) else Inl Crash)"

definition mark_breakpoint :: "nat \<Rightarrow> bool \<Rightarrow> (unit, 'a) drv" where
  "mark_breakpoint i b s =
     bindM (liftM (set_mark i b (hw_breakpoint s))) (\<lambda>u. modM (hw_breakpoint_update (\<lambda>_. u))) s"

definition mark_watchpoint :: "nat \<Rightarrow> bool \<Rightarrow> (unit, 'a) drv" where
  "mark_watchpoint i b s =
     bindM (liftM (set_mark i b (hw_watchpoint s))) (\<lambda>u. modM (hw_watchpoint_update (\<lambda>_. u))) s"

definition is_watch :: "u32 \<Rightarrow> bool" where
  "is_watch ty \<longleftrightarrow> ty = WATCH_WRITE \<or> ty = WATCH_READ \<or> ty = WATCH_ACCESS"

definition set_breakpoint_unit :: "'a adiv5 \<Rightarrow> breakwatch \<Rightarrow> (i32 \<times> breakwatch, 'a) drv" where
  "set_breakpoint_unit A bw s =
     bindM (liftM (free_unit (hw_breakpoint s) 0 (hw_breakpoint_max s))) (\<lambda>i.
       if i = hw_breakpoint_max s then retM (-1, bw)
       else thenM (mark_breakpoint i True)
              (thenM (write32 A (CORTEXM_FPB_COMP i) (bkpt_comp (flash_patch_revision s) (bw_addr bw)))
                (retM (0, bw\<lparr>bw_reserved := (bw_reserved bw)[0 := of_nat i]\<rparr>)))) s"

definition set_watchpoint_unit :: "'a adiv5 \<Rightarrow> breakwatch \<Rightarrow> (i32 \<times> breakwatch, 'a) drv" where
  "set_watchpoint_unit A bw s =
     bindM (liftM (free_unit (hw_watchpoint s) 0 (hw_watchpoint_max s))) (\<lambda>i.
       if i = hw_watchpoint_max s then retM (-1, bw)
       else thenM (mark_watchpoint i True)
              (thenM (write32 A (CORTEXM_DWT_COMP i) (bw_addr bw))
                (thenM (write32 A (CORTEXM_DWT_MASK i) (dwt_mask (bw_size bw)))
                  (thenM (write32 A (CORTEXM_DWT_FUNC i) (dwt_func s (bw_type bw)))
                    (retM (0, bw\<lparr>bw_reserved := (bw_reserved bw)[0 := of_nat i]\<rparr>)))))) s"

definition cortexm_breakwatch_set :: "'a adiv5 \<Rightarrow> breakwatch \<Rightarrow> (i32 \<times> breakwatch, 'a) drv" where
  "cortexm_breakwatch_set A bw =
     (if bw_type bw = BREAK_HARD then set_breakpoint_unit A bw
      else if is_watch (bw_type bw) then set_watchpoint_unit A bw
      else retM (1, bw))"

definition cortexm_breakwatch_clear :: "'a adiv5 \<Rightarrow> breakwatch \<Rightarrow> (i32, 'a) drv" where
  "cortexm_breakwatch_clear A bw =
     (let i = unat (bw_reserved bw ! 0) in
      if bw_type bw = BREAK_HARD
      then thenM (mark_breakpoint i False) (thenM (write32 A (CORTEXM_FPB_COMP i) 0) (retM 0))
      else if is_watch (bw_type bw)
      then thenM (mark_watchpoint i False) (thenM (write32 A (CORTEXM_DWT_FUNC i) 0) (retM 0))
      else retM 1)"

text \<open>The unit whose watchpoint has matched, or \<open>n\<close>.\<close>

fun matched_unit :: "'a adiv5 \<Rightarrow> nat \<Rightarrow> nat \<Rightarrow> (nat, 'a) drv" where
  "matched_unit A i 0 s = (Ret i, s)"
| "matched_unit A i (Suc k) s =
     (if i \<ge> length (hw_watchpoint s) then (Stop Crash, s)
      else if \<not> hw_watchpoint s ! i then matched_unit A (Suc i) k s
      else bindM (read32 A (CORTEXM_DWT_FUNC i)) (\<lambda>f s.
             if f AND DWT_FUNC_MATCHED \<noteq> 0 then (Ret i, s) else matched_unit A (Suc i) k s) s)"

definition cortexm_check_watch :: "'a adiv5 \<Rightarrow> (u32, 'a) drv" where
  "cortexm_check_watch A s =
     bindM (matched_unit A 0 (hw_watchpoint_max s)) (\<lambda>i.
       if i = hw_watchpoint_max s then retM 0 else read32 A (CORTEXM_DWT_COMP i)) s"

section \<open>Vector catch\<close>

text \<open>The names by bit; \<open>None\<close> is a null pointer. \<open>parse\<close> is \<open>parse_enable_or_disable\<close>, which is not in the repository.\<close>

definition vectors :: "u8 list option list" where
  "vectors = [Some (str ''reset''), None, None, None, Some (str ''mm''), Some (str ''nocp''),
     Some (str ''chk''), Some (str ''stat''), Some (str ''bus''), Some (str ''int''), Some (str ''hard'')]"

definition vector_mask :: "u8 list list \<Rightarrow> u32" where
  "vector_mask argv =
     fold (\<lambda>arg. fold (\<lambda>i msk. if vectors ! i = Some arg then msk OR push_bit i 1 else msk)
       [0..<length vectors]) argv 0"

definition vectors_caught :: "u32 \<Rightarrow> u8 list" where
  "vectors_caught d =
     concat (map (\<lambda>i. case vectors ! i of None \<Rightarrow> [] | Some v \<Rightarrow> if bit d i then v @ str '' '' else [])
       [0..<length vectors])"

definition vector_catch_usage :: "u8 list" where
  "vector_catch_usage =
     str ''usage: monitor vector_catch (enable|disable) '' @
     str ''(hard|int|bus|stat|chk|nocp|mm|reset)'' @ [10]"

definition cortexm_vector_catch ::
    "'a adiv5 \<Rightarrow> (u8 list \<Rightarrow> bool option) \<Rightarrow> u8 list list \<Rightarrow> (bool, 'a) drv" where
  "cortexm_vector_catch A parse argv =
     thenM (if length argv < 3 then printM vector_catch_usage
            else case parse (argv ! 1) of
                   None \<Rightarrow> retM ()
                 | Some enable \<Rightarrow>
                     thenM (modM (demcr_update (\<lambda>d. if enable then d OR vector_mask argv else d AND NOT (vector_mask argv))))
                       (bindM (getM demcr) (write32 A CORTEXM_DEMCR)))
       (thenM (printM (str ''Catching vectors: ''))
         (thenM (bindM (getM demcr) (\<lambda>d. printM (vectors_caught d)))
           (thenM (printM [10]) (retM True))))"

section \<open>Attaching and detaching\<close>

text \<open>How many units of each kind the driver uses; the number of watchpoints only grows.\<close>

definition size_units :: "'a adiv5 \<Rightarrow> (unit, 'a) drv" where
  "size_units A =
     bindM (read32 A CORTEXM_FPB_CTRL) (\<lambda>r.
     thenM (modM (\<lambda>s. s\<lparr>hw_breakpoint_max := min CORTEXM_MAX_BREAKPOINTS (unat (drop_bit 4 r AND 0xF)),
                      flash_patch_revision := drop_bit 28 r\<rparr>))
       (bindM (read32 A CORTEXM_DWT_CTRL) (\<lambda>r.
        modM (hw_watchpoint_max_update (\<lambda>_. max CORTEXM_MAX_WATCHPOINTS (unat (drop_bit 28 r)))))))"

definition clear_units :: "'a adiv5 \<Rightarrow> (unit, 'a) drv" where
  "clear_units A s =
     thenM (eachM (\<lambda>i. thenM (write32 A (CORTEXM_FPB_COMP i) 0) (mark_breakpoint i False))
              [0..<hw_breakpoint_max s])
       (eachM (\<lambda>i. thenM (write32 A (CORTEXM_DWT_FUNC i) 0) (mark_watchpoint i False))
          [0..<hw_watchpoint_max s]) s"

fun attach_wait :: "'a adiv5 \<Rightarrow> nat \<Rightarrow> u32 \<Rightarrow> (bool, 'a) drv" where
  "attach_wait A fuel timeout =
     bindM (read32 A CORTEXM_DHCSR) (\<lambda>dhcsr.
       if dhcsr AND DHCSR_S_RESET_ST = 0 then retM True
       else bindM (on_ap (time_ms A)) (\<lambda>now.
            if platform_timeout_is_expired now timeout then retM False
            else case fuel of 0 \<Rightarrow> stopM Spinning | Suc fuel \<Rightarrow> attach_wait A fuel timeout))"

definition cortexm_attach :: "'a adiv5 \<Rightarrow> (bool, 'a) drv" where
  "cortexm_attach A =
     thenM (cortexm_check_error A)
       (thenM (cortexm_halt_request A)
         (thenM (bindM (getM demcr) (write32 A CORTEXM_DEMCR))
           (thenM (write32 A CORTEXM_DFSR DFSR_RESETALL)
             (thenM (size_units A)
               (thenM (clear_units A)
                 (thenM (write32 A CORTEXM_FPB_CTRL (FPB_CTRL_KEY OR FPB_CTRL_ENABLE))
                   (thenM (read32 A CORTEXM_DHCSR)
                     (bindM (read32 A CORTEXM_DHCSR) (\<lambda>dhcsr.
                       if dhcsr AND DHCSR_S_RESET_ST = 0 then retM True
                       else thenM (on_ap (platform_srst_set_val A False))
                              (bindM (on_ap (time_ms A)) (\<lambda>now.
                               attach_wait A (patience A) (Utils.platform_timeout_set now 1000))))))))))))"

definition cortexm_detach :: "'a adiv5 \<Rightarrow> (unit, 'a) drv" where
  "cortexm_detach A s =
     thenM (eachM (\<lambda>i. write32 A (CORTEXM_FPB_COMP i) 0) [0..<hw_breakpoint_max s])
       (thenM (eachM (\<lambda>i. write32 A (CORTEXM_DWT_FUNC i) 0) [0..<hw_watchpoint_max s])
         (thenM (write32 A CORTEXM_DEMCR (ap_cortexm_demcr A))
           (write32 A CORTEXM_DHCSR DHCSR_DBGKEY))) s"

end
