(* ===== verification/Cortexm_Host.thy ===== *)
theory Cortexm_Host
  imports Cortexm
begin

text \<open>
  \<^verbatim>\<open>GdbServer/Gdb/cortexm.c\<close>, second part: semihosting, polling a halted core, running a
  program on the target, and the probe that sets up the driver. In the hosted build a call of
  the target for a service is answered by the operating system of the host, whose functions are
  the fields of \<open>host_os\<close>.
\<close>

section \<open>The host\<close>

text \<open>
  \<open>os_modes\<close> holds the flags of the host for the six modes of \<open>fopen\<close>. \<open>os_malloc\<close> tells whether
  there is memory. \<open>os_read\<close> returns the result and all of the buffer, \<open>os_fstat\<close> the size of the
  file, \<open>os_gettimeofday\<close> seconds and microseconds.
\<close>

record 'a host_os =
  os_modes :: "u32 list"
  os_malloc :: "u32 \<Rightarrow> 'a \<Rightarrow> bool"
  os_open :: "u8 list \<Rightarrow> u32 \<Rightarrow> u32 \<Rightarrow> 'a \<Rightarrow> i32 \<times> 'a"
  os_close :: "u32 \<Rightarrow> 'a \<Rightarrow> i32 \<times> 'a"
  os_read :: "u32 \<Rightarrow> u32 \<Rightarrow> 'a \<Rightarrow> i32 \<times> u8 list \<times> 'a"
  os_write :: "u32 \<Rightarrow> u8 list \<Rightarrow> 'a \<Rightarrow> i32 \<times> 'a"
  os_stderr :: "u8 \<Rightarrow> 'a \<Rightarrow> 'a"
  os_isatty :: "u32 \<Rightarrow> 'a \<Rightarrow> i32 \<times> 'a"
  os_lseek :: "u32 \<Rightarrow> u32 \<Rightarrow> 'a \<Rightarrow> u32 \<times> 'a"
  os_rename :: "u8 list \<Rightarrow> u8 list \<Rightarrow> 'a \<Rightarrow> i32 \<times> 'a"
  os_remove :: "u8 list \<Rightarrow> 'a \<Rightarrow> i32 \<times> 'a"
  os_system :: "u8 list \<Rightarrow> 'a \<Rightarrow> i32 \<times> 'a"
  os_fstat :: "u32 \<Rightarrow> 'a \<Rightarrow> int option \<times> 'a"
  os_gettimeofday :: "'a \<Rightarrow> (u32 \<times> u64) option \<times> 'a"
  os_time :: "'a \<Rightarrow> i32 \<times> 'a"
  os_getchar :: "'a \<Rightarrow> i32 \<times> 'a"
  os_errno :: "'a \<Rightarrow> i32"

definition on_os :: "('a \<Rightarrow> 'r \<times> 'a) \<Rightarrow> ('r, 'a) drv" where
  "on_os f s = (case f (adapter s) of (r, a) \<Rightarrow> (Ret r, s\<lparr>adapter := a\<rparr>))"

lemma on_os_run [run_simps]: "f (adapter s) = (r, a) \<Longrightarrow> on_os f s = (Ret r, s\<lparr>adapter := a\<rparr>)"
  by (simp add: on_os_def)

section \<open>The calls\<close>

text \<open>
  A text of the target: \<open>len + 1\<close> bytes are read and the last one is made zero. Nothing is
  returned when there is no memory or the adapter reports an error.
\<close>

definition read_text_of :: "'a adiv5 \<Rightarrow> 'a host_os \<Rightarrow> u32 \<Rightarrow> u32 \<Rightarrow> (u8 list option, 'a) drv" where
  "read_text_of A os addr len s =
     (if \<not> os_malloc os (len + 1) (adapter s) then (Ret None, s)
      else bindM (mem_read_checked A addr (len + 1)) (\<lambda>(_, bs).
           bindM (cortexm_check_error A) (\<lambda>e.
             if e then retM None
             else if unat len < length bs then retM (Some (c_string (bs[unat len := 0])))
             else stopM Crash)) s)"

definition TARGET_O_RDONLY :: u32 where "TARGET_O_RDONLY = 0"
definition TARGET_O_TRUNC :: u32 where "TARGET_O_TRUNC = 0x400"

definition sys_open :: "'a adiv5 \<Rightarrow> 'a host_os \<Rightarrow> u32 list \<Rightarrow> (i32, 'a) drv" where
  "sys_open A os params =
     (let fnam = params ! 0; len = params ! 2 in
      if fnam = 0 \<or> len = 0 then retM (-1)
      else if length (os_modes os) \<le> unat (drop_bit 1 (params ! 1)) then stopM Crash
      else let pflag = os_modes os ! unat (drop_bit 1 (params ! 1)) in
        bindM (mem_read_checked A fnam 4) (\<lambda>(_, filename).
          if c_string filename = str '':tt''
          then retM ((if pflag = TARGET_O_RDONLY then 0 else if pflag AND TARGET_O_TRUNC \<noteq> 0 then 1 else 2) + 1)
          else bindM (read_text_of A os fnam len) (\<lambda>t.
               case t of
                 None \<Rightarrow> retM (-1)
               | Some name \<Rightarrow>
                   bindM (on_os (os_open os name pflag 0x1A4)) (\<lambda>fd. retM (if fd \<noteq> -1 then fd + 1 else fd)))))"

definition sys_close :: "'a host_os \<Rightarrow> u32 list \<Rightarrow> (i32, 'a) drv" where
  "sys_close os params = on_os (os_close os (params ! 0 - 1))"

text \<open>The result of \<open>read\<close> goes into a \<open>ssize_t\<close>, which \<^verbatim>\<open>target.h\<close> makes unsigned.\<close>

definition sys_read :: "'a adiv5 \<Rightarrow> 'a host_os \<Rightarrow> u32 list \<Rightarrow> (i32, 'a) drv" where
  "sys_read A os params s =
     (let buf = params ! 1; len = params ! 2 in
      if buf = 0 then (Ret (-1), s)
      else if len = 0 then (Ret 0, s)
      else if \<not> os_malloc os len (adapter s) then (Ret (-1), s)
      else bindM (on_os (\<lambda>a. case os_read os (params ! 0 - 1) len a of (r, bs, a) \<Rightarrow> ((r, bs), a))) (\<lambda>(rc, bs).
           thenM (mem_write_checked A buf (take (unat len) bs))
             (bindM (cortexm_check_error A) (\<lambda>e. retM (if e then -1 else len - rc)))) s)"

definition sys_write :: "'a adiv5 \<Rightarrow> 'a host_os \<Rightarrow> u32 list \<Rightarrow> (i32, 'a) drv" where
  "sys_write A os params s =
     (let buf = params ! 1; len = params ! 2 in
      if buf = 0 then (Ret (-1), s)
      else if len = 0 then (Ret 0, s)
      else if \<not> os_malloc os len (adapter s) then (Ret (-1), s)
      else bindM (mem_read_checked A buf len) (\<lambda>(_, bs).
           bindM (cortexm_check_error A) (\<lambda>e.
             if e then retM (-1)
             else bindM (on_os (os_write os (params ! 0 - 1) bs)) (\<lambda>r.
                  retM (if 0 \<le> sint r then len - r else r)))) s)"

definition sys_writec :: "'a adiv5 \<Rightarrow> 'a host_os \<Rightarrow> u32 \<Rightarrow> (i32, 'a) drv" where
  "sys_writec A os ch_taddr =
     (if ch_taddr = 0 then retM (-1)
      else bindM (read8 A ch_taddr) (\<lambda>ch.
           bindM (cortexm_check_error A) (\<lambda>e.
             if e then retM (-1) else thenM (on_os (\<lambda>a. ((), os_stderr os ch a))) (retM 0))))"

fun write0_loop :: "'a adiv5 \<Rightarrow> 'a host_os \<Rightarrow> nat \<Rightarrow> u32 \<Rightarrow> (unit, 'a) drv" where
  "write0_loop A os fuel s =
     bindM (read8 A s) (\<lambda>ch.
       if ch = 0 then retM ()
       else bindM (cortexm_check_error A) (\<lambda>e.
            if e then retM ()
            else thenM (on_os (\<lambda>a. ((), os_stderr os ch a)))
                   (case fuel of 0 \<Rightarrow> stopM Spinning | Suc fuel \<Rightarrow> write0_loop A os fuel (s + 1))))"

definition sys_write0 :: "'a adiv5 \<Rightarrow> 'a host_os \<Rightarrow> u32 \<Rightarrow> (i32, 'a) drv" where
  "sys_write0 A os s = (if s = 0 then retM (-1) else thenM (write0_loop A os (patience A) s) (retM 0))"

definition sys_isatty :: "'a host_os \<Rightarrow> u32 list \<Rightarrow> (i32, 'a) drv" where
  "sys_isatty os params = on_os (os_isatty os (params ! 0 - 1))"

definition sys_seek :: "'a host_os \<Rightarrow> u32 list \<Rightarrow> (i32, 'a) drv" where
  "sys_seek os params =
     bindM (on_os (os_lseek os (params ! 0 - 1) (params ! 1))) (\<lambda>p. retM (if p = params ! 1 then 0 else -1))"

definition sys_rename :: "'a adiv5 \<Rightarrow> 'a host_os \<Rightarrow> u32 list \<Rightarrow> (i32, 'a) drv" where
  "sys_rename A os params =
     (if params ! 0 = 0 \<or> params ! 1 = 0 \<or> params ! 2 = 0 \<or> params ! 3 = 0 then retM (-1)
      else bindM (read_text_of A os (params ! 0) (params ! 1)) (\<lambda>t1.
           case t1 of
             None \<Rightarrow> retM (-1)
           | Some fnam1 \<Rightarrow>
               bindM (read_text_of A os (params ! 2) (params ! 3)) (\<lambda>t2.
                 case t2 of None \<Rightarrow> retM (-1) | Some fnam2 \<Rightarrow> on_os (os_rename os fnam1 fnam2))))"

definition sys_text_call ::
    "'a adiv5 \<Rightarrow> 'a host_os \<Rightarrow> (u8 list \<Rightarrow> 'a \<Rightarrow> i32 \<times> 'a) \<Rightarrow> u32 list \<Rightarrow> (i32, 'a) drv" where
  "sys_text_call A os f params =
     (if params ! 0 = 0 \<or> params ! 1 = 0 then retM (-1)
      else bindM (read_text_of A os (params ! 0) (params ! 1)) (\<lambda>t.
           case t of None \<Rightarrow> retM (-1) | Some x \<Rightarrow> on_os (f x)))"

definition sys_remove :: "'a adiv5 \<Rightarrow> 'a host_os \<Rightarrow> u32 list \<Rightarrow> (i32, 'a) drv" where
  "sys_remove A os = sys_text_call A os (os_remove os)"

definition sys_system :: "'a adiv5 \<Rightarrow> 'a host_os \<Rightarrow> u32 list \<Rightarrow> (i32, 'a) drv" where
  "sys_system A os = sys_text_call A os (os_system os)"

definition sys_flen :: "'a host_os \<Rightarrow> u32 list \<Rightarrow> (i32, 'a) drv" where
  "sys_flen os params =
     bindM (on_os (os_fstat os (params ! 0 - 1))) (\<lambda>r.
       case r of
         None \<Rightarrow> retM (-1)
       | Some st_size \<Rightarrow> retM (if st_size > 0x7FFFFFFF then -1 else word_of_int st_size))"

text \<open>Hundredths of seconds since the first call, in 31 bits.\<close>

definition csec_since :: "u32 \<Rightarrow> u32 \<Rightarrow> u64 \<Rightarrow> u32" where
  "csec_since t0 sec usec = ucast ((ucast (sec - t0) * 1000000 + usec) div 10000) AND 0x7FFFFFFF"

definition sys_clock :: "'a host_os \<Rightarrow> (i32, 'a) drv" where
  "sys_clock os =
     bindM (on_os (os_gettimeofday os)) (\<lambda>tv.
       case tv of
         None \<Rightarrow> retM (-1)
       | Some (sec, usec) \<Rightarrow>
           thenM (modM (time0_sec_update (\<lambda>t0. if t0 > sec then sec else t0)))
             (bindM (getM time0_sec) (\<lambda>t0. retM (csec_since t0 sec usec))))"

definition sys_exit :: "'a adiv5 \<Rightarrow> u8 list \<Rightarrow> (i32, 'a) drv" where
  "sys_exit A text = thenM (printM text) (thenM (cortexm_halt_resume A True) (retM 0))"

definition sys_get_cmdline :: "'a adiv5 \<Rightarrow> u32 \<Rightarrow> u32 list \<Rightarrow> (i32, 'a) drv" where
  "sys_get_cmdline A r1 params s =
     (let n = of_nat (length (cm_cmdline s)) + 1 in
      if n > params ! 1 then (Ret (-1), s)
      else bindM (mem_write_checked A (params ! 0) (cm_cmdline s @ [0])) (\<lambda>e.
             if e then retM (-1)
             else bindM (mem_write_checked A r1 (le32 (params ! 0) @ le32 n)) (\<lambda>e. retM (if e then -1 else 0))) s)"

definition target_errnos :: "u32 list" where
  "target_errnos = [1, 2, 4, 5, 9, 13, 14, 16, 17, 19, 20, 21, 22, 23, 24, 27, 28, 29, 30, 88, 91, 9999]"

definition sys_iserror :: "u32 list \<Rightarrow> (i32, 'a) drv" where
  "sys_iserror params = retM (of_bool (params ! 0 \<in> set target_errnos))"

definition sys_heapinfo :: "'a adiv5 \<Rightarrow> u32 \<Rightarrow> (i32, 'a) drv" where
  "sys_heapinfo A r1 s = thenM (mem_write_checked A r1 (concat (map le32 (cm_heapinfo s)))) (retM 0) s"

definition tmpnam_text :: "u32 \<Rightarrow> u8 list" where
  "tmpnam_text target_id =
     str ''temp'' @ [0x41 + ucast (drop_bit 4 target_id AND 0xF), 0x41 + ucast (target_id AND 0xF)] @ str ''.tmp''"

definition sys_tmpnam :: "'a adiv5 \<Rightarrow> u32 list \<Rightarrow> (i32, 'a) drv" where
  "sys_tmpnam A params =
     (let buf = params ! 0; target_id = params ! 1; buf_size = params ! 2; fnam = tmpnam_text target_id in
      if buf = 0 \<or> sint buf_size \<le> 0 \<or> sint target_id < 0 \<or> sint target_id > 255
         \<or> of_nat (length fnam) + 1 > buf_size
      then retM (-1)
      else bindM (mem_write_checked A buf (fnam @ [0])) (\<lambda>e. retM (if e then -1 else 0)))"

section \<open>A request\<close>

definition sys_call :: "'a adiv5 \<Rightarrow> 'a host_os \<Rightarrow> u32 list \<Rightarrow> u32 list \<Rightarrow> (i32, 'a) drv" where
  "sys_call A os arm_regs params =
     (let n = arm_regs ! 0; r1 = arm_regs ! 1 in
      if n = 0x01 then sys_open A os params
      else if n = 0x02 then sys_close os params
      else if n = 0x06 then sys_read A os params
      else if n = 0x05 then sys_write A os params
      else if n = 0x03 then sys_writec A os r1
      else if n = 0x04 then sys_write0 A os r1
      else if n = 0x09 then sys_isatty os params
      else if n = 0x0A then sys_seek os params
      else if n = 0x0F then sys_rename A os params
      else if n = 0x0E then sys_remove A os params
      else if n = 0x12 then sys_system A os params
      else if n = 0x0C then sys_flen os params
      else if n = 0x10 then sys_clock os
      else if n = 0x11 then on_os (os_time os)
      else if n = 0x07 then on_os (os_getchar os)
      else if n = 0x13 then on_os (\<lambda>a. (os_errno os a, a))
      else if n = 0x18 then sys_exit A (str ''_exit(0x'' @ fmt_x (params ! 0) @ str '')'' @ [10])
      else if n = 0x20 then sys_exit A (str ''_exit(0x'' @ fmt_x (params ! 1) @ fmt_08x (params ! 0) @ str '')'' @ [10])
      else if n = 0x15 then sys_get_cmdline A r1 params
      else if n = 0x08 then sys_iserror params
      else if n = 0x16 then sys_heapinfo A r1
      else if n = 0x0D then sys_tmpnam A params
      else if n = 0x30 \<or> n = 0x31 then retM (-1)
      else retM 0)"

definition words4 :: "u8 list \<Rightarrow> u32 list" where
  "words4 bs = map (\<lambda>i. rd32 (drop (4 * i) bs)) [0..<4]"

definition cortexm_hostio_request :: "'a adiv5 \<Rightarrow> 'a host_os \<Rightarrow> (bool, 'a) drv" where
  "cortexm_hostio_request A os s =
     (if \<not> cm_tc s then (Stop Crash, s)
      else thenM (modM (interrupted_update (\<lambda>_. False)))
             (bindM (cortexm_regs_read A) (\<lambda>arm_regs.
              bindM (mem_read_checked A (arm_regs ! 1) 16) (\<lambda>(_, bs).
              bindM (sys_call A os arm_regs (words4 bs)) (\<lambda>r.
              thenM (cortexm_regs_write A (arm_regs[0 := r])) (getM interrupted))))) s)"

section \<open>Polling\<close>

text \<open>\<open>target_list_free\<close>: the target is gone.\<close>

definition target_lost :: "'a adiv5 \<Rightarrow> (unit, 'a) drv" where
  "target_lost A = modM (\<lambda>s. s\<lparr>live := False, adapter := adiv5_ap_unref A (adapter s)\<rparr>)"

text \<open>The reason, and what was stored through the pointer \<open>watch\<close> when it is not null.\<close>

definition halted_why :: "'a adiv5 \<Rightarrow> bool \<Rightarrow> u32 \<Rightarrow> (halt_reason \<times> u32 option, 'a) drv" where
  "halted_why A watch dfsr =
     (if dfsr AND DFSR_DWTTRAP \<noteq> 0
      then if watch then bindM (cortexm_check_watch A) (\<lambda>w. retM (HALT_WATCHPOINT, Some w))
           else retM (HALT_WATCHPOINT, None)
      else if dfsr AND DFSR_BKPT \<noteq> 0 then retM (HALT_BREAKPOINT, None)
      else if dfsr AND DFSR_HALTED \<noteq> 0
      then bindM (getM stepping) (\<lambda>b. retM (if b then HALT_STEPPING else HALT_REQUEST, None))
      else retM (HALT_BREAKPOINT, None))"

definition semihosted :: "'a adiv5 \<Rightarrow> 'a host_os \<Rightarrow> (halt_reason \<times> u32 option, 'a) drv" where
  "semihosted A os =
     bindM (cortexm_hostio_request A os) (\<lambda>b.
       if b then retM (HALT_REQUEST, None)
       else thenM (bindM (getM stepping) (cortexm_halt_resume A)) (retM (HALT_RUNNING, None)))"

definition halted_poll :: "'a adiv5 \<Rightarrow> 'a host_os \<Rightarrow> bool \<Rightarrow> (halt_reason \<times> u32 option, 'a) drv" where
  "halted_poll A os watch =
     bindM (read32 A CORTEXM_DFSR) (\<lambda>dfsr.
     thenM (write32 A CORTEXM_DFSR dfsr)
       (bindM (if dfsr AND DFSR_VCATCH \<noteq> 0 then cortexm_fault_unwind A else retM False) (\<lambda>fault.
          if fault then retM (HALT_FAULT, None)
          else thenM (modM (on_bkpt_update (\<lambda>_. dfsr AND DFSR_BKPT \<noteq> 0)))
                 (if dfsr AND DFSR_BKPT \<noteq> 0
                  then bindM (cortexm_pc_read A) (\<lambda>pc.
                       bindM (read16 A pc) (\<lambda>bkpt_instr.
                         if bkpt_instr = 0xBEAB then semihosted A os else halted_why A watch dfsr))
                  else halted_why A watch dfsr))))"

text \<open>The first read is in a \<open>TRY_CATCH\<close> for all exceptions; without a result the core counts as running.\<close>

definition cortexm_halt_poll :: "'a adiv5 \<Rightarrow> 'a host_os \<Rightarrow> bool \<Rightarrow> (halt_reason \<times> u32 option, 'a) drv" where
  "cortexm_halt_poll A os watch s =
     (case read32 A CORTEXM_DHCSR s of
        (Stop e, s) \<Rightarrow> (Stop e, s)
      | (Raise ty, s) \<Rightarrow>
          if EXCEPTION_ALL AND ty = 0 then (Raise ty, s)
          else if ty = EXCEPTION_ERROR then thenM (target_lost A) (retM (HALT_ERROR, None)) s
          else (Ret (HALT_RUNNING, None), s)
      | (Ret dhcsr, s) \<Rightarrow>
          if dhcsr AND DHCSR_S_HALT = 0 then (Ret (HALT_RUNNING, None), s) else halted_poll A os watch s)"

section \<open>Running a program on the target\<close>

fun stub_wait :: "'a adiv5 \<Rightarrow> 'a host_os \<Rightarrow> nat \<Rightarrow> (halt_reason, 'a) drv" where
  "stub_wait A os fuel =
     bindM (cortexm_halt_poll A os False) (\<lambda>(reason, _).
       if reason = HALT_RUNNING
       then case fuel of 0 \<Rightarrow> stopM Spinning | Suc fuel \<Rightarrow> stub_wait A os fuel
       else retM reason)"

definition stub_regs :: "nat \<Rightarrow> u32 \<Rightarrow> u32 \<Rightarrow> u32 \<Rightarrow> u32 \<Rightarrow> u32 \<Rightarrow> u32 list" where
  "stub_regs n loadaddr r0 r1 r2 r3 =
     (replicate n 0)[0 := r0, 1 := r1, 2 := r2, 3 := r3, 15 := loadaddr, 16 := 0x1000000, 19 := 0]"

definition cortexm_run_stub ::
    "'a adiv5 \<Rightarrow> 'a host_os \<Rightarrow> u32 \<Rightarrow> u32 \<Rightarrow> u32 \<Rightarrow> u32 \<Rightarrow> u32 \<Rightarrow> (i32, 'a) drv" where
  "cortexm_run_stub A os loadaddr r0 r1 r2 r3 s =
     (let n = unat (cm_regs_size s) div 4 in
      if n < 20 then (Stop Crash, s)
      else thenM (cortexm_regs_write A (stub_regs n loadaddr r0 r1 r2 r3))
             (bindM (cortexm_check_error A) (\<lambda>e.
                if e then retM (-1)
                else thenM (cortexm_halt_resume A False)
                       (bindM (stub_wait A os (patience A)) (\<lambda>reason.
                          if reason = HALT_ERROR then raiseM EXCEPTION_ERROR
                          else if reason \<noteq> HALT_BREAKPOINT then retM (-2)
                          else bindM (cortexm_pc_read A) (\<lambda>pc.
                               bindM (read16 A pc) (\<lambda>bkpt_instr.
                                 retM (if drop_bit 8 bkpt_instr \<noteq> 0xBE then -2 else ucast (bkpt_instr AND 0xFF)))))))) s)"

section \<open>Finding the core\<close>

text \<open>
  The drivers of the chips, tried one after the other; their code is not in the repository (the
  file \<^verbatim>\<open>stm32f1.c\<close> here is another driver), so they are an argument.
\<close>

datatype chip =
  Kinetis | STM32F1 | GD32F1 | STM32F4 | STM32H7 | STM32L0 | STM32L4 | NRF51 | SAM4L | SAMD | SAMX5X | EFM32 | MSP432
| LPC11XX | LPC15XX | LPC17XX | LPC43XX | LPC546XX | SAM3X | LMI | KE04

definition cortexm_driver_str :: "u8 list" where "cortexm_driver_str = str ''ARM Cortex-M''"

text \<open>A target that \<open>target_new\<close> has just made: the memory is zero.\<close>

definition new_cortexm :: "u32 \<Rightarrow> 'a \<Rightarrow> 'a cortexm" where
  "new_cortexm t0 a =
     \<lparr>stepping = False, on_bkpt = False, hw_watchpoint = replicate CORTEXM_MAX_WATCHPOINTS False,
      flash_patch_revision = 0, hw_watchpoint_max = 0, hw_breakpoint = replicate CORTEXM_MAX_BREAKPOINTS False,
      hw_breakpoint_max = 0, demcr = 0, has_cache = False, dcache_minline = 0, target_options = 0,
      cm_regs_size = 0, cm_tdesc = [], cm_core = [], cm_driver = [], cm_cpuid = 0, cm_designer = 0, cm_idcode = 0,
      cm_commands = [], cm_ram = [], cm_cmdline = [], cm_heapinfo = [0, 0, 0, 0], cm_tc = False,
      interrupted = False, console = [], time0_sec = t0, live = True, adapter = a\<rparr>"

definition core_name :: "u32 \<Rightarrow> u8 list option" where
  "core_name partno =
     (if partno = 0xd210 then Some (str ''M33'') else if partno = 0xd200 then Some (str ''M23'')
      else if partno = 0xc230 then Some (str ''M3'') else if partno = 0xc240 then Some (str ''M4'')
      else if partno = 0xc270 then Some (str ''M7'') else if partno = 0xc600 then Some (str ''M0+'')
      else if partno = 0xc200 then Some (str ''M0'') else None)"

definition identify_core :: "'a adiv5 \<Rightarrow> (unit, 'a) drv" where
  "identify_core A =
     bindM (read32 A CORTEXM_CPUID) (\<lambda>cpuid.
       modM (\<lambda>s. (case core_name (cpuid AND 0xfff0) of
                    None \<Rightarrow> s\<lparr>cm_cpuid := cpuid\<rparr>
                  | Some c \<Rightarrow> s\<lparr>cm_cpuid := cpuid, cm_core := c\<rparr>)))"

text \<open>The floating point unit is there when access to it can be enabled.\<close>

definition probe_fpu :: "'a adiv5 \<Rightarrow> (unit, 'a) drv" where
  "probe_fpu A =
     bindM (read32 A CORTEXM_CPACR) (\<lambda>cpacr.
     thenM (write32 A CORTEXM_CPACR (cpacr OR 0x00F00000))
       (bindM (read32 A CORTEXM_CPACR) (\<lambda>v.
          if v = cpacr OR 0x00F00000
          then modM (\<lambda>s. s\<lparr>target_options := target_options s OR TOPT_FLAVOUR_V7MF,
                           cm_regs_size := cm_regs_size s + of_nat (4 * length regnum_cortex_mf),
                           cm_tdesc := tdesc_cortex_mf\<rparr>)
          else retM ())))"

definition probe_cache :: "'a adiv5 \<Rightarrow> (unit, 'a) drv" where
  "probe_cache A =
     bindM (read32 A CORTEXM_CTR) (\<lambda>ctr.
       if drop_bit 29 ctr = 4
       then modM (\<lambda>s. s\<lparr>has_cache := True, dcache_minline := push_bit (unat (ctr AND 0xf)) 4\<rparr>)
       else thenM (cortexm_check_error A) (retM ()))"

fun probe_chips :: "'a adiv5 \<Rightarrow> (chip \<Rightarrow> (bool, 'a) drv) \<Rightarrow> chip list \<Rightarrow> (bool, 'a) drv" where
  "probe_chips A P [] = retM False"
| "probe_chips A P (c # cs) =
     bindM (P c) (\<lambda>found.
       if found then thenM (cortexm_halt_resume A False) (retM True)
       else thenM (cortexm_check_error A) (probe_chips A P cs))"

text \<open>What is tried for a designer, and the name of a part without a driver.\<close>

definition chips_of :: "designer \<Rightarrow> u16 \<Rightarrow> chip list" where
  "chips_of d partno =
     (case d of
        Freescale \<Rightarrow> [Kinetis]
      | CS \<Rightarrow> [STM32F1]
      | GigaDevice \<Rightarrow> [GD32F1]
      | STM \<Rightarrow> [STM32F1, STM32F4, STM32H7, STM32L0, STM32L4]
      | Cypress \<Rightarrow> []
      | Infineon \<Rightarrow> []
      | Nordic \<Rightarrow> [NRF51]
      | Atmel \<Rightarrow> [SAM4L, SAMD, SAMX5X]
      | Energy_Micro \<Rightarrow> [EFM32]
      | Texas \<Rightarrow> [MSP432]
      | Specular \<Rightarrow> [LPC11XX]
      | _ \<Rightarrow> (if partno = 0x4c3 then [STM32F1, LPC15XX]
              else if partno = 0x471 then [LPC11XX, LPC43XX]
              else if partno = 0x4c4 then [LPC546XX, LPC43XX, Kinetis]
              else if partno = 0x4cb then [GD32F1] else [])
             @ [SAM3X, LMI, KE04, LPC17XX])"

definition no_flash_name :: "designer \<Rightarrow> u16 \<Rightarrow> u8 list option" where
  "no_flash_name d partno =
     (if d = Freescale \<and> partno = 0x88c then Some (str ''MIMXRT10xx(no flash)'')
      else if d = STM \<and> partno = 0x472 then Some (str ''STM32L552(no flash)'') else None)"

definition cortexm_probe ::
    "'a adiv5 \<Rightarrow> (chip \<Rightarrow> (bool, 'a) drv) \<Rightarrow> bool \<Rightarrow> bool \<Rightarrow> (bool, 'a) drv" where
  "cortexm_probe A P target_ok calloc_ok s =
     (if \<not> target_ok then (Ret False, s)
      else let s = (new_cortexm (time0_sec s) (adiv5_ap_ref A (adapter s)))
                     \<lparr>cm_designer := ap_designer_code A, cm_idcode := ap_partno A\<rparr>
      in if \<not> calloc_ok then (Ret False, s)
      else thenM (modM (cm_driver_update (\<lambda>_. cortexm_driver_str)))
             (thenM (identify_core A)
               (thenM (modM (\<lambda>s. s\<lparr>cm_tdesc := tdesc_cortex_m,
                                   cm_regs_size := of_nat (4 * length regnum_cortex_m),
                                   cm_commands := cm_commands s @ [str ''vector_catch'']\<rparr>))
                 (thenM (probe_fpu A)
                   (thenM (modM (demcr_update (\<lambda>_. DEMCR_TRCENA OR DEMCR_VC_HARDERR OR DEMCR_VC_CORERESET)))
                     (thenM (probe_cache A)
                       (bindM (probe_chips A P (chips_of (ap_designer A) (ap_partno A))) (\<lambda>found.
                          if found then retM True
                          else thenM (case no_flash_name (ap_designer A) (ap_partno A) of
                                        None \<Rightarrow> retM ()
                                      | Some name \<Rightarrow>
                                          thenM (modM (cm_driver_update (\<lambda>_. name))) (cortexm_halt_resume A False))
                                 (thenM (cortexm_halt_resume A False) (retM True))))))))) s)"

end
