(* ===== verification/Cortexm_Hw.thy ===== *)
theory Cortexm_Hw
  imports Cortexm_Host
begin

text \<open>
  A halted Cortex-M core behind an adapter that works, as the architecture manual describes it:
  the registers of the core through the selector \<open>DCRSR\<close> and the data register \<open>DCRDR\<close>, the
  fault status registers that are cleared by writing ones, the vector clear bit of \<open>AIRCR\<close>, the key
  of the breakpoint unit, and memory. It is the parameter of the driver that its theorems are proved
  with. The second part runs the memory accesses of the driver on it.
\<close>

section \<open>The core\<close>

text \<open>
  \<open>cr\<close> holds the registers by their number in the selector, except 13, which stands for one of
  the two stack pointers; \<open>sys\<close> the other words from \<open>0xE0000000\<close> on. \<open>tar\<close> is the address register
  of the access port, \<open>sticky\<close> its error flag; memory where \<open>present\<close> fails gives a bus error.
\<close>

record core =
  cr :: "u32 \<Rightarrow> u32"
  dcrdr :: u32
  sys :: "u32 \<Rightarrow> u32"
  sram :: memory
  present :: "u32 \<Rightarrow> bool"
  tar :: u32
  sticky :: bool

definition R_XPSR :: u32 where "R_XPSR = 0x10"
definition R_MSP :: u32 where "R_MSP = 0x11"
definition R_PSP :: u32 where "R_PSP = 0x12"
definition R_SPECIAL :: u32 where "R_SPECIAL = 0x14"

text \<open>
  \<open>CONTROL\<close> is the top byte of the special registers; its bit 1 selects the process stack in
  thread mode, its bit 2 says that the floating point context is active.
\<close>

definition thread_mode :: "core \<Rightarrow> bool" where
  "thread_mode c \<longleftrightarrow> cr c R_XPSR AND 0x1FF = 0"

definition control_spsel :: "core \<Rightarrow> bool" where
  "control_spsel c \<longleftrightarrow> bit (cr c R_SPECIAL) 25"

definition control_fpca :: "core \<Rightarrow> bool" where
  "control_fpca c \<longleftrightarrow> bit (cr c R_SPECIAL) 26"

definition sp_number :: "core \<Rightarrow> u32" where
  "sp_number c = (if thread_mode c \<and> control_spsel c then R_PSP else R_MSP)"

definition reg_number :: "core \<Rightarrow> u32 \<Rightarrow> u32" where
  "reg_number c n = (if n = 13 then sp_number c else n)"

definition get_reg :: "core \<Rightarrow> u32 \<Rightarrow> u32" where
  "get_reg c n = cr c (reg_number c n)"

definition set_reg :: "u32 \<Rightarrow> u32 \<Rightarrow> core \<Rightarrow> core" where
  "set_reg n v c = c\<lparr>cr := (cr c)(reg_number c n := v)\<rparr>"

definition system_space :: "u32 \<Rightarrow> bool" where
  "system_space a \<longleftrightarrow> 0xE0000000 \<le> a"

definition write_word :: "u32 \<Rightarrow> u32 \<Rightarrow> core \<Rightarrow> core" where
  "write_word a v c =
     (if a = CORTEXM_DCRDR then c\<lparr>dcrdr := v\<rparr>
      else if a = CORTEXM_DCRSR
      then (if bit v 16 then set_reg (v AND 0x7F) (dcrdr c) c else c\<lparr>dcrdr := get_reg c (v AND 0x7F)\<rparr>)
      else if a = CORTEXM_AIRCR
      then (if v AND 0xFFFF0000 = AIRCR_VECTKEY \<and> v AND AIRCR_VECTCLRACTIVE \<noteq> 0
            then c\<lparr>cr := (cr c)(R_XPSR := cr c R_XPSR AND NOT 0x1FF)\<rparr> else c)
      else if a = CORTEXM_FPB_CTRL
      then (if v AND FPB_CTRL_KEY \<noteq> 0 then c\<lparr>sys := (sys c)(a := (sys c a AND NOT 1) OR (v AND FPB_CTRL_ENABLE))\<rparr> else c)
      else if a \<in> {CORTEXM_DFSR, CORTEXM_HFSR, CORTEXM_CFSR} then c\<lparr>sys := (sys c)(a := sys c a AND NOT v)\<rparr>
      else c\<lparr>sys := (sys c)(a := v)\<rparr>)"

definition core_read :: "u32 \<Rightarrow> nat \<Rightarrow> core \<Rightarrow> u8 list outcome \<times> core" where
  "core_read a n c =
     (if system_space a \<and> n = 4 then (Ret (le32 (if a = CORTEXM_DCRDR then dcrdr c else sys c a)), c)
      else (Ret (mem_load (sram c) a n), c\<lparr>sticky := sticky c \<or> \<not> (\<forall>i < n. present c (a + of_nat i))\<rparr>))"

definition core_write :: "u32 \<Rightarrow> u8 list \<Rightarrow> core \<Rightarrow> unit outcome \<times> core" where
  "core_write a bs c =
     (if system_space a \<and> length bs = 4 then (Ret (), write_word a (rd32 bs) c)
      else if \<forall>i < length bs. present c (a + of_nat i) then (Ret (), c\<lparr>sram := overlay a bs (sram c)\<rparr>)
      else (Ret (), c\<lparr>sticky := True\<rparr>))"

text \<open>Reading the error flag clears it.\<close>

definition core_error :: "core \<Rightarrow> u32 outcome \<times> core" where
  "core_error c = (Ret (of_bool (sticky c)), c\<lparr>sticky := False\<rparr>)"

definition ap_access_write :: "ap_register \<Rightarrow> u32 \<Rightarrow> core \<Rightarrow> unit outcome \<times> core" where
  "ap_access_write r v c =
     (case r of
        AP_CSW \<Rightarrow> (Ret (), c)
      | AP_TAR \<Rightarrow> (Ret (), c\<lparr>tar := v\<rparr>)
      | AP_DB k \<Rightarrow> core_write ((tar c AND 0xFFFFFFF0) + 4 * of_nat k) (le32 v) c)"

definition ap_access_read :: "ap_register \<Rightarrow> core \<Rightarrow> u32 outcome \<times> core" where
  "ap_access_read r c =
     (case r of
        AP_CSW \<Rightarrow> (Ret 0, c)
      | AP_TAR \<Rightarrow> (Ret (tar c), c)
      | AP_DB k \<Rightarrow>
          (case core_read ((tar c AND 0xFFFFFFF0) + 4 * of_nat k) 4 c of
             (Ret bs, c) \<Rightarrow> (Ret (rd32 bs), c) | (Raise ty, c) \<Rightarrow> (Raise ty, c) | (Stop e, c) \<Rightarrow> (Stop e, c)))"

text \<open>\<open>fns\<close>: whether the adapter has functions of its own for the registers.\<close>

definition core_ap :: "bool \<Rightarrow> core adiv5" where
  "core_ap fns =
     \<lparr>adiv5_mem_read = core_read, adiv5_mem_write = core_write,
      adiv5_mem_write_sized = (\<lambda>a bs al. core_write a bs), adiv5_dp_error = core_error,
      adiv5_ap_write = ap_access_write, adiv5_dp_low_write = ap_access_write, adiv5_dp_read = ap_access_read,
      ap_reg_read = (if fns then Some (\<lambda>n c. (Ret (get_reg c n), c)) else None),
      ap_regs_read = (if fns then Some (\<lambda>c. (Ret (map (\<lambda>n. get_reg c (of_nat n)) [0..<21]), c)) else None),
      ap_reg_write = (if fns then Some (\<lambda>n v c. (Ret (), set_reg n v c)) else None),
      adiv5_ap_ref = (\<lambda>c. c), adiv5_ap_unref = (\<lambda>c. c),
      ap_csw = 2, ap_designer = CS, ap_designer_code = 0x75F, ap_partno = 0x4c3, ap_cortexm_demcr = 0,
      platform_srst_set_val = (\<lambda>b c. (Ret (), c)), platform_delay = (\<lambda>ms c. (Ret (), c)),
      time_ms = (\<lambda>c. (Ret 0, c)), extended_reset = None, patience = 8\<rparr>"

text \<open>A core with given registers and memory, for examples.\<close>

definition plain_core :: "(u32 \<Rightarrow> u32) \<Rightarrow> (u32 \<Rightarrow> u32) \<Rightarrow> memory \<Rightarrow> core" where
  "plain_core r y m = \<lparr>cr = r, dcrdr = 0, sys = y, sram = m, present = (\<lambda>a. a < 0xE0000000), tar = 0, sticky = False\<rparr>"

section \<open>Running the driver on the core\<close>

lemma no_cache_clean [run_simps]: "\<not> has_cache s \<Longrightarrow> cortexm_cache_clean A a n b s = (Ret (), s)"
  by (simp add: cortexm_cache_clean_def)

lemma core_ap_sel [simp]:
  "adiv5_mem_read (core_ap fns) = core_read" "adiv5_mem_write (core_ap fns) = core_write"
  "adiv5_dp_error (core_ap fns) = core_error" "adiv5_ap_write (core_ap fns) = ap_access_write"
  "adiv5_dp_low_write (core_ap fns) = ap_access_write" "adiv5_dp_read (core_ap fns) = ap_access_read"
  "patience (core_ap fns) = 8"
  "ap_reg_read (core_ap fns) = (if fns then Some (\<lambda>n c. (Ret (get_reg c n), c)) else None)"
  "ap_regs_read (core_ap fns) = (if fns then Some (\<lambda>c. (Ret (map (\<lambda>n. get_reg c (of_nat n)) [0..<21]), c)) else None)"
  "ap_reg_write (core_ap fns) = (if fns then Some (\<lambda>n v c. (Ret (), set_reg n v c)) else None)"
  by (simp_all add: core_ap_def)

lemma rd32_le32_self [simp]: "rd32 (le32 w) = w"
  using rd32_le32 [of w "[]"] by simp

lemma read32_sys [run_simps]:
  assumes "\<not> has_cache s" "system_space a"
  shows "read32 (core_ap fns) a s =
    (Ret (if a = CORTEXM_DCRDR then dcrdr (adapter s) else sys (adapter s) a), s)"
  using assms by (simp add: read32_def cortexm_mem_read_def run_simps core_read_def)

lemma write32_sys [run_simps]:
  assumes "\<not> has_cache s" "system_space a"
  shows "write32 (core_ap fns) a v s = (Ret (), s\<lparr>adapter := write_word a v (adapter s)\<rparr>)"
  using assms by (simp add: write32_def cortexm_mem_write_def run_simps core_write_def)

end
