(* ===== verification/Cortexm_Registers.thy ===== *)
theory Cortexm_Registers
  imports Cortexm_Hw
begin

text \<open>
  Reading and writing all registers of the core: with the functions of the adapter and through
  the banked debug registers alike, the driver reads the registers that are there, and what it
  writes is in them afterwards.
\<close>

section \<open>What does not matter for the registers\<close>

lemma get_reg_plain [simp]:
  "get_reg (c\<lparr>dcrdr := d\<rparr>) n = get_reg c n" "get_reg (c\<lparr>tar := t\<rparr>) n = get_reg c n"
  "get_reg (c\<lparr>sticky := b\<rparr>) n = get_reg c n" "get_reg (c\<lparr>sram := m\<rparr>) n = get_reg c n"
  "get_reg (c\<lparr>sys := y\<rparr>) n = get_reg c n"
  by (simp_all add: get_reg_def reg_number_def sp_number_def thread_mode_def control_spsel_def)

lemma set_reg_plain [simp]:
  "set_reg n v (c\<lparr>dcrdr := d\<rparr>) = (set_reg n v c)\<lparr>dcrdr := d\<rparr>"
  "set_reg n v (c\<lparr>tar := t\<rparr>) = (set_reg n v c)\<lparr>tar := t\<rparr>"
  "dcrdr (set_reg n v c) = dcrdr c" "tar (set_reg n v c) = tar c" "sram (set_reg n v c) = sram c"
  "sys (set_reg n v c) = sys c" "present (set_reg n v c) = present c" "sticky (set_reg n v c) = sticky c"
  by (simp_all add: set_reg_def reg_number_def sp_number_def thread_mode_def control_spsel_def)

text \<open>Registers in the tables have numbers below \<open>0x80\<close>.\<close>

definition selectable :: "u32 \<Rightarrow> bool" where
  "selectable n \<longleftrightarrow> n AND 0x7F = n"

lemma selectable_regs: "list_all selectable (regnum_cortex_m @ regnum_cortex_mf)"
  by (simp add: regnum_cortex_m_def regnum_cortex_mf_def selectable_def)

lemma selectable_written: "n \<in> set (written_registers s) \<Longrightarrow> selectable n"
  using selectable_regs by (auto simp: written_registers_def list_all_iff split: if_splits)

lemma selectable_bit: "selectable n \<Longrightarrow> \<not> bit n 16"
proof
  assume "selectable n" "bit n 16"
  then have "bit (n AND 0x7F) 16" by (simp add: selectable_def)
  then show False by (simp add: bit_and_iff)
qed

lemma selectable_write:
  assumes "selectable n"
  shows "(0x10000 OR n) AND 0x7F = n" "bit (0x10000 OR n) 16"
proof -
  have "(0x10000 OR n) AND 0x7F = (0x10000 AND 0x7F) OR (n AND 0x7F)" by (rule bit.conj_disj_distrib2)
  then show "(0x10000 OR n) AND 0x7F = n" using assms by (simp add: selectable_def)
  show "bit (0x10000 OR n) 16" by (simp add: bit_or_iff)
qed

section \<open>One register\<close>

lemma db_address: "tar c = CORTEXM_DHCSR \<Longrightarrow> (tar c AND 0xFFFFFFF0) + 4 * of_nat k = CORTEXM_DHCSR + 4 * of_nat k"
  by (simp add: CORTEXM_DHCSR_def)

lemma db_write:
  assumes "tar c = CORTEXM_DHCSR"
  shows "ap_access_write (AP_DB DB_DCRSR) v c = (Ret (), write_word CORTEXM_DCRSR v c)"
    "ap_access_write (AP_DB DB_DCRDR) v c = (Ret (), c\<lparr>dcrdr := v\<rparr>)"
    "ap_access_read (AP_DB DB_DCRDR) c = (Ret (dcrdr c), c)"
  unfolding ap_access_write_def ap_access_read_def ap_register.case db_address [OF assms]
  by (simp_all add: core_write_def core_read_def DB_DCRSR_def DB_DCRDR_def CORTEXM_DHCSR_def CORTEXM_DCRSR_def
      CORTEXM_DCRDR_def system_space_def write_word_def)

lemma map_debug_registers_run:
  "map_debug_registers (core_ap fns) s = (Ret (), s\<lparr>adapter := (adapter s)\<lparr>tar := CORTEXM_DHCSR\<rparr>\<rparr>)"
  by (simp add: map_debug_registers_def thenM_def bindM_def on_ap_def ap_access_write_def)

lemma read_selected_run:
  assumes "tar (adapter s) = CORTEXM_DHCSR" "selectable n"
  shows "read_selected (core_ap fns) n s =
    (Ret (get_reg (adapter s) n), s\<lparr>adapter := (adapter s)\<lparr>dcrdr := get_reg (adapter s) n\<rparr>\<rparr>)"
proof -
  have w: "write_word CORTEXM_DCRSR n (adapter s) = (adapter s)\<lparr>dcrdr := get_reg (adapter s) n\<rparr>"
    using selectable_bit [OF assms(2)] assms(2)
    by (simp add: write_word_def selectable_def CORTEXM_DCRSR_def CORTEXM_DCRDR_def)
  show ?thesis
    by (simp add: read_selected_def thenM_def bindM_def on_ap_def db_write(1) [OF assms(1)] w db_write(3) assms(1))
qed

lemma write_selected_run:
  assumes "tar (adapter s) = CORTEXM_DHCSR" "selectable n"
  shows "write_selected (core_ap fns) (n, v) s = (Ret (), s\<lparr>adapter := (set_reg n v (adapter s))\<lparr>dcrdr := v\<rparr>\<rparr>)"
proof -
  let ?c = "(adapter s)\<lparr>dcrdr := v\<rparr>"
  have "write_word CORTEXM_DCRSR (0x10000 OR n) ?c = (set_reg n v (adapter s))\<lparr>dcrdr := v\<rparr>"
    using selectable_write [OF assms(2)] by (simp add: write_word_def CORTEXM_DCRSR_def CORTEXM_DCRDR_def)
  then show ?thesis
    using db_write(1) [of ?c "0x10000 OR n"] assms(1)
    by (simp add: write_selected_def thenM_def bindM_def on_ap_def db_write(2) [OF assms(1)])
qed

section \<open>All registers\<close>

lemma collect_selected:
  assumes "tar (adapter s) = CORTEXM_DHCSR" "list_all selectable ns"
  shows "\<exists>d. collectM (read_selected (core_ap fns)) ns s =
    (Ret (map (get_reg (adapter s)) ns), s\<lparr>adapter := (adapter s)\<lparr>dcrdr := d\<rparr>\<rparr>)"
  using assms
proof (induction ns arbitrary: s)
  case Nil
  show ?case by (rule exI [of _ "dcrdr (adapter s)"]) (simp add: retM_def)
next
  case (Cons n ns)
  let ?s = "s\<lparr>adapter := (adapter s)\<lparr>dcrdr := get_reg (adapter s) n\<rparr>\<rparr>"
  obtain d where "collectM (read_selected (core_ap fns)) ns ?s =
      (Ret (map (get_reg (adapter ?s)) ns), ?s\<lparr>adapter := (adapter ?s)\<lparr>dcrdr := d\<rparr>\<rparr>)"
    using Cons.IH [of ?s] Cons.prems by auto
  then show ?case
    using read_selected_run [OF Cons.prems(1), of n] Cons.prems(2)
    by (auto simp: bindM_def retM_def intro!: exI [of _ d])
qed

lemma collect_fns:
  "collectM (\<lambda>n. on_ap (\<lambda>c. (Ret (get_reg c n), c))) ns s = (Ret (map (get_reg (adapter s)) ns), s)"
  by (induction ns) (simp_all add: retM_def bindM_def on_ap_def)

lemma base_regs:
  "map (\<lambda>n. map (\<lambda>k. get_reg c (of_nat k)) [0..<21] ! unat n) regnum_cortex_m = map (get_reg c) regnum_cortex_m"
  by (simp add: regnum_cortex_m_def nth_append del: upt_Suc)

lemma regs_read_run:
  "\<exists>d t. cortexm_regs_read (core_ap fns) s =
    (Ret (map (get_reg (adapter s)) (written_registers s)), s\<lparr>adapter := (adapter s)\<lparr>dcrdr := d, tar := t\<rparr>\<rparr>)"
proof (cases fns)
  case True
  then have "cortexm_regs_read (core_ap fns) s =
      regs_read_adapter (\<lambda>n c. (Ret (get_reg c n), c)) (\<lambda>c. (Ret (map (\<lambda>n. get_reg c (of_nat n)) [0..<21]), c)) s"
    by (simp add: cortexm_regs_read_def del: upt_Suc)
  also have "\<dots> = (Ret (map (get_reg (adapter s)) (written_registers s)), s)"
    unfolding regs_read_adapter_def
    by (simp add: bindM_def on_ap_def collect_fns retM_def base_regs written_registers_def del: upt_Suc)
  finally show ?thesis by (intro exI [of _ "dcrdr (adapter s)"] exI [of _ "tar (adapter s)"]) simp
next
  case False
  let ?A = "core_ap fns" and ?c = "adapter s"
  let ?s0 = "s\<lparr>adapter := ?c\<lparr>tar := CORTEXM_DHCSR\<rparr>\<rparr>"
  let ?s1 = "s\<lparr>adapter := ?c\<lparr>tar := CORTEXM_DHCSR, dcrdr := get_reg ?c 0\<rparr>\<rparr>"
  have r: "cortexm_regs_read ?A s = regs_read_banked ?A s"
    using False by (simp add: cortexm_regs_read_def del: upt_Suc)
  have w: "write_word CORTEXM_DCRSR 0 (?c\<lparr>tar := CORTEXM_DHCSR\<rparr>) = ?c\<lparr>tar := CORTEXM_DHCSR, dcrdr := get_reg ?c 0\<rparr>"
    by (simp add: write_word_def CORTEXM_DCRSR_def CORTEXM_DCRDR_def)
  define ns where "ns = (if has_fpu s then regnum_cortex_mf else [])"
  have sel: "list_all selectable (tl regnum_cortex_m)" "list_all selectable ns"
    using selectable_regs by (simp_all add: regnum_cortex_m_def ns_def)
  obtain d1 where c1: "collectM (read_selected ?A) (tl regnum_cortex_m) ?s1 =
      (Ret (map (get_reg ?c) (tl regnum_cortex_m)), s\<lparr>adapter := ?c\<lparr>tar := CORTEXM_DHCSR, dcrdr := d1\<rparr>\<rparr>)"
    using collect_selected [OF _ sel(1), of ?s1 fns] by auto
  let ?s2 = "s\<lparr>adapter := ?c\<lparr>tar := CORTEXM_DHCSR, dcrdr := d1\<rparr>\<rparr>"
  obtain d2 where c2: "collectM (read_selected ?A) ns ?s2 =
      (Ret (map (get_reg ?c) ns), s\<lparr>adapter := ?c\<lparr>tar := CORTEXM_DHCSR, dcrdr := d2\<rparr>\<rparr>)"
    using collect_selected [OF _ sel(2), of ?s2 fns] by auto
  have first: "regnum_cortex_m ! 0 = 0" "written_registers s = 0 # tl regnum_cortex_m @ ns"
    by (simp_all add: regnum_cortex_m_def written_registers_def ns_def)
  have "regs_read_banked ?A s = (Ret (map (get_reg ?c) (written_registers s)),
      s\<lparr>adapter := ?c\<lparr>tar := CORTEXM_DHCSR, dcrdr := d2\<rparr>\<rparr>)"
    unfolding regs_read_banked_def first ns_def [symmetric]
    by (simp add: thenM_def bindM_def map_debug_registers_run on_ap_def db_write w c1 c2 retM_def)
  then show ?thesis unfolding r
    by (intro exI [of _ d2] exI [of _ CORTEXM_DHCSR]) simp
qed

section \<open>Writing\<close>

abbreviation write_regs :: "(u32 \<times> u32) list \<Rightarrow> core \<Rightarrow> core" where
  "write_regs ps c \<equiv> fold (\<lambda>(n, v). set_reg n v) ps c"

lemma each_selected:
  assumes "tar (adapter s) = CORTEXM_DHCSR" "list_all (\<lambda>nv. selectable (fst nv)) nvs"
  shows "\<exists>d. eachM (write_selected (core_ap fns)) nvs s =
    (Ret (), s\<lparr>adapter := (write_regs nvs (adapter s))\<lparr>dcrdr := d\<rparr>\<rparr>)"
  using assms
proof (induction nvs arbitrary: s)
  case Nil
  show ?case by (rule exI [of _ "dcrdr (adapter s)"]) (simp add: retM_def)
next
  case (Cons nv nvs)
  obtain n v where nv: "nv = (n, v)" by (cases nv)
  let ?s = "s\<lparr>adapter := (set_reg n v (adapter s))\<lparr>dcrdr := v\<rparr>\<rparr>"
  have comm: "write_regs ps (c\<lparr>dcrdr := e\<rparr>) = (write_regs ps c)\<lparr>dcrdr := e\<rparr>" for ps c e
    by (induction ps arbitrary: c) (auto split: prod.splits)
  obtain d where "eachM (write_selected (core_ap fns)) nvs ?s =
      (Ret (), ?s\<lparr>adapter := (write_regs nvs (adapter ?s))\<lparr>dcrdr := d\<rparr>\<rparr>)"
    using Cons.IH [of ?s] Cons.prems by auto
  then have "eachM (write_selected (core_ap fns)) (nv # nvs) s =
      (Ret (), s\<lparr>adapter := (write_regs (nv # nvs) (adapter s))\<lparr>dcrdr := d\<rparr>\<rparr>)"
    using write_selected_run [OF Cons.prems(1), where n = n and v = v] Cons.prems(2)
    by (simp add: nv thenM_def bindM_def comm)
  then show ?case ..
qed

lemma each_fns:
  "eachM (\<lambda>(n, v). on_ap (\<lambda>c. (Ret (), set_reg n v c))) nvs s = (Ret (), s\<lparr>adapter := write_regs nvs (adapter s)\<rparr>)"
  by (induction nvs arbitrary: s) (auto simp: retM_def thenM_def bindM_def on_ap_def)

lemma regs_write_run:
  assumes "length regs \<ge> length (written_registers s)"
  shows "\<exists>d t. cortexm_regs_write (core_ap fns) regs s =
    (Ret (), s\<lparr>adapter := (write_regs (zip (written_registers s) regs) (adapter s))\<lparr>dcrdr := d, tar := t\<rparr>\<rparr>)"
proof (cases fns)
  case True
  then have "cortexm_regs_write (core_ap fns) regs s =
      (Ret (), s\<lparr>adapter := write_regs (zip (written_registers s) regs) (adapter s)\<rparr>)"
    using assms by (simp add: cortexm_regs_write_def each_fns)
  then show ?thesis
    by (intro exI [of _ "dcrdr (write_regs (zip (written_registers s) regs) (adapter s))"]
        exI [of _ "tar (write_regs (zip (written_registers s) regs) (adapter s))"]) simp
next
  case False
  let ?A = "core_ap fns" and ?c = "adapter s"
  define ns where "ns = tl (written_registers s)"
  have first: "regnum_cortex_m ! 0 = 0" "written_registers s = 0 # ns"
    by (simp_all add: regnum_cortex_m_def written_registers_def ns_def)
  obtain r0 rs where regs: "regs = r0 # rs" using assms first(2) by (cases regs) auto
  let ?s1 = "s\<lparr>adapter := (set_reg 0 r0 ?c)\<lparr>tar := CORTEXM_DHCSR, dcrdr := r0\<rparr>\<rparr>"
  have w: "write_word CORTEXM_DCRSR 0x10000 (?c\<lparr>tar := CORTEXM_DHCSR, dcrdr := r0\<rparr>) =
      (set_reg 0 r0 ?c)\<lparr>tar := CORTEXM_DHCSR, dcrdr := r0\<rparr>"
    by (simp add: write_word_def CORTEXM_DCRSR_def CORTEXM_DCRDR_def)
  have "list_all selectable ns"
    using selectable_written [of _ s] first(2) by (auto simp: list_all_iff)
  then have "list_all (\<lambda>nv. selectable (fst nv)) (zip ns rs)"
    by (auto simp: list_all_iff dest: set_zip_leftD)
  then obtain d where e: "eachM (write_selected (core_ap False)) (zip ns rs) ?s1 =
      (Ret (), ?s1\<lparr>adapter := (write_regs (zip ns rs) (adapter ?s1))\<lparr>dcrdr := d\<rparr>\<rparr>)"
    using each_selected [of ?s1 "zip ns rs" False] by auto
  have comm: "write_regs ps (c\<lparr>tar := t, dcrdr := e\<rparr>) = (write_regs ps c)\<lparr>tar := t, dcrdr := e\<rparr>" for ps c t e
    by (induction ps arbitrary: c) auto
  have "cortexm_regs_write ?A regs s =
      (Ret (), s\<lparr>adapter := (write_regs (zip (written_registers s) regs) ?c)\<lparr>tar := CORTEXM_DHCSR, dcrdr := d\<rparr>\<rparr>)"
    using False assms unfolding first(2) regs
    by (simp add: cortexm_regs_write_def regs_write_banked_def thenM_def bindM_def map_debug_registers_run on_ap_def
        db_write w e first comm)
  then show ?thesis by (intro exI [of _ d] exI [of _ CORTEXM_DHCSR]) simp
qed

section \<open>What is in the registers after a write\<close>

lemma cr_set_reg: "cr (set_reg m v c) n = (if n = reg_number c m then v else cr c n)"
  by (simp add: set_reg_def)

lemma reg_number_cases: "reg_number c m = m \<or> (m = 13 \<and> reg_number c m \<in> {R_MSP, R_PSP})"
  by (simp add: reg_number_def sp_number_def)

lemma write_regs_other:
  assumes "\<And>m. m \<in> fst ` set ps \<Longrightarrow> m \<noteq> n \<and> (m = 13 \<longrightarrow> n \<notin> {R_MSP, R_PSP})"
  shows "cr (write_regs ps c) n = cr c n"
  using assms
proof (induction ps arbitrary: c)
  case (Cons p ps)
  obtain m v where p: "p = (m, v)" by (cases p)
  have "n \<noteq> reg_number c m" using Cons.prems [of m] reg_number_cases [of c m] by (auto simp: p)
  moreover have "cr (write_regs ps (set_reg m v c)) n = cr (set_reg m v c) n"
  proof (rule Cons.IH)
    fix k assume "k \<in> fst ` set ps"
    then show "k \<noteq> n \<and> (k = 13 \<longrightarrow> n \<notin> {R_MSP, R_PSP})" by (intro Cons.prems) simp
  qed
  ultimately show ?case by (simp add: p cr_set_reg)
qed simp

lemma write_regs_last:
  assumes "i < length ns" "i < length vs" "ns ! i \<noteq> 13" "distinct ns"
    and "\<And>j. i < j \<Longrightarrow> j < length ns \<Longrightarrow> ns ! j = 13 \<Longrightarrow> ns ! i \<notin> {R_MSP, R_PSP}"
  shows "cr (write_regs (zip ns vs) c) (ns ! i) = vs ! i"
proof -
  let ?z = "zip ns vs" and ?post = "drop (Suc i) (zip ns vs)"
  let ?c = "write_regs (take i ?z) c"
  have z: "?z = take i ?z @ (ns ! i, vs ! i) # ?post"
    using assms(1,2) id_take_nth_drop [of i ?z] by simp
  have "cr (write_regs ?post (set_reg (ns ! i) (vs ! i) ?c)) (ns ! i) = cr (set_reg (ns ! i) (vs ! i) ?c) (ns ! i)"
  proof (rule write_regs_other)
    fix m assume "m \<in> fst ` set ?post"
    then have "m \<in> set (drop (Suc i) ns)" unfolding drop_zip by (auto dest: set_zip_leftD)
    then obtain k where "k < length (drop (Suc i) ns)" "drop (Suc i) ns ! k = m" unfolding in_set_conv_nth by blast
    then have k: "Suc i + k < length ns" "m = ns ! (Suc i + k)" by auto
    show "m \<noteq> ns ! i \<and> (m = 13 \<longrightarrow> ns ! i \<notin> {R_MSP, R_PSP})"
      using assms(1,4) assms(5) [of "Suc i + k"] k nth_eq_iff_index_eq [OF assms(4) k(1) assms(1)] by auto
  qed
  also have "\<dots> = vs ! i" using assms(3) by (simp add: cr_set_reg reg_number_def)
  finally show ?thesis unfolding arg_cong [OF z, of "\<lambda>z. write_regs z c"] by simp
qed

lemma written_length: "length (written_registers s) = (if has_fpu s then 53 else 20)"
  by (simp add: written_registers_def regnum_cortex_m_def regnum_cortex_mf_def)

lemma written_distinct: "distinct (written_registers s)"
  by (simp add: written_registers_def regnum_cortex_m_def regnum_cortex_mf_def)

text \<open>Register 13 is the only one with two meanings, and it comes before both stack pointers.\<close>

lemma written_13: "j < length (written_registers s) \<Longrightarrow> written_registers s ! j = 13 \<longleftrightarrow> j = 13"
proof -
  assume j: "j < length (written_registers s)"
  have w: "13 < length (written_registers s)" "written_registers s ! 13 = 13"
    by (simp_all add: written_registers_def regnum_cortex_m_def)
  show ?thesis using nth_eq_iff_index_eq [OF written_distinct j w(1)] w(2) by simp
qed

lemma written_low: "i < 13 \<Longrightarrow> written_registers s ! i = of_nat i"
  by (simp add: written_registers_def regnum_cortex_m_def nth_Cons split: nat.splits)

lemma after_write:
  assumes "length vs \<ge> length (written_registers s)" "i < length (written_registers s)" "i \<noteq> 13"
  shows "cr (write_regs (zip (written_registers s) vs) c) (written_registers s ! i) = vs ! i"
proof (rule write_regs_last)
  show "written_registers s ! i \<noteq> 13" using written_13 [OF assms(2)] assms(3) by simp
  fix j assume "i < j" "j < length (written_registers s)" "written_registers s ! j = 13"
  then have "i < 13" using written_13 [of j s] by simp
  then show "written_registers s ! i \<notin> {R_MSP, R_PSP}"
    unfolding written_low [OF \<open>i < 13\<close>]
    using unat_of_nat_u32 [of i] by (auto simp: R_MSP_def R_PSP_def)
qed (use assms written_distinct in simp_all)

lemma sys_registers:
  "{R_XPSR, R_MSP, R_PSP, R_SPECIAL} \<subseteq> set (written_registers s)" "13 \<in> set (written_registers s)"
  by (auto simp: written_registers_def regnum_cortex_m_def R_XPSR_def R_MSP_def R_PSP_def R_SPECIAL_def)

text \<open>Registers that agree, the stack pointers included, make register 13 agree.\<close>

lemma get_reg_agree:
  assumes "\<And>n. n \<in> set (written_registers s) \<Longrightarrow> n \<noteq> 13 \<Longrightarrow> cr c n = cr c' n" "n \<in> set (written_registers s)"
  shows "get_reg c n = get_reg c' n"
proof -
  have "cr c m = cr c' m" if "m \<in> {R_XPSR, R_MSP, R_PSP, R_SPECIAL}" for m
    using that sys_registers(1) [of s] by (intro assms(1)) (auto simp: R_XPSR_def R_MSP_def R_PSP_def R_SPECIAL_def)
  then have "sp_number c = sp_number c'" "cr c (sp_number c) = cr c' (sp_number c)"
    by (simp_all add: sp_number_def thread_mode_def control_spsel_def)
  then show ?thesis using assms by (simp add: get_reg_def reg_number_def)
qed

lemma write_back:
  assumes "length (written_registers t) = length (written_registers s)" "written_registers t = written_registers s"
    and "n \<in> set (written_registers s)"
  shows "get_reg (write_regs (zip (written_registers t) (map (get_reg c) (written_registers s))) c') n = get_reg c n"
proof (rule get_reg_agree [OF _ assms(3)])
  fix n assume "n \<in> set (written_registers s)" "n \<noteq> 13"
  then obtain i where i: "i < length (written_registers s)" "written_registers s ! i = n" "i \<noteq> 13"
    using written_13 unfolding in_set_conv_nth by metis
  have "get_reg c n = cr c n" using \<open>n \<noteq> 13\<close> by (simp add: get_reg_def reg_number_def)
  then show "cr (write_regs (zip (written_registers t) (map (get_reg c) (written_registers s))) c') n = cr c n"
    using after_write [of s "map (get_reg c) (written_registers s)" i c'] i by (simp add: assms(2))
qed

lemma write_regs_rest [simp]:
  "sram (write_regs ps c) = sram c" "sys (write_regs ps c) = sys c" "present (write_regs ps c) = present c"
  "sticky (write_regs ps c) = sticky c"
  by (induction ps arbitrary: c) (auto split: prod.splits)

section \<open>Properties\<close>

text \<open>
  C14: The registers of the core can be saved and restored. What the driver reads from a core
  are its registers, and the core is not changed; when the same words are written at any later
  time, whatever the registers hold by then and whichever stack is in use, every register has
  its old value again, both stack pointers and the one in use included, the memory stays, and
  reading yields the same words. This holds with an adapter that has functions for the registers
  and with one that goes through the debug registers, with and without floating point.
\<close>

theorem registers_saved_and_restored:
  assumes "target_options t = target_options s"
  shows "\<exists>xs s' t' t''. cortexm_regs_read (core_ap fns) s = (Ret xs, s') \<and>
    (\<forall>n. get_reg (adapter s') n = get_reg (adapter s) n) \<and>
    cortexm_regs_write (core_ap fns) xs t = (Ret (), t') \<and>
    (\<forall>n \<in> set (written_registers s). get_reg (adapter t') n = get_reg (adapter s) n) \<and>
    sram (adapter t') = sram (adapter t) \<and> cortexm_regs_read (core_ap fns) t' = (Ret xs, t'')"
proof -
  let ?xs = "map (get_reg (adapter s)) (written_registers s)"
  have w: "written_registers t = written_registers s"
    using assms by (simp add: written_registers_def has_fpu_def)
  obtain d u where r: "cortexm_regs_read (core_ap fns) s = (Ret ?xs, s\<lparr>adapter := (adapter s)\<lparr>dcrdr := d, tar := u\<rparr>\<rparr>)"
    using regs_read_run by blast
  obtain d' u' where wr: "cortexm_regs_write (core_ap fns) ?xs t =
      (Ret (), t\<lparr>adapter := (write_regs (zip (written_registers t) ?xs) (adapter t))\<lparr>dcrdr := d', tar := u'\<rparr>\<rparr>)"
    using regs_write_run [of t ?xs fns] by (auto simp: w)
  let ?t = "t\<lparr>adapter := (write_regs (zip (written_registers t) ?xs) (adapter t))\<lparr>dcrdr := d', tar := u'\<rparr>\<rparr>"
  have same: "get_reg (adapter ?t) n = get_reg (adapter s) n" if "n \<in> set (written_registers s)" for n
    using write_back [OF _ w that] by (simp add: w)
  have wt: "written_registers ?t = written_registers s"
    using assms by (simp add: written_registers_def has_fpu_def)
  have "map (get_reg (adapter ?t)) (written_registers ?t) = ?xs" unfolding wt using same by (rule map_cong [OF refl])
  then obtain t'' where "cortexm_regs_read (core_ap fns) ?t = (Ret ?xs, t'')" using regs_read_run [of fns ?t] by metis
  with r wr same show ?thesis by (intro exI [of _ ?xs] exI conjI) (assumption | simp)+
qed

theorem registers_saved_and_restored_witness:
  "\<exists>xs s' t' t''. cortexm_regs_read (core_ap False) (new_cortexm 0 (plain_core (\<lambda>n. n + 1) (\<lambda>_. 0) (\<lambda>_. 0))) = (Ret xs, s') \<and>
    (\<forall>n. get_reg (adapter s') n = get_reg (plain_core (\<lambda>n. n + 1) (\<lambda>_. 0) (\<lambda>_. 0)) n) \<and>
    cortexm_regs_write (core_ap False) xs (new_cortexm 0 (plain_core (\<lambda>n. 7) (\<lambda>_. 0) (\<lambda>_. 3))) = (Ret (), t') \<and>
    (\<forall>n \<in> set (written_registers (new_cortexm 0 (plain_core (\<lambda>n. n + 1) (\<lambda>_. 0) (\<lambda>_. 0)))).
      get_reg (adapter t') n = get_reg (plain_core (\<lambda>n. n + 1) (\<lambda>_. 0) (\<lambda>_. 0)) n) \<and>
    sram (adapter t') = (\<lambda>_. 3) \<and> cortexm_regs_read (core_ap False) t' = (Ret xs, t'')"
  using registers_saved_and_restored
    [of "new_cortexm 0 (plain_core (\<lambda>n. 7) (\<lambda>_. 0) (\<lambda>_. 3))" "new_cortexm 0 (plain_core (\<lambda>n. n + 1) (\<lambda>_. 0) (\<lambda>_. 0))" False]
  by (simp add: new_cortexm_def plain_core_def)

end
