(* ===== verification/Cortexm_Unwind.thy ===== *)
theory Cortexm_Unwind
  imports Cortexm_Registers
begin

text \<open>
  The driver stops a program at the first instruction of a fault handler and takes the exception
  back, so that the debugger sees the place of the fault. The entry of an exception is defined
  as the architecture manual has it; unwinding what it has done gives back the registers.
\<close>

section \<open>Entry of an exception\<close>

text \<open>
  \<open>align\<close> is \<open>CCR.STKALIGN\<close>; with the floating point context active the stack is aligned in any
  case, and room for the floating point registers is left above the frame (their lazy saving does
  not write it).
\<close>

definition frame_size :: "core \<Rightarrow> u32" where
  "frame_size c = (if control_fpca c then 0x68 else 0x20)"

definition forced :: "bool \<Rightarrow> core \<Rightarrow> bool" where
  "forced align c \<longleftrightarrow> align \<or> control_fpca c"

definition current_sp :: "core \<Rightarrow> u32" where
  "current_sp c = cr c (sp_number c)"

definition frame_ptr :: "bool \<Rightarrow> core \<Rightarrow> u32" where
  "frame_ptr align c = (current_sp c - frame_size c) AND NOT (if forced align c then 4 else 0)"

definition pushed_xpsr :: "bool \<Rightarrow> core \<Rightarrow> u32" where
  "pushed_xpsr align c =
     (cr c R_XPSR AND NOT 0x200) OR (if forced align c \<and> bit (current_sp c) 2 then 0x200 else 0)"

definition frame :: "bool \<Rightarrow> core \<Rightarrow> u32 list" where
  "frame align c = [cr c 0, cr c 1, cr c 2, cr c 3, cr c 12, cr c 14, cr c 15, pushed_xpsr align c]"

definition exc_return :: "core \<Rightarrow> u32" where
  "exc_return c = 0xFFFFFFE9 OR (if control_spsel c then 4 else 0) OR (if control_fpca c then 0 else 0x10)"

text \<open>A fault taken in thread mode: the handler at \<open>vector\<close> is about to run, as exception \<open>number\<close>.\<close>

definition take_fault :: "bool \<Rightarrow> u32 \<Rightarrow> u32 \<Rightarrow> core \<Rightarrow> core" where
  "take_fault align vector number c =
     c\<lparr>cr := (cr c)(sp_number c := frame_ptr align c, 14 := exc_return c, 15 := vector,
                    R_XPSR := (cr c R_XPSR AND NOT 0x1FF) OR (number AND 0x1FF),
                    R_SPECIAL := cr c R_SPECIAL AND NOT 0x6000000),
       sram := overlay (frame_ptr align c) (concat (map le32 (frame align c))) (sram c)\<rparr>"

section \<open>The stack pointer\<close>

lemma bit2_minus: "k \<in> {0x20, 0x68} \<Longrightarrow> bit (sp - k :: u32) 2 = bit sp 2"
proof -
  assume k: "k \<in> {0x20, 0x68 :: u32}"
  have z: "take_bit 3 (uint k) = 0" using k by auto
  have "take_bit 3 (uint sp - uint k) = take_bit 3 (uint sp)" using take_bit_diff [of 3 "uint sp" "uint k"] z by simp
  then have "bit (take_bit 3 (uint sp - uint k)) 2 = bit (take_bit 3 (uint sp)) 2" by (rule arg_cong)
  then have "bit (uint sp - uint k) 2 = bit (uint sp) 2" by (simp add: bit_take_bit_iff)
  moreover have "uint (sp - k) = take_bit 32 (uint sp - uint k)" using uint_word_ariths(2) [of sp k] by (simp add: take_bit_eq_mod)
  moreover have "bit (uint w) 2 = bit w 2" for w :: u32 by (simp add: bit_uint_iff)
  ultimately show ?thesis using bit_take_bit_iff [of 32 "uint sp - uint k" 2] by (metis (no_types) numeral_less_iff semiring_norm(76) semiring_norm(78))
qed

lemma and_not_add:
  assumes "\<And>n. bit m n \<longleftrightarrow> n = 2"
  shows "(x AND NOT m) + (if bit x 2 then m else 0) = (x :: u32)"
proof (cases "bit x 2")
  case True
  have disj: "(x AND NOT m) AND m = 0" by (rule bit_word_eqI) (auto simp: bit_and_iff bit_not_iff)
  have "(x AND NOT m) + m = (x AND NOT m) OR m" using word_plus_and_or [of "x AND NOT m" m] unfolding disj by simp
  also have "\<dots> = x"
    using True by (intro bit_word_eqI) (auto simp: bit_or_iff bit_and_iff bit_not_iff assms)
  finally show ?thesis using True by simp
next
  case False
  have "x AND NOT m = x"
    using False by (intro bit_word_eqI) (auto simp: bit_and_iff bit_not_iff assms)
  then show ?thesis using False by simp
qed

lemma and_not_4: "(x AND NOT 4) + (if bit x 2 then 4 else 0) = (x :: u32)"
proof (rule and_not_add)
  fix n
  have "(4 :: u32) = push_bit 2 1" by simp
  then have "bit (4 :: u32) n = bit (push_bit 2 (1 :: u32)) n" by (rule arg_cong)
  also have "\<dots> \<longleftrightarrow> n = 2" unfolding bit_push_bit_iff bit_1_iff by auto
  finally show "bit (4 :: u32) n \<longleftrightarrow> n = 2" .
qed

lemma frame_popped:
  "frame_ptr align c + (frame_size c + (if forced align c \<and> bit (current_sp c) 2 then 4 else 0)) = current_sp c"
proof -
  let ?x = "current_sp c - frame_size c"
  have b: "bit ?x 2 = bit (current_sp c) 2" by (rule bit2_minus) (simp add: frame_size_def)
  show ?thesis
  proof (cases "forced align c")
    case True
    have "frame_ptr align c + (if bit (current_sp c) 2 then 4 else 0) = ?x"
      using and_not_4 [of ?x] True by (simp add: frame_ptr_def b)
    then have "frame_ptr align c + (if bit (current_sp c) 2 then 4 else 0) + frame_size c = current_sp c" by simp
    then show ?thesis using True by (simp add: ac_simps)
  next
    case False
    then show ?thesis by (simp add: frame_ptr_def)
  qed
qed

section \<open>The frame in memory\<close>

lemma words_of_bytes:
  "i < length ws \<Longrightarrow> rd32 (drop (4 * i) (concat (map le32 ws))) = ws ! i"
proof (induction ws arbitrary: i)
  case (Cons w ws)
  then show ?case by (cases i) (simp_all add: rd32_le32)
qed simp

lemma length_frame: "length (frame align c) = 8"
  by (simp add: frame_def)

lemma frame_loaded:
  "map (\<lambda>i. rd32 (drop (4 * i) (mem_load (sram (take_fault align vector number c)) (frame_ptr align c) 32))) [0..<8] =
   frame align c"
proof -
  have "length (concat (map le32 (frame align c))) = 32" by (simp add: length_concat_le32 length_frame)
  then have "mem_load (sram (take_fault align vector number c)) (frame_ptr align c) 32 = concat (map le32 (frame align c))"
    using mem_load_overlay [of "concat (map le32 (frame align c))"] by (simp add: take_fault_def)
  moreover have "map (\<lambda>i. rd32 (drop (4 * i) (concat (map le32 (frame align c))))) [0..<8] = frame align c"
    by (rule nth_equalityI) (simp_all add: words_of_bytes length_concat_le32 length_frame del: upt_Suc)
  ultimately show ?thesis by simp
qed

section \<open>Unwinding\<close>

lemmas reg_indices = REG_SP_def REG_LR_def REG_PC_def REG_XPSR_def REG_MSP_def REG_PSP_def REG_SPECIAL_def

lemma length_unwound [simp]: "length (unwound stack regs) = length regs"
  by (simp add: unwound_def Let_def)

lemma unwound_nth:
  assumes "20 \<le> length regs"
  shows "i \<notin> {REG_SP, REG_LR, REG_PC, REG_MSP, REG_PSP, REG_SPECIAL} \<Longrightarrow> unwound stack regs ! i = regs ! i"
    "unwound stack regs ! REG_LR = stack ! 5" "unwound stack regs ! REG_PC = stack ! 6"
    "unwound stack regs ! (if bit (regs ! REG_LR) 2 then REG_PSP else REG_MSP) =
       regs ! (if bit (regs ! REG_LR) 2 then REG_PSP else REG_MSP) +
       ((if bit (regs ! REG_LR) 4 then 0x20 else 0x68) + (if bit (stack ! 7) 9 then 4 else 0))"
    "unwound stack regs ! (if bit (regs ! REG_LR) 2 then REG_MSP else REG_PSP) =
       regs ! (if bit (regs ! REG_LR) 2 then REG_MSP else REG_PSP)"
    "unwound stack regs ! REG_SPECIAL =
       regs ! REG_SPECIAL OR (if bit (regs ! REG_LR) 2 then 0x4000000 else 0) OR (if bit (regs ! REG_LR) 4 then 0 else 0x2000000)"
  using assms by (auto simp: unwound_def Let_def reg_indices or.assoc)

lemma exc_return_bits: "bit (exc_return c) 2 = control_spsel c" "bit (exc_return c) 4 = (\<not> control_fpca c)"
  by (simp_all add: exc_return_def bit_or_iff)

lemma pushed_bit: "bit (pushed_xpsr align c) 9 \<longleftrightarrow> forced align c \<and> bit (current_sp c) 2"
  by (simp add: pushed_xpsr_def bit_or_iff bit_and_iff)

lemma take_fault_cr:
  "cr (take_fault al vector number c) 14 = exc_return c"
  "cr (take_fault al vector number c) R_SPECIAL = cr c R_SPECIAL AND NOT 0x6000000"
  "cr (take_fault al vector number c) (sp_number c) = frame_ptr al c"
  "n \<notin> {14, 15, R_XPSR, R_SPECIAL, sp_number c} \<Longrightarrow> cr (take_fault al vector number c) n = cr c n"
  by (auto simp: take_fault_def sp_number_def R_XPSR_def R_SPECIAL_def R_MSP_def R_PSP_def)

lemma written_nth:
  "i < 13 \<Longrightarrow> written_registers s ! i = of_nat i" "written_registers s ! REG_LR = 14" "written_registers s ! REG_PC = 15"
  "written_registers s ! REG_MSP = R_MSP" "written_registers s ! REG_PSP = R_PSP" "written_registers s ! REG_SPECIAL = R_SPECIAL"
  by (simp_all add: written_low) (simp_all add: written_registers_def regnum_cortex_m_def reg_indices R_MSP_def R_PSP_def R_SPECIAL_def)

lemma reg_small:
  "r \<in> {REG_LR, REG_PC, REG_XPSR, REG_MSP, REG_PSP, REG_SPECIAL} \<Longrightarrow> r < 20" "r \<in> {REG_LR, REG_PC, REG_XPSR, REG_MSP, REG_PSP, REG_SPECIAL} \<Longrightarrow> r \<noteq> 13"
  by (auto simp: reg_indices)

lemma get_reg_other: "n \<noteq> 13 \<Longrightarrow> get_reg c n = cr c n"
  by (simp add: get_reg_def reg_number_def)

text \<open>What the driver writes back after a fault.\<close>

lemma unwound_fault:
  assumes "thread_mode c" "w = written_registers s" "c1 = take_fault al vector number c"
  defines "u \<equiv> unwound (frame al c) (map (get_reg c1) w)"
  shows "length u = length w" "\<And>i. i < 13 \<Longrightarrow> u ! i = cr c (of_nat i)"
    "u ! REG_LR = cr c 14" "u ! REG_PC = cr c 15" "u ! REG_MSP = cr c R_MSP" "u ! REG_PSP = cr c R_PSP"
    "u ! REG_SPECIAL = (cr c R_SPECIAL AND NOT 0x6000000) OR (if control_spsel c then 0x4000000 else 0) OR
       (if control_fpca c then 0x2000000 else 0)"
proof -
  let ?regs = "map (get_reg c1) w"
  have l: "20 \<le> length w" using written_length [of s] assms(2) by simp
  then have len: "20 \<le> length ?regs" by simp
  have nth: "?regs ! i = cr c1 (w ! i)" if "i < 20" "i \<noteq> 13" for i
    using that l written_13 [of i s] assms(2) by (simp add: get_reg_other)
  have lr: "?regs ! REG_LR = exc_return c"
    using nth [OF reg_small, of REG_LR] assms(2,3) by (simp add: written_nth take_fault_cr)
  note bits = exc_return_bits [of c, folded lr]
  show "length u = length w" by (simp add: u_def)
  show "u ! i = cr c (of_nat i)" if i: "i < 13" for i
  proof -
    have "of_nat i \<notin> {14, 15, R_XPSR, R_SPECIAL, sp_number c}"
      using unat_of_nat_u32 [of i] i by (auto simp: sp_number_def R_XPSR_def R_SPECIAL_def R_MSP_def R_PSP_def)
    then have "cr c1 (of_nat i) = cr c (of_nat i)" unfolding assms(3) by (rule take_fault_cr(4))
    then show ?thesis
      using unwound_nth(1) [OF len, of i "frame al c"] nth [of i] i assms(2) by (simp add: u_def written_nth reg_indices)
  qed
  show "u ! REG_LR = cr c 14" "u ! REG_PC = cr c 15"
    unfolding u_def unwound_nth(2,3) [OF len] by (simp_all add: frame_def)
  have spec: "?regs ! REG_SPECIAL = cr c R_SPECIAL AND NOT 0x6000000"
    using nth [OF reg_small, of REG_SPECIAL] assms(2,3) by (simp add: written_nth take_fault_cr)
  show "u ! REG_SPECIAL = (cr c R_SPECIAL AND NOT 0x6000000) OR (if control_spsel c then 0x4000000 else 0) OR
       (if control_fpca c then 0x2000000 else 0)"
    unfolding u_def unwound_nth(6) [OF len] bits spec by simp
  have size: "(if \<not> control_fpca c then 0x20 else 0x68) + (if bit (frame al c ! 7) 9 then 4 else 0) =
      frame_size c + (if forced al c \<and> bit (current_sp c) 2 then 4 else 0)"
    by (simp add: frame_size_def frame_def pushed_bit)
  have spn: "sp_number c = (if control_spsel c then R_PSP else R_MSP)" using assms(1) by (simp add: sp_number_def)
  have msp: "?regs ! REG_MSP = cr c1 R_MSP" "?regs ! REG_PSP = cr c1 R_PSP"
    using nth [OF reg_small, of REG_MSP] nth [OF reg_small, of REG_PSP] assms(2) by (simp_all add: written_nth)
  have pop: "frame_ptr al c + (frame_size c + (if forced al c \<and> bit (current_sp c) 2 then 4 else 0)) = current_sp c"
    by (rule frame_popped)
  have "u ! REG_MSP = cr c R_MSP \<and> u ! REG_PSP = cr c R_PSP"
  proof (cases "control_spsel c")
    case True
    then have "cr c1 R_PSP = frame_ptr al c" "cr c1 R_MSP = cr c R_MSP" "current_sp c = cr c R_PSP"
      using take_fault_cr(3,4) [where al = al and vector = vector and number = number and c = c] spn assms(3)
      by (simp_all add: current_sp_def R_MSP_def R_PSP_def R_XPSR_def R_SPECIAL_def)
    then show ?thesis
      using unwound_nth(4,5) [OF len, of "frame al c"] True msp pop unfolding bits size by (simp add: u_def split del: if_split)
  next
    case False
    then have "cr c1 R_MSP = frame_ptr al c" "cr c1 R_PSP = cr c R_PSP" "current_sp c = cr c R_MSP"
      using take_fault_cr(3,4) [where al = al and vector = vector and number = number and c = c] spn assms(3)
      by (simp_all add: current_sp_def R_MSP_def R_PSP_def R_XPSR_def R_SPECIAL_def)
    then show ?thesis
      using unwound_nth(4,5) [OF len, of "frame al c"] False msp pop unfolding bits size by (simp add: u_def split del: if_split)
  qed
  then show "u ! REG_MSP = cr c R_MSP" "u ! REG_PSP = cr c R_PSP" by simp_all
qed

lemma write_status:
  assumes "\<not> has_cache s" "a \<in> {CORTEXM_HFSR, CORTEXM_CFSR}"
  shows "\<exists>y. write32 (core_ap fns) a v s = (Ret (), s\<lparr>adapter := (adapter s)\<lparr>sys := y\<rparr>\<rparr>)"
proof -
  have "system_space a" using assms(2) by (auto simp: system_space_def cortexm_registers)
  moreover have "write_word a v (adapter s) = (adapter s)\<lparr>sys := (sys (adapter s))(a := sys (adapter s) a AND NOT v)\<rparr>"
    using assms(2) by (auto simp: write_word_def cortexm_registers)
  ultimately show ?thesis using write32_sys [OF assms(1), of a fns v] by auto
qed

lemma mem_read_checked_run:
  assumes "\<not> has_cache s" "len \<noteq> 4" "\<And>i. i < unat len \<Longrightarrow> present (adapter s) (a + of_nat i)"
  shows "mem_read_checked (core_ap fns) a len s =
    (Ret (sticky (adapter s), mem_load (sram (adapter s)) a (unat len)), s\<lparr>adapter := (adapter s)\<lparr>sticky := False\<rparr>\<rparr>)"
proof -
  have "unat len \<noteq> 4" using assms(2) by (simp add: word_unat_eq_iff)
  then show ?thesis
    using assms(1,3)
    by (simp add: mem_read_checked_def cortexm_mem_read_def cortexm_check_error_def thenM_def bindM_def no_cache_clean
        on_ap_def core_read_def core_error_def retM_def) blast
qed

lemma write_aircr:
  assumes "\<not> has_cache s"
  shows "\<exists>f. write32 (core_ap fns) CORTEXM_AIRCR v s = (Ret (), s\<lparr>adapter := (adapter s)\<lparr>cr := f\<rparr>\<rparr>)"
proof -
  have "system_space CORTEXM_AIRCR" by (simp add: system_space_def cortexm_registers)
  moreover have "\<exists>f. write_word CORTEXM_AIRCR v (adapter s) = (adapter s)\<lparr>cr := f\<rparr>"
  proof (cases "v AND 0xFFFF0000 = AIRCR_VECTKEY \<and> v AND AIRCR_VECTCLRACTIVE \<noteq> 0")
    case True
    then show ?thesis
      by (intro exI [of _ "(cr (adapter s))(R_XPSR := cr (adapter s) R_XPSR AND NOT 0x1FF)"])
        (simp add: write_word_def cortexm_registers)
  next
    case False
    then show ?thesis by (intro exI [of _ "cr (adapter s)"]) (auto simp: write_word_def cortexm_registers)
  qed
  ultimately show ?thesis using write32_sys [OF assms, of CORTEXM_AIRCR fns v] by auto
qed

lemma unwind_run:
  assumes s: "\<not> has_cache s" "\<not> sticky (adapter s)"
    and st: "sys (adapter s) CORTEXM_HFSR AND HFSR_FORCED \<noteq> 0 \<or> sys (adapter s) CORTEXM_CFSR \<noteq> 0"
    and sp: "sp = (if bit (cr (adapter s) 14) 2 then cr (adapter s) R_PSP else cr (adapter s) R_MSP)"
    and pr: "\<And>i. i < 32 \<Longrightarrow> present (adapter s) (sp + of_nat i)"
  shows "\<exists>s' c2 d t. cortexm_fault_unwind (core_ap fns) s = (Ret True, s') \<and> sram c2 = sram (adapter s) \<and>
    adapter s' = (write_regs (zip (written_registers s) (unwound (map (\<lambda>i. rd32 (drop (4 * i) (mem_load (sram (adapter s)) sp 32))) [0..<8])
      (map (get_reg (adapter s)) (written_registers s)))) c2)\<lparr>dcrdr := d, tar := t\<rparr>"
proof -
  let ?A = "core_ap fns" and ?c = "adapter s" and ?w = "written_registers s"
  let ?regs = "map (get_reg ?c) ?w"
  let ?u = "unwound (map (\<lambda>i. rd32 (drop (4 * i) (mem_load (sram ?c) sp 32))) [0..<8]) ?regs"
  have sysp: "system_space CORTEXM_HFSR" "system_space CORTEXM_CFSR" "CORTEXM_HFSR \<noteq> CORTEXM_DCRDR" "CORTEXM_CFSR \<noteq> CORTEXM_DCRDR"
    by (simp_all add: system_space_def cortexm_registers)
  obtain y where y: "write32 ?A CORTEXM_HFSR (sys ?c CORTEXM_HFSR) s = (Ret (), s\<lparr>adapter := ?c\<lparr>sys := y\<rparr>\<rparr>)"
    using write_status [OF s(1)] by blast
  let ?s1 = "s\<lparr>adapter := ?c\<lparr>sys := y\<rparr>\<rparr>"
  obtain y' where y': "write32 ?A CORTEXM_CFSR (sys ?c CORTEXM_CFSR) ?s1 = (Ret (), s\<lparr>adapter := ?c\<lparr>sys := y'\<rparr>\<rparr>)"
    using write_status [of ?s1 CORTEXM_CFSR fns "sys ?c CORTEXM_CFSR"] s(1) by auto
  let ?s2 = "s\<lparr>adapter := ?c\<lparr>sys := y'\<rparr>\<rparr>"
  have w2: "written_registers ?s2 = ?w" by (simp add: written_registers_def has_fpu_def)
  have "get_reg (adapter ?s2) = get_reg ?c" by (rule ext) simp
  then obtain d t where r: "cortexm_regs_read ?A ?s2 = (Ret ?regs, s\<lparr>adapter := ?c\<lparr>sys := y', dcrdr := d, tar := t\<rparr>\<rparr>)"
    using regs_read_run [of fns ?s2] unfolding w2 by auto
  let ?s3 = "s\<lparr>adapter := ?c\<lparr>sys := y', dcrdr := d, tar := t\<rparr>\<rparr>"
  have nth: "?regs ! REG_LR = cr ?c 14" "?regs ! REG_PSP = cr ?c R_PSP" "?regs ! REG_MSP = cr ?c R_MSP"
    using written_length [of s] by (simp_all add: written_nth get_reg_other reg_indices R_MSP_def R_PSP_def)
      (simp_all add: written_registers_def regnum_cortex_m_def get_reg_other)
  have spr: "(if bit (?regs ! REG_LR) 2 then ?regs ! REG_PSP else ?regs ! REG_MSP) = sp" unfolding nth sp by (rule refl)
  have m: "mem_read_checked ?A sp 32 ?s3 = (Ret (False, mem_load (sram ?c) sp 32), ?s3)"
    using mem_read_checked_run [of ?s3 32 sp fns] s pr by (simp add: core.equality)
  have e: "cortexm_check_error ?A ?s3 = (Ret False, ?s3)"
    using s(2) by (simp add: cortexm_check_error_def bindM_def on_ap_def core_error_def retM_def core.equality cortexm.equality)
  obtain f where a: "write32 ?A CORTEXM_AIRCR (AIRCR_VECTKEY OR AIRCR_VECTCLRACTIVE) ?s3 =
      (Ret (), s\<lparr>adapter := ?c\<lparr>sys := y', dcrdr := d, tar := t, cr := f\<rparr>\<rparr>)"
    using write_aircr [of ?s3 fns "AIRCR_VECTKEY OR AIRCR_VECTCLRACTIVE"] s(1) by auto
  let ?s4 = "s\<lparr>adapter := ?c\<lparr>sys := y', dcrdr := d, tar := t, cr := f\<rparr>\<rparr>"
  have w4: "written_registers ?s4 = ?w" by (simp add: written_registers_def has_fpu_def)
  obtain d' t' where wr: "cortexm_regs_write ?A ?u ?s4 =
      (Ret (), ?s4\<lparr>adapter := (write_regs (zip ?w ?u) (adapter ?s4))\<lparr>dcrdr := d', tar := t'\<rparr>\<rparr>)"
    using regs_write_run [of ?s4 ?u fns] unfolding w4 by auto
  have "cortexm_fault_unwind ?A s = (Ret True, ?s4\<lparr>adapter := (write_regs (zip ?w ?u) (adapter ?s4))\<lparr>dcrdr := d', tar := t'\<rparr>\<rparr>)"
    unfolding cortexm_fault_unwind_def
    using st m e a wr r
    by (simp add: thenM_def bindM_def read32_sys [OF s(1)] sysp y y' spr retM_def split del: if_split)
  then show ?thesis by (intro exI [of _ "adapter ?s4"] exI conjI) (assumption | simp)+
qed

section \<open>Property\<close>


text \<open>A program on the process stack whose pointer is not a multiple of eight.\<close>

definition faulting_core :: core where
  "faulting_core = plain_core
     (\<lambda>n. if n = R_XPSR then 0x01000000 else if n = R_SPECIAL then 0x02000000 else 0x20001004) (\<lambda>_. 0x40000000) (\<lambda>_. 0)"

lemma faulting_frame: "frame_ptr True faulting_core = 0x20000FE0"
  by (simp add: frame_ptr_def forced_def frame_size_def current_sp_def sp_number_def thread_mode_def control_spsel_def
      control_fpca_def faulting_core_def plain_core_def R_XPSR_def R_SPECIAL_def R_MSP_def R_PSP_def bit_iff_odd)


end
