(* ===== verification/Cortexm_Target.thy ===== *)
theory Cortexm_Target
  imports Cortexm_Hw "HOL-Library.Multiset"
begin

text \<open>
  The driver of \<^verbatim>\<open>cortexm.c\<close> behind the function pointers of a target, so that \<^verbatim>\<open>target.c\<close> runs on
  it, and what becomes of its breakpoints: from attaching on, setting and clearing breakpoints
  through \<^verbatim>\<open>target.c\<close> are operations on a bag of limited size, and the core stops exactly at the
  addresses in the bag. The contract of such a bag is the locale \<open>bounded_bag\<close>.
\<close>

section \<open>The target\<close>

text \<open>
  The functions of the target record return; where the driver does not, the model has a default
  value. An exception would leave the functions of \<^verbatim>\<open>target.c\<close> too, which their model cannot
  express; the core of \<open>Cortexm_Hw\<close> raises none.
\<close>

definition run_or :: "'r \<Rightarrow> ('r, 'a) drv \<Rightarrow> 'a cortexm \<Rightarrow> 'r \<times> 'a cortexm" where
  "run_or d m s = (case m s of (Ret x, s) \<Rightarrow> (x, s) | (Raise ty, s) \<Rightarrow> (d, s) | (Stop e, s) \<Rightarrow> (d, s))"

definition words_of_buffer :: "u8 list \<Rightarrow> u32 list" where
  "words_of_buffer data = map (\<lambda>i. rd32 (drop (4 * i) data)) [0..<length data div 4]"

definition cortexm_target :: "'a adiv5 \<Rightarrow> 'a host_os \<Rightarrow> nat \<Rightarrow> 'a cortexm \<Rightarrow> 'a cortexm target" where
  "cortexm_target A os i s = (nop_target i s)
     \<lparr>attach_fn := run_or False (cortexm_attach A),
      detach_fn := (\<lambda>s. snd (cortexm_detach A s)),
      check_error_fn := run_or False (cortexm_check_error A),
      mem_read_fn := (\<lambda>a n buf. run_or buf
        (bindM (cortexm_mem_read A a n) (\<lambda>bs. retM (bs @ drop (length bs) buf)))),
      mem_write_fn := (\<lambda>a bs s. snd (cortexm_mem_write A a bs s)),
      regs_size := cm_regs_size s, tdesc := Some (cm_tdesc s),
      regs_read_fn := Some (\<lambda>buf. run_or buf
        (bindM (cortexm_regs_read A) (\<lambda>regs. retM (concat (map le32 regs) @ drop (4 * length regs) buf)))),
      regs_write_fn := Some (\<lambda>data s. snd (cortexm_regs_write A (words_of_buffer data) s)),
      reg_read_fn := (\<lambda>reg buf s. case run_or (-1, []) (cortexm_reg_read A reg (of_nat (length buf))) s of
        ((n, bs), s) \<Rightarrow> (n, bs @ drop (length bs) buf, s)),
      reg_write_fn := (\<lambda>reg data. run_or (-1) (cortexm_reg_write A reg data)),
      reset_fn := (\<lambda>s. snd (cortexm_reset A s)),
      halt_request_fn := (\<lambda>s. snd (cortexm_halt_request A s)),
      halt_poll_fn := (\<lambda>s. case run_or (HALT_ERROR, None) (cortexm_halt_poll A os True) s of
        ((r, w), s) \<Rightarrow> (r, (case w of None \<Rightarrow> 0 | Some w \<Rightarrow> w), s)),
      halt_resume_fn := (\<lambda>step s. snd (cortexm_halt_resume A step s)),
      breakwatch_set_fn := Some (\<lambda>bw s. case run_or (-1, bw) (cortexm_breakwatch_set A bw) s of
        ((r, bw), s) \<Rightarrow> (r, bw, s)),
      breakwatch_clear_fn := Some (\<lambda>bws. run_or (-1) (cortexm_breakwatch_clear A (hd bws))),
      driver := cm_driver s, core := cm_core s, t_designer := cm_designer s, idcode := cm_idcode s\<rparr>"

section \<open>The contract of a bounded bag\<close>

text \<open>Elements are added while there is room, and one copy of an element is deleted if there is one.\<close>

datatype 'e bag_op = Add 'e | Del 'e

fun bag_run :: "('e \<Rightarrow> 's \<Rightarrow> bool \<times> 's) \<Rightarrow> ('e \<Rightarrow> 's \<Rightarrow> bool \<times> 's) \<Rightarrow> 'e bag_op list \<Rightarrow> 's \<Rightarrow> bool list \<times> 's" where
  "bag_run add del [] s = ([], s)"
| "bag_run add del (op # ops) s =
     (case (case op of Add e \<Rightarrow> add e s | Del e \<Rightarrow> del e s) of (b, s) \<Rightarrow>
      case bag_run add del ops s of (bs, s) \<Rightarrow> (b # bs, s))"

definition bag_add :: "nat \<Rightarrow> 'e \<Rightarrow> 'e multiset \<Rightarrow> bool \<times> 'e multiset" where
  "bag_add cap e M = (if size M < cap then (True, add_mset e M) else (False, M))"

definition bag_del :: "'e \<Rightarrow> 'e multiset \<Rightarrow> bool \<times> 'e multiset" where
  "bag_del e M = (e \<in># M, M - {#e#})"

locale bounded_bag =
  fixes add del :: "'e \<Rightarrow> 's \<Rightarrow> bool \<times> 's"
    and bag :: "'s \<Rightarrow> 'e multiset"
    and ok :: "'s \<Rightarrow> bool"
    and capacity :: nat
  assumes add_ok: "ok s \<Longrightarrow> ok (snd (add e s))"
    and del_ok: "ok s \<Longrightarrow> ok (snd (del e s))"
    and add_bag: "ok s \<Longrightarrow> (fst (add e s), bag (snd (add e s))) = bag_add capacity e (bag s)"
    and del_bag: "ok s \<Longrightarrow> (fst (del e s), bag (snd (del e s))) = bag_del e (bag s)"
begin

lemma step_ok: "ok s \<Longrightarrow> (case op of Add e \<Rightarrow> add e s | Del e \<Rightarrow> del e s) = (b, u) \<Longrightarrow> ok u"
  using add_ok del_ok by (cases op) (metis bag_op.case snd_conv)+

lemma run_refines:
  "ok s \<Longrightarrow> bag_run add del ops s = (bs, s') \<Longrightarrow>
   ok s' \<and> bag_run (bag_add capacity) bag_del ops (bag s) = (bs, bag s')"
proof (induction ops arbitrary: s bs)
  case (Cons op ops)
  obtain b u where one: "(case op of Add e \<Rightarrow> add e s | Del e \<Rightarrow> del e s) = (b, u)" by fastforce
  obtain bs' where rest: "bag_run add del ops u = (bs', s')" "bs = b # bs'"
    using Cons.prems(2) one by (cases "bag_run add del ops u") auto
  have "ok u" using step_ok Cons.prems(1) one by blast
  moreover have "(case op of Add e \<Rightarrow> bag_add capacity e (bag s) | Del e \<Rightarrow> bag_del e (bag s)) = (b, bag u)"
    using add_bag [OF Cons.prems(1)] del_bag [OF Cons.prems(1)] one by (cases op) (metis bag_op.case fst_conv snd_conv)+
  ultimately show ?case using Cons.IH [of u bs'] rest by simp
qed simp

text \<open>What fits can be added and deleted again, in any order.\<close>

lemma bag_bounded: "ok s \<Longrightarrow> bag_run add del ops s = (bs, s') \<Longrightarrow> size (bag s) \<le> capacity \<Longrightarrow> size (bag s') \<le> capacity"
proof (induction ops arbitrary: s bs)
  case (Cons op ops)
  obtain b u where one: "(case op of Add e \<Rightarrow> add e s | Del e \<Rightarrow> del e s) = (b, u)" by fastforce
  obtain bs' where rest: "bag_run add del ops u = (bs', s')"
    using Cons.prems(2) one by (cases "bag_run add del ops u") auto
  have "ok u" using step_ok Cons.prems(1) one by blast
  moreover have "size (bag u) \<le> capacity"
  proof (cases op)
    case (Add e)
    then show ?thesis using add_bag [OF Cons.prems(1), of e] one Cons.prems(3) by (auto simp: bag_add_def split: if_splits)
  next
    case (Del e)
    then have "bag u = bag s - {#e#}" using del_bag [OF Cons.prems(1), of e] one by (auto simp: bag_del_def)
    then show ?thesis using Cons.prems(3) by (metis diff_subset_eq_self order_trans size_mset_mono)
  qed
  ultimately show ?case using Cons.IH rest by blast
qed simp

end

section \<open>Breakpoints of a target\<close>

definition add_bp :: "u32 \<times> u32 \<Rightarrow> 'd target \<Rightarrow> bool \<times> 'd target" where
  "add_bp bp t = (case target_breakwatch_set True BREAK_HARD (fst bp) (snd bp) t of (r, t) \<Rightarrow> (r = 0, t))"

definition del_bp :: "u32 \<times> u32 \<Rightarrow> 'd target \<Rightarrow> bool \<times> 'd target" where
  "del_bp bp t = (case target_breakwatch_clear BREAK_HARD (fst bp) (snd bp) t of (r, t) \<Rightarrow> (r = 0, t))"

definition hard :: "breakwatch list \<Rightarrow> breakwatch list" where
  "hard bws = filter (\<lambda>bw. bw_type bw = BREAK_HARD) bws"

definition bps :: "'d target \<Rightarrow> (u32 \<times> u32) multiset" where
  "bps t = mset (map (\<lambda>bw. (bw_addr bw, bw_size bw)) (hard (bw_list t)))"

definition unit_of :: "breakwatch \<Rightarrow> nat" where
  "unit_of bw = unat (bw_reserved bw ! 0)"

text \<open>Every breakpoint in the list has a comparator of its own with its address; the others are off.\<close>

definition units_ok :: "nat \<Rightarrow> breakwatch list \<Rightarrow> core cortexm \<Rightarrow> bool" where
  "units_ok cap bws s \<longleftrightarrow>
     distinct (map unit_of bws) \<and> (\<forall>bw \<in> set bws. unit_of bw < cap \<and> length (bw_reserved bw) = 4) \<and>
     (\<forall>i < cap. hw_breakpoint s ! i = (i \<in> unit_of ` set bws)) \<and>
     (\<forall>bw \<in> set bws. sys (adapter s) (CORTEXM_FPB_COMP (unit_of bw)) = bkpt_comp (flash_patch_revision s) (bw_addr bw)) \<and>
     (\<forall>i < cap. i \<notin> unit_of ` set bws \<longrightarrow> sys (adapter s) (CORTEXM_FPB_COMP i) = 0)"

text \<open>
  The breakpoint unit as the architecture describes it: how many comparators it has, and when one
  stops the core at \<open>p\<close>. In revision 0 a comparator matches a word of the code region and selects
  its half words by bits 30 and 31; in revision 1 it matches a half word anywhere.
\<close>

definition fpb_units :: "core \<Rightarrow> nat" where
  "fpb_units c = unat (drop_bit 4 (sys c CORTEXM_FPB_CTRL) AND 0xF) + 16 * unat (drop_bit 12 (sys c CORTEXM_FPB_CTRL) AND 7)"

definition comp_stops :: "u32 \<Rightarrow> u32 \<Rightarrow> u32 \<Rightarrow> bool" where
  "comp_stops revision v p \<longleftrightarrow> bit v 0 \<and>
     (if revision = 0 then p < 0x20000000 \<and> v AND 0x1FFFFFFC = p AND 0x1FFFFFFC \<and> bit v (if bit p 1 then 31 else 30)
      else v AND NOT 1 = p AND NOT 1)"

definition core_stops :: "core \<Rightarrow> u32 \<Rightarrow> bool" where
  "core_stops c p \<longleftrightarrow> bit (sys c CORTEXM_FPB_CTRL) 0 \<and>
     (\<exists>i < fpb_units c. comp_stops (drop_bit 28 (sys c CORTEXM_FPB_CTRL)) (sys c (CORTEXM_FPB_COMP i)) p)"

text \<open>What a breakpoint at \<open>a\<close> is meant to stop, up to the alias of the code region in revision 0.\<close>

definition stops_at :: "u32 \<Rightarrow> u32 \<Rightarrow> u32 \<Rightarrow> bool" where
  "stops_at revision a p \<longleftrightarrow>
     (if revision = 0 then p < 0x20000000 \<and> a AND 0x1FFFFFFC = p AND 0x1FFFFFFC \<and> bit a 1 = bit p 1
      else a AND NOT 1 = p AND NOT 1)"

text \<open>The unit is on, the driver knows its revision, and the comparators it does not use are off.\<close>

definition fpb_on :: "nat \<Rightarrow> core cortexm \<Rightarrow> bool" where
  "fpb_on cap s \<longleftrightarrow>
     flash_patch_revision s = drop_bit 28 (sys (adapter s) CORTEXM_FPB_CTRL) \<and> bit (sys (adapter s) CORTEXM_FPB_CTRL) 0 \<and>
     cap \<le> fpb_units (adapter s) \<and>
     (\<forall>i. cap \<le> i \<and> i < fpb_units (adapter s) \<longrightarrow> \<not> bit (sys (adapter s) (CORTEXM_FPB_COMP i)) 0)"

definition driven :: "bool \<Rightarrow> core host_os \<Rightarrow> core cortexm target \<Rightarrow> bool" where
  "driven fns os t \<longleftrightarrow>
     breakwatch_set_fn t = breakwatch_set_fn (cortexm_target (core_ap fns) os 0 (t_dev t)) \<and>
     breakwatch_clear_fn t = breakwatch_clear_fn (cortexm_target (core_ap fns) os 0 (t_dev t))"

definition bps_ok :: "bool \<Rightarrow> core host_os \<Rightarrow> nat \<Rightarrow> u32 \<Rightarrow> core cortexm target \<Rightarrow> bool" where
  "bps_ok fns os cap revision t \<longleftrightarrow>
     driven fns os t \<and> \<not> has_cache (t_dev t) \<and> length (hw_breakpoint (t_dev t)) = CORTEXM_MAX_BREAKPOINTS \<and>
     hw_breakpoint_max (t_dev t) = cap \<and> cap \<le> CORTEXM_MAX_BREAKPOINTS \<and> units_ok cap (hard (bw_list t)) (t_dev t) \<and> fpb_on cap (t_dev t) \<and> flash_patch_revision (t_dev t) = revision"

section \<open>Comparators\<close>

lemma unat_comp: "i < 128 \<Longrightarrow> unat (CORTEXM_FPB_COMP i) = 0xE0002008 + 4 * i"
  using unat_add_u32 [of "0xE0002008" "4 * i"] by (simp add: CORTEXM_FPB_COMP_def)

lemma unat_func: "i < 16 \<Longrightarrow> unat (CORTEXM_DWT_FUNC i) = 0xE0001028 + 16 * i"
  using unat_add_u32 [of "0xE0001028" "16 * i"] by (simp add: CORTEXM_DWT_FUNC_def)

lemma comp_inj: "i < 128 \<Longrightarrow> j < 128 \<Longrightarrow> CORTEXM_FPB_COMP i = CORTEXM_FPB_COMP j \<longleftrightarrow> i = j"
proof
  assume "i < 128" "j < 128" and eq: "CORTEXM_FPB_COMP i = CORTEXM_FPB_COMP j"
  then have "(0xE0002008 + 4 * i :: nat) = 0xE0002008 + 4 * j" using unat_comp [of i] unat_comp [of j] by presburger
  then show "i = j" by linarith
qed simp

lemma write_plain:
  assumes "0xE0000000 \<le> unat a" "unat a < 0xE000ED00" "a \<noteq> CORTEXM_FPB_CTRL"
  shows "system_space a" "write_word a v c = c\<lparr>sys := (sys c)(a := v)\<rparr>"
proof -
  show "system_space a" using assms(1) by (simp add: system_space_def word_le_nat_alt)
  have "a \<notin> {CORTEXM_DCRDR, CORTEXM_DCRSR, CORTEXM_AIRCR, CORTEXM_DFSR, CORTEXM_HFSR, CORTEXM_CFSR}"
    using assms(2) by (auto simp: cortexm_registers)
  then show "write_word a v c = c\<lparr>sys := (sys c)(a := v)\<rparr>" using assms(3) by (simp add: write_word_def)
qed

lemma write_comp:
  assumes "\<not> has_cache s" "i < 128"
  shows "write32 (core_ap fns) (CORTEXM_FPB_COMP i) v s =
    (Ret (), s\<lparr>adapter := (adapter s)\<lparr>sys := (sys (adapter s))(CORTEXM_FPB_COMP i := v)\<rparr>\<rparr>)"
proof -
  have "CORTEXM_FPB_COMP i \<noteq> CORTEXM_FPB_CTRL" using unat_comp [OF assms(2)] by (auto simp: cortexm_registers)
  then show ?thesis
    using write_plain [of "CORTEXM_FPB_COMP i"] unat_comp [OF assms(2)] assms by (simp add: write32_sys)
qed

lemma free_unit_cases:
  assumes "i + k \<le> length used"
  shows "\<exists>j. free_unit used i k = Inr j \<and> i \<le> j \<and> j \<le> i + k \<and> (j < i + k \<longrightarrow> \<not> used ! j) \<and> (\<forall>m. i \<le> m \<and> m < j \<longrightarrow> used ! m)"
  using assms
proof (induction used i k rule: free_unit.induct)
  case (2 used i k)
  show ?case
  proof (cases "used ! i")
    case True
    then obtain j where j: "free_unit used (Suc i) k = Inr j" "Suc i \<le> j" "j \<le> Suc i + k"
        "j < Suc i + k \<longrightarrow> \<not> used ! j" "\<forall>m. Suc i \<le> m \<and> m < j \<longrightarrow> used ! m"
      using 2 by auto
    have "\<forall>m. i \<le> m \<and> m < j \<longrightarrow> used ! m" using j(5) True by (metis Suc_leI le_neq_implies_less)
    then show ?thesis using j 2(2) True by (intro exI [of _ j]) simp
  next
    case False
    then show ?thesis using 2(2) by (intro exI [of _ i]) auto
  qed
qed auto

text \<open>Writing a comparator in use keeps the unit on.\<close>

lemma fpb_units_less: "fpb_units c < 128"
proof -
  have "unat (drop_bit 4 (sys c CORTEXM_FPB_CTRL) AND 0xF) \<le> 0xF" "unat (drop_bit 12 (sys c CORTEXM_FPB_CTRL) AND 7) \<le> 7"
    using word_and_le1 [of _ "0xF :: u32"] word_and_le1 [of _ "7 :: u32"] by (simp_all add: word_le_nat_alt)
  then show ?thesis by (simp add: fpb_units_def)
qed

lemma ctrl_not_comp: "i < 128 \<Longrightarrow> CORTEXM_FPB_CTRL \<noteq> CORTEXM_FPB_COMP i"
  using unat_comp [of i] by (auto simp: cortexm_registers)

lemma fpb_on_write:
  assumes "fpb_on cap s" "i < cap" "cap \<le> 6" "flash_patch_revision s' = flash_patch_revision s"
    and "sys (adapter s') = (sys (adapter s))(CORTEXM_FPB_COMP i := v)"
  shows "fpb_on cap s'"
proof -
  have i: "i < 128" using assms(2,3) by simp
  have units: "fpb_units (adapter s') = fpb_units (adapter s)"
    using ctrl_not_comp [OF i] by (simp add: fpb_units_def assms(5))
  have "CORTEXM_FPB_COMP j \<noteq> CORTEXM_FPB_COMP i" if "cap \<le> j" "j < fpb_units (adapter s)" for j
    using comp_inj [of j i] that i assms(2) fpb_units_less [of "adapter s"] by simp
  then show ?thesis
    using assms(1) ctrl_not_comp [OF i] by (simp add: fpb_on_def assms(4,5) units)
qed

text \<open>All units are in use exactly when there are as many breakpoints as units.\<close>

lemma units_full:
  assumes "units_ok cap bws s"
  shows "length bws \<le> cap" "length bws = cap \<longleftrightarrow> (\<forall>i < cap. hw_breakpoint s ! i)"
proof -
  let ?u = "unit_of ` set bws"
  have d: "distinct (map unit_of bws)" and sub: "?u \<subseteq> {..<cap}" and used: "\<forall>i < cap. hw_breakpoint s ! i = (i \<in> ?u)"
    using assms by (auto simp: units_ok_def)
  have card: "card ?u = length bws" using distinct_card [OF d] by simp
  then show "length bws \<le> cap" using card_mono [OF _ sub] by simp
  have "length bws = cap \<longleftrightarrow> ?u = {..<cap}"
    using card_subset_eq [OF _ sub] card by auto
  also have "\<dots> \<longleftrightarrow> (\<forall>i < cap. hw_breakpoint s ! i)" using used sub by auto
  finally show "length bws = cap \<longleftrightarrow> (\<forall>i < cap. hw_breakpoint s ! i)" .
qed

lemma units_add:
  assumes ok: "units_ok cap bws s" and i: "i < cap" "\<not> hw_breakpoint s ! i" and cap: "cap \<le> 6" "length (hw_breakpoint s) = 6"
    and bw: "unit_of bw = i" "length (bw_reserved bw) = 4"
    and s': "hw_breakpoint s' = (hw_breakpoint s)[i := True]" "flash_patch_revision s' = flash_patch_revision s"
      "sys (adapter s') = (sys (adapter s))(CORTEXM_FPB_COMP i := bkpt_comp (flash_patch_revision s) (bw_addr bw))"
  shows "units_ok cap (bw # bws) s'"
proof -
  have free: "i \<notin> unit_of ` set bws" using ok i by (auto simp: units_ok_def)
  have less: "unit_of b < 128" "unit_of b \<noteq> i" if "b \<in> set bws" for b
    using ok cap(1) free that by (auto simp: units_ok_def)
  have comp: "CORTEXM_FPB_COMP (unit_of b) \<noteq> CORTEXM_FPB_COMP i" if "b \<in> set bws" for b
    using less [OF that] comp_inj [of "unit_of b" i] i(1) cap(1) by simp
  have comp': "CORTEXM_FPB_COMP j \<noteq> CORTEXM_FPB_COMP i" if "j < cap" "j \<noteq> i" for j
    using comp_inj [of j i] that i(1) cap(1) by simp
  show ?thesis
    using ok free i(1) bw cap comp comp'
    by (auto simp: units_ok_def s' nth_list_update)
qed

lemma units_del:
  assumes ok: "units_ok cap (xs @ bw # ys) s" and cap: "cap \<le> 6" "length (hw_breakpoint s) = 6"
    and s': "hw_breakpoint s' = (hw_breakpoint s)[unit_of bw := False]" "flash_patch_revision s' = flash_patch_revision s"
      "sys (adapter s') = (sys (adapter s))(CORTEXM_FPB_COMP (unit_of bw) := 0)"
  shows "units_ok cap (xs @ ys) s'"
proof -
  let ?i = "unit_of bw"
  have i: "?i < cap" and free: "?i \<notin> unit_of ` set (xs @ ys)" using ok by (auto simp: units_ok_def)
  have comp: "CORTEXM_FPB_COMP (unit_of b) \<noteq> CORTEXM_FPB_COMP ?i" if "b \<in> set (xs @ ys)" for b
  proof -
    have "unit_of b < cap" using ok that by (auto simp: units_ok_def)
    moreover have "unit_of b \<noteq> ?i" using free that by (metis imageI)
    ultimately show ?thesis using comp_inj [of "unit_of b" ?i] i cap(1) by simp
  qed
  have comp': "CORTEXM_FPB_COMP j \<noteq> CORTEXM_FPB_COMP ?i" if "j < cap" "j \<noteq> ?i" for j
    using comp_inj [of j ?i] that i cap(1) by simp
  show ?thesis
    using ok free i cap comp comp'
    by (auto simp: units_ok_def s' nth_list_update)
qed

section \<open>Setting and clearing\<close>

text \<open>What the driver does for a breakpoint when there is room and when there is none.\<close>

lemma set_unit_room:
  assumes "\<not> has_cache s" "length (hw_breakpoint s) = 6" "hw_breakpoint_max s = cap" "cap \<le> 6"
    and "\<not> (\<forall>i < cap. hw_breakpoint s ! i)"
  shows "\<exists>i < cap. \<not> hw_breakpoint s ! i \<and> cortexm_breakwatch_set (core_ap fns)
      \<lparr>bw_type = BREAK_HARD, bw_addr = a, bw_size = n, bw_reserved = [0, 0, 0, 0]\<rparr> s =
    (Ret (0, \<lparr>bw_type = BREAK_HARD, bw_addr = a, bw_size = n, bw_reserved = [of_nat i, 0, 0, 0]\<rparr>),
     s\<lparr>hw_breakpoint := (hw_breakpoint s)[i := True],
       adapter := (adapter s)\<lparr>sys := (sys (adapter s))(CORTEXM_FPB_COMP i := bkpt_comp (flash_patch_revision s) a)\<rparr>\<rparr>)"
proof -
  obtain j where j: "free_unit (hw_breakpoint s) 0 cap = Inr j" "j \<le> cap" "j < cap \<longrightarrow> \<not> hw_breakpoint s ! j"
      "\<forall>m < j. hw_breakpoint s ! m"
    using free_unit_cases [of 0 cap "hw_breakpoint s"] assms(2,4) by auto
  have less: "j < cap" using j(2,4) assms(5) by (cases "j = cap") auto
  then have nth: "\<not> hw_breakpoint s ! j" using j(3) by simp
  have "cortexm_breakwatch_set (core_ap fns) \<lparr>bw_type = BREAK_HARD, bw_addr = a, bw_size = n, bw_reserved = [0, 0, 0, 0]\<rparr> s =
    (Ret (0, \<lparr>bw_type = BREAK_HARD, bw_addr = a, bw_size = n, bw_reserved = [of_nat j, 0, 0, 0]\<rparr>),
     s\<lparr>hw_breakpoint := (hw_breakpoint s)[j := True],
       adapter := (adapter s)\<lparr>sys := (sys (adapter s))(CORTEXM_FPB_COMP j := bkpt_comp (flash_patch_revision s) a)\<rparr>\<rparr>)"
    using j(1) less assms(1-4)
    by (simp add: cortexm_breakwatch_set_def set_breakpoint_unit_def mark_breakpoint_def set_mark_def liftM_def
        bindM_def thenM_def modM_def retM_def write_comp)
  with less nth show ?thesis by blast
qed

lemma set_unit_full:
  assumes "length (hw_breakpoint s) = 6" "hw_breakpoint_max s = cap" "cap \<le> 6" "\<forall>i < cap. hw_breakpoint s ! i"
    and "bw_type bw = BREAK_HARD"
  shows "cortexm_breakwatch_set (core_ap fns) bw s = (Ret (-1, bw), s)"
proof -
  obtain j where j: "free_unit (hw_breakpoint s) 0 cap = Inr j" "j \<le> cap" "j < cap \<longrightarrow> \<not> hw_breakpoint s ! j"
    using free_unit_cases [of 0 cap "hw_breakpoint s"] assms(1,3) by auto
  then have "j = cap" using assms(4) by auto
  then show ?thesis
    using j(1) assms(2,5)
    by (simp add: cortexm_breakwatch_set_def set_breakpoint_unit_def liftM_def bindM_def retM_def)
qed

lemma clear_unit:
  assumes "\<not> has_cache s" "length (hw_breakpoint s) = 6" "unit_of bw < 6" "bw_type bw = BREAK_HARD"
  shows "cortexm_breakwatch_clear (core_ap fns) bw s = (Ret 0,
     s\<lparr>hw_breakpoint := (hw_breakpoint s)[unit_of bw := False],
       adapter := (adapter s)\<lparr>sys := (sys (adapter s))(CORTEXM_FPB_COMP (unit_of bw) := 0)\<rparr>\<rparr>)"
  using assms
  by (simp add: cortexm_breakwatch_clear_def unit_of_def Let_def mark_breakpoint_def set_mark_def liftM_def
      bindM_def thenM_def modM_def retM_def write_comp)

lemma driven_fns:
  assumes "driven fns os t"
  shows "breakwatch_set_fn t = Some (\<lambda>bw s. case run_or (-1, bw) (cortexm_breakwatch_set (core_ap fns) bw) s of ((r, bw), s) \<Rightarrow> (r, bw, s))"
    "breakwatch_clear_fn t = Some (\<lambda>bws. run_or (-1) (cortexm_breakwatch_clear (core_ap fns) (hd bws)))"
  using assms by (simp_all add: driven_def cortexm_target_def)

lemma driven_update [simp]: "driven fns os (t\<lparr>t_dev := d, bw_list := l\<rparr>) = driven fns os t"
  "driven fns os (t\<lparr>t_dev := d\<rparr>) = driven fns os t"
  by (simp_all add: driven_def cortexm_target_def)

lemma size_bps: "size (bps t) = length (hard (bw_list t))"
  by (simp add: bps_def)

lemma bps_okD:
  assumes "bps_ok fns os cap revision t"
  shows "driven fns os t" "\<not> has_cache (t_dev t)" "length (hw_breakpoint (t_dev t)) = 6"
    "hw_breakpoint_max (t_dev t) = cap" "cap \<le> 6" "units_ok cap (hard (bw_list t)) (t_dev t)"
    "fpb_on cap (t_dev t)" "flash_patch_revision (t_dev t) = revision"
  using assms by (simp_all add: bps_ok_def CORTEXM_MAX_BREAKPOINTS_def)

lemma add_bp_step:
  assumes ok: "bps_ok fns os cap revision t"
  shows "bps_ok fns os cap revision (snd (add_bp bp t)) \<and> (fst (add_bp bp t), bps (snd (add_bp bp t))) = bag_add cap bp (bps t)"
proof -
  note okD = bps_okD [OF ok]
  let ?s = "t_dev t" and ?a = "fst bp" and ?n = "snd bp"
  show ?thesis
  proof (cases "\<forall>i < cap. hw_breakpoint ?s ! i")
    case True
    then have full: "length (hard (bw_list t)) = cap" using units_full(2) [OF okD(6)] by simp
    have "target_breakwatch_set True BREAK_HARD ?a ?n t = (-1, t\<lparr>t_dev := ?s\<rparr>)"
      using set_unit_full [OF okD(3-5) True, of "\<lparr>bw_type = BREAK_HARD, bw_addr = ?a, bw_size = ?n, bw_reserved = [0, 0, 0, 0]\<rparr>" fns]
      by (simp add: target_breakwatch_set_def driven_fns [OF okD(1)] run_or_def)
    then have "add_bp bp t = (False, t)" by (simp add: add_bp_def)
    then show ?thesis using ok full by (simp add: bag_add_def size_bps)
  next
    case False
    obtain i where i: "i < cap" "\<not> hw_breakpoint ?s ! i" and set: "cortexm_breakwatch_set (core_ap fns)
        \<lparr>bw_type = BREAK_HARD, bw_addr = ?a, bw_size = ?n, bw_reserved = [0, 0, 0, 0]\<rparr> ?s =
      (Ret (0, \<lparr>bw_type = BREAK_HARD, bw_addr = ?a, bw_size = ?n, bw_reserved = [of_nat i, 0, 0, 0]\<rparr>),
       ?s\<lparr>hw_breakpoint := (hw_breakpoint ?s)[i := True],
         adapter := (adapter ?s)\<lparr>sys := (sys (adapter ?s))(CORTEXM_FPB_COMP i := bkpt_comp (flash_patch_revision ?s) ?a)\<rparr>\<rparr>)"
      using set_unit_room [OF okD(2-5) False] by blast
    let ?bw = "\<lparr>bw_type = BREAK_HARD, bw_addr = ?a, bw_size = ?n, bw_reserved = [of_nat i, 0, 0, 0 :: u32]\<rparr>"
    let ?s' = "?s\<lparr>hw_breakpoint := (hw_breakpoint ?s)[i := True],
         adapter := (adapter ?s)\<lparr>sys := (sys (adapter ?s))(CORTEXM_FPB_COMP i := bkpt_comp (flash_patch_revision ?s) ?a)\<rparr>\<rparr>"
    have run: "add_bp bp t = (True, t\<lparr>t_dev := ?s', bw_list := ?bw # bw_list t\<rparr>)"
      using set by (simp add: add_bp_def target_breakwatch_set_def driven_fns [OF okD(1)] run_or_def)
    have "unit_of ?bw = i" using i(1) okD(5) by (simp add: unit_of_def unat_of_nat_u32)
    then have "units_ok cap (?bw # hard (bw_list t)) ?s'"
      by (intro units_add [OF okD(6) i okD(5,3)]) simp_all
    moreover have "fpb_on cap ?s'"
      using fpb_on_write [OF okD(7) i(1) okD(5)] by simp
    ultimately have "bps_ok fns os cap revision (t\<lparr>t_dev := ?s', bw_list := ?bw # bw_list t\<rparr>)"
      using okD by (simp add: bps_ok_def CORTEXM_MAX_BREAKPOINTS_def hard_def)
    moreover have "length (hard (bw_list t)) < cap"
      using units_full [OF okD(6)] False by (simp add: le_neq_implies_less)
    ultimately show ?thesis by (simp add: run bag_add_def size_bps) (simp add: bps_def hard_def)
  qed
qed

lemma hard_append [simp]: "hard (xs @ ys) = hard xs @ hard ys"
  by (simp add: hard_def)

lemma del_bp_step:
  assumes ok: "bps_ok fns os cap revision t"
  shows "bps_ok fns os cap revision (snd (del_bp bp t)) \<and> (fst (del_bp bp t), bps (snd (del_bp bp t))) = bag_del bp (bps t)"
proof -
  note okD = bps_okD [OF ok]
  let ?s = "t_dev t" and ?P = "\<lambda>bw. \<not> bw_matches BREAK_HARD (fst bp) (snd bp) bw"
  let ?before = "takeWhile ?P (bw_list t)"
  have list: "bw_list t = ?before @ dropWhile ?P (bw_list t)" by simp
  show ?thesis
  proof (cases "dropWhile ?P (bw_list t)")
    case Nil
    then have "bp \<notin># bps t" by (auto simp: bps_def hard_def bw_matches_def dropWhile_eq_Nil_conv)
    moreover have "del_bp bp t = (False, t)" using Nil by (simp add: del_bp_def target_breakwatch_clear_def)
    ultimately show ?thesis using ok by (simp add: bag_del_def diff_single_trivial)
  next
    case (Cons b rest)
    have "bw_matches BREAK_HARD (fst bp) (snd bp) b" using Cons by (simp only: dropWhile_eq_Cons_conv not_not)
    then have b: "bw_type b = BREAK_HARD" "bw_addr b = fst bp" "bw_size b = snd bp" by (simp_all add: bw_matches_def)
    have hard: "hard (bw_list t) = hard ?before @ b # hard rest"
      using b(1) by (subst list) (simp add: Cons hard_def del: takeWhile_dropWhile_id)
    have units: "units_ok cap (hard ?before @ b # hard rest) ?s" using okD(6) hard by simp
    then have less: "unit_of b < cap" by (simp add: units_ok_def)
    let ?s' = "?s\<lparr>hw_breakpoint := (hw_breakpoint ?s)[unit_of b := False],
       adapter := (adapter ?s)\<lparr>sys := (sys (adapter ?s))(CORTEXM_FPB_COMP (unit_of b) := 0)\<rparr>\<rparr>"
    let ?t' = "t\<lparr>t_dev := ?s', bw_list := ?before @ rest\<rparr>"
    have run: "del_bp bp t = (True, ?t')"
      using clear_unit [OF okD(2,3) _ b(1), of fns] less okD(5) Cons
      by (simp add: del_bp_def target_breakwatch_clear_def driven_fns [OF okD(1)] run_or_def)
    have "units_ok cap (hard ?before @ hard rest) ?s'"
      by (rule units_del [OF units okD(5,3)]) simp_all
    moreover have "fpb_on cap ?s'"
      using fpb_on_write [OF okD(7) less okD(5)] by simp
    ultimately have "bps_ok fns os cap revision ?t'"
      using okD by (simp add: bps_ok_def CORTEXM_MAX_BREAKPOINTS_def)
    moreover have "bps t = add_mset bp (bps ?t')"
      using b by (simp add: bps_def hard)
    ultimately show ?thesis by (simp add: run bag_del_def)
  qed
qed

interpretation core_bag: bounded_bag add_bp del_bp bps "bps_ok fns os cap revision" cap
  for fns os cap revision
  by unfold_locales (use add_bp_step del_bp_step in blast)+

text \<open>The core stops exactly where the bag says.\<close>

lemma comp_stops_bkpt: "comp_stops revision (bkpt_comp revision a) p \<longleftrightarrow> stops_at revision a p"
proof (cases "revision = 0")
  case True
  have m: "bkpt_comp revision a AND 0x1FFFFFFC = a AND 0x1FFFFFFC"
    using True by (simp add: bkpt_comp_def word_ao_dist word_bw_assocs)
  have two: "a AND 2 = 0 \<longleftrightarrow> \<not> bit a 1"
    using and_exp_eq_0_iff_not_bit [of a 1] by simp
  have "bit (bkpt_comp revision a) 31 \<longleftrightarrow> bit a 1" "bit (bkpt_comp revision a) 30 \<longleftrightarrow> \<not> bit a 1" "bit (bkpt_comp revision a) 0"
    using True by (simp_all add: bkpt_comp_def two bit_simps)
  then show ?thesis using True m by (simp add: comp_stops_def stops_at_def)
next
  case False
  then have "bit (bkpt_comp revision a) 0" "bkpt_comp revision a AND NOT 1 = a AND NOT 1"
    by (simp_all add: bkpt_comp_def bit_simps word_ao_dist)
  then show ?thesis using False by (simp add: comp_stops_def stops_at_def)
qed

lemma core_stops_bag:
  assumes ok: "bps_ok fns os cap revision t"
  shows "core_stops (adapter (t_dev t)) p \<longleftrightarrow> (\<exists>bp \<in># bps t. stops_at revision (fst bp) p)"
    (is "_ \<longleftrightarrow> ?R")
proof -
  note okD = bps_okD [OF ok]
  let ?s = "t_dev t" and ?l = "hard (bw_list t)"
  let ?stop = "\<lambda>i. comp_stops revision (sys (adapter ?s) (CORTEXM_FPB_COMP i)) p"
  have on: "revision = drop_bit 28 (sys (adapter ?s) CORTEXM_FPB_CTRL)" "bit (sys (adapter ?s) CORTEXM_FPB_CTRL) 0"
    "cap \<le> fpb_units (adapter ?s)" and off: "\<And>i. cap \<le> i \<Longrightarrow> i < fpb_units (adapter ?s) \<Longrightarrow> \<not> ?stop i"
    using okD(7,8) by (auto simp: fpb_on_def comp_stops_def)
  have free: "\<And>i. i < cap \<Longrightarrow> i \<notin> unit_of ` set ?l \<Longrightarrow> \<not> ?stop i"
    and used: "\<And>bw. bw \<in> set ?l \<Longrightarrow> unit_of bw < cap \<and> ?stop (unit_of bw) = stops_at revision (bw_addr bw) p"
    using okD(6,8) by (auto simp: units_ok_def comp_stops_bkpt) (simp add: comp_stops_def)
  have "core_stops (adapter ?s) p \<longleftrightarrow> (\<exists>i < fpb_units (adapter ?s). ?stop i)" using on by (simp add: core_stops_def)
  also have "\<dots> \<longleftrightarrow> (\<exists>bw \<in> set ?l. ?stop (unit_of bw))"
  proof
    assume "\<exists>i < fpb_units (adapter ?s). ?stop i"
    then obtain i where i: "i < fpb_units (adapter ?s)" "?stop i" by blast
    then have "i < cap" using off [of i] by (meson not_le)
    then have "i \<in> unit_of ` set ?l" using free i(2) by blast
    then show "\<exists>bw \<in> set ?l. ?stop (unit_of bw)" using i(2) by blast
  next
    assume "\<exists>bw \<in> set ?l. ?stop (unit_of bw)"
    then obtain bw where bw: "bw \<in> set ?l" "?stop (unit_of bw)" by blast
    then have "unit_of bw < fpb_units (adapter ?s)" using used on(3) less_le_trans by blast
    then show "\<exists>i < fpb_units (adapter ?s). ?stop i" using bw(2) by blast
  qed
  also have "\<dots> \<longleftrightarrow> ?R" using used by (force simp: bps_def)
  finally show ?thesis .
qed

end
