(* ===== verification/Cortexm_Breakpoints.thy ===== *)
theory Cortexm_Breakpoints
  imports Cortexm_Target
begin

text \<open>
  Hardware breakpoints from attaching on: \<^verbatim>\<open>cortexm_attach\<close> clears the units of the core, and every
  sequence of \<^verbatim>\<open>target_breakwatch_set\<close> and \<^verbatim>\<open>target_breakwatch_clear\<close> after it is the same sequence on
  a bag of addresses, with as much room as the driver uses units; the core stops where the bag says.
\<close>

section \<open>Clearing the units\<close>

definition cleared :: "nat list \<Rightarrow> core cortexm \<Rightarrow> core cortexm \<Rightarrow> bool" where
  "cleared is s s' \<longleftrightarrow>
     (\<exists>u y. s' = s\<lparr>hw_breakpoint := u, adapter := (adapter s)\<lparr>sys := y\<rparr>\<rparr> \<and> length u = length (hw_breakpoint s) \<and>
        (\<forall>j < length u. u ! j = (j \<notin> set is \<and> hw_breakpoint s ! j)) \<and>
        (\<forall>a. y a = (if a \<in> CORTEXM_FPB_COMP ` set is then 0 else sys (adapter s) a)))"

lemma clear_breakpoints:
  assumes "\<not> has_cache s" "\<forall>i \<in> set is. i < length (hw_breakpoint s)" "length (hw_breakpoint s) \<le> 6"
  shows "\<exists>s'. eachM (\<lambda>i. thenM (write32 (core_ap fns) (CORTEXM_FPB_COMP i) 0) (mark_breakpoint i False)) is s = (Ret (), s') \<and>
    cleared is s s'"
  using assms
proof (induction "is" arbitrary: s)
  case Nil
  have "s = s\<lparr>hw_breakpoint := hw_breakpoint s, adapter := (adapter s)\<lparr>sys := sys (adapter s)\<rparr>\<rparr>" by simp
  then show ?case by (force simp: cleared_def retM_def)
next
  case (Cons i "is")
  let ?s1 = "s\<lparr>hw_breakpoint := (hw_breakpoint s)[i := False],
      adapter := (adapter s)\<lparr>sys := (sys (adapter s))(CORTEXM_FPB_COMP i := 0)\<rparr>\<rparr>"
  have i: "i < length (hw_breakpoint s)" "i < 128" using Cons.prems(2,3) by auto
  have one: "thenM (write32 (core_ap fns) (CORTEXM_FPB_COMP i) 0) (mark_breakpoint i False) s = (Ret (), ?s1)"
    using i Cons.prems(1)
    by (simp add: write_comp mark_breakpoint_def set_mark_def liftM_def bindM_def thenM_def modM_def)
  obtain s' where s': "eachM (\<lambda>i. thenM (write32 (core_ap fns) (CORTEXM_FPB_COMP i) 0) (mark_breakpoint i False)) is ?s1 = (Ret (), s')"
      "cleared is ?s1 s'"
    using Cons.IH [of ?s1] Cons.prems by auto
  obtain u y where u: "s' = ?s1\<lparr>hw_breakpoint := u, adapter := (adapter ?s1)\<lparr>sys := y\<rparr>\<rparr>" "length u = length (hw_breakpoint s)"
      "\<forall>j < length u. u ! j = (j \<notin> set is \<and> (hw_breakpoint s)[i := False] ! j)"
      "\<forall>a. y a = (if a \<in> CORTEXM_FPB_COMP ` set is then 0 else ((sys (adapter s))(CORTEXM_FPB_COMP i := 0)) a)"
    using s'(2) by (auto simp: cleared_def)
  have "cleared (i # is) s s'"
    unfolding cleared_def
    by (intro exI [of _ u] exI [of _ y]) (use u i in \<open>auto simp: nth_list_update\<close>)
  then show ?case using one s'(1) by (auto simp: run_simps)
qed

definition dwt_cleared :: "nat list \<Rightarrow> core cortexm \<Rightarrow> core cortexm \<Rightarrow> bool" where
  "dwt_cleared is s s' \<longleftrightarrow>
     (\<exists>u y. s' = s\<lparr>hw_watchpoint := u, adapter := (adapter s)\<lparr>sys := y\<rparr>\<rparr> \<and> length u = length (hw_watchpoint s) \<and>
        (\<forall>a. a \<notin> CORTEXM_DWT_FUNC ` set is \<longrightarrow> y a = sys (adapter s) a))"

lemma clear_watchpoints:
  assumes "\<not> has_cache s" "\<forall>i \<in> set is. i < length (hw_watchpoint s)" "length (hw_watchpoint s) \<le> 4"
  shows "\<exists>s'. eachM (\<lambda>i. thenM (write32 (core_ap fns) (CORTEXM_DWT_FUNC i) 0) (mark_watchpoint i False)) is s = (Ret (), s') \<and>
    dwt_cleared is s s'"
  using assms
proof (induction "is" arbitrary: s)
  case Nil
  have "s = s\<lparr>hw_watchpoint := hw_watchpoint s, adapter := (adapter s)\<lparr>sys := sys (adapter s)\<rparr>\<rparr>" by simp
  then show ?case by (force simp: dwt_cleared_def retM_def)
next
  case (Cons i "is")
  let ?s1 = "s\<lparr>hw_watchpoint := (hw_watchpoint s)[i := False],
      adapter := (adapter s)\<lparr>sys := (sys (adapter s))(CORTEXM_DWT_FUNC i := 0)\<rparr>\<rparr>"
  have i: "i < length (hw_watchpoint s)" "i < 16" using Cons.prems(2,3) by auto
  have "CORTEXM_DWT_FUNC i \<noteq> CORTEXM_FPB_CTRL" using unat_func [OF i(2)] i(2) by (auto simp: cortexm_registers)
  then have "write32 (core_ap fns) (CORTEXM_DWT_FUNC i) 0 s =
      (Ret (), s\<lparr>adapter := (adapter s)\<lparr>sys := (sys (adapter s))(CORTEXM_DWT_FUNC i := 0)\<rparr>\<rparr>)"
    using write_plain [of "CORTEXM_DWT_FUNC i"] unat_func [OF i(2)] i Cons.prems(1)
    by (simp add: write32_sys)
  then have one: "thenM (write32 (core_ap fns) (CORTEXM_DWT_FUNC i) 0) (mark_watchpoint i False) s = (Ret (), ?s1)"
    using i by (simp add: mark_watchpoint_def set_mark_def liftM_def bindM_def thenM_def modM_def)
  obtain s' where s': "eachM (\<lambda>i. thenM (write32 (core_ap fns) (CORTEXM_DWT_FUNC i) 0) (mark_watchpoint i False)) is ?s1 = (Ret (), s')"
      "dwt_cleared is ?s1 s'"
    using Cons.IH [of ?s1] Cons.prems by auto
  obtain u y where u: "s' = ?s1\<lparr>hw_watchpoint := u, adapter := (adapter ?s1)\<lparr>sys := y\<rparr>\<rparr>" "length u = length (hw_watchpoint s)"
      "\<forall>a. a \<notin> CORTEXM_DWT_FUNC ` set is \<longrightarrow> y a = ((sys (adapter s))(CORTEXM_DWT_FUNC i := 0)) a"
    using s'(2) by (auto simp: dwt_cleared_def)
  have "dwt_cleared (i # is) s s'"
    unfolding dwt_cleared_def by (intro exI [of _ u] exI [of _ y]) (use u in auto)
  then show ?case using one s'(1) by (auto simp: run_simps)
qed

section \<open>Attaching\<close>

text \<open>
  A target as it is before it is attached to, on a core with at most four watchpoint units. The
  breakpoint units that the driver will not use, if there are any, are off.
\<close>

definition fpb_room :: "core \<Rightarrow> nat" where
  "fpb_room c = min 6 (unat (drop_bit 4 (sys c CORTEXM_FPB_CTRL) AND 0xF))"

definition attachable :: "core cortexm \<Rightarrow> bool" where
  "attachable s \<longleftrightarrow> \<not> has_cache s \<and> length (hw_breakpoint s) = CORTEXM_MAX_BREAKPOINTS \<and>
     length (hw_watchpoint s) = CORTEXM_MAX_WATCHPOINTS \<and> unat (drop_bit 28 (sys (adapter s) CORTEXM_DWT_CTRL)) \<le> 4 \<and>
     (\<forall>i \<in> {fpb_room (adapter s)..<fpb_units (adapter s)}. \<not> bit (sys (adapter s) (CORTEXM_FPB_COMP i)) 0)"

text \<open>The first steps only write the control words of the core, and stop it.\<close>

lemma attach_begin:
  assumes "\<not> has_cache s"
  shows "\<exists>y. thenM (cortexm_check_error (core_ap fns)) (thenM (cortexm_halt_request (core_ap fns))
      (thenM (bindM (getM demcr) (write32 (core_ap fns) CORTEXM_DEMCR))
        (thenM (write32 (core_ap fns) CORTEXM_DFSR DFSR_RESETALL) k))) s =
    k (s\<lparr>adapter := (adapter s)\<lparr>sticky := False, sys := y\<rparr>\<rparr>) \<and>
    (\<forall>a. unat a < 0xE000ED00 \<longrightarrow> y a = sys (adapter s) a) \<and> y CORTEXM_DHCSR AND DHCSR_S_RESET_ST = 0"
proof -
  have sys: "system_space CORTEXM_DHCSR" "system_space CORTEXM_DEMCR" "system_space CORTEXM_DFSR"
    by (simp_all add: system_space_def cortexm_registers)
  let ?h = "DHCSR_DBGKEY OR DHCSR_C_HALT OR DHCSR_C_DEBUGEN"
  have err: "cortexm_check_error (core_ap fns) s = (Ret (sticky (adapter s)), s\<lparr>adapter := (adapter s)\<lparr>sticky := False\<rparr>\<rparr>)"
    by (simp add: cortexm_check_error_def run_simps core_error_def)
  have halt: "cortexm_halt_request (core_ap fns) u = (Ret (), u\<lparr>adapter := (adapter u)\<lparr>sys := (sys (adapter u))(CORTEXM_DHCSR := ?h)\<rparr>\<rparr>)"
    if "\<not> has_cache u" for u
    using that sys(1) by (simp add: cortexm_halt_request_def tryM_def run_simps write_word_def cortexm_registers)
  have demcr: "bindM (getM demcr) (write32 (core_ap fns) CORTEXM_DEMCR) u =
      (Ret (), u\<lparr>adapter := (adapter u)\<lparr>sys := (sys (adapter u))(CORTEXM_DEMCR := demcr u)\<rparr>\<rparr>)" if "\<not> has_cache u" for u
    using that sys(2) by (simp add: run_simps write_word_def cortexm_registers)
  have dfsr: "write32 (core_ap fns) CORTEXM_DFSR DFSR_RESETALL u = (Ret (), u\<lparr>adapter := (adapter u)\<lparr>sys :=
      (sys (adapter u))(CORTEXM_DFSR := sys (adapter u) CORTEXM_DFSR AND NOT DFSR_RESETALL)\<rparr>\<rparr>)" if "\<not> has_cache u" for u
    using that sys(3) by (simp add: run_simps write_word_def cortexm_registers)
  let ?y1 = "(sys (adapter s))(CORTEXM_DHCSR := ?h, CORTEXM_DEMCR := demcr s)"
  let ?y = "?y1(CORTEXM_DFSR := ?y1 CORTEXM_DFSR AND NOT DFSR_RESETALL)"
  have "\<forall>a. unat a < 0xE000ED00 \<longrightarrow> ?y a = sys (adapter s) a" "?y CORTEXM_DHCSR AND DHCSR_S_RESET_ST = 0"
    by (auto simp: cortexm_registers cortexm_bits)
  then show ?thesis
    by (intro exI [of _ ?y]) (use assms in \<open>simp add: err then_run(1) halt demcr dfsr del: fun_upd_apply\<close>)
qed

lemma system_space_low [simp]: "system_space CORTEXM_FPB_CTRL" "system_space CORTEXM_DWT_CTRL" "system_space CORTEXM_DHCSR"
  by (simp_all add: system_space_def cortexm_registers)

lemma enable_fpb:
  "write_word CORTEXM_FPB_CTRL (FPB_CTRL_KEY OR FPB_CTRL_ENABLE) c =
    c\<lparr>sys := (sys c)(CORTEXM_FPB_CTRL := sys c CORTEXM_FPB_CTRL OR 1)\<rparr>"
proof -
  have "(x AND NOT 1) OR 1 = x OR 1" for x :: u32 by (rule bit_word_eqI) (auto simp: bit_simps)
  from this [of "sys c CORTEXM_FPB_CTRL"] show ?thesis by (simp add: write_word_def cortexm_registers cortexm_bits)
qed

lemma size_units_run:
  assumes "\<not> has_cache s" "unat (drop_bit 28 (sys (adapter s) CORTEXM_DWT_CTRL)) \<le> 4"
  shows "size_units (core_ap fns) s = (Ret (), s\<lparr>hw_breakpoint_max := fpb_room (adapter s),
    flash_patch_revision := drop_bit 28 (sys (adapter s) CORTEXM_FPB_CTRL), hw_watchpoint_max := 4\<rparr>)"
  using assms
  by (simp add: size_units_def run_simps fpb_room_def CORTEXM_MAX_BREAKPOINTS_def CORTEXM_MAX_WATCHPOINTS_def max_def
      cortexm_registers system_space_def)

text \<open>The clearing of all units that the driver counts.\<close>

lemma clear_units_run:
  assumes "\<not> has_cache s" "length (hw_breakpoint s) = 6" "length (hw_watchpoint s) = 4"
    and "hw_breakpoint_max s = cap" "cap \<le> 6" "hw_watchpoint_max s = 4"
  shows "\<exists>u w y. clear_units (core_ap fns) s =
      (Ret (), s\<lparr>hw_breakpoint := u, hw_watchpoint := w, adapter := (adapter s)\<lparr>sys := y\<rparr>\<rparr>) \<and>
    length u = 6 \<and> (\<forall>i < cap. \<not> u ! i) \<and> (\<forall>i < cap. y (CORTEXM_FPB_COMP i) = 0) \<and>
    (\<forall>i. cap \<le> i \<and> i < 128 \<longrightarrow> y (CORTEXM_FPB_COMP i) = sys (adapter s) (CORTEXM_FPB_COMP i)) \<and>
    (\<forall>a \<in> {CORTEXM_FPB_CTRL, CORTEXM_DHCSR}. y a = sys (adapter s) a)"
proof -
  obtain s1 where s1: "eachM (\<lambda>i. thenM (write32 (core_ap fns) (CORTEXM_FPB_COMP i) 0) (mark_breakpoint i False)) [0..<cap] s =
      (Ret (), s1)" "cleared [0..<cap] s s1"
    using clear_breakpoints [of s "[0..<cap]" fns] assms by auto
  obtain u y where u: "s1 = s\<lparr>hw_breakpoint := u, adapter := (adapter s)\<lparr>sys := y\<rparr>\<rparr>" "length u = 6"
      "\<forall>j < 6. u ! j = (\<not> j < cap \<and> hw_breakpoint s ! j)"
      "\<forall>a. y a = (if a \<in> CORTEXM_FPB_COMP ` {..<cap} then 0 else sys (adapter s) a)"
    using s1(2) assms(2) by (auto simp: cleared_def atLeast0LessThan)
  obtain s2 where s2: "eachM (\<lambda>i. thenM (write32 (core_ap fns) (CORTEXM_DWT_FUNC i) 0) (mark_watchpoint i False)) [0..<4] s1 =
      (Ret (), s2)" "dwt_cleared [0..<4] s1 s2"
    using clear_watchpoints [of s1 "[0..<4]" fns] u(1) assms by auto
  obtain w z where w: "s2 = s\<lparr>hw_breakpoint := u, hw_watchpoint := w, adapter := (adapter s)\<lparr>sys := z\<rparr>\<rparr>"
      "\<forall>a. a \<notin> CORTEXM_DWT_FUNC ` {..<4} \<longrightarrow> z a = y a"
    using s2(2) by (auto simp: dwt_cleared_def u(1) atLeast0LessThan)
  have run: "clear_units (core_ap fns) s = (Ret (), s2)"
    using s1(1) s2(1) by (simp add: clear_units_def assms(4,6) then_run(1))
  have z: "z a = y a" if "0xE0002000 \<le> unat a" for a
  proof -
    have "a \<noteq> CORTEXM_DWT_FUNC j" if "j < 4" for j
      using unat_func [of j] that \<open>0xE0002000 \<le> unat a\<close> by auto
    then show ?thesis using w(2) by blast
  qed
  have z_comp: "z (CORTEXM_FPB_COMP i) = y (CORTEXM_FPB_COMP i)" if "i < 128" for i
    using z unat_comp [OF that] by simp
  have z_ctrl: "z CORTEXM_FPB_CTRL = y CORTEXM_FPB_CTRL" "z CORTEXM_DHCSR = y CORTEXM_DHCSR"
    using z by (simp_all add: cortexm_registers)
  have y_ctrl: "y CORTEXM_FPB_CTRL = sys (adapter s) CORTEXM_FPB_CTRL" "y CORTEXM_DHCSR = sys (adapter s) CORTEXM_DHCSR"
  proof -
    have "CORTEXM_FPB_CTRL \<noteq> CORTEXM_FPB_COMP i" "CORTEXM_DHCSR \<noteq> CORTEXM_FPB_COMP i" if "i < cap" for i
      using ctrl_not_comp [of i] unat_comp [of i] that assms(5) by (auto simp: CORTEXM_DHCSR_def)
    then show "y CORTEXM_FPB_CTRL = sys (adapter s) CORTEXM_FPB_CTRL" "y CORTEXM_DHCSR = sys (adapter s) CORTEXM_DHCSR"
      using u(4) by auto
  qed
  have y_comp: "y (CORTEXM_FPB_COMP i) = (if i < cap then 0 else sys (adapter s) (CORTEXM_FPB_COMP i))" if "i < 128" for i
    using u(4) comp_inj [OF that] assms(5) by (auto simp: image_iff)
  show ?thesis
    by (intro exI [of _ u] exI [of _ w] exI [of _ z] conjI)
      (use run w(1) u(2,3) z_comp z_ctrl y_comp y_ctrl assms(5) in auto)
qed

text \<open>After attaching, no unit is in use, and the units are on.\<close>

lemma key_written: "drop_bit 28 (x OR 1) = drop_bit 28 (x :: u32)"
  "drop_bit 4 (x OR 1) = drop_bit 4 x" "drop_bit 12 (x OR 1) = drop_bit 12 x" "bit (x OR 1) 0"
  by (simp_all add: drop_bit_or bit_simps)

lemma attach_clears:
  assumes "attachable s"
  shows "\<exists>d. cortexm_attach (core_ap fns) s = (Ret True, d) \<and> \<not> has_cache d \<and> length (hw_breakpoint d) = 6 \<and>
    hw_breakpoint_max d = fpb_room (adapter s) \<and>
    flash_patch_revision d = drop_bit 28 (sys (adapter s) CORTEXM_FPB_CTRL) \<and>
    units_ok (fpb_room (adapter s)) [] d \<and> fpb_on (fpb_room (adapter s)) d"
proof -
  let ?cap = "fpb_room (adapter s)"
  have s: "\<not> has_cache s" "length (hw_breakpoint s) = 6" "length (hw_watchpoint s) = 4"
    "unat (drop_bit 28 (sys (adapter s) CORTEXM_DWT_CTRL)) \<le> 4"
    and off: "\<And>i. ?cap \<le> i \<Longrightarrow> i < fpb_units (adapter s) \<Longrightarrow> \<not> bit (sys (adapter s) (CORTEXM_FPB_COMP i)) 0"
    using assms by (simp_all add: attachable_def CORTEXM_MAX_BREAKPOINTS_def CORTEXM_MAX_WATCHPOINTS_def)
  define rest where "rest = thenM (size_units (core_ap fns)) (thenM (clear_units (core_ap fns))
    (thenM (write32 (core_ap fns) CORTEXM_FPB_CTRL (FPB_CTRL_KEY OR FPB_CTRL_ENABLE))
      (thenM (read32 (core_ap fns) CORTEXM_DHCSR)
        (bindM (read32 (core_ap fns) CORTEXM_DHCSR) (\<lambda>dhcsr.
          if dhcsr AND DHCSR_S_RESET_ST = 0 then retM True
          else thenM (on_ap (platform_srst_set_val (core_ap fns) False))
                 (bindM (on_ap (time_ms (core_ap fns))) (\<lambda>now.
                  attach_wait (core_ap fns) (patience (core_ap fns)) (Utils.platform_timeout_set now 1000))))))))"
  obtain y where y: "cortexm_attach (core_ap fns) s = rest (s\<lparr>adapter := (adapter s)\<lparr>sticky := False, sys := y\<rparr>\<rparr>)"
      "\<forall>a. unat a < 0xE000ED00 \<longrightarrow> y a = sys (adapter s) a" "y CORTEXM_DHCSR AND DHCSR_S_RESET_ST = 0"
    using attach_begin [OF s(1), of fns rest] by (auto simp: cortexm_attach_def rest_def)
  have low: "y CORTEXM_FPB_CTRL = sys (adapter s) CORTEXM_FPB_CTRL" "y CORTEXM_DWT_CTRL = sys (adapter s) CORTEXM_DWT_CTRL"
    and comp: "\<And>i. i < 128 \<Longrightarrow> y (CORTEXM_FPB_COMP i) = sys (adapter s) (CORTEXM_FPB_COMP i)"
    using y(2) unat_comp by (simp_all add: cortexm_registers)
  let ?s1 = "s\<lparr>adapter := (adapter s)\<lparr>sticky := False, sys := y\<rparr>, hw_breakpoint_max := ?cap,
    flash_patch_revision := drop_bit 28 (y CORTEXM_FPB_CTRL), hw_watchpoint_max := 4\<rparr>"
  have size: "size_units (core_ap fns) (s\<lparr>adapter := (adapter s)\<lparr>sticky := False, sys := y\<rparr>\<rparr>) = (Ret (), ?s1)"
    using s(1,4) by (simp add: size_units_run low fpb_room_def)
  have cap: "?cap \<le> 6" by (simp add: fpb_room_def)
  obtain u w z where clear: "clear_units (core_ap fns) ?s1 =
      (Ret (), ?s1\<lparr>hw_breakpoint := u, hw_watchpoint := w, adapter := (adapter ?s1)\<lparr>sys := z\<rparr>\<rparr>)"
    and u: "length u = 6" "\<forall>i < ?cap. \<not> u ! i" "\<forall>i < ?cap. z (CORTEXM_FPB_COMP i) = 0"
      "\<forall>i. ?cap \<le> i \<and> i < 128 \<longrightarrow> z (CORTEXM_FPB_COMP i) = y (CORTEXM_FPB_COMP i)"
      "z CORTEXM_FPB_CTRL = y CORTEXM_FPB_CTRL" "z CORTEXM_DHCSR = y CORTEXM_DHCSR"
    using clear_units_run [of ?s1 ?cap fns] s cap by auto
  let ?z = "z(CORTEXM_FPB_CTRL := z CORTEXM_FPB_CTRL OR 1)"
  let ?d = "?s1\<lparr>hw_breakpoint := u, hw_watchpoint := w, adapter := (adapter ?s1)\<lparr>sys := ?z\<rparr>\<rparr>"
  have key: "write32 (core_ap fns) CORTEXM_FPB_CTRL (FPB_CTRL_KEY OR FPB_CTRL_ENABLE)
      (?s1\<lparr>hw_breakpoint := u, hw_watchpoint := w, adapter := (adapter ?s1)\<lparr>sys := z\<rparr>\<rparr>) = (Ret (), ?d)"
    using s(1) by (simp add: write32_sys enable_fpb)
  have dhcsr: "read32 (core_ap fns) CORTEXM_DHCSR ?d = (Ret (y CORTEXM_DHCSR), ?d)"
    using s(1) u(6) by (simp add: read32_sys) (simp add: cortexm_registers)
  have run: "cortexm_attach (core_ap fns) s = (Ret True, ?d)"
    unfolding y(1) rest_def
    by (simp only: then_run(1) bind_run(1) size clear key dhcsr y(3) if_True simp_thms basic_run)
  have z: "?z (CORTEXM_FPB_COMP i) = z (CORTEXM_FPB_COMP i)" if "i < 128" for i
    using ctrl_not_comp [OF that] by simp
  have units: "fpb_units (adapter ?d) = fpb_units (adapter s)"
    by (simp add: fpb_units_def key_written u(5) low)
  have "units_ok ?cap [] ?d" using u(2,3) cap z by (simp add: units_ok_def)
  moreover have "fpb_on ?cap ?d"
    unfolding fpb_on_def units
  proof (intro conjI allI impI)
    show "flash_patch_revision ?d = drop_bit 28 (sys (adapter ?d) CORTEXM_FPB_CTRL)" "bit (sys (adapter ?d) CORTEXM_FPB_CTRL) 0"
      by (simp_all add: key_written u(5))
    show "?cap \<le> fpb_units (adapter s)" by (simp add: fpb_room_def fpb_units_def)
    fix i assume i: "?cap \<le> i \<and> i < fpb_units (adapter s)"
    then have "i < 128" using fpb_units_less [of "adapter s"] by simp
    then have "?z (CORTEXM_FPB_COMP i) = sys (adapter s) (CORTEXM_FPB_COMP i)" using z u(4) comp i by metis
    then show "\<not> bit (sys (adapter ?d) (CORTEXM_FPB_COMP i)) 0" using off i by simp
  qed
  ultimately show ?thesis
    using run s(1) u(1) by (intro exI [of _ ?d]) (simp add: low)
qed

section \<open>Breakpoints are a bag\<close>

text \<open>
  C15: After a target has been attached to, setting and clearing hardware breakpoints in any order
  answers as a bag with the room of the breakpoint unit, at most six, would; the list of the
  target is that bag, it never outgrows the room, and the core stops exactly at the half words of
  the addresses in it. On a unit of revision 0 that holds up to the alias of the code region. The
  server has memory for the entries of the list.
\<close>

theorem breakpoints_refine_bag:
  assumes "attachable s"
    and "target_attach destroy i [cortexm_target (core_ap fns) os i s] u = Inr (r, [t], u')"
    and "bag_run add_bp del_bp ops t = (answers, t')"
  shows "r = Some i \<and> bag_run (bag_add (fpb_room (adapter s))) bag_del ops {#} = (answers, bps t') \<and>
    size (bps t') \<le> fpb_room (adapter s) \<and>
    (\<forall>p. core_stops (adapter (t_dev t')) p \<longleftrightarrow>
      (\<exists>bp \<in># bps t'. stops_at (drop_bit 28 (sys (adapter s) CORTEXM_FPB_CTRL)) (fst bp) p))"
proof -
  let ?t0 = "cortexm_target (core_ap fns) os i s" and ?cap = "fpb_room (adapter s)"
  let ?rev = "drop_bit 28 (sys (adapter s) CORTEXM_FPB_CTRL)"
  obtain d where d: "cortexm_attach (core_ap fns) s = (Ret True, d)" "\<not> has_cache d" "length (hw_breakpoint d) = 6"
      "hw_breakpoint_max d = ?cap" "flash_patch_revision d = ?rev" "units_ok ?cap [] d" "fpb_on ?cap d"
    using attach_clears [OF assms(1), of fns] by blast
  have "r = Some i" and t: "t = ?t0\<lparr>has_tc := True, t_dev := d, attached := True\<rparr>"
    using assms(2) d(1)
    by (auto simp: target_attach_def with_target_def get_target_def set_target_def cortexm_target_def nop_target_def run_or_def)
  have ok: "bps_ok fns os ?cap ?rev t"
    using d(2-7) by (simp add: bps_ok_def t driven_def cortexm_target_def nop_target_def hard_def fpb_room_def
        CORTEXM_MAX_BREAKPOINTS_def)
  have empty: "bps t = {#}" by (simp add: t bps_def hard_def cortexm_target_def nop_target_def)
  have run: "bps_ok fns os ?cap ?rev t'" "bag_run (bag_add ?cap) bag_del ops {#} = (answers, bps t')"
    using core_bag.run_refines [OF ok assms(3)] by (simp_all add: empty)
  then show ?thesis
    using \<open>r = Some i\<close> core_bag.bag_bounded [OF ok assms(3)] core_stops_bag [OF run(1)] by (simp add: empty)
qed

text \<open>A core with two breakpoint units of revision 1, and a host that does nothing.\<close>

definition two_units :: core where
  "two_units = plain_core (\<lambda>n. 0) (\<lambda>a. if a = CORTEXM_FPB_CTRL then 0x10000020 else 0) (\<lambda>a. 0)"

definition idle_os :: "core host_os" where
  "idle_os =
     \<lparr>os_modes = replicate 6 0, os_malloc = (\<lambda>n c. False), os_open = (\<lambda>f fl m c. (-1, c)), os_close = (\<lambda>fd c. (-1, c)),
      os_read = (\<lambda>fd n c. (-1, replicate (unat n) 0, c)), os_write = (\<lambda>fd bs c. (-1, c)), os_stderr = (\<lambda>b c. c),
      os_isatty = (\<lambda>fd c. (0, c)), os_lseek = (\<lambda>fd n c. (-1, c)), os_rename = (\<lambda>f g c. (-1, c)),
      os_remove = (\<lambda>f c. (-1, c)), os_system = (\<lambda>f c. (-1, c)), os_fstat = (\<lambda>fd c. (None, c)),
      os_gettimeofday = (\<lambda>c. (None, c)), os_time = (\<lambda>c. (0, c)), os_getchar = (\<lambda>c. (-1, c)), os_errno = (\<lambda>c. 0)\<rparr>"

definition example_ops :: "(u32 \<times> u32) bag_op list" where
  "example_ops = [Add (0x08000100, 2), Add (0x20000200, 2), Add (0x08000300, 2), Del (0x08000100, 2),
     Del (0x08000300, 2), Add (0x08000302, 2)]"

lemma two_units_room: "fpb_room two_units = 2" "fpb_units two_units = 2"
  "drop_bit 28 (sys two_units CORTEXM_FPB_CTRL) = 1"
  by (simp_all add: two_units_def plain_core_def fpb_room_def fpb_units_def)

lemma target_attach_single: "t_id t = i \<Longrightarrow> \<exists>r t' u'. target_attach destroy i [t] u = Inr (r, [t'], u')"
  by (cases "attach_fn t (t_dev t)") (simp add: target_attach_def with_target_def get_target_def set_target_def Let_def)

lemma cortexm_target_id: "t_id (cortexm_target A os i s) = i"
  by (simp add: cortexm_target_def nop_target_def)

theorem breakpoints_refine_bag_witness:
  "\<exists>t u t'. target_attach (\<lambda>i u. u) 1 [cortexm_target (core_ap True) idle_os 1 (new_cortexm 0 two_units)] () =
      Inr (Some 1, [t], u) \<and>
    bag_run add_bp del_bp example_ops t = ([True, True, False, True, False, True], t') \<and>
    core_stops (adapter (t_dev t')) 0x20000200 \<and> core_stops (adapter (t_dev t')) 0x08000302 \<and>
    \<not> core_stops (adapter (t_dev t')) 0x08000100 \<and> \<not> core_stops (adapter (t_dev t')) 0x08000300"
proof -
  let ?s = "new_cortexm 0 two_units"
  have ok: "attachable ?s"
    by (simp add: attachable_def new_cortexm_def two_units_room)
      (simp add: two_units_def plain_core_def cortexm_registers CORTEXM_MAX_BREAKPOINTS_def CORTEXM_MAX_WATCHPOINTS_def)
  have s: "adapter ?s = two_units" by (simp add: new_cortexm_def)
  obtain r t u where t: "target_attach (\<lambda>i u. u) 1 [cortexm_target (core_ap True) idle_os 1 ?s] () = Inr (r, [t], u)"
    using target_attach_single [of "cortexm_target (core_ap True) idle_os 1 ?s" 1 "\<lambda>i u. u" "()"]
    by (auto simp: cortexm_target_id)
  obtain answers t' where t': "bag_run add_bp del_bp example_ops t = (answers, t')" by fastforce
  note all = breakpoints_refine_bag [OF ok t t', unfolded s two_units_room]
  have run: "bag_run (bag_add 2) bag_del example_ops {#} =
      ([True, True, False, True, False, True], {# (0x20000200, 2), (0x08000302, 2) #})"
    by (simp add: example_ops_def bag_add_def bag_del_def)
  have "answers = [True, True, False, True, False, True]" "bps t' = {# (0x20000200, 2), (0x08000302, 2) #}"
    using all run by auto
  then show ?thesis using all t t' by (auto simp: stops_at_def)
qed

end
