(* ===== verification/Morse.thy ===== *)
theory Morse
  imports Prelude
begin

text \<open>
  \<^verbatim>\<open>GdbServer/Gdb/morse.c\<close>: blinking a message in Morse code. A letter is a pattern of on and off
  ticks, least significant bit first, and its number of ticks; \<open>morse_update\<close> gives one tick per
  call. \<open>morse_ptr\<close> is an index into \<open>morse_msg\<close>; reading behind the terminating zero of the
  message is undefined.
\<close>

definition morse_letter :: "(u16 \<times> u8) list" where
  "morse_letter = [
    (0x1d, 8),
    (0x157, 12),
    (0x5d7, 14),
    (0x57, 10),
    (0x1, 4),
    (0x175, 12),
    (0x177, 12),
    (0x55, 10),
    (0x5, 6),
    (0x1ddd, 16),
    (0x1d7, 12),
    (0x15d, 12),
    (0x77, 10),
    (0x17, 8),
    (0x777, 14),
    (0x5dd, 14),
    (0x1d77, 16),
    (0x5d, 10),
    (0x15, 8),
    (0x7, 6),
    (0x75, 10),
    (0x1d5, 12),
    (0x1dd, 12),
    (0x757, 14),
    (0x1dd7, 16),
    (0x577, 14)]"

record morse_state =
  morse_msg :: "u8 list"
  morse_ptr :: "nat option"
  morse_repeat :: bool
  morse_code :: u16
  morse_bits :: u8

text \<open>\<open>morse\<close> as the probe firmware compiles it; the hosted build only prints the message.\<close>

definition morse :: "u8 list option \<Rightarrow> bool \<Rightarrow> morse_state \<Rightarrow> morse_state" where
  "morse msg repeat s =
     s\<lparr>morse_msg := (case msg of Some m \<Rightarrow> m | None \<Rightarrow> []),
       morse_ptr := (case msg of Some m \<Rightarrow> Some 0 | None \<Rightarrow> None),
       morse_repeat := repeat\<rparr>"

definition msg_char :: "u8 list \<Rightarrow> nat \<Rightarrow> u8 result" where
  "msg_char m i =
     (if i < length m then Inr (m ! i) else if i = length m then Inr 0 else Inl Crash)"

definition morse_load :: "u8 \<Rightarrow> u16 \<times> u8" where
  "morse_load c = (if 0x41 \<le> c \<and> c \<le> 0x5A then morse_letter ! unat (c - 0x41) else (0, 4))"

definition morse_tick :: "morse_state \<Rightarrow> bool \<times> morse_state" where
  "morse_tick s =
     (bit (morse_code s) 0, s\<lparr>morse_code := drop_bit 1 (morse_code s), morse_bits := morse_bits s - 1\<rparr>)"

definition morse_update :: "morse_state \<Rightarrow> (bool \<times> morse_state) result" where
  "morse_update s =
     (case morse_ptr s of
        None \<Rightarrow> Inr (False, s)
      | Some p \<Rightarrow>
          if morse_bits s \<noteq> 0 then Inr (morse_tick s)
          else bindR (msg_char (morse_msg s) p) (\<lambda>c.
            if c = 0
            then if morse_repeat s
                 then bindR (msg_char (morse_msg s) 0) (\<lambda>c.
                   let (code, bits) = morse_load c in
                   Inr (morse_tick (s\<lparr>morse_ptr := Some 1, morse_code := code, morse_bits := bits\<rparr>)))
                 else Inr (False, s\<lparr>morse_ptr := None\<rparr>)
            else let (code, bits) = morse_load c in
                 Inr (morse_tick (s\<lparr>morse_ptr := Some (Suc p), morse_code := code, morse_bits := bits\<rparr>))))"

section \<open>The table\<close>

text \<open>
  The International Morse Code of a letter, a dot being \<open>False\<close>, and its signal: one tick on for
  a dot, three for a dash, one off after each, two more off after the letter.
\<close>

definition morse_alphabet :: "bool list list" where
  "morse_alphabet = [
    [False, True],
    [True, False, False, False],
    [True, False, True, False],
    [True, False, False],
    [False],
    [False, False, True, False],
    [True, True, False],
    [False, False, False, False],
    [False, False],
    [False, True, True, True],
    [True, False, True],
    [False, True, False, False],
    [True, True],
    [True, False],
    [True, True, True],
    [False, True, True, False],
    [True, True, False, True],
    [False, True, False],
    [False, False, False],
    [True],
    [False, False, True],
    [False, False, False, True],
    [False, True, True],
    [True, False, False, True],
    [True, False, True, True],
    [True, True, False, False]]"

definition signal :: "bool list \<Rightarrow> bool list" where
  "signal ds = concat (map (\<lambda>d. if d then [True, True, True, False] else [True, False]) ds) @ [False, False]"

definition code_ticks :: "u16 \<times> u8 \<Rightarrow> bool list" where
  "code_ticks e = map (bit (fst e)) [0..<unat (snd e)]"

lemma morse_table: "map code_ticks morse_letter = map signal morse_alphabet"
  by (simp add: morse_letter_def morse_alphabet_def code_ticks_def signal_def upt_conv_Cons)

section \<open>A message\<close>

fun morse_run :: "nat \<Rightarrow> morse_state \<Rightarrow> (bool list \<times> morse_state) result" where
  "morse_run 0 s = Inr ([], s)"
| "morse_run (Suc n) s =
     bindR (morse_update s) (\<lambda>(b, s). bindR (morse_run n s) (\<lambda>(bs, s). Inr (b # bs, s)))"

lemma morse_run_add:
  "morse_run m s = Inr (bs, s') \<Longrightarrow>
   morse_run (m + n) s = bindR (morse_run n s') (\<lambda>(cs, s). Inr (bs @ cs, s))"
proof (induction m arbitrary: s bs)
  case 0
  then show ?case by (cases "morse_run n s") auto
next
  case (Suc m)
  then obtain b s1 cs where "morse_update s = Inr (b, s1)" "morse_run m s1 = Inr (cs, s')" "bs = b # cs"
    by (auto simp: bindR_Inr_iff)
  with Suc.IH [of s1 cs] show ?case
    by (cases "morse_run n s'") auto
qed

lemma morse_load_bits: "0 < unat (snd (morse_load c))"
proof (cases "0x41 \<le> c \<and> c \<le> 0x5A")
  case True
  have "\<forall>e \<in> set morse_letter. 0 < unat (snd e)" by (simp add: morse_letter_def)
  moreover have "unat (c - 0x41) < length morse_letter"
  proof -
    have "unat (c - 0x41) < 26" using True by unat_arith
    moreover have "length morse_letter = 26" by (simp add: morse_letter_def)
    ultimately show ?thesis by simp
  qed
  ultimately show ?thesis using True by (simp add: morse_load_def)
next
  case False
  then show ?thesis by (auto simp: morse_load_def)
qed

lemma morse_run_letter:
  "morse_ptr s \<noteq> None \<Longrightarrow> unat (morse_bits s) = n \<Longrightarrow>
   morse_run n s = Inr (map (bit (morse_code s)) [0..<n],
     s\<lparr>morse_code := drop_bit n (morse_code s), morse_bits := 0\<rparr>)"
proof (induction n arbitrary: s)
  case 0
  then have "morse_bits s = 0" by (simp add: unat_eq_0)
  then have "s\<lparr>morse_bits := 0\<rparr> = s" by (cases s) simp
  then show ?case by (cases s) simp
next
  case (Suc n)
  then have nz: "morse_bits s \<noteq> 0" by auto
  then have u: "morse_update s = Inr (morse_tick s)" using Suc.prems(1) by (auto simp: morse_update_def)
  have "unat (morse_bits s - 1) = n" using Suc.prems(2) nz by (simp add: unat_minus_one)
  then have "morse_run n (snd (morse_tick s)) =
      Inr (map (bit (drop_bit 1 (morse_code s))) [0..<n],
        s\<lparr>morse_code := drop_bit n (drop_bit 1 (morse_code s)), morse_bits := 0\<rparr>)"
    using Suc.IH [of "snd (morse_tick s)"] Suc.prems(1) by (simp add: morse_tick_def)
  moreover have "map (bit (morse_code s)) [0..<Suc n] =
      bit (morse_code s) 0 # map (bit (drop_bit 1 (morse_code s))) [0..<n]"
    by (simp add: map_upt_Suc bit_simps del: upt_Suc)
  ultimately show ?case
    using u by (simp add: morse_tick_def drop_bit_drop_bit del: upt_Suc)
qed

text \<open>The state of a message that has been started and is at its character \<open>p\<close>.\<close>

definition morse_at :: "u8 list \<Rightarrow> nat \<Rightarrow> morse_state \<Rightarrow> bool" where
  "morse_at msg p s \<longleftrightarrow> morse_msg s = msg \<and> morse_ptr s = Some p \<and> morse_bits s = 0 \<and> \<not> morse_repeat s"

lemma morse_run_char:
  assumes "morse_at msg p s" "p < length msg" "msg ! p \<noteq> 0"
  shows "\<exists>s'. morse_run (unat (snd (morse_load (msg ! p)))) s = Inr (code_ticks (morse_load (msg ! p)), s') \<and>
    morse_at msg (Suc p) s'"
proof -
  obtain code bits where cb: "morse_load (msg ! p) = (code, bits)" by fastforce
  let ?s = "s\<lparr>morse_ptr := Some (Suc p), morse_code := code, morse_bits := bits\<rparr>"
  obtain n where n: "unat bits = Suc n" using morse_load_bits [of "msg ! p"] cb by (cases "unat bits") auto
  then have "bits \<noteq> 0" by auto
  then have "morse_update s = morse_update ?s"
    using assms cb by (simp add: morse_at_def morse_update_def msg_char_def)
  then have "morse_run (unat bits) s = morse_run (unat bits) ?s" using n by simp
  moreover have "morse_run (unat bits) ?s = Inr (map (bit code) [0..<unat bits],
      ?s\<lparr>morse_code := drop_bit (unat bits) code, morse_bits := 0\<rparr>)"
    using morse_run_letter [of ?s "unat bits"] by simp
  ultimately show ?thesis
    using cb assms(1) by (simp add: code_ticks_def morse_at_def)
qed

lemma morse_run_message:
  "morse_at msg p s \<Longrightarrow> 0 \<notin> set msg \<Longrightarrow> p \<le> length msg \<Longrightarrow>
   \<exists>s'. morse_run (length (concat (map (\<lambda>c. code_ticks (morse_load c)) (drop p msg)))) s =
     Inr (concat (map (\<lambda>c. code_ticks (morse_load c)) (drop p msg)), s') \<and> morse_at msg (length msg) s'"
proof (induction "length msg - p" arbitrary: p s)
  case 0
  then show ?case by simp
next
  case (Suc k)
  then have p: "p < length msg" by simp
  then have "msg ! p \<noteq> 0" using Suc.prems(2) by (metis nth_mem)
  from morse_run_char [OF Suc.prems(1) p this] obtain s1 where
    s1: "morse_run (unat (snd (morse_load (msg ! p)))) s = Inr (code_ticks (morse_load (msg ! p)), s1)"
    "morse_at msg (Suc p) s1" by blast
  have "k = length msg - Suc p" "Suc p \<le> length msg" using Suc.hyps(2) p by simp_all
  from Suc.hyps(1) [OF this(1) s1(2) Suc.prems(2) this(2)] obtain s2 where
    s2: "morse_run (length (concat (map (\<lambda>c. code_ticks (morse_load c)) (drop (Suc p) msg)))) s1 =
      Inr (concat (map (\<lambda>c. code_ticks (morse_load c)) (drop (Suc p) msg)), s2)"
    "morse_at msg (length msg) s2" by blast
  have "drop p msg = msg ! p # drop (Suc p) msg" using p by (simp add: Cons_nth_drop_Suc)
  with s1 s2 show ?case
    by (simp add: morse_run_add [OF s1(1)] code_ticks_def)
qed

section \<open>Properties\<close>

text \<open>
  The Morse blinker sends what it is told. The table holds the signal of the
  International Morse Code for each of the letters A to Z, and once a message without
  repetition has been started, the successive calls of \<open>morse_update\<close> deliver the signals of
  its characters one after the other (four ticks of pause for what is not a letter), after
  which the next call ends the message.
\<close>

theorem morse_message:
  assumes "morse_bits s = 0" "0 \<notin> set msg"
  shows "map code_ticks morse_letter = map signal morse_alphabet \<and>
    (\<exists>s' s''. morse_run (length (concat (map (\<lambda>c. code_ticks (morse_load c)) msg))) (morse (Some msg) False s)
        = Inr (concat (map (\<lambda>c. code_ticks (morse_load c)) msg), s') \<and>
      morse_update s' = Inr (False, s'') \<and> morse_ptr s'' = None)"
proof -
  have "morse_at msg 0 (morse (Some msg) False s)"
    using assms(1) by (simp add: morse_at_def morse_def)
  from morse_run_message [OF this assms(2)] obtain s' where
    "morse_run (length (concat (map (\<lambda>c. code_ticks (morse_load c)) msg))) (morse (Some msg) False s)
      = Inr (concat (map (\<lambda>c. code_ticks (morse_load c)) msg), s')" and s': "morse_at msg (length msg) s'"
    by auto
  moreover have "morse_update s' = Inr (False, s'\<lparr>morse_ptr := None\<rparr>)"
    using s' by (simp add: morse_at_def morse_update_def msg_char_def)
  ultimately show ?thesis using morse_table by auto
qed

theorem morse_message_witness:
  "let s = \<lparr>morse_msg = [], morse_ptr = None, morse_repeat = False, morse_code = 0, morse_bits = 0\<rparr> in
   \<exists>s'. morse_run 8 (morse (Some (str ''E '')) False s) =
     Inr ([True, False, False, False, False, False, False, False], s')"
proof -
  let ?s = "\<lparr>morse_msg = [], morse_ptr = None, morse_repeat = False, morse_code = 0, morse_bits = 0\<rparr>"
  have ticks: "concat (map (\<lambda>c. code_ticks (morse_load c)) (str ''E '')) =
      [True, False, False, False, False, False, False, False]"
    by (simp add: morse_load_def morse_letter_def code_ticks_def upt_conv_Cons)
  have "morse_bits ?s = 0" "0 \<notin> set (str ''E '')" by simp_all
  from morse_message [OF this, unfolded ticks] obtain s' where
    "morse_run (length [True, False, False, False, False, False, False, False])
      (morse (Some (str ''E '')) False ?s) = Inr ([True, False, False, False, False, False, False, False], s')"
    by blast
  moreover have "length [True, False, False, False, False, False, False, False] = 8" by simp
  ultimately show ?thesis unfolding Let_def by metis
qed

end
