(* ===== verification/Spec2Isabelle.thy ===== *)
theory Spec2Isabelle
  imports Prelude Hex_Utils Stdio Utils Gdb_If Gdb_Packet Target_Flash Target_Core Crc32 Command
    Mmio Flash_Ctl F103 Peripherals Circular_Buffer Debug Debug_Machine Debug_Erase Monitor Monitor_Total Breakpoints Registers Driver_Registers Link
    Usb_Fs Usb_Driver Usb_Control Clock Clock_Tree Usb_App Usb_Hw Usb_Transfer Usb_Session Usb_Bulk Usb_Enumeration Bus_Frame Usb_Exchange Cortexm Cortexm_Host Cortexm_Hw Cortexm_Registers Cortexm_Unwind Cortexm_Target Cortexm_Breakpoints
    Morse Gdb_Hostio Gdb_Main
begin

text \<open>
  A model of the debugger of BluePillUsbDebugPrototyping: a GDB server that runs on a PC
  (\<^verbatim>\<open>GdbServer/\<close>, derived from the Black Magic Probe and ported to Win32) and talks over USB to
  a debug monitor resident in the flash of an STM32F103 (\<^verbatim>\<open>Bootloader/\<close>), which debugs the program
  behind it in the same flash without any further probe.

  The parts and how they interact. GDB sends packets over TCP (\<^verbatim>\<open>gdb_if.c\<close>, \<^verbatim>\<open>gdb_packet.c\<close>);
  \<^verbatim>\<open>gdb_main.c\<close> turns them into operations of a target (\<^verbatim>\<open>target.c\<close>), whose functions the server
  takes from \<^verbatim>\<open>TargetsInit.cpp\<close> and \<^verbatim>\<open>stm32f1.c\<close>. These call the class of \<^verbatim>\<open>TargetSTM32F1.cpp\<close>,
  which exchanges packets of at most 64 bytes with the device. In the device, libopencm3's USB
  stack delivers a packet to \<open>usbDataOutCallback\<close> (\<^verbatim>\<open>main.cpp\<close>), which reads and writes memory,
  registers and breakpoints, or queues a command for the exception handler of \<^verbatim>\<open>Debug.cpp\<close>.
  That handler halts, steps, resumes and starts the program, and starts the erase loop.

  \<^bold>\<open>Theories of the server.\<close>
  \<^item> \<open>Hex_Utils\<close> (\<^verbatim>\<open>hex_utils.c\<close>), \<open>Stdio\<close> (the conversions of the C library that the code uses),
    \<open>Utils\<close> (\<^verbatim>\<open>utils.c\<close>, \<^verbatim>\<open>timing.c\<close>, \<^verbatim>\<open>exception.c\<close>), \<open>Morse\<close> (\<^verbatim>\<open>morse.c\<close>), \<open>Crc32\<close> (\<^verbatim>\<open>crc32.c\<close>):
    functions with their round trips, limits and reference definitions.
  \<^item> \<open>Gdb_If\<close>: the channel. What \<^verbatim>\<open>recv\<close>, \<^verbatim>\<open>select\<close>, \<^verbatim>\<open>accept\<close> and the rest return is a tape in the
    state; what was sent is a list. \<open>Gdb_Packet\<close>: the packet layer on it; \<open>gdb_getpacket\<close> with
    \<open>gdb_capture\<close> is the receiver, \<open>put_frame\<close> and \<open>gdb_putpacket\<close> the sender. Its lemmas: what is
    sent is received, damage is refused and the repetition taken, the buffer is not left.
  \<^item> \<open>Target_Flash\<close>, \<open>Target_Core\<close> (\<^verbatim>\<open>target.c\<close>): the record of a target with the functions of its
    driver as fields, flash banks with their sector buffer, the memory map. \<open>Flash_Buffer\<close> is the
    contract between the buffer and a driver: with a driver that programs what it is given, any
    sequence of writes and a final \<open>done\<close> programs exactly the data. \<open>Nor_Flash\<close> has the notions
    for that (sectors, erased units, bits that are only cleared).
  \<^item> \<open>Command\<close> (\<^verbatim>\<open>command.c\<close>), \<open>Gdb_Hostio\<close> (\<^verbatim>\<open>gdb_hostio.c\<close>), \<open>Gdb_Main\<close> (\<^verbatim>\<open>gdb_main.c\<close>): one
    definition for each packet, the dispatch, the main loop and the loop nested in a host call.
  \<^item> \<open>Usb_Protocol\<close> (\<^verbatim>\<open>DbgCommands.h\<close>), \<open>Probe\<close> (\<^verbatim>\<open>TargetSTM32F1.cpp\<close>), \<open>Stm32_Driver\<close>
    (\<^verbatim>\<open>TargetsInit.cpp\<close>, \<^verbatim>\<open>stm32f1.c\<close>): the commands of the driver over a transport, which is a record
    of two functions. \<open>Usb_Memory\<close> has the contract of a device that answers (the locale
    \<open>usb_probe\<close>) and what the driver makes of it; \<open>Driver_Registers\<close> what the driver gets wrong.
  \<^item> \<open>Cortexm\<close>, \<open>Cortexm_Host\<close> (\<^verbatim>\<open>cortexm.c\<close>): the driver of the original probe for Cortex-M cores over
    an access port, which is a record of functions that may raise exceptions, and its semihosting
    calls on the operating system of the host. \<open>Cortexm_Hw\<close> is a halted core behind such a port, from
    the architecture manual, the instance for the properties in \<open>Cortexm_Registers\<close> (all registers
    are saved and restored) and \<open>Cortexm_Unwind\<close> (a fault is taken back). \<open>Cortexm_Target\<close> puts the
    driver behind the function pointers of \<^verbatim>\<open>target.c\<close> and has the contract of a bag of limited size
    (the locale \<open>bounded_bag\<close>); \<open>Cortexm_Breakpoints\<close> shows that after attaching the hardware
    breakpoints are one, and that the core stops where it says.

  \<^bold>\<open>Theories of the firmware.\<close>
  \<^item> \<open>Mmio\<close>: the hardware is a type parameter; a \<open>bus\<close> has a function to load and one to store 1, 2
    or 4 bytes. \<open>Flash_Ctl\<close>, \<open>Peripherals\<close>, \<open>Clock\<close>: the drivers of libopencm3 that the firmware
    links, on any bus; \<open>Clock_Tree\<close> what the clock registers mean in Hz, and that the set-ups reach
    their frequencies. \<open>F103\<close> is the flash controller and memory of the chip from its manual, the
    instance for the properties about flash.
  \<^item> \<open>Circular_Buffer\<close>: the queue, with the contract of a bounded fifo. \<open>Debug\<close>: the exception
    handler, in outcomes (returned, looping, hung) since the USB interrupt comes between two
    rounds of its loop. \<open>Debug_Machine\<close> is the transition system of handler, interrupt, user code
    and erase loop with its invariant; \<open>Debug_Erase\<close> what the erase loop does to the flash.
  \<^item> \<open>Monitor\<close>: the eight commands and the USB callback. \<open>Monitor_Total\<close>: for every packet and bus,
    which are answered and which hang; \<open>Monitor_Memory\<close>: what memory commands do on \<open>F103\<close>;
    \<open>Breakpoints\<close>: the comparators as a bounded set (the locale \<open>bounded_set\<close>); \<open>Bus_Frame\<close>: what no
    command changes (the locale \<open>bus_frame\<close>).
  \<^item> \<open>Usb_Fs\<close>, \<open>Usb_Driver\<close> (\<^verbatim>\<open>st_usbfs_core.c\<close>, \<^verbatim>\<open>st_usbfs_v1.c\<close>): registers and driver;
    \<open>Usb_Control\<close> (\<^verbatim>\<open>usb_control.c\<close>, \<^verbatim>\<open>usb_standard.c\<close>, the descriptors of \<^verbatim>\<open>Usb.cpp\<close>): requests and
    the state machine of endpoint 0; \<open>Usb_App\<close>: polling, start-up (\<^verbatim>\<open>SystemInit.cpp\<close>) and the
    services of \<^verbatim>\<open>Syscalls.cpp\<close>. \<open>Usb_Hw\<close> is the controller of the chip from its manual, the instance
    for the properties of the stack, and \<open>Usb_Transfer\<close>, \<open>Usb_Session\<close>, \<open>Usb_Bulk\<close>, \<open>Usb_Enumeration\<close>
    and \<open>Usb_Exchange\<close> follow a host through requests, sessions and packets.

  \<^bold>\<open>Both ends.\<close> \<open>Cable\<close> is the device of the transport whose packets run the callback of the
  firmware. \<open>Link\<close> shows that it satisfies the contract of \<open>Usb_Memory\<close> on \<open>F103\<close>, and so what
  GDB's read, CRC, erase and load packets do to the memory of the chip; \<open>Registers\<close> does it for
  registers. That the USB stack is such a cable is shown in \<open>Usb_Exchange\<close> on \<open>Usb_Hw\<close>.

  \<^bold>\<open>Conventions.\<close> C integers are words of their width; memory is a function from 32-bit addresses,
  which wrap around. A function that may not return has a value \<open>Inl\<close>: \<open>Spinning\<close> (an endless
  loop), \<open>Blocked\<close> (it waits for input that does not come), \<open>Exited\<close>, or \<open>Crash\<close> (an access behind
  an object, whose effect C leaves open). The polling loops of the firmware are partial functions
  with \<open>None\<close> for not returning; that they return is proved where a property needs it. The main
  loop of the server ends because each packet takes input, which is finite. Fuel occurs in three
  loops of the server that poll a target: waiting for a halt (one unit for each poll) and the two
  loops over single registers (one for each register); it is a field of \<open>env\<close>, and when it is
  too small the result is \<open>Spinning\<close>. The loops of \<open>Cortexm\<close> that wait for the core or the clock, clean
  the cache or print a text have it in the field \<open>patience\<close>; no property depends on it. The driver of this server reads all registers in one call and
  needs none for them. What the linker and the compiler decide (addresses of functions, bytes
  behind arrays, uninitialised memory) is a parameter or a \<open>Crash\<close>.

  \<^bold>\<open>Assumptions.\<close> \<open>F103\<close>, \<open>Usb_Hw\<close>, \<open>Cortexm_Hw\<close> and \<open>Clock_Tree\<close> describe hardware, from its manuals. The host controller,
  WinUSB and the operating system's sockets deliver in order. The assembler around the exception
  handler saves and restores the registers as the model's list has them. Between two tokens of
  the host the interrupt handler of the firmware runs to its end.

  \<^bold>\<open>Not modelled.\<close> \<^verbatim>\<open>WinUsbTargetInterface.cpp\<close> consists of calls of the Windows API. The start-up
  code and \<^verbatim>\<open>LoLevelDebug.s\<close> are assembler. \<^verbatim>\<open>remote.c\<close> and \<^verbatim>\<open>main.c\<close> of the original probe are
  not in the build of the server (nor is \<^verbatim>\<open>cortexm.c\<close>, whose branch for firmware, \<open>PC_HOSTED == 0\<close>, is left out); \<^verbatim>\<open>Source.cpp\<close> and \<^verbatim>\<open>DbgCommands.cpp\<close> are compiled out or
  experiments, \<^verbatim>\<open>Template/\<close> is an example program. Of libopencm3, vendored for dozens of chips and
  device classes, only the drivers that the firmware links are modelled.
\<close>

end
